(* ===== verification/Prelude.thy ===== *)
theory Prelude
  imports Complex_Main "HOL-Library.Word" "HOL-Library.Monad_Syntax"
begin

unbundle bit_operations_syntax

text \<open>
  What the components share: the C library's constants the sources use (errno values), the
  model of NUL-terminated strings and of \<open>malloc\<close>, and the collections of rewrite rules
  the component theories extend.

  Conventions of the whole development:
  \<^item> a C function that may end the process (\<open>abort()\<close>, a failing \<open>assert\<close>) or
    never return (a wait nobody ends) has a result of type option, and \<open>None\<close> is
    exactly that; an ordinary error code is an ordinary result;
  \<^item> the state a C function mutates is passed in and returned;
  \<^item> C strings are char lists without the terminating NUL; reading at the end yields NUL;
  \<^item> allocation outcomes are a script: a list of booleans consumed one per allocation
    (an exhausted script lets every further allocation succeed).
\<close>

named_theorems c_simps \<open>unfolding rules of the small C-level helpers\<close>
named_theorems mem_ok \<open>allocation outcomes when the script has no failure\<close>

section \<open>Errno values (Linux, asm-generic)\<close>

abbreviation (input) EPERM :: int where "EPERM \<equiv> 1"
abbreviation (input) ENOENT :: int where "ENOENT \<equiv> 2"
abbreviation (input) EINTR :: int where "EINTR \<equiv> 4"
abbreviation (input) EIO :: int where "EIO \<equiv> 5"
abbreviation (input) EBADF :: int where "EBADF \<equiv> 9"
abbreviation (input) EAGAIN :: int where "EAGAIN \<equiv> 11"
abbreviation (input) ENOMEM :: int where "ENOMEM \<equiv> 12"
abbreviation (input) EBUSY :: int where "EBUSY \<equiv> 16"
abbreviation (input) ENODEV :: int where "ENODEV \<equiv> 19"
abbreviation (input) EINVAL :: int where "EINVAL \<equiv> 22"
abbreviation (input) ENOTTY :: int where "ENOTTY \<equiv> 25"
abbreviation (input) ERANGE :: int where "ERANGE \<equiv> 34"
abbreviation (input) ENOLCK :: int where "ENOLCK \<equiv> 37"
abbreviation (input) ENOSYS :: int where "ENOSYS \<equiv> 38"
abbreviation (input) EPROTO :: int where "EPROTO \<equiv> 71"
abbreviation (input) ENOTCONN :: int where "ENOTCONN \<equiv> 107"
abbreviation (input) ESTALE :: int where "ESTALE \<equiv> 116"

section \<open>C strings\<close>

definition NUL :: char where
  "NUL = CHR 0x00"

definition cchar :: "string \<Rightarrow> nat \<Rightarrow> char" where
  \<comment> \<open>\<open>s[i]\<close> for \<open>i\<close> up to the terminator\<close>
  "cchar s i = (if i < length s then s ! i else NUL)"

definition cstr :: "char list \<Rightarrow> string" where
  \<comment> \<open>the string a char buffer holds: what precedes its first NUL\<close>
  "cstr buf = takeWhile (\<lambda>c. c \<noteq> NUL) buf"

definition wf_cstr :: "string \<Rightarrow> bool" where
  "wf_cstr s \<longleftrightarrow> NUL \<notin> set s"

fun strchr :: "string \<Rightarrow> char \<Rightarrow> nat option" where
  "strchr [] c = None"
| "strchr (x # xs) c = (if x = c then Some 0 else map_option Suc (strchr xs c))"

lemma strchr_Some: "strchr s c = Some i \<Longrightarrow> i < length s \<and> s ! i = c \<and> c \<notin> set (take i s)"
proof (induction s arbitrary: i)
  case Nil
  then show ?case by simp
next
  case (Cons x xs)
  then show ?case by (cases i) (auto split: if_splits)
qed

lemma strchr_None: "strchr s c = None \<longleftrightarrow> c \<notin> set s"
  by (induction s) auto

lemma cstr_wf [simp]: "wf_cstr s \<Longrightarrow> cstr s = s"
  by (auto simp: wf_cstr_def cstr_def takeWhile_eq_all_conv)

lemma wf_cstr_Nil [simp]: "wf_cstr []"
  by (simp add: wf_cstr_def)

lemma wf_cstr_Cons [simp]: "wf_cstr (c # s) \<longleftrightarrow> c \<noteq> NUL \<and> wf_cstr s"
  by (auto simp: wf_cstr_def)

lemma wf_cstr_append [simp]: "wf_cstr (s @ t) \<longleftrightarrow> wf_cstr s \<and> wf_cstr t"
  by (auto simp: wf_cstr_def)

lemma wf_cstr_cstr [simp]: "wf_cstr (cstr b)"
  by (auto simp: wf_cstr_def cstr_def dest: set_takeWhileD)

lemma cchar_Nil [simp]: "cchar [] i = NUL"
  by (simp add: cchar_def)

lemma cchar_0 [simp]: "cchar (c # s) 0 = c"
  by (simp add: cchar_def)

lemma cchar_Suc [simp]: "cchar (c # s) (Suc i) = cchar s i"
  by (simp add: cchar_def)

section \<open>Allocation\<close>

type_synonym mem = "bool list"

fun malloc :: "mem \<Rightarrow> bool \<times> mem" where
  "malloc [] = (True, [])"
| "malloc (b # bs) = (b, bs)"

definition no_oom :: "mem \<Rightarrow> bool" where
  "no_oom m \<longleftrightarrow> False \<notin> set m"

lemma malloc_no_oom [mem_ok]: "no_oom m \<Longrightarrow> fst (malloc m)"
  by (cases m) (auto simp: no_oom_def)

lemma malloc_keeps_no_oom [mem_ok]: "no_oom m \<Longrightarrow> no_oom (snd (malloc m))"
  by (cases m) (auto simp: no_oom_def)

lemma no_oom_Nil [simp]: "no_oom []"
  by (simp add: no_oom_def)

section \<open>Lists\<close>

fun updates :: "(nat \<times> 'a) list \<Rightarrow> 'a list \<Rightarrow> 'a list" where
  "updates [] xs = xs"
| "updates ((i, v) # us) xs = updates us (xs[i := v])"

lemma length_updates [simp]: "length (updates us xs) = length xs"
  by (induction us xs rule: updates.induct) auto

section \<open>Narrowing\<close>

definition to_int32 :: "int \<Rightarrow> int" where
  \<comment> \<open>a wider integer stored into an \<open>int\<close>\<close>
  "to_int32 n = signed_take_bit 31 n"

lemma to_int32_id [simp]: "- (2 ^ 31) \<le> n \<Longrightarrow> n < 2 ^ 31 \<Longrightarrow> to_int32 n = n"
  by (simp add: to_int32_def signed_take_bit_int_eq_self)

lemma to_int32_bounds: "- (2 ^ 31) \<le> to_int32 n" "to_int32 n < 2 ^ 31"
  unfolding to_int32_def by (rule signed_take_bit_int_greater_eq_minus_exp, rule signed_take_bit_int_less_exp)

end
