(* ===== verification/Fuse_Opt.thy ===== *)
theory Fuse_Opt
  imports Prelude
begin

text \<open>
  Option parsing, src/lib/fuse_opt.c (declarations in src/include/fuse_opt.h): the argument
  vectors \<open>struct fuse_args\<close>, the comma-separated and escaped option strings, template
  matching, and the parser \<open>fuse_opt_parse\<close>. A \<open>struct fuse_opt\<close>'s \<open>offset\<close> into the
  client's data is the setter of that struct member; \<open>-1U\<close> is \<open>None\<close>.
  An \<open>argv\<close> array is the list of its \<open>argc\<close> strings, \<open>None\<close> for a NULL vector.
\<close>

section \<open>Data\<close>

record fuse_args =
  fa_argv :: "string list option"
  fa_allocated :: bool

definition fa_args :: "fuse_args \<Rightarrow> string list" where
  "fa_args a = (case fa_argv a of None \<Rightarrow> [] | Some v \<Rightarrow> v)"

definition fa_argc :: "fuse_args \<Rightarrow> nat" where
  "fa_argc a = length (fa_args a)"

definition no_args :: fuse_args where
  "no_args = \<lparr>fa_argv = None, fa_allocated = False\<rparr>"

datatype optval = VInt int | VStr string | VDbl rat

record 'd fuse_opt =
  templ :: string
  offset :: "(optval \<Rightarrow> 'd \<Rightarrow> 'd) option"
  opt_value :: int

definition FUSE_OPT_KEY_OPT :: int where "FUSE_OPT_KEY_OPT = -1"
definition FUSE_OPT_KEY_NONOPT :: int where "FUSE_OPT_KEY_NONOPT = -2"
definition FUSE_OPT_KEY_KEEP :: int where "FUSE_OPT_KEY_KEEP = -3"
definition FUSE_OPT_KEY_DISCARD :: int where "FUSE_OPT_KEY_DISCARD = -4"

lemmas opt_keys = FUSE_OPT_KEY_OPT_def FUSE_OPT_KEY_NONOPT_def FUSE_OPT_KEY_KEEP_def
  FUSE_OPT_KEY_DISCARD_def

definition fuse_opt_key :: "string \<Rightarrow> int \<Rightarrow> 'd fuse_opt" where
  \<comment> \<open>the macro \<open>FUSE_OPT_KEY\<close>\<close>
  "fuse_opt_key t k = \<lparr>templ = t, offset = None, opt_value = k\<rparr>"

type_synonym 'd opt_proc =
  "'d \<Rightarrow> string \<Rightarrow> int \<Rightarrow> fuse_args \<Rightarrow> mem \<Rightarrow> (int \<times> 'd \<times> fuse_args \<times> mem) option"

record 'd fuse_opt_context =
  oc_data :: 'd
  oc_opt :: "'d fuse_opt list"
  oc_proc :: "'d opt_proc option"
  oc_argctr :: nat
  oc_argv :: "string list"
  oc_outargs :: fuse_args
  oc_opts :: "string option"
  oc_nonopt :: nat
  oc_mem :: mem

section \<open>Argument vectors\<close>

definition fuse_opt_free_args :: "fuse_args \<Rightarrow> fuse_args" where
  "fuse_opt_free_args a = \<lparr>fa_argv = None, fa_allocated = False\<rparr>"

definition fuse_opt_add_arg :: "fuse_args \<Rightarrow> string \<Rightarrow> mem \<Rightarrow> (int \<times> fuse_args \<times> mem) option" where
  "fuse_opt_add_arg args arg m =
     (if fa_argv args = None \<or> fa_allocated args then
        let (newarg, m1) = malloc m in
        if \<not> newarg then Some (-1, args, m1)
        else let (newargv, m2) = malloc m1 in
          if \<not> newargv then Some (-1, args, m2)
          else Some (0, \<lparr>fa_argv = Some (fa_args args @ [arg]), fa_allocated = True\<rparr>, m2)
      else None)"

definition fuse_opt_insert_arg_common ::
    "fuse_args \<Rightarrow> nat \<Rightarrow> string \<Rightarrow> mem \<Rightarrow> (int \<times> fuse_args \<times> mem) option" where
  "fuse_opt_insert_arg_common args pos arg m =
     (if pos \<le> fa_argc args then
        do {
          (r, args1, m1) \<leftarrow> fuse_opt_add_arg args arg m;
          if r = -1 then Some (-1, args1, m1)
          else if pos \<noteq> fa_argc args1 - 1 then
            let v = fa_args args1; newarg = last v;
                v' = take pos v @ newarg # take (length v - pos - 1) (drop pos v)
            in Some (0, args1\<lparr>fa_argv := Some v'\<rparr>, m1)
          else Some (0, args1, m1)
        }
      else None)"

definition fuse_opt_insert_arg ::
    "fuse_args \<Rightarrow> nat \<Rightarrow> string \<Rightarrow> mem \<Rightarrow> (int \<times> fuse_args \<times> mem) option" where
  "fuse_opt_insert_arg args pos arg m = fuse_opt_insert_arg_common args pos arg m"

definition next_arg :: "'d fuse_opt_context \<Rightarrow> string \<Rightarrow> int \<times> 'd fuse_opt_context" where
  "next_arg ctx opt =
     (if oc_argctr ctx + 1 \<ge> length (oc_argv ctx) then (-1, ctx)
      else (0, ctx\<lparr>oc_argctr := oc_argctr ctx + 1\<rparr>))"

definition add_arg :: "'d fuse_opt_context \<Rightarrow> string \<Rightarrow> (int \<times> 'd fuse_opt_context) option" where
  "add_arg ctx arg = do {
     (r, out, m) \<leftarrow> fuse_opt_add_arg (oc_outargs ctx) arg (oc_mem ctx);
     Some (r, ctx\<lparr>oc_outargs := out, oc_mem := m\<rparr>)
   }"

section \<open>Option strings\<close>

fun escape_opt :: "bool \<Rightarrow> string \<Rightarrow> string" where
  \<comment> \<open>the copying loop of \<open>add_opt_common\<close>\<close>
  "escape_opt esc [] = []"
| "escape_opt esc (c # cs) =
     (if esc \<and> (c = CHR '','' \<or> c = CHR 0x5C) then CHR 0x5C # c # escape_opt esc cs
      else c # escape_opt esc cs)"

definition add_opt_common ::
    "string option \<Rightarrow> string \<Rightarrow> bool \<Rightarrow> mem \<Rightarrow> int \<times> string option \<times> mem" where
  "add_opt_common opts opt esc m =
     (let oldlen = (case opts of None \<Rightarrow> 0 | Some s \<Rightarrow> length s);
          old = (case opts of None \<Rightarrow> [] | Some s \<Rightarrow> s);
          (d, m1) = malloc m
      in if \<not> d then (-1, opts, m1)
         else (0, Some (old @ (if oldlen \<noteq> 0 then '','' else []) @ escape_opt esc opt), m1))"

definition fuse_opt_add_opt :: "string option \<Rightarrow> string \<Rightarrow> mem \<Rightarrow> int \<times> string option \<times> mem" where
  "fuse_opt_add_opt opts opt m = add_opt_common opts opt False m"

definition fuse_opt_add_opt_escaped ::
    "string option \<Rightarrow> string \<Rightarrow> mem \<Rightarrow> int \<times> string option \<times> mem" where
  "fuse_opt_add_opt_escaped opts opt m = add_opt_common opts opt True m"

definition add_opt :: "'d fuse_opt_context \<Rightarrow> string \<Rightarrow> int \<times> 'd fuse_opt_context" where
  "add_opt ctx opt =
     (let (r, s, m) = add_opt_common (oc_opts ctx) opt True (oc_mem ctx)
      in (r, ctx\<lparr>oc_opts := s, oc_mem := m\<rparr>))"

section \<open>The client's processing function\<close>

definition call_proc ::
    "'d fuse_opt_context \<Rightarrow> string \<Rightarrow> int \<Rightarrow> bool \<Rightarrow> (int \<times> 'd fuse_opt_context) option" where
  "call_proc ctx arg key iso1 =
     (if key = FUSE_OPT_KEY_DISCARD then Some (0, ctx)
      else
        let pass = (\<lambda>ctx. if iso1 then Some (add_opt ctx arg) else add_arg ctx arg)
        in case oc_proc ctx of
             None \<Rightarrow> pass ctx
           | Some p \<Rightarrow>
               if key \<noteq> FUSE_OPT_KEY_KEEP then do {
                 (res, d, out, m) \<leftarrow> p (oc_data ctx) arg key (oc_outargs ctx) (oc_mem ctx);
                 let ctx = ctx\<lparr>oc_data := d, oc_outargs := out, oc_mem := m\<rparr>;
                 if res = -1 \<or> res = 0 then Some (res, ctx) else pass ctx
               }
               else pass ctx)"

section \<open>Template matching\<close>

definition match_template :: "string \<Rightarrow> string \<Rightarrow> nat option" where
  \<comment> \<open>\<open>Some sep\<close>: the template matches and \<open>*sepp\<close> is \<open>sep\<close>\<close>
  "match_template t arg =
     (let arglen = length arg;
          sep = (case strchr t (CHR ''='') of Some i \<Rightarrow> Some i | None \<Rightarrow> strchr t (CHR '' ''));
          whole = (if t = arg then Some 0 else None)
      in case sep of
           None \<Rightarrow> whole
         | Some s \<Rightarrow>
             if cchar t (s + 1) = NUL \<or> cchar t (s + 1) = CHR ''%'' then
               let tlen = (if cchar t s = CHR ''='' then s + 1 else s)
               in if arglen \<ge> tlen \<and> take tlen arg = take tlen t then Some s else whole
             else whole)"

fun find_opt ::
    "'d fuse_opt list \<Rightarrow> string \<Rightarrow> ('d fuse_opt \<times> 'd fuse_opt list \<times> nat) option" where
  \<comment> \<open>the matching template, those after it, and \<open>*sepp\<close>\<close>
  "find_opt [] arg = None"
| "find_opt (t # ts) arg =
     (case match_template (templ t) arg of
        Some sep \<Rightarrow> Some (t, ts, sep)
      | None \<Rightarrow> find_opt ts arg)"

definition fuse_opt_match :: "'d fuse_opt list \<Rightarrow> string \<Rightarrow> int" where
  "fuse_opt_match opts opt = (case find_opt opts opt of Some _ \<Rightarrow> 1 | None \<Rightarrow> 0)"

section \<open>Parameters: what the sources use of sscanf\<close>

definition digit_val :: "char \<Rightarrow> nat" where
  "digit_val c = of_char c - 48"

definition is_digit :: "nat \<Rightarrow> char \<Rightarrow> bool" where
  "is_digit base c \<longleftrightarrow> 48 \<le> (of_char c :: nat) \<and> (of_char c :: nat) < 48 + base"

definition digits_val :: "nat \<Rightarrow> string \<Rightarrow> int" where
  "digits_val base ds = foldl (\<lambda>n c. int base * n + int (digit_val c)) 0 ds"

definition is_space :: "char \<Rightarrow> bool" where
  "is_space c \<longleftrightarrow> c = CHR '' '' \<or> 9 \<le> (of_char c :: nat) \<and> (of_char c :: nat) \<le> 13"

definition scan_sign :: "string \<Rightarrow> bool \<times> string" where
  "scan_sign s =
     (case s of [] \<Rightarrow> (False, s)
      | c # r \<Rightarrow> if c = CHR ''-'' then (True, r) else if c = CHR ''+'' then (False, r) else (False, s))"

definition scan_int :: "nat \<Rightarrow> string \<Rightarrow> (bool \<times> int) option" where
  "scan_int base s =
     (let (neg, r) = scan_sign (dropWhile is_space s); ds = takeWhile (is_digit base) r
      in if ds = [] then None else Some (neg, digits_val base ds))"

definition scan_d :: "string \<Rightarrow> int option" where
  \<comment> \<open>\<open>%d\<close>: strtol (clamped to long), stored into an int\<close>
  "scan_d s = map_option (\<lambda>(neg, n).
     to_int32 (if neg then max (-(2 ^ 63)) (- n) else min (2 ^ 63 - 1) n)) (scan_int 10 s)"

definition scan_u :: "nat \<Rightarrow> string \<Rightarrow> int option" where
  \<comment> \<open>\<open>%u\<close> and \<open>%o\<close>: strtoul (clamped, a minus sign negates), stored into 32 bits\<close>
  "scan_u base s = map_option (\<lambda>(neg, n).
     (if n \<ge> 2 ^ 64 then 2 ^ 64 - 1 else if neg then - n else n) mod 2 ^ 32) (scan_int base s)"

definition scan_lf :: "string \<Rightarrow> rat option" where
  \<comment> \<open>\<open>%lf\<close> on decimal notation, the exact value before rounding to a double\<close>
  "scan_lf s =
     (let (neg, r) = scan_sign (dropWhile is_space s);
          ip = takeWhile (is_digit 10) r; r1 = dropWhile (is_digit 10) r;
          (fp, r2) = (case r1 of [] \<Rightarrow> ([], [])
            | c # r' \<Rightarrow> if c = CHR ''.'' then (takeWhile (is_digit 10) r', dropWhile (is_digit 10) r')
                         else ([], r1));
          ex = (case r2 of [] \<Rightarrow> 0
            | c # r' \<Rightarrow> if c = CHR ''e'' \<or> c = CHR ''E'' then
                (case scan_sign r' of (eneg, r'') \<Rightarrow>
                   let n = digits_val 10 (takeWhile (is_digit 10) r'') in if eneg then - n else n)
                else 0);
          m = Rat.of_int (digits_val 10 (ip @ fp)) / 10 ^ length fp;
          v = (if ex \<ge> 0 then m * 10 ^ nat ex else m / 10 ^ nat (- ex))
      in if ip @ fp = [] then None else Some (if neg then - v else v))"

definition sscanf :: "string \<Rightarrow> string \<Rightarrow> optval option" where
  \<comment> \<open>the four conversions the template tables use; any other format converts nothing\<close>
  "sscanf param format =
     (if format = ''%d'' then map_option VInt (scan_d param)
      else if format = ''%u'' then map_option VInt (scan_u 10 param)
      else if format = ''%o'' then map_option VInt (scan_u 8 param)
      else if format = ''%lf'' then map_option VDbl (scan_lf param)
      else None)"

definition process_opt_param ::
    "(optval \<Rightarrow> 'd \<Rightarrow> 'd) \<Rightarrow> string \<Rightarrow> string \<Rightarrow> string \<Rightarrow> 'd \<Rightarrow> mem \<Rightarrow> (int \<times> 'd \<times> mem) option" where
  "process_opt_param var format param arg d m =
     (if cchar format 0 = CHR ''%'' then
        if cchar format 1 = CHR ''s'' then
          let (copy, m1) = malloc m in
          if \<not> copy then Some (-1, d, m1) else Some (0, var (VStr param) d, m1)
        else (case sscanf param format of
                None \<Rightarrow> Some (-1, d, m)
              | Some v \<Rightarrow> Some (0, var v d, m))
      else None)"

section \<open>Processing one option\<close>

definition process_opt ::
    "'d fuse_opt_context \<Rightarrow> 'd fuse_opt \<Rightarrow> nat \<Rightarrow> string \<Rightarrow> bool \<Rightarrow> (int \<times> 'd fuse_opt_context) option" where
  "process_opt ctx opt sep arg iso1 =
     (case offset opt of
        None \<Rightarrow> do {
          (r, ctx) \<leftarrow> call_proc ctx arg (opt_value opt) iso1;
          if r = -1 then Some (-1, ctx) else Some (0, ctx)
        }
      | Some var \<Rightarrow>
          if sep \<noteq> 0 \<and> cchar (templ opt) (sep + 1) \<noteq> NUL then
            let param = drop (if cchar (templ opt) sep = CHR ''='' then sep + 1 else sep) arg
            in do {
              (r, d, m) \<leftarrow> process_opt_param var (drop (sep + 1) (templ opt)) param arg
                            (oc_data ctx) (oc_mem ctx);
              Some (if r = -1 then -1 else 0, ctx\<lparr>oc_data := d, oc_mem := m\<rparr>)
            }
          else Some (0, ctx\<lparr>oc_data := var (VInt (opt_value opt)) (oc_data ctx)\<rparr>))"

definition process_opt_sep_arg ::
    "'d fuse_opt_context \<Rightarrow> 'd fuse_opt \<Rightarrow> nat \<Rightarrow> string \<Rightarrow> bool \<Rightarrow> (int \<times> 'd fuse_opt_context) option" where
  "process_opt_sep_arg ctx opt sep arg iso1 =
     (let (r, ctx) = next_arg ctx arg in
      if r = -1 then Some (-1, ctx)
      else
        let param = oc_argv ctx ! oc_argctr ctx; (newarg, m) = malloc (oc_mem ctx);
            ctx = ctx\<lparr>oc_mem := m\<rparr>
        in if \<not> newarg then Some (-1, ctx)
           else process_opt ctx opt sep (take sep arg @ param) iso1)"

definition process_match ::
    "'d fuse_opt_context \<Rightarrow> 'd fuse_opt \<Rightarrow> nat \<Rightarrow> string \<Rightarrow> bool \<Rightarrow> (int \<times> 'd fuse_opt_context) option" where
  \<comment> \<open>the body of the loop of \<open>process_gopt\<close>\<close>
  "process_match ctx opt sep arg iso1 =
     (if sep \<noteq> 0 \<and> cchar (templ opt) sep = CHR '' '' \<and> cchar arg sep = NUL
      then process_opt_sep_arg ctx opt sep arg iso1
      else process_opt ctx opt sep arg iso1)"

lemma find_opt_shorter: "find_opt ts arg = Some (t, ts', sep) \<Longrightarrow> length ts' < length ts"
  by (induction ts) (auto split: option.splits)

function process_matches ::
    "'d fuse_opt_context \<Rightarrow> ('d fuse_opt \<times> 'd fuse_opt list \<times> nat) option \<Rightarrow> string \<Rightarrow> bool \<Rightarrow>
     (int \<times> 'd fuse_opt_context) option" where
  "process_matches ctx None arg iso1 = Some (0, ctx)"
| "process_matches ctx (Some (opt, rest, sep)) arg iso1 = do {
     (res, ctx) \<leftarrow> process_match ctx opt sep arg iso1;
     if res = -1 then Some (-1, ctx)
     else process_matches ctx (find_opt rest arg) arg iso1
   }"
  by pat_completeness auto
termination
proof (relation "measure (\<lambda>(ctx, m, arg, iso1). case m of None \<Rightarrow> 0 | Some (_, r, _) \<Rightarrow> Suc (length r))",
    goal_cases)
  case 1
  then show ?case by simp
next
  case (2 ctx opt rest sep arg iso1 x res ctx')
  then show ?case
    by (cases "find_opt rest arg") (auto dest: find_opt_shorter)
qed

definition process_gopt ::
    "'d fuse_opt_context \<Rightarrow> string \<Rightarrow> bool \<Rightarrow> (int \<times> 'd fuse_opt_context) option" where
  "process_gopt ctx arg iso1 =
     (case find_opt (oc_opt ctx) arg of
        Some m \<Rightarrow> process_matches ctx (Some m) arg iso1
      | None \<Rightarrow> call_proc ctx arg FUSE_OPT_KEY_OPT iso1)"

section \<open>Option groups\<close>

definition octal_val :: "char \<Rightarrow> char \<Rightarrow> char \<Rightarrow> char" where
  "octal_val a b c = char_of (digit_val a * 64 + digit_val b * 8 + digit_val c)"

definition is_octal_escape :: "string \<Rightarrow> bool" where
  \<comment> \<open>the three characters after a backslash form an octal escape\<close>
  "is_octal_escape s \<longleftrightarrow>
     is_digit 4 (cchar s 0) \<and> is_digit 8 (cchar s 1) \<and> is_digit 8 (cchar s 2)"

function process_group_loop ::
    "'d fuse_opt_context \<Rightarrow> string \<Rightarrow> string \<Rightarrow> (int \<times> 'd fuse_opt_context) option" where
  \<comment> \<open>the loop of \<open>process_real_option_group\<close>: \<open>s\<close> is the rest of the input, \<open>d\<close> the bytes
      written to the start of the buffer since the last option\<close>
  "process_group_loop ctx [] d = do {
     (res, ctx) \<leftarrow> process_gopt ctx (cstr d) True;
     if res = -1 then Some (-1, ctx) else Some (0, ctx)
   }"
| "process_group_loop ctx (c # s) d =
     (if c = CHR '','' then do {
        (res, ctx) \<leftarrow> process_gopt ctx (cstr d) True;
        if res = -1 then Some (-1, ctx) else process_group_loop ctx s []
      }
      else if c = CHR 0x5C \<and> s \<noteq> [] then
        if is_octal_escape s
        then process_group_loop ctx (drop 3 s) (d @ [octal_val (s ! 0) (s ! 1) (s ! 2)])
        else process_group_loop ctx (drop 1 s) (d @ [hd s])
      else process_group_loop ctx s (d @ [c]))"
  by pat_completeness auto
termination
  by (relation "measure (\<lambda>(ctx, s, d). length s)") auto

definition process_real_option_group ::
    "'d fuse_opt_context \<Rightarrow> string \<Rightarrow> (int \<times> 'd fuse_opt_context) option" where
  "process_real_option_group ctx opts = process_group_loop ctx opts []"

definition process_option_group ::
    "'d fuse_opt_context \<Rightarrow> string \<Rightarrow> (int \<times> 'd fuse_opt_context) option" where
  "process_option_group ctx opts =
     (let (copy, m) = malloc (oc_mem ctx); ctx = ctx\<lparr>oc_mem := m\<rparr>
      in if \<not> copy then Some (-1, ctx) else process_real_option_group ctx opts)"

section \<open>The parser\<close>

definition process_one ::
    "'d fuse_opt_context \<Rightarrow> string \<Rightarrow> (int \<times> 'd fuse_opt_context) option" where
  "process_one ctx arg =
     (if oc_nonopt ctx \<noteq> 0 \<or> cchar arg 0 \<noteq> CHR ''-'' then
        call_proc ctx arg FUSE_OPT_KEY_NONOPT False
      else if cchar arg 1 = CHR ''o'' then
        if cchar arg 2 \<noteq> NUL then process_option_group ctx (drop 2 arg)
        else
          let (r, ctx) = next_arg ctx arg
          in if r = -1 then Some (-1, ctx)
             else process_option_group ctx (oc_argv ctx ! oc_argctr ctx)
      else if cchar arg 1 = CHR ''-'' \<and> cchar arg 2 = NUL then do {
        (r, ctx) \<leftarrow> add_arg ctx arg;
        if r = -1 then Some (-1, ctx)
        else Some (0, ctx\<lparr>oc_nonopt := fa_argc (oc_outargs ctx)\<rparr>)
      }
      else process_gopt ctx arg False)"

fun opt_parse_loop :: "nat \<Rightarrow> 'd fuse_opt_context \<Rightarrow> (int \<times> 'd fuse_opt_context) option" where
  \<comment> \<open>the \<open>for\<close> loop of \<open>opt_parse\<close>; each round advances \<open>argctr\<close> by at least one, so
      \<open>argc\<close> rounds are enough: the first argument is that bound\<close>
  "opt_parse_loop 0 ctx = Some (0, ctx)"
| "opt_parse_loop (Suc n) ctx =
     (if oc_argctr ctx < length (oc_argv ctx) then do {
        (r, ctx) \<leftarrow> process_one ctx (oc_argv ctx ! oc_argctr ctx);
        if r = -1 then Some (-1, ctx)
        else opt_parse_loop n (ctx\<lparr>oc_argctr := oc_argctr ctx + 1\<rparr>)
      }
      else Some (0, ctx))"

definition opt_parse_finish :: "'d fuse_opt_context \<Rightarrow> (int \<times> 'd fuse_opt_context) option" where
  \<comment> \<open>\<open>opt_parse\<close> after its loop\<close>
  "opt_parse_finish ctx = do {
     (r, ctx) \<leftarrow>
       (case oc_opts ctx of
          None \<Rightarrow> Some (0::int, ctx)
        | Some s \<Rightarrow> do {
            (r1, out, m) \<leftarrow> fuse_opt_insert_arg (oc_outargs ctx) 1 ''-o'' (oc_mem ctx);
            let ctx = ctx\<lparr>oc_outargs := out, oc_mem := m\<rparr>;
            if r1 = -1 then Some (-1::int, ctx)
            else do {
              (r2, out, m) \<leftarrow> fuse_opt_insert_arg (oc_outargs ctx) 2 s (oc_mem ctx);
              Some (if r2 = -1 then -1 else 0, ctx\<lparr>oc_outargs := out, oc_mem := m\<rparr>)
            }
          });
     if r = -1 then Some (-1, ctx)
     else if oc_nonopt ctx \<noteq> 0 \<and> oc_nonopt ctx = fa_argc (oc_outargs ctx) \<and>
             last (fa_args (oc_outargs ctx)) = ''--'' then
       Some (0, ctx\<lparr>oc_outargs :=
         (oc_outargs ctx)\<lparr>fa_argv := Some (butlast (fa_args (oc_outargs ctx)))\<rparr>\<rparr>)
     else Some (0, ctx)
   }"

definition opt_parse :: "'d fuse_opt_context \<Rightarrow> (int \<times> 'd fuse_opt_context) option" where
  "opt_parse ctx = do {
     (r, ctx) \<leftarrow> (case oc_argv ctx of [] \<Rightarrow> Some (0, ctx) | a # _ \<Rightarrow> add_arg ctx a);
     if r = -1 then Some (-1, ctx)
     else do {
       (r, ctx) \<leftarrow> opt_parse_loop (length (oc_argv ctx)) (ctx\<lparr>oc_argctr := 1\<rparr>);
       if r = -1 then Some (-1, ctx) else opt_parse_finish ctx
     }
   }"

definition fuse_opt_parse ::
    "fuse_args \<Rightarrow> 'd \<Rightarrow> 'd fuse_opt list \<Rightarrow> 'd opt_proc option \<Rightarrow> mem \<Rightarrow>
     (int \<times> fuse_args \<times> 'd \<times> mem) option" where
  "fuse_opt_parse args data opts proc m =
     (if fa_args args = [] then Some (0, args, data, m)
      else do {
        (res, ctx) \<leftarrow> opt_parse \<lparr>oc_data = data, oc_opt = opts, oc_proc = proc, oc_argctr = 0,
           oc_argv = fa_args args, oc_outargs = no_args, oc_opts = None, oc_nonopt = 0, oc_mem = m\<rparr>;
        Some (res, if res \<noteq> -1 then oc_outargs ctx else args, oc_data ctx, oc_mem ctx)
      })"

section \<open>Escaping and splitting are inverse\<close>

fun process_each :: "'d fuse_opt_context \<Rightarrow> string list \<Rightarrow> (int \<times> 'd fuse_opt_context) option" where
  \<comment> \<open>the options of a group handed to \<open>process_gopt\<close> one after the other\<close>
  "process_each ctx [] = Some (0, ctx)"
| "process_each ctx (s # ss) = do {
     (r, ctx) \<leftarrow> process_gopt ctx s True;
     if r = -1 then Some (-1, ctx) else process_each ctx ss
   }"

definition join_escaped :: "string list \<Rightarrow> string option" where
  \<comment> \<open>the string \<open>fuse_opt_add_opt_escaped\<close> builds from NULL, one option after the other\<close>
  "join_escaped ss = foldl (\<lambda>s x. fst (snd (fuse_opt_add_opt_escaped s x []))) None ss"

lemma process_group_loop_escaped:
  "process_group_loop ctx (escape_opt True x @ s) d = process_group_loop ctx s (d @ x)"
proof (induction x arbitrary: d)
  case Nil
  then show ?case by simp
next
  case (Cons c x)
  show ?case
  proof (cases "c = CHR '','' \<or> c = CHR 0x5C")
    case True
    then have "\<not> is_octal_escape (c # escape_opt True x @ s)"
      by (auto simp: is_octal_escape_def is_digit_def)
    with True Cons.IH[of "d @ [c]"] show ?thesis by auto
  next
    case False
    with Cons.IH[of "d @ [c]"] show ?thesis by auto
  qed
qed

lemma process_group_loop_comma:
  "process_group_loop ctx (escape_opt True x @ '','' @ s) d =
     do { (r, ctx) \<leftarrow> process_gopt ctx (cstr (d @ x)) True;
          if r = -1 then Some (-1, ctx) else process_group_loop ctx s [] }"
  using process_group_loop_escaped[of ctx x "'','' @ s" d] by simp

lemma add_escaped_ne:
  "s \<noteq> [] \<Longrightarrow> fst (snd (fuse_opt_add_opt_escaped (Some s) x [])) = Some (s @ '','' @ escape_opt True x)"
  by (simp add: fuse_opt_add_opt_escaped_def add_opt_common_def)

lemma escape_opt_ne: "x \<noteq> [] \<Longrightarrow> escape_opt e x \<noteq> []"
  by (cases x) auto

definition group_tail :: "string list \<Rightarrow> string" where
  "group_tail ss = concat (map (\<lambda>x. '','' @ escape_opt True x) ss)"

lemma join_escaped_from:
  "s \<noteq> [] \<Longrightarrow> foldl (\<lambda>s x. fst (snd (fuse_opt_add_opt_escaped s x []))) (Some s) ss
      = Some (s @ group_tail ss)"
  by (induction ss arbitrary: s) (simp_all add: add_escaped_ne group_tail_def)

lemma join_escaped_Cons:
  assumes "x \<noteq> []"
  shows "join_escaped (x # ss) = Some (escape_opt True x @ group_tail ss)"
proof -
  have "fst (snd (fuse_opt_add_opt_escaped None x [])) = Some (escape_opt True x)"
    by (simp add: fuse_opt_add_opt_escaped_def add_opt_common_def)
  with assms show ?thesis
    by (simp add: join_escaped_def join_escaped_from escape_opt_ne)
qed

lemma process_group_loop_joined:
  assumes "wf_cstr x" and "\<forall>s \<in> set ss. wf_cstr s"
  shows "process_group_loop ctx (escape_opt True x @ group_tail ss) [] = process_each ctx (x # ss)"
  using assms
proof (induction ss arbitrary: x ctx)
  case Nil
  then show ?case
    using process_group_loop_escaped[of ctx x "[]" "[]"]
    by (auto simp: group_tail_def split: Option.bind_splits)
next
  case (Cons y ss)
  have eq: "escape_opt True x @ group_tail (y # ss) =
      escape_opt True x @ '','' @ (escape_opt True y @ group_tail ss)"
    by (simp add: group_tail_def)
  show ?case
    unfolding eq process_group_loop_comma
    using Cons.prems Cons.IH[of y]
    by (simp cong: Option.bind_cong) (rule Option.bind_cong, auto)
qed

text \<open>
  Property C38. Escaping is undone by parsing: if a list of options is joined with
  \<open>fuse_opt_add_opt_escaped\<close>, then processing the joined string as an option group hands
  exactly the original options, in order, to \<open>process_gopt\<close>, whatever commas, backslashes
  and digits they contain. (The first option must not be empty: an empty first option
  leaves no comma behind.)
\<close>

theorem escaped_group_roundtrip:
  assumes "x \<noteq> []" and "wf_cstr x" and "\<forall>s \<in> set ss. wf_cstr s"
  shows "join_escaped (x # ss) \<noteq> None \<and>
         process_real_option_group ctx (the (join_escaped (x # ss))) = process_each ctx (x # ss)"
  using assms by (simp add: join_escaped_Cons process_real_option_group_def
      process_group_loop_joined del: process_each.simps)

section \<open>Argument vectors\<close>

definition args_ok :: "fuse_args \<Rightarrow> bool" where
  \<comment> \<open>what \<open>fuse_opt_add_arg\<close> asserts\<close>
  "args_ok a \<longleftrightarrow> fa_argv a = None \<or> fa_allocated a"

lemma no_args_ok [simp]: "args_ok no_args" "fa_args no_args = []"
  by (simp_all add: args_ok_def no_args_def fa_args_def)

lemma fuse_opt_add_arg_cases:
  assumes "args_ok args"
  shows "\<exists>r args' m'. fuse_opt_add_arg args arg m = Some (r, args', m') \<and> args_ok args' \<and>
    (r = 0 \<and> fa_args args' = fa_args args @ [arg] \<and> fa_argv args' \<noteq> None \<or> r = -1 \<and> args' = args)"
  using assms
  by (auto simp: fuse_opt_add_arg_def args_ok_def fa_args_def split: prod.splits)

text \<open>
  Inserting an argument at a position not beyond the end either succeeds,
  and the vector is the old one with the argument put at that position and everything
  behind it moved up by one, or fails for lack of memory and leaves the vector as it was;
  the assertions on the way never fail.
\<close>

theorem fuse_opt_insert_arg_inserts:
  assumes "args_ok args" and "pos \<le> fa_argc args"
  shows "\<exists>r args' m'. fuse_opt_insert_arg args pos arg m = Some (r, args', m') \<and> args_ok args' \<and>
    (r = 0 \<and> fa_args args' = take pos (fa_args args) @ arg # drop pos (fa_args args) \<or>
     r = -1 \<and> args' = args)"
proof -
  from fuse_opt_add_arg_cases[OF assms(1), of arg m] obtain r args' m'
    where add: "fuse_opt_add_arg args arg m = Some (r, args', m')" and ok: "args_ok args'"
      and cs: "r = 0 \<and> fa_args args' = fa_args args @ [arg] \<and> fa_argv args' \<noteq> None \<or> r = -1 \<and> args' = args"
    by blast
  show ?thesis
  proof (cases "r = -1")
    case True
    with add ok cs assms show ?thesis
      by (simp add: fuse_opt_insert_arg_def fuse_opt_insert_arg_common_def)
  next
    case False
    with cs have v: "fa_args args' = fa_args args @ [arg]" "fa_argv args' \<noteq> None" and r: "r = 0" by auto
    with ok have al: "fa_allocated args'" by (auto simp: args_ok_def)
    from assms(2) v show ?thesis
      by (auto simp: fuse_opt_insert_arg_def fuse_opt_insert_arg_common_def assms(2) add r v ok
          fa_argc_def args_ok_def al Let_def)
        (auto simp: fa_args_def)
  qed
qed

section \<open>Templates\<close>

lemma strchr_append: "c \<notin> set n \<Longrightarrow> strchr (n @ c # f) c = Some (length n)"
  by (induction n) auto

lemma prefix_take: "length p \<le> length s \<and> take (length p) s = p \<longleftrightarrow> (\<exists>r. s = p @ r)"
  by (metis append_eq_conv_conj append_take_drop_id length_append le_add1)

text \<open>
  What a template matches: a template without \<open>=\<close> and blank matches
  itself only; \<open>name=\<close> and \<open>name=%fmt\<close> match every argument that starts with
  \<open>name=\<close>; \<open>name\<close> followed by a blank (and a format) matches every argument that
  starts with \<open>name\<close>. In the last two cases the separator reported is the end of the name.
\<close>

theorem match_template_kinds:
  fixes n f arg :: string
  assumes "CHR ''='' \<notin> set n" and "CHR '' '' \<notin> set n" and "f = [] \<or> hd f = CHR ''%''"
  shows "match_template n arg = (if arg = n then Some 0 else None) \<and>
         match_template (n @ ''='' @ f) arg =
           (if \<exists>r. arg = n @ ''='' @ r then Some (length n) else None) \<and>
         (CHR ''='' \<notin> set f \<longrightarrow>
           match_template (n @ '' '' @ f) arg = (if \<exists>r. arg = n @ r then Some (length n) else None))"
proof -
  have f0: "cchar (n @ c # f) (Suc (length n)) = NUL \<or> cchar (n @ c # f) (Suc (length n)) = CHR ''%''" for c
    using assms(3) by (cases f) (auto simp: cchar_def nth_append)
  have 1: "match_template n arg = (if arg = n then Some 0 else None)"
    using assms(1,2) by (simp add: match_template_def Let_def strchr_None[THEN iffD2])
  have "(Suc (length n) \<le> length arg \<and> take (Suc (length n)) arg = n @ ''='') \<longleftrightarrow>
      (\<exists>r. arg = n @ ''='' @ r)"
    using prefix_take[of "n @ ''=''" arg] by simp
  moreover have "cchar (n @ ''='' @ f) (length n) = CHR ''=''" by (simp add: cchar_def nth_append)
  ultimately have 2: "match_template (n @ ''='' @ f) arg =
      (if \<exists>r. arg = n @ ''='' @ r then Some (length n) else None)"
    using assms(1) f0[of "CHR ''=''"]
    by (auto simp: match_template_def Let_def strchr_append)
  have 3: "match_template (n @ '' '' @ f) arg = (if \<exists>r. arg = n @ r then Some (length n) else None)"
    if "CHR ''='' \<notin> set f"
  proof -
    have "strchr (n @ '' '' @ f) (CHR ''='') = None"
      using assms(1) that by (simp add: strchr_None)
    moreover have "cchar (n @ '' '' @ f) (length n) = CHR '' ''" by (simp add: cchar_def nth_append)
    moreover have "(length n \<le> length arg \<and> take (length n) arg = n) \<longleftrightarrow> (\<exists>r. arg = n @ r)"
      by (rule prefix_take)
    ultimately show ?thesis
      using assms(2) f0[of "CHR '' ''"]
      by (auto simp: match_template_def Let_def strchr_append)
  qed
  from 1 2 3 show ?thesis by blast
qed

section \<open>The parser never runs into an assertion\<close>

text \<open>
  The client's processing function is outside the parser. What the parser relies on: given
  a vector \<open>fuse_opt_add_arg\<close> accepts, it returns with such a vector, and it takes no
  argument away.
\<close>

definition proc_ok :: "'d opt_proc \<Rightarrow> bool" where
  "proc_ok p \<longleftrightarrow> (\<forall>d arg key out m. args_ok out \<longrightarrow>
     (\<exists>r d' out' m'. p d arg key out m = Some (r, d', out', m') \<and> args_ok out' \<and>
        fa_argc out \<le> fa_argc out'))"

definition ctx_le :: "'d fuse_opt_context \<Rightarrow> 'd fuse_opt_context \<Rightarrow> bool" where
  \<comment> \<open>what every step of the parser keeps\<close>
  "ctx_le c c' \<longleftrightarrow> (args_ok (oc_outargs c) \<longrightarrow> args_ok (oc_outargs c')) \<and>
     fa_argc (oc_outargs c) \<le> fa_argc (oc_outargs c') \<and> oc_argv c' = oc_argv c \<and>
     oc_opt c' = oc_opt c \<and> oc_proc c' = oc_proc c \<and> oc_argctr c \<le> oc_argctr c'"

definition ctx_ok :: "'d fuse_opt_context \<Rightarrow> bool" where
  "ctx_ok c \<longleftrightarrow> args_ok (oc_outargs c) \<and> (\<forall>p. oc_proc c = Some p \<longrightarrow> proc_ok p)"

definition returns_le :: "'d fuse_opt_context \<Rightarrow> (int \<times> 'd fuse_opt_context) option \<Rightarrow> bool" where
  "returns_le c r \<longleftrightarrow> (\<exists>res c'. r = Some (res, c') \<and> ctx_le c c')"

lemma ctx_le_refl [simp]: "ctx_le c c"
  by (simp add: ctx_le_def)

lemma ctx_le_trans: "ctx_le a b \<Longrightarrow> ctx_le b c \<Longrightarrow> ctx_le a c"
  by (auto simp: ctx_le_def)

lemma ctx_le_ok: "ctx_le a b \<Longrightarrow> ctx_ok a \<Longrightarrow> ctx_ok b"
  by (auto simp: ctx_le_def ctx_ok_def)

lemma ctx_le_upd [simp]:
  "ctx_le c (c'\<lparr>oc_mem := m\<rparr>) = ctx_le c c'"
  "ctx_le c (c'\<lparr>oc_data := d\<rparr>) = ctx_le c c'"
  "ctx_le c (c'\<lparr>oc_opts := s\<rparr>) = ctx_le c c'"
  "ctx_le c (c'\<lparr>oc_nonopt := n\<rparr>) = ctx_le c c'"
  "ctx_le (c\<lparr>oc_mem := m\<rparr>) c' = ctx_le c c'"
  "ctx_ok (c\<lparr>oc_mem := m\<rparr>) = ctx_ok c"
  "ctx_ok (c\<lparr>oc_argctr := i\<rparr>) = ctx_ok c"
  by (auto simp: ctx_le_def ctx_ok_def)

lemma returns_leI: "r = Some (res, c') \<Longrightarrow> ctx_le c c' \<Longrightarrow> returns_le c r"
  by (auto simp: returns_le_def)

lemma returns_le_Some [simp]: "returns_le c (Some (res, c')) = ctx_le c c'"
  by (simp add: returns_le_def)

lemma returns_le_trans: "ctx_le a b \<Longrightarrow> returns_le b r \<Longrightarrow> returns_le a r"
  by (auto simp: returns_le_def intro: ctx_le_trans)

lemma returns_le_bind:
  assumes "returns_le c r"
    and "\<And>res c'. r = Some (res, c') \<Longrightarrow> ctx_le c c' \<Longrightarrow> returns_le c' (f res c')"
  shows "returns_le c (r \<bind> (\<lambda>(res, c'). f res c'))"
proof -
  from assms(1) obtain res c' where r: "r = Some (res, c')" "ctx_le c c'"
    by (auto simp: returns_le_def)
  from assms(2)[OF this] obtain q c'' where "f res c' = Some (q, c'')" "ctx_le c' c''"
    by (auto simp: returns_le_def)
  with r show ?thesis by (auto intro: ctx_le_trans)
qed

lemma add_arg_returns: "ctx_ok c \<Longrightarrow> returns_le c (add_arg c arg)"
  using fuse_opt_add_arg_cases[of "oc_outargs c" arg "oc_mem c"]
  by (auto simp: add_arg_def ctx_ok_def returns_le_def ctx_le_def fa_argc_def)

lemma add_opt_le: "ctx_le c (snd (add_opt c s))"
  by (simp add: add_opt_def ctx_le_def split: prod.splits)

lemma call_proc_returns: "ctx_ok c \<Longrightarrow> returns_le c (call_proc c arg key iso1)"
proof (cases "key \<noteq> FUSE_OPT_KEY_KEEP \<and> key \<noteq> FUSE_OPT_KEY_DISCARD \<and> oc_proc c \<noteq> None")
  case True
  assume ok: "ctx_ok c"
  with True obtain p r d out m where p: "oc_proc c = Some p"
    and r: "p (oc_data c) arg key (oc_outargs c) (oc_mem c) = Some (r, d, out, m)"
      "args_ok out" "fa_argc (oc_outargs c) \<le> fa_argc out"
    unfolding ctx_ok_def proc_ok_def by (metis not_None_eq)
  let ?c = "c\<lparr>oc_data := d, oc_outargs := out, oc_mem := m\<rparr>"
  have le: "ctx_le c ?c" and ok': "ctx_ok ?c" using r ok by (auto simp: ctx_le_def ctx_ok_def)
  from le add_arg_returns[OF ok'] have "returns_le c (add_arg ?c arg)"
    by (rule returns_le_trans)
  moreover from add_opt_le[of ?c arg] le have "ctx_le c (snd (add_opt ?c arg))"
    by (rule ctx_le_trans[rotated])
  ultimately show ?thesis using True p r le
    by (auto simp: call_proc_def Let_def returns_le_def prod_eq_iff)
next
  case False
  assume ok: "ctx_ok c"
  from False have "call_proc c arg key iso1 = Some (0, c) \<or>
      call_proc c arg key iso1 = (if iso1 then Some (add_opt c arg) else add_arg c arg)"
    by (auto simp: call_proc_def Let_def split: option.splits)
  then show ?thesis using add_arg_returns[OF ok] add_opt_le[of c arg]
    by (auto simp: returns_le_def prod_eq_iff split: if_splits)
qed

lemma match_template_format:
  "match_template t arg = Some sep \<Longrightarrow> sep \<noteq> 0 \<Longrightarrow> cchar t (sep + 1) \<noteq> NUL \<Longrightarrow>
    cchar t (sep + 1) = CHR ''%''"
  by (auto simp: match_template_def Let_def split: option.splits if_splits)

lemma process_opt_returns:
  assumes "ctx_ok c" and "sep \<noteq> 0 \<and> cchar (templ t) (sep + 1) \<noteq> NUL \<longrightarrow> cchar (templ t) (sep + 1) = CHR ''%''"
  shows "returns_le c (process_opt c t sep arg iso1)"
proof (cases "offset t")
  case None
  then show ?thesis
    by (auto simp: process_opt_def intro!: returns_le_bind call_proc_returns assms(1))
next
  case (Some var)
  have "cchar (drop (Suc sep) (templ t)) 0 = cchar (templ t) (sep + 1)"
    by (auto simp: cchar_def)
  with Some assms(2) show ?thesis
    by (auto simp: process_opt_def process_opt_param_def Let_def split: prod.splits option.splits)
qed

lemma next_arg_le: "ctx_le c (snd (next_arg c s))"
  by (auto simp: next_arg_def ctx_le_def)

lemma process_match_returns:
  assumes "ctx_ok c" and "match_template (templ t) arg = Some sep"
  shows "returns_le c (process_match c t sep arg iso1)"
proof -
  have fmt: "sep \<noteq> 0 \<and> cchar (templ t) (sep + 1) \<noteq> NUL \<longrightarrow> cchar (templ t) (sep + 1) = CHR ''%''"
    using match_template_format[OF assms(2)] by blast
  have "returns_le c (process_opt_sep_arg c t sep arg iso1)"
  proof (cases "oc_argctr c + 1 \<ge> length (oc_argv c)")
    case True
    then show ?thesis by (simp add: process_opt_sep_arg_def next_arg_def Let_def)
  next
    case False
    let ?c = "c\<lparr>oc_argctr := oc_argctr c + 1, oc_mem := snd (malloc (oc_mem c))\<rparr>"
    have le: "ctx_le c ?c" and ok: "ctx_ok ?c" using assms(1) by (auto simp: ctx_le_def ctx_ok_def)
    have "returns_le c (process_opt ?c t sep (take sep arg @ oc_argv c ! (oc_argctr c + 1)) iso1)"
      by (rule returns_le_trans[OF le process_opt_returns[OF ok fmt]])
    with False le show ?thesis
      by (cases "malloc (oc_mem c)") (auto simp: process_opt_sep_arg_def next_arg_def Let_def)
  qed
  with process_opt_returns[OF assms(1) fmt] show ?thesis by (simp add: process_match_def)
qed

lemma find_opt_matches: "find_opt ts arg = Some (t, ts', sep) \<Longrightarrow> match_template (templ t) arg = Some sep"
  by (induction ts) (auto split: option.splits)

lemma process_matches_returns:
  assumes "ctx_ok c" and "\<forall>t ts sep. m = Some (t, ts, sep) \<longrightarrow> match_template (templ t) arg = Some sep"
  shows "returns_le c (process_matches c m arg iso1)"
  using assms
proof (induction c m arg iso1 rule: process_matches.induct)
  case (1 c arg iso1)
  then show ?case by simp
next
  case (2 c t ts sep arg iso1)
  have "returns_le c (process_match c t sep arg iso1)"
    using "2.prems" by (intro process_match_returns) auto
  then show ?case
    unfolding process_matches.simps
  proof (rule returns_le_bind, goal_cases)
    case (1 res c')
    then show ?case
      using "2.IH"[OF _ refl] "2.prems"
      by (auto dest: find_opt_matches ctx_le_ok)
  qed
qed

lemma process_gopt_returns: "ctx_ok c \<Longrightarrow> returns_le c (process_gopt c arg iso1)"
  by (auto simp: process_gopt_def simp del: process_matches.simps split: option.splits
      dest: find_opt_matches intro!: call_proc_returns process_matches_returns)

lemma process_group_loop_returns: "ctx_ok c \<Longrightarrow> returns_le c (process_group_loop c s d)"
proof (induction c s d rule: process_group_loop.induct)
  case (1 c d)
  then show ?case by (auto intro!: returns_le_bind process_gopt_returns)
next
  case (2 c x s d)
  have "returns_le c (process_gopt c (cstr d) True \<bind> (\<lambda>(res, c').
      if res = -1 then Some (-1, c') else process_group_loop c' s []))" if "x = CHR '',''"
    using "2.prems" "2.IH"(1)[OF that _ refl]
    by (auto intro!: returns_le_bind process_gopt_returns dest: ctx_le_ok)
  with 2 show ?case by auto
qed

lemma process_option_group_returns: "ctx_ok c \<Longrightarrow> returns_le c (process_option_group c s)"
  using process_group_loop_returns[of "c\<lparr>oc_mem := snd (malloc (oc_mem c))\<rparr>" s "[]"]
  by (auto simp: process_option_group_def process_real_option_group_def Let_def returns_le_def
      split: prod.splits)

lemma process_one_returns: "ctx_ok c \<Longrightarrow> returns_le c (process_one c arg)"
proof -
  assume ok: "ctx_ok c"
  let ?c = "snd (next_arg c arg)"
  have le: "ctx_le c ?c" by (rule next_arg_le)
  have "returns_le c (process_option_group ?c s)" for s
    using process_option_group_returns[OF ctx_le_ok[OF le ok], of s] le
    by (auto simp: returns_le_def intro: ctx_le_trans)
  with ok le show ?thesis
    by (auto simp: process_one_def Let_def split: prod.splits
        intro!: call_proc_returns process_option_group_returns process_gopt_returns
          returns_le_bind add_arg_returns)
qed

lemma opt_parse_loop_returns: "ctx_ok c \<Longrightarrow> returns_le c (opt_parse_loop n c)"
proof (induction n c rule: opt_parse_loop.induct)
  case (1 c)
  then show ?case by simp
next
  case (2 n c)
  show ?case
  proof (cases "oc_argctr c < length (oc_argv c)")
    case False
    then show ?thesis by simp
  next
    case True
    have step: "returns_le c' (if res = -1 then Some (-1, c')
        else opt_parse_loop n (c'\<lparr>oc_argctr := oc_argctr c' + 1\<rparr>))"
      if r: "process_one c (oc_argv c ! oc_argctr c) = Some (res, c')" and le: "ctx_le c c'" for res c'
    proof (cases "res = -1")
      case False
      have ok: "ctx_ok (c'\<lparr>oc_argctr := oc_argctr c' + 1\<rparr>)"
        using ctx_le_ok[OF le "2.prems"] by simp
      from "2.IH"[OF True r refl False ok] False show ?thesis
        by (auto simp: returns_le_def) (auto simp: ctx_le_def)
    qed simp
    from True show ?thesis
      by (simp del: bind_split)
        (rule returns_le_bind[OF process_one_returns[OF "2.prems"] step])
  qed
qed

lemma opt_parse_finish_returns:
  assumes "args_ok (oc_outargs c)" and "1 \<le> fa_argc (oc_outargs c)"
  shows "opt_parse_finish c \<noteq> None"
proof (cases "oc_opts c")
  case None
  then show ?thesis by (simp add: opt_parse_finish_def)
next
  case (Some s)
  from fuse_opt_insert_arg_inserts[OF assms, of "''-o''" "oc_mem c"] obtain r a m
    where i: "fuse_opt_insert_arg (oc_outargs c) 1 ''-o'' (oc_mem c) = Some (r, a, m)" "args_ok a"
      and r: "r = -1 \<or> fa_argc a = Suc (fa_argc (oc_outargs c))"
    using assms(2) by (auto simp: fa_argc_def)
  show ?thesis
  proof (cases "r = -1")
    case True
    with Some i show ?thesis by (simp add: opt_parse_finish_def Let_def)
  next
    case False
    with r assms(2) have "2 \<le> fa_argc a" by simp
    from fuse_opt_insert_arg_inserts[OF i(2) this, of s m]
    obtain r' a' m' where "fuse_opt_insert_arg a 2 s m = Some (r', a', m')" by blast
    with Some i False show ?thesis by (simp add: opt_parse_finish_def Let_def)
  qed
qed

text \<open>
  Property C39. \<open>fuse_opt_parse\<close> always returns: with a processing function that itself
  returns and only appends arguments (or none), no assertion of the parser
  (\<open>!args->argv || args->allocated\<close>, \<open>pos <= args->argc\<close>, \<open>format[0] == '%'\<close>) can
  fail, for all templates, argument vectors and allocation failures.
\<close>

theorem fuse_opt_parse_returns:
  assumes "\<forall>p. proc = Some p \<longrightarrow> proc_ok p"
  shows "\<exists>r args' d' m'. fuse_opt_parse args d opts proc m = Some (r, args', d', m')"
proof (cases "fa_args args")
  case Nil
  then show ?thesis by (simp add: fuse_opt_parse_def)
next
  case (Cons a as)
  let ?c = "\<lparr>oc_data = d, oc_opt = opts, oc_proc = proc, oc_argctr = 0, oc_argv = a # as,
     oc_outargs = no_args, oc_opts = None, oc_nonopt = 0, oc_mem = m\<rparr>"
  have ok: "ctx_ok ?c" using assms by (simp add: ctx_ok_def)
  have "opt_parse ?c \<noteq> None"
  proof -
    from fuse_opt_add_arg_cases[of no_args a m] obtain r out m1
      where add: "fuse_opt_add_arg no_args a m = Some (r, out, m1)" "args_ok out"
        and r: "r = -1 \<or> fa_argc out = 1"
      by (auto simp: fa_argc_def)
    let ?c1 = "?c\<lparr>oc_outargs := out, oc_mem := m1, oc_argctr := 1\<rparr>"
    have "ctx_ok ?c1" using assms add(2) by (simp add: ctx_ok_def)
    from opt_parse_loop_returns[OF this] obtain q c2
      where l: "opt_parse_loop (length (a # as)) ?c1 = Some (q, c2)" "ctx_le ?c1 c2"
      unfolding returns_le_def by blast
    from l(2) add(2) r have "r = -1 \<or> opt_parse_finish c2 \<noteq> None"
      using opt_parse_finish_returns[of c2] by (auto simp: ctx_le_def)
    with add l show ?thesis
      by (auto simp: opt_parse_def add_arg_def simp del: opt_parse_loop.simps)
  qed
  with Cons show ?thesis by (auto simp: fuse_opt_parse_def)
qed

section \<open>Every matching template takes effect\<close>

fun run_matches ::
    "'d fuse_opt_context \<Rightarrow> 'd fuse_opt list \<Rightarrow> string \<Rightarrow> bool \<Rightarrow> (int \<times> 'd fuse_opt_context) option" where
  \<comment> \<open>reference: go through the whole table, act on each template that matches\<close>
  "run_matches ctx [] arg isopt = Some (0, ctx)"
| "run_matches ctx (t # ts) arg isopt =
     (case match_template (templ t) arg of
        None \<Rightarrow> run_matches ctx ts arg isopt
      | Some sep \<Rightarrow> do {
          (r, ctx) \<leftarrow> process_match ctx t sep arg isopt;
          if r = -1 then Some (-1, ctx) else run_matches ctx ts arg isopt
        })"

lemma process_matches_eq: "process_matches ctx (find_opt ts arg) arg isopt = run_matches ctx ts arg isopt"
proof (induction ts arbitrary: ctx)
  case Nil
  then show ?case by simp
next
  case (Cons t ts)
  then show ?case
    by (cases "match_template (templ t) arg") (simp_all cong: Option.bind_cong if_cong)
qed

lemma find_opt_None: "find_opt ts arg = None \<longleftrightarrow> (\<forall>t \<in> set ts. match_template (templ t) arg = None)"
  by (induction ts) (auto split: option.splits)

text \<open>
  Property C40. "More than one such match may occur, in which case the action for each match
  is executed": the loop of \<open>process_gopt\<close> over \<open>find_opt\<close> is the pass over the whole
  template table that acts on every matching template in table order and stops at the first
  failure; an option no template matches goes to the processing function.
\<close>

theorem process_gopt_runs_every_match:
  "process_gopt ctx arg isopt =
     (if list_all (\<lambda>t. match_template (templ t) arg = None) (oc_opt ctx)
      then call_proc ctx arg FUSE_OPT_KEY_OPT isopt
      else run_matches ctx (oc_opt ctx) arg isopt)"
  using process_matches_eq[of ctx "oc_opt ctx" arg isopt] find_opt_None[of "oc_opt ctx" arg]
  by (auto simp: process_gopt_def list_all_iff split: option.splits)

section \<open>Witnesses\<close>

definition keep_all :: "unit opt_proc" where
  \<comment> \<open>the processing function that keeps every option, as \<open>fuse_lib_opt_proc\<close> does\<close>
  "keep_all d arg key out m = Some (1, d, out, m)"

definition ctx_example :: "unit fuse_opt_context" where
  "ctx_example = \<lparr>oc_data = (), oc_opt = [fuse_opt_key ''a,b'' FUSE_OPT_KEY_DISCARD],
     oc_proc = Some keep_all, oc_argctr = 1, oc_argv = [''prog'', ''-o'', ''x''],
     oc_outargs = no_args, oc_opts = None, oc_nonopt = 0, oc_mem = []\<rparr>"

theorem escaped_group_roundtrip_witness:
  "\<exists>s. join_escaped [''a,b'', [CHR 0x5C, CHR ''1'', CHR ''0'', CHR ''1'']] = Some s \<and>
     process_real_option_group ctx_example s =
     process_each ctx_example [''a,b'', [CHR 0x5C, CHR ''1'', CHR ''0'', CHR ''1'']]"
  using escaped_group_roundtrip[of "''a,b''" "[[CHR 0x5C, CHR ''1'', CHR ''0'', CHR ''1'']]" ctx_example]
  by (auto simp: NUL_def simp del: process_each.simps)

theorem fuse_opt_insert_arg_inserts_witness:
  "\<exists>r a m. fuse_opt_insert_arg \<lparr>fa_argv = Some [''prog'', ''dir''], fa_allocated = True\<rparr> 1 ''-o'' [] =
      Some (r, a, m) \<and> args_ok a"
  using fuse_opt_insert_arg_inserts
    [of "\<lparr>fa_argv = Some [''prog'', ''dir''], fa_allocated = True\<rparr>" 1 "''-o''" "[]"]
  by (auto simp: args_ok_def fa_argc_def fa_args_def)

theorem match_template_kinds_witness:
  "match_template ''uid=%d'' ''uid=0'' = Some 3"
  using match_template_kinds[of "''uid''" "''%d''" "''uid=0''"] by simp

theorem fuse_opt_parse_returns_witness:
  "\<exists>r args' d' m'. fuse_opt_parse \<lparr>fa_argv = Some [''prog'', ''-ox,y'', ''--''], fa_allocated = False\<rparr>
     () [] (Some keep_all) [] = Some (r, args', d', m')"
  by (rule fuse_opt_parse_returns) (auto simp: proc_ok_def keep_all_def)

end
