(* ===== verification/Node_Table.thy ===== *)
theory Node_Table
  imports Prelude
begin

text \<open>
  The two node indexes of \<open>struct fuse\<close> (src/lib/fuse.c, \<open>struct node_table\<close>,
  \<open>id_hash\<close>, \<open>name_hash\<close>, \<open>rehash_*\<close>, \<open>remerge_*\<close>,
  \<open>node_table_*\<close>): linear hash tables that grow and shrink one bucket at a time. A
  bucket's \<open>id_next\<close>/\<open>name_next\<close> chain is the list of its nodes' addresses. The code has
  every operation twice, once per chain field; here the operations take the unreduced hash
  of a node as a parameter and the code's two copies are its instances.
\<close>

type_synonym addr = "64 word"
type_synonym fuse_ino_t = "64 word"

definition NODE_TABLE_MIN_SIZE :: nat where "NODE_TABLE_MIN_SIZE = 8192"

record node_table =
  nt_array :: "addr list list"
  nt_use :: nat
  nt_size :: nat
  nt_split :: nat

section \<open>Operations\<close>

definition table_slot :: "node_table \<Rightarrow> nat \<Rightarrow> nat" where
  \<comment> \<open>the reduction both hash functions end with\<close>
  "table_slot t h =
     (let hash = h mod nt_size t; oldhash = hash mod (nt_size t div 2)
      in if oldhash \<ge> nt_split t then oldhash else hash)"

definition id_key :: "fuse_ino_t \<Rightarrow> nat" where
  \<comment> \<open>\<open>(uint32_t) ino * 2654435761U\<close>\<close>
  "id_key ino = unat ((ucast ino :: 32 word) * 2654435761)"

definition id_hash :: "node_table \<Rightarrow> fuse_ino_t \<Rightarrow> nat" where
  "id_hash t ino = table_slot t (id_key ino)"

definition name_key :: "fuse_ino_t \<Rightarrow> string \<Rightarrow> nat" where
  "name_key parent name = unat (foldl (\<lambda>hash c. hash * 31 + of_char c) parent name)"

definition name_hash :: "node_table \<Rightarrow> fuse_ino_t \<Rightarrow> string \<Rightarrow> nat" where
  "name_hash t parent name = table_slot t (name_key parent name)"

definition node_table_init :: "mem \<Rightarrow> int \<times> node_table \<times> mem" where
  "node_table_init m =
     (let (ok, m1) = malloc m
      in if ok then (0, \<lparr>nt_array = replicate NODE_TABLE_MIN_SIZE [], nt_use = 0,
                          nt_size = NODE_TABLE_MIN_SIZE, nt_split = 0\<rparr>, m1)
         else (-1, \<lparr>nt_array = [], nt_use = 0, nt_size = NODE_TABLE_MIN_SIZE, nt_split = 0\<rparr>, m1))"

definition node_table_reduce :: "node_table \<Rightarrow> mem \<Rightarrow> node_table \<times> mem" where
  \<comment> \<open>a failing \<open>realloc\<close> keeps the longer array, of which only \<open>newsize\<close> slots are used\<close>
  "node_table_reduce t m =
     (let newsize = nt_size t div 2 in
      if newsize < NODE_TABLE_MIN_SIZE then (t, m)
      else let (_, m1) = malloc m
        in (t\<lparr>nt_array := take newsize (nt_array t), nt_size := newsize, nt_split := newsize div 2\<rparr>, m1))"

definition node_table_resize :: "node_table \<Rightarrow> mem \<Rightarrow> int \<times> node_table \<times> mem" where
  "node_table_resize t m =
     (let newsize = nt_size t * 2; (ok, m1) = malloc m
      in if \<not> ok then (-1, t, m1)
         else (0, t\<lparr>nt_array := nt_array t @ replicate (nt_size t) [], nt_size := newsize,
                   nt_split := 0\<rparr>, m1))"

fun remerge_loop :: "nat \<Rightarrow> node_table \<Rightarrow> node_table" where
  "remerge_loop 0 t = t"
| "remerge_loop (Suc iter) t =
     (if nt_split t > 0 then
        let t = t\<lparr>nt_split := nt_split t - 1\<rparr>;
            upper = nt_split t + nt_size t div 2
        in if nt_array t ! upper \<noteq> [] then
             t\<lparr>nt_array := (nt_array t)[nt_split t := nt_array t ! nt_split t @ nt_array t ! upper,
                                       upper := []]\<rparr>
           else remerge_loop iter t
      else t)"

definition remerge :: "node_table \<Rightarrow> mem \<Rightarrow> node_table \<times> mem" where
  "remerge t m =
     (let (t, m) = (if nt_split t = 0 then node_table_reduce t m else (t, m))
      in (remerge_loop 8 t, m))"

fun rehash_chain :: "(addr \<Rightarrow> nat) \<Rightarrow> nat \<Rightarrow> node_table \<Rightarrow> addr list \<Rightarrow> addr list \<times> node_table" where
  \<comment> \<open>the nodes that stay in bucket \<open>hash\<close>, and the table with the others moved\<close>
  "rehash_chain key hash t [] = ([], t)"
| "rehash_chain key hash t (p # ps) =
     (let newhash = table_slot t (key p) in
      if newhash \<noteq> hash then
        rehash_chain key hash
          (t\<lparr>nt_array := (nt_array t)[newhash := p # nt_array t ! newhash]\<rparr>) ps
      else let (stay, t) = rehash_chain key hash t ps in (p # stay, t))"

definition rehash :: "(addr \<Rightarrow> nat) \<Rightarrow> node_table \<Rightarrow> mem \<Rightarrow> node_table \<times> mem" where
  "rehash key t m =
     (if nt_split t = nt_size t div 2 then (t, m)
      else
        let hash = nt_split t; t = t\<lparr>nt_split := nt_split t + 1\<rparr>;
            (stay, t) = rehash_chain key hash t (nt_array t ! hash);
            t = t\<lparr>nt_array := (nt_array t)[hash := stay]\<rparr>
        in if nt_split t = nt_size t div 2 then snd (node_table_resize t m) else (t, m))"

definition table_insert :: "(addr \<Rightarrow> nat) \<Rightarrow> nat \<Rightarrow> addr \<Rightarrow> node_table \<Rightarrow> mem \<Rightarrow> node_table \<times> mem" where
  \<comment> \<open>\<open>hash_id\<close>, and the end of \<open>hash_name\<close>: link the node in at bucket \<open>hash\<close>\<close>
  "table_insert key hash p t m =
     (let t = t\<lparr>nt_array := (nt_array t)[hash := p # nt_array t ! hash], nt_use := nt_use t + 1\<rparr>
      in if nt_use t \<ge> nt_size t div 2 then rehash key t m else (t, m))"

definition table_unlink :: "nat \<Rightarrow> addr \<Rightarrow> node_table \<Rightarrow> node_table" where
  \<comment> \<open>\<open>*nodep = node->id_next\<close> where \<open>*nodep\<close> is the node\<close>
  "table_unlink hash p t = t\<lparr>nt_array := (nt_array t)[hash := remove1 p (nt_array t ! hash)]\<rparr>"

definition table_dec :: "node_table \<Rightarrow> mem \<Rightarrow> node_table \<times> mem" where
  \<comment> \<open>one node fewer, and shrink when a quarter full\<close>
  "table_dec t m =
     (let t = t\<lparr>nt_use := nt_use t - 1\<rparr>
      in if nt_use t < nt_size t div 4 then remerge t m else (t, m))"

definition table_bucket :: "node_table \<Rightarrow> nat \<Rightarrow> addr list" where
  \<comment> \<open>the chain the lookups walk for an unreduced hash\<close>
  "table_bucket t h = nt_array t ! table_slot t h"

definition table_add :: "(addr \<Rightarrow> nat) \<Rightarrow> addr \<Rightarrow> node_table \<Rightarrow> mem \<Rightarrow> node_table \<times> mem" where
  "table_add key p t m = table_insert key (table_slot t (key p)) p t m"

definition table_del :: "(addr \<Rightarrow> nat) \<Rightarrow> addr \<Rightarrow> node_table \<Rightarrow> mem \<Rightarrow> node_table \<times> mem" where
  \<comment> \<open>\<open>unhash_id\<close>: a node that is not in its bucket leaves the table alone\<close>
  "table_del key p t m =
     (if p \<in> set (table_bucket t (key p)) then table_dec (table_unlink (table_slot t (key p)) p t) m
      else (t, m))"

section \<open>The table invariant\<close>

definition size_ok :: "nat \<Rightarrow> bool" where
  "size_ok s \<longleftrightarrow> (\<exists>k. s = NODE_TABLE_MIN_SIZE * 2 ^ k)"

definition table_ok :: "(addr \<Rightarrow> nat) \<Rightarrow> node_table \<Rightarrow> addr set \<Rightarrow> bool" where
  \<comment> \<open>the table holds exactly the nodes \<open>S\<close>, each once, in the bucket its hash selects\<close>
  "table_ok key t S \<longleftrightarrow> size_ok (nt_size t) \<and> length (nt_array t) = nt_size t \<and>
     nt_split t \<le> nt_size t div 2 \<and>
     (\<forall>i < nt_size t. distinct (nt_array t ! i) \<and>
        set (nt_array t ! i) = {p \<in> S. table_slot t (key p) = i})"

lemma size_ok_even: "size_ok s \<Longrightarrow> s = 2 * (s div 2) \<and> even (s div 2) \<and> 0 < s div 2"
  by (auto simp: size_ok_def NODE_TABLE_MIN_SIZE_def)

lemma size_ok_double: "size_ok s \<Longrightarrow> size_ok (s * 2)"
  by (auto simp: size_ok_def intro: exI[of _ "Suc _"])

lemma size_ok_half:
  assumes "size_ok s" and "NODE_TABLE_MIN_SIZE \<le> s div 2"
  shows "size_ok (s div 2)"
proof -
  from assms(1) obtain k where k: "s = NODE_TABLE_MIN_SIZE * 2 ^ k" by (auto simp: size_ok_def)
  with assms(2) obtain j where "k = Suc j" by (cases k) (auto simp: NODE_TABLE_MIN_SIZE_def)
  with k show ?thesis by (auto simp: size_ok_def)
qed

lemma mod_double_cases:
  "(h::nat) mod (2 * b) = h mod b \<or> h mod (2 * b) = h mod b + b"
  by (metis mod_mult2_eq mult.commute mult_0_right mult_1_right add.commute add_0 not_mod_2_eq_0_eq_1)

lemma table_slot_eq:
  assumes "size_ok (nt_size t)"
  shows "table_slot t h =
    (if nt_split t \<le> h mod (nt_size t div 2) then h mod (nt_size t div 2) else h mod nt_size t)"
proof -
  have "nt_size t div 2 dvd nt_size t" using size_ok_even[OF assms] by (metis dvd_triv_right)
  then show ?thesis by (simp add: table_slot_def Let_def mod_mod_cancel)
qed

lemma table_slot_cases:
  assumes "size_ok (nt_size t)"
  shows "table_slot t h = h mod (nt_size t div 2) \<or> table_slot t h = h mod (nt_size t div 2) + nt_size t div 2"
  using mod_double_cases[of h "nt_size t div 2"] size_ok_even[OF assms]
  by (auto simp: table_slot_eq[OF assms])

lemma table_slot_less:
  assumes "size_ok (nt_size t)"
  shows "table_slot t h < nt_size t"
proof -
  have "h mod (nt_size t div 2) < nt_size t div 2" using size_ok_even[OF assms] by simp
  with table_slot_cases[OF assms, of h] size_ok_even[OF assms] show ?thesis by linarith
qed

lemma table_slot_mod:
  assumes "size_ok (nt_size t)"
  shows "table_slot t h mod (nt_size t div 2) = h mod (nt_size t div 2)"
  using table_slot_cases[OF assms, of h] by auto

lemma table_slot_upper:
  \<comment> \<open>only split buckets have a partner in the upper half\<close>
  assumes "size_ok (nt_size t)" and "nt_size t div 2 \<le> table_slot t h"
  shows "table_slot t h - nt_size t div 2 < nt_split t"
proof (rule ccontr)
  assume "\<not> ?thesis"
  with table_slot_cases[OF assms(1), of h] assms size_ok_even[OF assms(1)] show False
    by (auto simp: table_slot_eq[OF assms(1)] not_less split: if_splits)
       (metis less_irrefl mod_less_divisor not_less)
qed

lemma table_slot_split:
  assumes "size_ok (nt_size t)" and "nt_split t < nt_size t div 2"
  shows "table_slot (t\<lparr>nt_split := nt_split t + 1\<rparr>) h =
    (if h mod (nt_size t div 2) = nt_split t then h mod nt_size t else table_slot t h)"
  using assms by (auto simp: table_slot_eq)

lemma table_slot_resize:
  assumes "size_ok (nt_size t)" and "nt_split t = nt_size t div 2"
  shows "table_slot (t\<lparr>nt_array := a, nt_size := nt_size t * 2, nt_split := 0\<rparr>) h = table_slot t h"
proof -
  have "h mod (nt_size t div 2) < nt_size t div 2" using size_ok_even[OF assms(1)] by simp
  then show ?thesis using assms size_ok_double[OF assms(1)] by (simp add: table_slot_eq)
qed

lemma table_slot_reduce:
  assumes "size_ok (nt_size t)" and "nt_split t = 0" and "NODE_TABLE_MIN_SIZE \<le> nt_size t div 2"
  shows "table_slot (t\<lparr>nt_array := a, nt_size := nt_size t div 2, nt_split := nt_size t div 2 div 2\<rparr>) h =
    table_slot t h"
proof -
  let ?b = "nt_size t div 2"
  have ok: "size_ok ?b" by (rule size_ok_half[OF assms(1,3)])
  have "h mod (?b div 2) < ?b div 2" using size_ok_even[OF ok] by simp
  then show ?thesis using assms ok by (simp add: table_slot_eq)
qed

lemma table_slot_array [simp]: "table_slot (t\<lparr>nt_array := a\<rparr>) = table_slot t"
  "table_slot (t\<lparr>nt_use := u\<rparr>) = table_slot t"
  by (simp_all add: fun_eq_iff table_slot_def)

section \<open>Every operation keeps the invariant\<close>

lemma table_okD:
  assumes "table_ok key t S"
  shows "size_ok (nt_size t)" "length (nt_array t) = nt_size t" "nt_split t \<le> nt_size t div 2"
    "i < nt_size t \<Longrightarrow> distinct (nt_array t ! i)"
    "i < nt_size t \<Longrightarrow> set (nt_array t ! i) = {p \<in> S. table_slot t (key p) = i}"
  using assms by (auto simp: table_ok_def)

lemma table_okI:
  assumes "size_ok (nt_size t)" "length (nt_array t) = nt_size t" "nt_split t \<le> nt_size t div 2"
    and "\<And>i. i < nt_size t \<Longrightarrow> distinct (nt_array t ! i)"
    and "\<And>i. i < nt_size t \<Longrightarrow> set (nt_array t ! i) = {p \<in> S. table_slot t (key p) = i}"
  shows "table_ok key t S"
  using assms by (simp add: table_ok_def)

lemma table_ok_cong:
  assumes "table_ok key t S" and "\<And>p. p \<in> S \<Longrightarrow> key' p = key p"
  shows "table_ok key' t S"
proof (rule table_okI)
  fix i assume "i < nt_size t"
  then show "set (nt_array t ! i) = {p \<in> S. table_slot t (key' p) = i}"
    using table_okD(5)[OF assms(1)] assms(2) by auto
qed (use table_okD[OF assms(1)] in auto)

lemma table_ok_use [simp]: "table_ok key (t\<lparr>nt_use := u\<rparr>) S = table_ok key t S"
  by (simp add: table_ok_def)

lemma size_ok_min [simp]: "size_ok NODE_TABLE_MIN_SIZE"
  unfolding size_ok_def by (rule exI[of _ 0]) simp

lemma table_init_ok:
  assumes "fst (malloc m)"
  shows "fst (node_table_init m) = 0" "table_ok key (fst (snd (node_table_init m))) {}"
  using assms by (auto simp: node_table_init_def table_ok_def split: prod.splits)

lemma table_link_ok:
  assumes "table_ok key t S" and "p \<notin> S" and "hash = table_slot t (key p)"
  shows "table_ok key (t\<lparr>nt_array := (nt_array t)[hash := p # nt_array t ! hash], nt_use := u\<rparr>) (insert p S)"
proof -
  have h: "hash < nt_size t" using assms(3) table_slot_less[OF table_okD(1)[OF assms(1)]] by simp
  show ?thesis
    by (rule table_okI) (use table_okD[OF assms(1)] h assms(2,3) in \<open>auto simp: nth_list_update\<close>)
qed

lemma table_unlink_ok:
  assumes "table_ok key t S" and "hash = table_slot t (key p)"
  shows "table_ok key (table_unlink hash p t) (S - {p})"
proof -
  have h: "hash < nt_size t" using assms(2) table_slot_less[OF table_okD(1)[OF assms(1)]] by simp
  show ?thesis
    by (rule table_okI)
      (use table_okD[OF assms(1)] h assms(2) in \<open>auto simp: table_unlink_def nth_list_update\<close>)
qed

text \<open>Moving the nodes of a split bucket.\<close>

lemma rehash_chain_fields:
  assumes "rehash_chain key hash t ps = (stay, t')"
  shows "nt_size t' = nt_size t" "nt_split t' = nt_split t" "nt_use t' = nt_use t"
    "length (nt_array t') = length (nt_array t)" "table_slot t' = table_slot t"
    "stay = filter (\<lambda>p. table_slot t (key p) = hash) ps"
proof -
  have "nt_size t' = nt_size t \<and> nt_split t' = nt_split t \<and> nt_use t' = nt_use t \<and>
    length (nt_array t') = length (nt_array t) \<and> table_slot t' = table_slot t \<and>
    stay = filter (\<lambda>p. table_slot t (key p) = hash) ps"
    using assms
  proof (induction key hash t ps arbitrary: stay t' rule: rehash_chain.induct)
    case (1 key hash t)
    then show ?case by simp
  next
    case (2 key hash t p ps)
    show ?case
    proof (cases "table_slot t (key p) = hash")
      case True
      then obtain stay1 where "rehash_chain key hash t ps = (stay1, t')" "stay = p # stay1"
        using "2.prems" by (auto simp: Let_def split: prod.splits)
      from "2.IH"(2)[OF refl _ this(1)] True this(2) show ?thesis by simp
    next
      case False
      let ?n = "table_slot t (key p)"
      have "rehash_chain key hash (t\<lparr>nt_array := (nt_array t)[?n := p # nt_array t ! ?n]\<rparr>) ps = (stay, t')"
        using False "2.prems" by (simp add: Let_def)
      from "2.IH"(1)[OF refl False this] False show ?thesis by simp
    qed
  qed
  then show "nt_size t' = nt_size t" "nt_split t' = nt_split t" "nt_use t' = nt_use t"
    "length (nt_array t') = length (nt_array t)" "table_slot t' = table_slot t"
    "stay = filter (\<lambda>p. table_slot t (key p) = hash) ps" by blast+
qed

lemma rehash_chain_bucket:
  assumes "rehash_chain key hash t ps = (stay, t')"
    and "\<And>h. table_slot t h < length (nt_array t)" and "i \<noteq> hash" and "i < length (nt_array t)"
  shows "nt_array t' ! i = rev (filter (\<lambda>p. table_slot t (key p) = i) ps) @ nt_array t ! i"
  using assms
proof (induction key hash t ps arbitrary: stay t' rule: rehash_chain.induct)
  case (1 key hash t)
  then show ?case by simp
next
  case (2 key hash t p ps)
  show ?case
  proof (cases "table_slot t (key p) = hash")
    case True
    then obtain stay1 where "rehash_chain key hash t ps = (stay1, t')"
      using "2.prems"(1) by (auto simp: Let_def split: prod.splits)
    from "2.IH"(2)[OF refl _ this] True "2.prems" show ?thesis by simp
  next
    case False
    let ?n = "table_slot t (key p)"
    have "rehash_chain key hash (t\<lparr>nt_array := (nt_array t)[?n := p # nt_array t ! ?n]\<rparr>) ps = (stay, t')"
      using False "2.prems"(1) by (simp add: Let_def)
    from "2.IH"(1)[OF refl False this] "2.prems" show ?thesis by simp
  qed
qed

lemma rehash_chain_buckets:
  assumes "rehash_chain key hash t ps = (stay, t')"
    and "\<And>h. table_slot t h < length (nt_array t)" and "i \<noteq> hash" and "i < length (nt_array t)"
  shows "set (nt_array t' ! i) = set (nt_array t ! i) \<union> {p \<in> set ps. table_slot t (key p) = i}"
    and "distinct ps \<Longrightarrow> distinct (nt_array t ! i) \<Longrightarrow> set ps \<inter> set (nt_array t ! i) = {} \<Longrightarrow>
      distinct (nt_array t' ! i)"
  by (auto simp: rehash_chain_bucket[OF assms])

lemma table_split_ok:
  assumes ok: "table_ok key t S" and lt: "nt_split t < nt_size t div 2"
    and r: "rehash_chain key (nt_split t) (t\<lparr>nt_split := nt_split t + 1\<rparr>) (nt_array t ! nt_split t) = (stay, t')"
  shows "table_ok key (t'\<lparr>nt_array := (nt_array t')[nt_split t := stay]\<rparr>) S"
proof (rule table_okI)
  let ?s = "nt_split t" and ?t1 = "t\<lparr>nt_split := nt_split t + 1\<rparr>"
  note D = table_okD[OF ok]
  note F = rehash_chain_fields[OF r]
  have even: "nt_size t = 2 * (nt_size t div 2)" using size_ok_even[OF D(1)] by simp
  have ss: "?s < nt_size t" using lt by simp
  show "size_ok (nt_size (t'\<lparr>nt_array := (nt_array t')[?s := stay]\<rparr>))" using F D by simp
  show "length (nt_array (t'\<lparr>nt_array := (nt_array t')[?s := stay]\<rparr>)) =
    nt_size (t'\<lparr>nt_array := (nt_array t')[?s := stay]\<rparr>)" using F D by simp
  show "nt_split (t'\<lparr>nt_array := (nt_array t')[?s := stay]\<rparr>) \<le>
    nt_size (t'\<lparr>nt_array := (nt_array t')[?s := stay]\<rparr>) div 2" using F D lt by simp
  have less: "table_slot ?t1 h < length (nt_array ?t1)" for h
    using table_slot_less[of ?t1 h] D by simp
  have slot: "table_slot ?t1 h = (if h mod (nt_size t div 2) = ?s then h mod nt_size t else table_slot t h)" for h
    using table_slot_split[OF D(1) lt] by simp
  have old: "h mod (nt_size t div 2) = ?s \<Longrightarrow> table_slot t h = ?s" for h
    by (simp add: table_slot_eq[OF D(1)])
  have oldD: "table_slot t h = ?s \<Longrightarrow> h mod (nt_size t div 2) = ?s" for h
    using table_slot_mod[OF D(1), of h] lt by simp
  fix i assume i: "i < nt_size (t'\<lparr>nt_array := (nt_array t')[?s := stay]\<rparr>)"
  then have i': "i < nt_size t" using F by simp
  have S_s: "set (nt_array t ! ?s) = {p \<in> S. table_slot t (key p) = ?s}" "distinct (nt_array t ! ?s)"
    using D(4,5) ss by blast+
  have S_i: "set (nt_array t ! i) = {p \<in> S. table_slot t (key p) = i}" "distinct (nt_array t ! i)"
    using D(4,5) i' by blast+
  show "distinct (nt_array (t'\<lparr>nt_array := (nt_array t')[?s := stay]\<rparr>) ! i)"
  proof (cases "i = ?s")
    case True
    then show ?thesis using F S_s D ss by simp
  next
    case False
    then have "set (nt_array t ! ?s) \<inter> set (nt_array t ! i) = {}" using S_s S_i by auto
    with rehash_chain_buckets(2)[OF r less False] False S_s S_i i' D show ?thesis by simp
  qed
  show "set (nt_array (t'\<lparr>nt_array := (nt_array t')[?s := stay]\<rparr>) ! i) =
    {p \<in> S. table_slot (t'\<lparr>nt_array := (nt_array t')[?s := stay]\<rparr>) (key p) = i}"
  proof (cases "i = ?s")
    case True
    have "table_slot ?t1 h = ?s \<Longrightarrow> table_slot t h = ?s" for h
      using old[of h] unfolding slot by (cases "h mod (nt_size t div 2) = ?s") simp_all
    then show ?thesis using True F S_s D ss by auto
  next
    case False
    have "table_slot ?t1 h = i \<longleftrightarrow> (table_slot t h = i \<or> (table_slot t h = ?s \<and> table_slot ?t1 h = i))" for h
      using False old[of h] oldD[of h] unfolding slot by (cases "h mod (nt_size t div 2) = ?s") auto
    note E = this
    have "set (nt_array t' ! i) =
      {p \<in> S. table_slot t (key p) = i} \<union> {p \<in> S. table_slot t (key p) = ?s \<and> table_slot ?t1 (key p) = i}"
      using rehash_chain_buckets(1)[OF r less False] S_s S_i i' D by auto
    also have "\<dots> = {p \<in> S. table_slot ?t1 (key p) = i}" using E by blast
    finally show ?thesis using F False by simp
  qed
qed

lemma table_resize_ok:
  assumes "table_ok key t S" and "nt_split t = nt_size t div 2"
  shows "table_ok key (fst (snd (node_table_resize t m))) S"
proof (cases "fst (malloc m)")
  case True
  let ?t = "t\<lparr>nt_array := nt_array t @ replicate (nt_size t) [], nt_size := nt_size t * 2, nt_split := 0\<rparr>"
  note D = table_okD[OF assms(1)]
  have "table_ok key ?t S"
  proof (rule table_okI)
    fix i assume i: "i < nt_size ?t"
    show "distinct (nt_array ?t ! i)" using i D by (cases "i < nt_size t") (auto simp: nth_append)
    have "table_slot t (key p) < nt_size t" for p by (rule table_slot_less[OF D(1)])
    then show "set (nt_array ?t ! i) = {p \<in> S. table_slot ?t (key p) = i}"
      using i D table_slot_resize[OF D(1) assms(2)]
      by (cases "i < nt_size t") (auto simp: nth_append)
  qed (use D size_ok_double[OF D(1)] in auto)
  with True show ?thesis by (auto simp: node_table_resize_def Let_def split: prod.splits)
next
  case False
  with assms show ?thesis by (auto simp: node_table_resize_def Let_def split: prod.splits)
qed

lemma table_reduce_ok:
  assumes "table_ok key t S" and "nt_split t = 0"
  shows "table_ok key (fst (node_table_reduce t m)) S"
proof (cases "nt_size t div 2 < NODE_TABLE_MIN_SIZE")
  case True
  with assms show ?thesis by (simp add: node_table_reduce_def)
next
  case False
  let ?b = "nt_size t div 2"
  let ?t = "t\<lparr>nt_array := take ?b (nt_array t), nt_size := ?b, nt_split := ?b div 2\<rparr>"
  note D = table_okD[OF assms(1)]
  have min: "NODE_TABLE_MIN_SIZE \<le> ?b" using False by simp
  have "table_ok key ?t S"
  proof (rule table_okI)
    fix i assume i: "i < nt_size ?t"
    then have i': "i < nt_size t" by simp
    show "distinct (nt_array ?t ! i)" using i i' D by simp
    show "set (nt_array ?t ! i) = {p \<in> S. table_slot ?t (key p) = i}"
      using i D(5)[OF i'] table_slot_reduce[OF D(1) assms(2) min] by simp
  qed (use D size_ok_half[OF D(1) min] in auto)
  with False show ?thesis by (simp add: node_table_reduce_def Let_def split: prod.splits)
qed

text \<open>Merging a split bucket back.\<close>

lemma table_slot_merge:
  assumes "size_ok (nt_size t)" and "nt_split t \<le> nt_size t div 2" and "nt_split t = Suc s"
  shows "table_slot (t\<lparr>nt_split := s\<rparr>) h =
    (if table_slot t h = s + nt_size t div 2 then s else table_slot t h)"
proof -
  have "nt_split (t\<lparr>nt_split := s\<rparr>) < nt_size (t\<lparr>nt_split := s\<rparr>) div 2" using assms by simp
  from table_slot_split[OF _ this, of h] assms
  have A: "table_slot t h =
      (if h mod (nt_size t div 2) = s then h mod nt_size t else table_slot (t\<lparr>nt_split := s\<rparr>) h)"
    by (metis (no_types, lifting) Suc_eq_plus1 node_table.select_convs(3,4) node_table.surjective
        node_table.update_convs(4))
  have B: "h mod (nt_size t div 2) = s \<Longrightarrow> table_slot (t\<lparr>nt_split := s\<rparr>) h = s"
    using assms by (simp add: table_slot_eq)
  have C: "table_slot t h = s + nt_size t div 2 \<Longrightarrow> h mod (nt_size t div 2) = s"
    using table_slot_mod[OF assms(1), of h] assms by simp
  have E: "h mod (nt_size t div 2) = s \<Longrightarrow> h mod nt_size t = s \<or> h mod nt_size t = s + nt_size t div 2"
    using mod_double_cases[of h "nt_size t div 2"] size_ok_even[OF assms(1)] by simp
  show ?thesis using A B C E by (cases "h mod (nt_size t div 2) = s") auto
qed

lemma table_merge_ok:
  assumes "table_ok key t S" and "nt_split t = Suc s"
  shows "table_ok key (t\<lparr>nt_split := s, nt_array := (nt_array t)
    [s := nt_array t ! s @ nt_array t ! (s + nt_size t div 2), s + nt_size t div 2 := []]\<rparr>) S"
    (is "table_ok key ?t S")
proof (rule table_okI)
  note D = table_okD[OF assms(1)]
  let ?u = "s + nt_size t div 2"
  have even: "nt_size t = 2 * (nt_size t div 2)" using size_ok_even[OF D(1)] by simp
  have su: "s < nt_size t" "?u < nt_size t" "s \<noteq> ?u" using assms(2) D(3) even by linarith+
  have slot: "table_slot ?t h = (if table_slot t h = ?u then s else table_slot t h)" for h
    using table_slot_merge[OF D(1,3) assms(2)] by simp
  fix i assume "i < nt_size ?t"
  then have i: "i < nt_size t" by simp
  have S: "set (nt_array t ! s) = {p \<in> S. table_slot t (key p) = s}"
    "set (nt_array t ! ?u) = {p \<in> S. table_slot t (key p) = ?u}"
    "set (nt_array t ! i) = {p \<in> S. table_slot t (key p) = i}" using D(5) su i by blast+
  have dist: "distinct (nt_array t ! s)" "distinct (nt_array t ! ?u)" "distinct (nt_array t ! i)"
    using D(4) su i by blast+
  have bucket: "nt_array ?t ! i =
    (if i = ?u then [] else if i = s then nt_array t ! s @ nt_array t ! ?u else nt_array t ! i)"
    using su i D(2) by (simp add: nth_list_update)
  show "distinct (nt_array ?t ! i)" unfolding bucket using S dist su(3) by auto
  show "set (nt_array ?t ! i) = {p \<in> S. table_slot ?t (key p) = i}"
    unfolding bucket slot using S su(3) by auto
qed (use table_okD[OF assms(1)] assms(2) in auto)

lemma remerge_loop_ok: "table_ok key t S \<Longrightarrow> table_ok key (remerge_loop iter t) S"
proof (induction iter arbitrary: t)
  case 0
  then show ?case by simp
next
  case (Suc iter)
  show ?case
  proof (cases "nt_split t")
    case 0
    then show ?thesis using Suc.prems by simp
  next
    case (Suc s)
    let ?u = "s + nt_size t div 2"
    note M = table_merge_ok[OF Suc.prems Suc]
    show ?thesis
    proof (cases "nt_array t ! ?u = []")
      case True
      have "(nt_array t)[s := nt_array t ! s @ nt_array t ! ?u, ?u := []] = nt_array t"
        using True by (metis append_Nil2 list_update_id)
      with M have "table_ok key (t\<lparr>nt_split := s\<rparr>) S"
        by (simp add: node_table.defs)
      from Suc.IH[OF this] Suc True show ?thesis by (simp add: Let_def)
    next
      case False
      with M Suc show ?thesis by (simp add: Let_def node_table.defs)
    qed
  qed
qed

lemma remerge_ok: "table_ok key t S \<Longrightarrow> table_ok key (fst (remerge t m)) S"
  using table_reduce_ok[of key t S m] remerge_loop_ok
  by (auto simp: remerge_def split: prod.splits)

lemma rehash_ok:
  assumes "table_ok key t S"
  shows "table_ok key (fst (rehash key t m)) S"
proof (cases "nt_split t = nt_size t div 2")
  case True
  with assms show ?thesis by (simp add: rehash_def)
next
  case False
  let ?s = "nt_split t"
  obtain stay t1 where r: "rehash_chain key ?s (t\<lparr>nt_split := ?s + 1\<rparr>) (nt_array t ! ?s) = (stay, t1)"
    by fastforce
  let ?t2 = "t1\<lparr>nt_array := (nt_array t1)[?s := stay]\<rparr>"
  have ok: "table_ok key ?t2 S"
    using table_split_ok[OF assms _ r] table_okD(3)[OF assms] False by simp
  show ?thesis
    using r False ok table_resize_ok[OF ok, of m] by (simp add: rehash_def Let_def)
qed

lemma rehash_use: "nt_use (fst (rehash key t m)) = nt_use t"
proof -
  have "nt_use (fst (snd (node_table_resize t m))) = nt_use t" for t m
    by (simp add: node_table_resize_def Let_def split: prod.splits)
  then show ?thesis
    by (auto simp: rehash_def Let_def split: prod.splits dest: rehash_chain_fields)
qed

lemma remerge_use: "nt_use (fst (remerge t m)) = nt_use t"
proof -
  have "nt_use (remerge_loop i t) = nt_use t" for i t
    by (induction i t rule: remerge_loop.induct) (simp_all add: Let_def)
  moreover have "nt_use (fst (node_table_reduce t m)) = nt_use t"
    by (simp add: node_table_reduce_def Let_def split: prod.splits)
  ultimately show ?thesis by (auto simp: remerge_def split: prod.splits)
qed

lemma table_ok_finite: "table_ok key t S \<Longrightarrow> finite S"
proof -
  assume ok: "table_ok key t S"
  note D = table_okD[OF ok]
  have "S \<subseteq> (\<Union>i < nt_size t. set (nt_array t ! i))"
    using D(5) table_slot_less[OF D(1)] by blast
  then show ?thesis by (rule finite_subset) auto
qed

lemma table_insert_ok:
  assumes "table_ok key t S" and "p \<notin> S"
  shows "table_ok key (fst (table_insert key (table_slot t (key p)) p t m)) (insert p S)"
    and "nt_use (fst (table_insert key (table_slot t (key p)) p t m)) = nt_use t + 1"
  using table_link_ok[OF assms refl, of "nt_use t + 1"]
  by (auto simp: table_insert_def Let_def rehash_use intro!: rehash_ok)

lemma table_dec_ok:
  assumes "table_ok key t S"
  shows "table_ok key (fst (table_dec t m)) S" and "nt_use (fst (table_dec t m)) = nt_use t - 1"
  using assms by (auto simp: table_dec_def Let_def remerge_use intro!: remerge_ok)

lemma table_bucket_set:
  assumes "table_ok key t S"
  shows "set (table_bucket t h) = {p \<in> S. table_slot t (key p) = table_slot t h}"
  using table_okD[OF assms] table_slot_less[of t h] by (simp add: table_bucket_def)

lemma table_unlink_fields [simp]: "nt_use (table_unlink h p t) = nt_use t"
  by (simp add: table_unlink_def)

section \<open>The index interface\<close>

text \<open>
  What the node tree relies on: an index holds a set of nodes by key, \<open>bucket\<close> gives the
  candidates for a key, and adding or removing a node changes the set by that node alone, however
  the index reorganises itself meanwhile.
\<close>

locale node_index =
  fixes holds :: "(addr \<Rightarrow> nat) \<Rightarrow> 't \<Rightarrow> addr set \<Rightarrow> bool"
    and bucket :: "'t \<Rightarrow> nat \<Rightarrow> addr list"
    and add :: "(addr \<Rightarrow> nat) \<Rightarrow> addr \<Rightarrow> 't \<Rightarrow> mem \<Rightarrow> 't \<times> mem"
    and del :: "(addr \<Rightarrow> nat) \<Rightarrow> addr \<Rightarrow> 't \<Rightarrow> mem \<Rightarrow> 't \<times> mem"
    and use :: "'t \<Rightarrow> nat"
  assumes bucket_sound: "holds key t S \<Longrightarrow> p \<in> set (bucket t h) \<Longrightarrow> p \<in> S"
    and bucket_complete: "holds key t S \<Longrightarrow> p \<in> S \<Longrightarrow> p \<in> set (bucket t (key p))"
    and add_holds: "holds key t S \<Longrightarrow> p \<notin> S \<Longrightarrow> holds key (fst (add key p t m)) (insert p S)"
    and add_use: "holds key t S \<Longrightarrow> p \<notin> S \<Longrightarrow> use (fst (add key p t m)) = use t + 1"
    and del_holds: "holds key t S \<Longrightarrow> p \<in> S \<Longrightarrow> holds key (fst (del key p t m)) (S - {p})"
    and del_use: "holds key t S \<Longrightarrow> p \<in> S \<Longrightarrow> use (fst (del key p t m)) = use t - 1"
begin

lemma search_Some:
  \<comment> \<open>a search down a bucket finds the node, when only nodes of that key match\<close>
  assumes "holds key t S" and "p \<in> S" and "P p" and "\<And>q. q \<in> S \<Longrightarrow> P q \<Longrightarrow> q = p"
  shows "List.find P (bucket t (key p)) = Some p"
proof -
  have "List.find P (bucket t (key p)) \<noteq> None"
    using bucket_complete[OF assms(1,2)] assms(3) by (auto simp: find_None_iff)
  then obtain q where q: "List.find P (bucket t (key p)) = Some q" by auto
  then have "q \<in> set (bucket t (key p))" "P q" by (auto simp: find_Some_iff)
  with bucket_sound[OF assms(1)] assms(4) q show ?thesis by blast
qed

lemma search_None:
  assumes "holds key t S" and "\<And>q. q \<in> S \<Longrightarrow> \<not> P q"
  shows "List.find P (bucket t h) = None"
  using bucket_sound[OF assms(1)] assms(2) by (auto simp: find_None_iff)

lemma search_sound:
  assumes "holds key t S" and "List.find P (bucket t h) = Some p"
  shows "p \<in> S \<and> P p"
proof -
  from assms(2) have "p \<in> set (bucket t h)" "P p" by (auto simp: find_Some_iff)
  with bucket_sound[OF assms(1)] show ?thesis by blast
qed

lemma search_added:
  assumes "holds key t S" and "p \<notin> S" and "P p" and "\<And>q. q \<in> S \<Longrightarrow> \<not> P q"
  shows "List.find P (bucket (fst (add key p t m)) (key p)) = Some p"
  by (rule search_Some[OF add_holds[OF assms(1,2)]]) (use assms in auto)

lemma search_deleted:
  assumes "holds key t S" and "p \<in> S" and "\<And>q. q \<in> S \<Longrightarrow> P q \<Longrightarrow> q = p"
  shows "List.find P (bucket (fst (del key p t m)) h) = None"
  by (rule search_None[OF del_holds[OF assms(1,2)]]) (use assms in auto)

lemma search_others_kept:
  assumes "holds key t S" and "p \<in> S" and "q \<in> S" and "q \<noteq> p" and "P q"
    and "\<And>r. r \<in> S \<Longrightarrow> P r \<Longrightarrow> r = q"
  shows "List.find P (bucket (fst (del key p t m)) (key q)) = Some q"
proof (rule search_Some[OF del_holds[OF assms(1,2)]])
  show "q \<in> S - {p}" using assms(3,4) by simp
  show "r = q" if "r \<in> S - {p}" "P r" for r using assms(6) that by simp
qed (rule assms(5))

end

interpretation ntab: node_index table_ok table_bucket table_add table_del nt_use
proof
  fix key :: "addr \<Rightarrow> nat" and t S p m h
  assume ok: "table_ok key t S"
  show "p \<in> set (table_bucket t h) \<Longrightarrow> p \<in> S" using table_bucket_set[OF ok] by auto
  show bucket: "p \<in> S \<Longrightarrow> p \<in> set (table_bucket t (key p))" using table_bucket_set[OF ok] by auto
  show "p \<notin> S \<Longrightarrow> table_ok key (fst (table_add key p t m)) (insert p S)"
    "p \<notin> S \<Longrightarrow> nt_use (fst (table_add key p t m)) = nt_use t + 1"
    using table_insert_ok[OF ok] by (simp_all add: table_add_def)
  show "p \<in> S \<Longrightarrow> table_ok key (fst (table_del key p t m)) (S - {p})"
    "p \<in> S \<Longrightarrow> nt_use (fst (table_del key p t m)) = nt_use t - 1"
    using table_dec_ok[OF table_unlink_ok[OF ok refl, of p], of m] bucket
    by (simp_all add: table_del_def)
qed

section \<open>Properties\<close>

text \<open>
  Property C33. Linking a node into an index adds exactly that node: the table, which may
  split a bucket and double its array on the way (or fail to), still holds every node once and in
  the bucket its hash selects, counts its nodes, and a search for the node's key finds it.
\<close>

theorem table_insert_correct:
  assumes "table_ok key t S" and "p \<notin> S" and "nt_use t = card S"
  shows "table_ok key (fst (table_insert key (table_slot t (key p)) p t m)) (insert p S) \<and>
    nt_use (fst (table_insert key (table_slot t (key p)) p t m)) = card (insert p S) \<and>
    p \<in> set (table_bucket (fst (table_insert key (table_slot t (key p)) p t m)) (key p))"
proof -
  note T = ntab.add_holds[OF assms(1,2), of m] ntab.add_use[OF assms(1,2), of m]
  from ntab.bucket_complete[OF T(1), of p] T assms(2,3) table_ok_finite[OF assms(1)]
  show ?thesis by (simp add: table_add_def)
qed

lemma table_insert_correct_witness:
  "table_ok unat (fst (table_insert unat
     (table_slot (fst (snd (node_table_init []))) (unat (5 :: addr))) 5 (fst (snd (node_table_init []))) [])) {5} \<and>
   nt_use (fst (table_insert unat
     (table_slot (fst (snd (node_table_init []))) (unat (5 :: addr))) 5 (fst (snd (node_table_init []))) [])) = 1"
  using table_insert_correct[of unat "fst (snd (node_table_init []))" "{}" 5 "[]"]
    table_init_ok(2)[of "[]" unat]
  by (simp add: node_table_init_def)

text \<open>
  Property C34. Unhashing a node removes exactly that node, whether or not the table then
  shrinks its array and merges a bucket, and every other node is still found under its key.
\<close>

theorem table_del_correct:
  assumes "table_ok key t S" and "p \<in> S" and "nt_use t = card S"
  shows "table_ok key (fst (table_del key p t m)) (S - {p}) \<and>
    nt_use (fst (table_del key p t m)) = card (S - {p}) \<and>
    p \<notin> set (table_bucket (fst (table_del key p t m)) (key p)) \<and>
    S - {p} \<subseteq> {q. q \<in> set (table_bucket (fst (table_del key p t m)) (key q))}"
proof -
  note T = ntab.del_holds[OF assms(1,2), of m] ntab.del_use[OF assms(1,2), of m]
  from ntab.bucket_complete[OF T(1)] ntab.bucket_sound[OF T(1), of p] T assms(2,3)
  show ?thesis by (auto simp: card_Diff_singleton)
qed

lemma table_del_correct_witness:
  "table_ok unat (fst (table_del unat 5 (fst (table_add unat 5 (fst (snd (node_table_init []))) [])) [])) {} \<and>
   nt_use (fst (table_del unat 5 (fst (table_add unat 5 (fst (snd (node_table_init []))) [])) [])) = 0"
proof -
  have init: "table_ok unat (fst (snd (node_table_init []))) {}" by (rule table_init_ok(2)) simp
  note added = ntab.add_holds[OF init, of 5 "[]"] ntab.add_use[OF init, of 5 "[]"]
  have "nt_use (fst (snd (node_table_init []))) = 0" by (simp add: node_table_init_def)
  with table_del_correct[of unat "fst (table_add unat 5 (fst (snd (node_table_init []))) [])" "{5}" 5 "[]"]
    added show ?thesis by simp
qed

end
