(* ===== verification/Node_Slab.thy ===== *)
theory Node_Slab
  imports Node_Table
begin

text \<open>
  The node allocator of src/lib/fuse.c: nodes are carved out of slabs of one page each
  (\<open>struct node_slab\<close>); a slab is on the partial list while it has free nodes and on the
  full list otherwise, and is unmapped with its last node. A slab is found from a node by masking
  the node's address. The page \<open>mmap\<close> returns is taken from a script, \<open>sb_pages\<close> (a missing
  entry or \<open>None\<close> is \<open>MAP_FAILED\<close>). Doubly linked lists are HOL lists.
\<close>

record slab =
  sl_base :: addr
  sl_free :: "addr list"
  sl_used :: int

record slabs =
  sb_pagesize :: addr
  sb_node_size :: nat
  sb_partial :: "slab list"
  sb_full :: "slab list"
  sb_pages :: "addr option list"

definition sizeof_node_slab :: nat where "sizeof_node_slab = 40"

definition sizeof_node :: nat where "sizeof_node = 152"

definition sizeof_node_lru :: nat where "sizeof_node_lru = 184"

definition get_node_size :: "bool \<Rightarrow> nat" where
  "get_node_size lru_enabled = (if lru_enabled then sizeof_node_lru else sizeof_node)"

definition node_to_slab :: "slabs \<Rightarrow> addr \<Rightarrow> addr" where
  "node_to_slab sb p = p AND NOT (sb_pagesize sb - 1)"

definition slab_num :: "slabs \<Rightarrow> nat" where
  "slab_num sb = (unat (sb_pagesize sb) - sizeof_node_slab) div sb_node_size sb"

definition slab_nodes :: "slabs \<Rightarrow> addr \<Rightarrow> addr list" where
  "slab_nodes sb base =
     (let num = slab_num sb; start = base + sb_pagesize sb - of_nat (num * sb_node_size sb)
      in map (\<lambda>i. start + of_nat (i * sb_node_size sb)) [0..<num])"

definition alloc_slab :: "slabs \<Rightarrow> int \<times> slabs" where
  "alloc_slab sb =
     (case sb_pages sb of
        [] \<Rightarrow> (-1, sb)
      | None # ps \<Rightarrow> (-1, sb\<lparr>sb_pages := ps\<rparr>)
      | Some base # ps \<Rightarrow>
          (0, sb\<lparr>sb_pages := ps,
                 sb_partial := sb_partial sb @
                   [\<lparr>sl_base = base, sl_free = slab_nodes sb base, sl_used = 0\<rparr>]\<rparr>))"

definition take_node :: "slabs \<Rightarrow> (addr \<times> slabs) option" where
  \<comment> \<open>the first partial slab gives its first free node; \<open>None\<close> if it had none\<close>
  "take_node sb =
     (case sb_partial sb of
        [] \<Rightarrow> None
      | s # ss \<Rightarrow>
          (case sl_free s of
             [] \<Rightarrow> None
           | p # ps \<Rightarrow>
               let s' = s\<lparr>sl_used := sl_used s + 1, sl_free := ps\<rparr>
               in if ps = [] then Some (p, sb\<lparr>sb_partial := ss, sb_full := sb_full sb @ [s']\<rparr>)
                  else Some (p, sb\<lparr>sb_partial := s' # ss\<rparr>)))"

definition slab_alloc :: "slabs \<Rightarrow> (addr option \<times> slabs) option" where
  \<comment> \<open>\<open>alloc_node\<close>: an inner \<open>None\<close> is NULL\<close>
  "slab_alloc sb =
     (let (res, sb) = (if sb_partial sb = [] then alloc_slab sb else (0, sb))
      in if res \<noteq> 0 then Some (None, sb)
         else map_option (\<lambda>(p, sb). (Some p, sb)) (take_node sb))"

definition list_del :: "addr \<Rightarrow> slab list \<Rightarrow> slab list" where
  "list_del base = filter (\<lambda>s. sl_base s \<noteq> base)"

definition free_slab :: "slabs \<Rightarrow> addr \<Rightarrow> slabs" where
  "free_slab sb base =
     sb\<lparr>sb_partial := list_del base (sb_partial sb), sb_full := list_del base (sb_full sb)\<rparr>"

definition slab_update :: "slab \<Rightarrow> slab list \<Rightarrow> slab list" where
  "slab_update s' = map (\<lambda>s. if sl_base s = sl_base s' then s' else s)"

definition free_node_mem :: "slabs \<Rightarrow> addr \<Rightarrow> slabs option" where
  \<comment> \<open>\<open>None\<close>: the address is in no slab\<close>
  "free_node_mem sb p =
     (case List.find (\<lambda>s. sl_base s = node_to_slab sb p) (sb_partial sb @ sb_full sb) of
        None \<Rightarrow> None
      | Some s \<Rightarrow>
          let base = sl_base s; s1 = s\<lparr>sl_used := sl_used s - 1\<rparr>
          in if sl_used s1 \<noteq> 0 then
               if sl_free s1 = [] then
                 let sb1 = free_slab sb base
                 in Some (sb1\<lparr>sb_partial := sb_partial sb1 @ [s1\<lparr>sl_free := [p]\<rparr>]\<rparr>)
               else
                 let s2 = s1\<lparr>sl_free := p # sl_free s1\<rparr>
                 in Some (sb\<lparr>sb_partial := slab_update s2 (sb_partial sb),
                             sb_full := slab_update s2 (sb_full sb)\<rparr>)
             else Some (free_slab sb base))"

section \<open>Which nodes are allocated\<close>

definition page_ok :: "slabs \<Rightarrow> bool" where
  \<comment> \<open>the page size is a power of two and the page holds a node\<close>
  "page_ok sb \<longleftrightarrow> (\<exists>k < 63. sb_pagesize sb = 2 ^ k) \<and> 0 < sb_node_size sb \<and>
     sizeof_node_slab + sb_node_size sb \<le> unat (sb_pagesize sb)"

definition aligned :: "slabs \<Rightarrow> addr \<Rightarrow> bool" where
  "aligned sb base \<longleftrightarrow> node_to_slab sb base = base"

definition slab_ok :: "slabs \<Rightarrow> slab \<Rightarrow> bool" where
  "slab_ok sb s \<longleftrightarrow> aligned sb (sl_base s) \<and> distinct (sl_free s) \<and>
     set (sl_free s) \<subseteq> set (slab_nodes sb (sl_base s)) \<and>
     sl_used s = int (card (set (slab_nodes sb (sl_base s)) - set (sl_free s))) \<and> 0 < sl_used s"

definition live_in :: "slabs \<Rightarrow> slab \<Rightarrow> addr set" where
  "live_in sb s = set (slab_nodes sb (sl_base s)) - set (sl_free s)"

definition live :: "slabs \<Rightarrow> addr set" where
  "live sb = (\<Union>s \<in> set (sb_partial sb @ sb_full sb). live_in sb s)"

definition slabs_ok :: "slabs \<Rightarrow> bool" where
  "slabs_ok sb \<longleftrightarrow> page_ok sb \<and> distinct (map sl_base (sb_partial sb @ sb_full sb)) \<and>
     (\<forall>s \<in> set (sb_partial sb). slab_ok sb s \<and> sl_free s \<noteq> []) \<and>
     (\<forall>s \<in> set (sb_full sb). slab_ok sb s \<and> sl_free s = [])"

definition fresh_page :: "slabs \<Rightarrow> bool" where
  \<comment> \<open>\<open>mmap\<close> returns page-aligned memory that is not mapped already\<close>
  "fresh_page sb = (case sb_pages sb of
     Some base # ps \<Rightarrow> aligned sb base \<and> base \<notin> sl_base ` set (sb_partial sb @ sb_full sb)
   | _ \<Rightarrow> True)"

text \<open>Masking a node's address gives its page.\<close>

lemma mask_split:
  fixes base :: "64 word"
  assumes "k < 64" and "base AND NOT (2 ^ k - 1) = base" and "unat off < 2 ^ k"
  shows "(base + off) AND NOT (2 ^ k - 1) = base"
proof -
  have m: "(2 ^ k - 1 :: 64 word) = mask k" by (simp add: mask_eq_decr_exp)
  have b0: "base AND mask k = 0"
  proof -
    have "base AND mask k = (base AND NOT (mask k)) AND mask k" using assms(2) m by simp
    also have "\<dots> = 0" by (simp add: and.assoc)
    finally show ?thesis .
  qed
  have o: "off AND NOT (mask k) = 0" and o2: "off AND mask k = off"
  proof -
    have "take_bit k off = off"
      using assms(3) by (simp add: word_unat_eq_iff unsigned_take_bit_eq take_bit_nat_eq_self)
    then show o2: "off AND mask k = off" by (simp add: take_bit_eq_mask)
    have "off AND NOT (mask k) = (off AND mask k) AND NOT (mask k)" using o2 by simp
    also have "\<dots> = 0" by (simp add: and.assoc)
    finally show "off AND NOT (mask k) = 0" .
  qed
  have "base AND off = (base AND mask k) AND off" using o2 by (metis and.assoc and.commute)
  then have "base AND off = 0" using b0 by simp
  then have "base + off = base OR off" by (rule disjunctive_add_eq_or)
  then have "(base + off) AND NOT (mask k) = (base AND NOT (mask k)) OR (off AND NOT (mask k))"
    by (simp add: bit.conj_disj_distrib2)
  then show ?thesis using assms(2) m o by simp
qed


lemma slab_nodes_offset:
  assumes "page_ok sb"
  shows "slab_nodes sb base =
      map (\<lambda>i. base + of_nat (unat (sb_pagesize sb) - slab_num sb * sb_node_size sb + i * sb_node_size sb))
        [0..<slab_num sb]"
    and "i < slab_num sb \<Longrightarrow>
      unat (sb_pagesize sb) - slab_num sb * sb_node_size sb + i * sb_node_size sb < unat (sb_pagesize sb)"
proof -
  let ?P = "unat (sb_pagesize sb)" and ?n = "slab_num sb" and ?z = "sb_node_size sb"
  have "?n * ?z \<le> ?P - sizeof_node_slab" unfolding slab_num_def by (rule div_times_less_eq_dividend)
  then have le: "?n * ?z \<le> ?P" by simp
  have "base + sb_pagesize sb - of_nat (?n * ?z) + of_nat (i * ?z) =
      base + of_nat (?P - ?n * ?z + i * ?z)" for i
  proof -
    have "of_nat (?P - ?n * ?z) = sb_pagesize sb - of_nat (?n * ?z)"
      using le by (simp only: of_nat_diff of_nat_unat ucast_id)
    then show ?thesis by (simp only: of_nat_add) simp
  qed
  then show "slab_nodes sb base = map (\<lambda>i. base + of_nat (?P - ?n * ?z + i * ?z)) [0..<?n]"
    by (simp only: slab_nodes_def Let_def)
  assume i: "i < ?n"
  have "0 < ?z" using assms by (simp add: page_ok_def)
  with i have "i * ?z < ?n * ?z" by simp
  with le show "?P - ?n * ?z + i * ?z < ?P" by linarith
qed

lemma slab_nodes_distinct:
  assumes "page_ok sb"
  shows "distinct (slab_nodes sb base)" and "slab_nodes sb base \<noteq> []"
proof -
  let ?P = "unat (sb_pagesize sb)" and ?n = "slab_num sb" and ?z = "sb_node_size sb"
  have P: "?P < 2 ^ 64" using unsigned_less[where 'a = nat, of "sb_pagesize sb"] by simp
  have z: "0 < ?z" using assms by (simp add: page_ok_def)
  have "inj_on (\<lambda>i. base + of_nat (?P - ?n * ?z + i * ?z)) {0..<?n}"
  proof (rule inj_onI)
    fix i j assume ij: "i \<in> {0..<?n}" "j \<in> {0..<?n}"
      and eq: "base + (of_nat (?P - ?n * ?z + i * ?z) :: addr) = base + of_nat (?P - ?n * ?z + j * ?z)"
    have lt: "?P - ?n * ?z + i * ?z < 2 ^ 64" "?P - ?n * ?z + j * ?z < 2 ^ 64"
      using slab_nodes_offset(2)[OF assms] ij P by (auto intro: less_trans)
    from eq have "(of_nat (?P - ?n * ?z + i * ?z) :: addr) = of_nat (?P - ?n * ?z + j * ?z)"
      by (rule add_left_imp_eq)
    then have "unat (of_nat (?P - ?n * ?z + i * ?z) :: addr) = unat (of_nat (?P - ?n * ?z + j * ?z) :: addr)"
      by (rule arg_cong)
    with lt have "?P - ?n * ?z + i * ?z = ?P - ?n * ?z + j * ?z"
      by (simp only: unat_of_nat) simp
    with z show "i = j" by simp
  qed
  then show "distinct (slab_nodes sb base)"
    by (simp add: slab_nodes_offset(1)[OF assms] distinct_map)
  have "0 < ?n" using assms unfolding page_ok_def slab_num_def div_greater_zero_iff by linarith
  then show "slab_nodes sb base \<noteq> []" by (simp add: slab_nodes_offset(1)[OF assms])
qed

lemma slab_nodes_mask:
  assumes "page_ok sb" and "aligned sb base" and "p \<in> set (slab_nodes sb base)"
  shows "node_to_slab sb p = base"
proof -
  from assms(1) obtain k where k: "k < 63" "sb_pagesize sb = 2 ^ k" by (auto simp: page_ok_def)
  have unat: "unat (sb_pagesize sb) = 2 ^ k"
  proof -
    have "(2 :: nat) ^ k < 2 ^ 64" using k(1) by (intro power_strict_increasing) simp_all
    then have "unat (of_nat (2 ^ k) :: addr) = 2 ^ k" by (subst unat_of_nat) simp
    then show ?thesis using k(2) by simp
  qed
  from assms(3) obtain i where i: "i < slab_num sb" and p: "p = base +
      of_nat (unat (sb_pagesize sb) - slab_num sb * sb_node_size sb + i * sb_node_size sb)"
    unfolding slab_nodes_offset(1)[OF assms(1)] by auto
  let ?off = "unat (sb_pagesize sb) - slab_num sb * sb_node_size sb + i * sb_node_size sb"
  have off: "?off < 2 ^ k" using slab_nodes_offset(2)[OF assms(1) i] unat by simp
  have "unat (of_nat ?off :: addr) \<le> ?off" by (subst unat_of_nat) simp
  then have "unat (of_nat ?off :: addr) < 2 ^ k" using off by (rule le_less_trans)
  from mask_split[OF _ _ this, of base] k assms(2)
  show ?thesis unfolding p by (simp add: node_to_slab_def aligned_def)
qed

section \<open>Allocation and release\<close>

definition slabs_static :: "slabs \<Rightarrow> slabs \<Rightarrow> bool" where
  "slabs_static sb sb' \<longleftrightarrow> sb_pagesize sb' = sb_pagesize sb \<and> sb_node_size sb' = sb_node_size sb"

lemma static_simps:
  assumes "slabs_static sb sb'"
  shows "page_ok sb' = page_ok sb" "aligned sb' = aligned sb" "slab_nodes sb' = slab_nodes sb"
    "node_to_slab sb' = node_to_slab sb" "slab_ok sb' = slab_ok sb" "live_in sb' = live_in sb"
proof -
  show *: "page_ok sb' = page_ok sb" "node_to_slab sb' = node_to_slab sb" "slab_nodes sb' = slab_nodes sb"
    using assms by (auto simp: fun_eq_iff slabs_static_def page_ok_def node_to_slab_def slab_nodes_def
      slab_num_def Let_def)
  then show "aligned sb' = aligned sb" by (simp add: fun_eq_iff aligned_def)
  with * show "slab_ok sb' = slab_ok sb" "live_in sb' = live_in sb"
    by (simp_all add: fun_eq_iff slab_ok_def live_in_def)
qed

lemma static_updates [simp]:
  "slabs_static sb (sb\<lparr>sb_partial := a\<rparr>)" "slabs_static sb (sb\<lparr>sb_full := a\<rparr>)"
  "slabs_static sb (sb\<lparr>sb_pages := c\<rparr>)" "slabs_static sb sb"
  by (simp_all add: slabs_static_def)

lemmas slab_update_simps [simp] =
  static_updates(1)[THEN static_simps(1)] static_updates(1)[THEN static_simps(2)]
  static_updates(1)[THEN static_simps(3)] static_updates(1)[THEN static_simps(4)]
  static_updates(1)[THEN static_simps(5)] static_updates(1)[THEN static_simps(6)]
  static_updates(2)[THEN static_simps(1)] static_updates(2)[THEN static_simps(2)]
  static_updates(2)[THEN static_simps(3)] static_updates(2)[THEN static_simps(4)]
  static_updates(2)[THEN static_simps(5)] static_updates(2)[THEN static_simps(6)]
  static_updates(3)[THEN static_simps(1)] static_updates(3)[THEN static_simps(2)]
  static_updates(3)[THEN static_simps(3)] static_updates(3)[THEN static_simps(4)]
  static_updates(3)[THEN static_simps(5)] static_updates(3)[THEN static_simps(6)]

lemma static_trans:
  "slabs_static a b \<Longrightarrow> slabs_static b c \<Longrightarrow> slabs_static a c"
  by (simp add: slabs_static_def)

lemma slabs_okD:
  assumes "slabs_ok sb"
  shows "page_ok sb" "distinct (map sl_base (sb_partial sb @ sb_full sb))"
    "s \<in> set (sb_partial sb) \<Longrightarrow> slab_ok sb s \<and> sl_free s \<noteq> []"
    "s \<in> set (sb_full sb) \<Longrightarrow> slab_ok sb s \<and> sl_free s = []"
    "s \<in> set (sb_partial sb @ sb_full sb) \<Longrightarrow> slab_ok sb s"
  using assms by (auto simp: slabs_ok_def)

lemma slab_ok_used: "slab_ok sb s \<Longrightarrow> sl_used s = int (card (live_in sb s))"
  by (simp add: slab_ok_def live_in_def)

lemma live_in_mask:
  assumes "page_ok sb" and "slab_ok sb s" and "p \<in> live_in sb s"
  shows "node_to_slab sb p = sl_base s"
  using assms by (auto simp: slab_ok_def live_in_def intro: slab_nodes_mask)

lemma live_find:
  \<comment> \<open>masking finds the slab of an allocated node\<close>
  assumes "slabs_ok sb" and "s \<in> set (sb_partial sb @ sb_full sb)" and "p \<in> live_in sb s"
  shows "List.find (\<lambda>s. sl_base s = node_to_slab sb p) (sb_partial sb @ sb_full sb) = Some s"
proof -
  note D = slabs_okD[OF assms(1)]
  have base: "node_to_slab sb p = sl_base s" by (rule live_in_mask[OF D(1) D(5)[OF assms(2)] assms(3)])
  have "List.find (\<lambda>s'. sl_base s' = sl_base s) xs = Some s"
    if "distinct (map sl_base xs)" "s \<in> set xs" for xs using that by (induction xs) auto
  with D(2) assms(2) base show ?thesis by simp
qed

lemma live_in_disjoint:
  assumes "page_ok sb" "slab_ok sb s" "slab_ok sb s'" "sl_base s \<noteq> sl_base s'"
  shows "live_in sb s \<inter> live_in sb s' = {}"
  using assms live_in_mask[OF assms(1,2)] live_in_mask[OF assms(1,3)] by fastforce

lemma take_node_spec:
  assumes "page_ok sb" and "sb_partial sb = s # ss" and "sl_free s = p # ps"
    and "distinct (map sl_base (sb_partial sb @ sb_full sb))"
    and s: "aligned sb (sl_base s)" "distinct (sl_free s)" "set (sl_free s) \<subseteq> set (slab_nodes sb (sl_base s))"
      "sl_used s = int (card (live_in sb s))"
    and ss: "\<forall>x \<in> set ss. slab_ok sb x \<and> sl_free x \<noteq> []" "\<forall>x \<in> set (sb_full sb). slab_ok sb x \<and> sl_free x = []"
  shows "\<exists>sb'. take_node sb = Some (p, sb') \<and> slabs_ok sb' \<and> live sb' = insert p (live sb) \<and>
    p \<notin> live sb \<and> slabs_static sb sb'"
proof -
  let ?s = "s\<lparr>sl_used := sl_used s + 1, sl_free := ps\<rparr>"
  have live_s: "live_in sb ?s = insert p (live_in sb s)" using s(2,3) assms(3) by (auto simp: live_in_def)
  have p: "p \<notin> live_in sb s" using assms(3) by (simp add: live_in_def)
  have fin: "finite (live_in sb s)" by (simp add: live_in_def)
  have used: "sl_used ?s = int (card (live_in sb ?s))" using live_s p s(4) fin by simp
  have pos: "0 < card (live_in sb ?s)" using live_s fin by (simp add: card_gt_0_iff)
  have ok: "slab_ok sb ?s"
    using s assms(3) used pos unfolding slab_ok_def live_in_def by auto
  have mask: "node_to_slab sb p = sl_base s" using s(1,3) assms(1,3) by (auto intro: slab_nodes_mask)
  have notin: "p \<notin> live_in sb x" if x: "x \<in> set ss \<or> x \<in> set (sb_full sb)" for x
  proof
    assume "p \<in> live_in sb x"
    then have "node_to_slab sb p = sl_base x" using x ss assms(1) live_in_mask by blast
    with mask x assms(2,4) show False by (auto simp: image_iff)
  qed
  have fresh: "p \<notin> live sb" using p notin assms(2) by (auto simp: live_def)
  show ?thesis
  proof (cases "ps = []")
    case True
    let ?sb = "sb\<lparr>sb_partial := ss, sb_full := sb_full sb @ [?s]\<rparr>"
    have st: "slabs_static sb ?sb" by (simp add: slabs_static_def)
    have "take_node sb = Some (p, ?sb)" using assms(2,3) True by (simp add: take_node_def Let_def)
    moreover have "slabs_ok ?sb"
      using assms(1,2,4) ss ok True by (auto simp: slabs_ok_def)
    moreover have "live ?sb = insert p (live sb)"
      using live_s assms(2) by (auto simp: live_def)
    ultimately show ?thesis using fresh st by blast
  next
    case False
    let ?sb = "sb\<lparr>sb_partial := ?s # ss\<rparr>"
    have st: "slabs_static sb ?sb" by (simp add: slabs_static_def)
    have "take_node sb = Some (p, ?sb)" using assms(2,3) False by (simp add: take_node_def Let_def)
    moreover have "slabs_ok ?sb"
      using assms(1,2,4) ss ok False by (auto simp: slabs_ok_def)
    moreover have "live ?sb = insert p (live sb)"
      using live_s assms(2) by (auto simp: live_def)
    ultimately show ?thesis using fresh st by blast
  qed
qed

lemma slab_alloc_spec:
  assumes "slabs_ok sb" and "fresh_page sb" and "slab_alloc sb = Some (Some p, sb')"
  shows "p \<notin> live sb \<and> live sb' = insert p (live sb) \<and> slabs_ok sb' \<and> slabs_static sb sb'"
proof -
  note D = slabs_okD[OF assms(1)]
  show ?thesis
  proof (cases "sb_partial sb")
    case (Cons s ss)
    have s: "s \<in> set (sb_partial sb)" using Cons by simp
    then obtain q qs where free: "sl_free s = q # qs" using D(3) by (cases "sl_free s") auto
    have "slab_ok sb s" using s D(3) by blast
    then have "aligned sb (sl_base s)" "distinct (sl_free s)"
      "set (sl_free s) \<subseteq> set (slab_nodes sb (sl_base s))" "sl_used s = int (card (live_in sb s))"
      by (auto simp: slab_ok_def live_in_def)
    from take_node_spec[OF D(1) Cons free D(2) this] D(3,4) Cons assms(3)
    show ?thesis by (auto simp: slab_alloc_def Let_def)
  next
    case Nil
    then obtain base ps where pages: "sb_pages sb = Some base # ps"
      using assms(3) by (auto simp: slab_alloc_def alloc_slab_def split: list.splits option.splits)
    let ?s = "\<lparr>sl_base = base, sl_free = slab_nodes sb base, sl_used = 0\<rparr>"
    let ?sb = "sb\<lparr>sb_pages := ps, sb_partial := [?s]\<rparr>"
    have st: "slabs_static sb ?sb" by (simp add: slabs_static_def)
    have new: "aligned sb base" "base \<notin> sl_base ` set (sb_full sb)"
      using assms(2) pages Nil by (auto simp: fresh_page_def)
    obtain q qs where free: "sl_free ?s = q # qs"
      using slab_nodes_distinct(2)[OF D(1), of base] by (cases "slab_nodes sb base") auto
    have "\<exists>sb'. take_node ?sb = Some (q, sb') \<and> slabs_ok sb' \<and> live sb' = insert q (live ?sb) \<and>
      q \<notin> live ?sb \<and> slabs_static ?sb sb'"
    proof (rule take_node_spec)
      show "sb_partial ?sb = [?s]" by simp
      show "sl_free ?s = q # qs" by (rule free)
      show "\<forall>x\<in>set (sb_full ?sb). slab_ok ?sb x \<and> sl_free x = []"
        using D(4) by simp
    qed (use D(1,2) new slab_nodes_distinct(1)[OF D(1)] in
         \<open>auto simp: live_in_def\<close>)
    moreover have "live ?sb = live sb" using Nil by (auto simp: live_def live_in_def)
    moreover have "slab_alloc sb = map_option (\<lambda>(p, sb). (Some p, sb)) (take_node ?sb)"
      using Nil pages by (simp add: slab_alloc_def alloc_slab_def)
    ultimately show ?thesis using assms(3) st by (auto simp: slabs_static_def)
  qed
qed

lemma slab_alloc_returns:
  assumes "slabs_ok sb" and "fresh_page sb"
  shows "\<exists>r sb'. slab_alloc sb = Some (r, sb')"
    and "slab_alloc sb = Some (None, sb') \<Longrightarrow> live sb' = live sb \<and> slabs_ok sb' \<and> slabs_static sb sb'"
proof -
  note D = slabs_okD[OF assms(1)]
  have full: "slab_alloc sb \<noteq> None \<and> (\<forall>sb'. slab_alloc sb \<noteq> Some (None, sb'))" if "sb_partial sb \<noteq> []"
  proof -
    from that obtain s ss where s: "sb_partial sb = s # ss" by (cases "sb_partial sb") auto
    then have "sl_free s \<noteq> []" using D(3)[of s] by simp
    with s show ?thesis by (auto simp: slab_alloc_def take_node_def Let_def split: list.splits)
  qed
  have nil: "slab_alloc sb \<noteq> None" if "sb_partial sb = []"
    using that slab_nodes_distinct(2)[OF D(1)]
    by (auto simp: slab_alloc_def alloc_slab_def take_node_def Let_def split: list.splits option.splits)
  show "\<exists>r sb'. slab_alloc sb = Some (r, sb')" using full nil by fastforce
  assume null: "slab_alloc sb = Some (None, sb')"
  with full have p: "sb_partial sb = []" by blast
  with null have "sb' = sb\<lparr>sb_pages := sb_pages sb'\<rparr>"
    by (auto simp: slab_alloc_def alloc_slab_def split: list.splits option.splits)
  moreover define pg where "pg = sb_pages sb'"
  ultimately have sb': "sb' = sb\<lparr>sb_pages := pg\<rparr>" by simp
  have st: "slabs_static sb (sb\<lparr>sb_pages := pg\<rparr>)" by (simp add: slabs_static_def)
  show "live sb' = live sb \<and> slabs_ok sb' \<and> slabs_static sb sb'"
    unfolding sb' using assms(1) st by (simp add: live_def slabs_ok_def)
qed

lemma free_slab_spec:
  assumes "slabs_ok sb" and "s \<in> set (sb_partial sb @ sb_full sb)"
  shows "slabs_ok (free_slab sb (sl_base s))" "live (free_slab sb (sl_base s)) = live sb - live_in sb s"
    "slabs_static sb (free_slab sb (sl_base s))"
    "sl_base s \<notin> sl_base ` set (sb_partial (free_slab sb (sl_base s)) @ sb_full (free_slab sb (sl_base s)))"
proof -
  note D = slabs_okD[OF assms(1)]
  let ?sb = "free_slab sb (sl_base s)"
  show st: "slabs_static sb ?sb" by (simp add: slabs_static_def free_slab_def)
  show "sl_base s \<notin> sl_base ` set (sb_partial ?sb @ sb_full ?sb)"
    by (auto simp: free_slab_def list_del_def)
  have sub: "set (sb_partial ?sb @ sb_full ?sb) = set (sb_partial sb @ sb_full sb) - {s}"
  proof -
    have "x = s" if "x \<in> set (sb_partial sb @ sb_full sb)" "sl_base x = sl_base s" for x
      using D(2) that assms(2) by (meson eq_key_imp_eq_value distinct_map inj_onD)
    then show ?thesis by (auto simp: free_slab_def list_del_def)
  qed
  have "distinct (map sl_base (sb_partial ?sb @ sb_full ?sb))"
    using D(2) by (auto simp: free_slab_def list_del_def distinct_map_filter)
  then show "slabs_ok ?sb"
    using D(1,3,4) by (auto simp: slabs_ok_def) (auto simp: free_slab_def list_del_def)
  have "live_in sb x \<inter> live_in sb s = {}" if "x \<in> set (sb_partial sb @ sb_full sb) - {s}" for x
  proof -
    have "sl_base x \<noteq> sl_base s" using that D(2) assms(2) by (metis DiffE distinct_map inj_onD insertI1)
    with live_in_disjoint[OF D(1) D(5) D(5)] that assms(2) show ?thesis by blast
  qed
  then show "live ?sb = live sb - live_in sb s"
    unfolding live_def static_simps[OF st] sub using assms(2) by blast
qed

lemma free_node_mem_spec:
  assumes "slabs_ok sb" and "p \<in> live sb"
  shows "\<exists>sb'. free_node_mem sb p = Some sb' \<and> slabs_ok sb' \<and> live sb' = live sb - {p} \<and> slabs_static sb sb'"
proof -
  note D = slabs_okD[OF assms(1)]
  from assms(2) obtain s where s: "s \<in> set (sb_partial sb @ sb_full sb)" and p: "p \<in> live_in sb s"
    by (auto simp: live_def)
  note find = live_find[OF assms(1) s p]
  note ok = D(5)[OF s]
  note F = free_slab_spec[OF assms(1) s]
  have fin: "finite (live_in sb s)" by (simp add: live_in_def)
  have sub: "live_in sb s \<subseteq> live sb" using s by (auto simp: live_def)
  let ?s' = "s\<lparr>sl_used := sl_used s - 1, sl_free := p # sl_free s\<rparr>"
  have pn: "p \<in> set (slab_nodes sb (sl_base s))" "p \<notin> set (sl_free s)" using p by (auto simp: live_in_def)
  have live': "live_in sb ?s' = live_in sb s - {p}" by (auto simp: live_in_def)
  have used': "sl_used s - 1 = int (card (live_in sb s - {p}))"
  proof -
    have "card (live_in sb s) = Suc (card (live_in sb s - {p}))" using p fin by (metis card.remove)
    then show ?thesis using slab_ok_used[OF ok] by simp
  qed
  have ok': "slab_ok sb ?s'" if "sl_used s - 1 \<noteq> 0"
  proof -
    have "aligned sb (sl_base s)" "distinct (sl_free s)" "set (sl_free s) \<subseteq> set (slab_nodes sb (sl_base s))"
      using ok by (auto simp: slab_ok_def)
    moreover have "set (slab_nodes sb (sl_base s)) - set (p # sl_free s) = live_in sb s - {p}"
      by (auto simp: live_in_def)
    moreover have "0 < sl_used s - 1" using ok that unfolding slab_ok_def by linarith
    ultimately show ?thesis using used' pn by (simp add: slab_ok_def)
  qed
  show ?thesis
  proof (cases "sl_used s - 1 = 0")
    case True
    have "live_in sb s - {p} = {}" using True used' fin by simp
    then have "live_in sb s = {p}" using p by blast
    then show ?thesis using True find F by (simp add: free_node_mem_def Let_def)
  next
    case used: False
    show ?thesis
    proof (cases "sl_free s = []")
      case True
      let ?sb1 = "free_slab sb (sl_base s)"
      let ?sb = "?sb1\<lparr>sb_partial := sb_partial ?sb1 @ [?s']\<rparr>"
      have st: "slabs_static sb ?sb" using F(3) by (simp add: slabs_static_def)
      have "slabs_ok ?sb"
        using F(1,4) ok'[OF used] unfolding slabs_ok_def static_simps[OF st] static_simps[OF F(3)] by auto
      moreover have "live ?sb = live ?sb1 \<union> live_in sb ?s'"
        unfolding live_def static_simps[OF st] static_simps[OF F(3)] by auto
      ultimately show ?thesis
        using find used True st F(2) live' sub p by (auto simp: free_node_mem_def Let_def)
    next
      case False
      let ?sb = "sb\<lparr>sb_partial := slab_update ?s' (sb_partial sb), sb_full := slab_update ?s' (sb_full sb)\<rparr>"
      have st: "slabs_static sb ?sb" by (simp add: slabs_static_def)
      have inj: "x = s" if "x \<in> set (sb_partial sb @ sb_full sb)" "sl_base x = sl_base s" for x
        using D(2) that s by (meson distinct_map inj_onD)
      have notfull: "s \<notin> set (sb_full sb)" using False D(4) by blast
      have bases: "map sl_base (slab_update ?s' xs) = map sl_base xs" for xs
        by (induction xs) (auto simp: slab_update_def)
      have full: "slab_update ?s' (sb_full sb) = sb_full sb"
        unfolding slab_update_def by (rule map_idI) (use inj notfull in auto)
      have partial: "set (slab_update ?s' (sb_partial sb)) = insert ?s' (set (sb_partial sb) - {s})"
        unfolding slab_update_def using inj s notfull by auto
      have "slabs_ok ?sb"
        unfolding slabs_ok_def static_simps[OF st] using D(1-4) ok'[OF used] partial full bases by auto
      moreover have "live ?sb = live sb - {p}"
      proof -
        have "live ?sb = live ?sb" ..
        have "live (free_slab sb (sl_base s)) = (\<Union>x \<in> set (sb_partial sb @ sb_full sb) - {s}. live_in sb x)"
        proof -
          have "set (sb_partial (free_slab sb (sl_base s)) @ sb_full (free_slab sb (sl_base s))) =
            set (sb_partial sb @ sb_full sb) - {s}" using inj by (auto simp: free_slab_def list_del_def)
          then show ?thesis unfolding live_def static_simps[OF F(3)] by simp
        qed
        moreover have "live ?sb = (\<Union>x \<in> set (sb_partial sb @ sb_full sb) - {s}. live_in sb x) \<union> live_in sb ?s'"
          unfolding live_def static_simps[OF st] using partial full notfull by auto
        ultimately show ?thesis using F(2) live' sub p by auto
      qed
      ultimately show ?thesis using find used False st by (auto simp: free_node_mem_def Let_def)
    qed
  qed
qed

lemma slab_alloc_null:
  assumes "slabs_ok sb" and "slab_alloc sb = Some (None, sb')"
  shows "sb_partial sb = []"
  using assms(2) by (auto simp: slab_alloc_def take_node_def Let_def split: if_splits option.splits list.splits)

section \<open>The allocator interface\<close>

text \<open>What the node tree relies on: a node that is handed out is not in use, and releasing it
  gives back that node alone.\<close>

locale node_allocator =
  fixes ok :: "'s \<Rightarrow> bool" and ready :: "'s \<Rightarrow> bool" and in_use :: "'s \<Rightarrow> addr set"
    and alloc :: "'s \<Rightarrow> (addr option \<times> 's) option" and release :: "'s \<Rightarrow> addr \<Rightarrow> 's option"
  assumes alloc_defined: "ok s \<Longrightarrow> ready s \<Longrightarrow> \<exists>r s'. alloc s = Some (r, s')"
    and alloc_node: "ok s \<Longrightarrow> ready s \<Longrightarrow> alloc s = Some (Some p, s') \<Longrightarrow>
      ok s' \<and> p \<notin> in_use s \<and> in_use s' = insert p (in_use s)"
    and alloc_null: "ok s \<Longrightarrow> ready s \<Longrightarrow> alloc s = Some (None, s') \<Longrightarrow> ok s' \<and> in_use s' = in_use s"
    and release_node: "ok s \<Longrightarrow> p \<in> in_use s \<Longrightarrow>
      \<exists>s'. release s p = Some s' \<and> ok s' \<and> in_use s' = in_use s - {p}"
begin

lemma alloc_release:
  assumes "ok s" "ready s" "alloc s = Some (Some p, s')"
  shows "\<exists>s''. release s' p = Some s'' \<and> ok s'' \<and> in_use s'' = in_use s"
proof -
  note A = alloc_node[OF assms]
  then have "p \<in> in_use s'" by simp
  from release_node[OF _ this] A show ?thesis by auto
qed

lemma release_returns: "ok s \<Longrightarrow> p \<in> in_use s \<Longrightarrow> release s p \<noteq> None"
  using release_node by blast

lemma release_spec:
  "ok s \<Longrightarrow> p \<in> in_use s \<Longrightarrow> release s p = Some s' \<Longrightarrow> ok s' \<and> in_use s' = in_use s - {p}"
  using release_node[of s p] by auto

end

interpretation slaballoc: node_allocator slabs_ok fresh_page live slab_alloc free_node_mem
proof
  fix s p s'
  assume ok: "slabs_ok s"
  show "fresh_page s \<Longrightarrow> \<exists>r s'. slab_alloc s = Some (r, s')" by (rule slab_alloc_returns(1)[OF ok])
  show "fresh_page s \<Longrightarrow> slab_alloc s = Some (Some p, s') \<Longrightarrow>
      slabs_ok s' \<and> p \<notin> live s \<and> live s' = insert p (live s)"
    using slab_alloc_spec[OF ok] by blast
  show "fresh_page s \<Longrightarrow> slab_alloc s = Some (None, s') \<Longrightarrow> slabs_ok s' \<and> live s' = live s"
    using slab_alloc_returns(2)[OF ok] by blast
  show "p \<in> live s \<Longrightarrow> \<exists>s'. free_node_mem s p = Some s' \<and> slabs_ok s' \<and> live s' = live s - {p}"
    using free_node_mem_spec[OF ok] by blast
qed

section \<open>Properties\<close>

definition boot_slabs :: slabs where
  "boot_slabs = \<lparr>sb_pagesize = 4096, sb_node_size = get_node_size False, sb_partial = [], sb_full = [],
     sb_pages = [Some 0x10000]\<rparr>"

lemma boot_slabs_ok: "slabs_ok boot_slabs" "fresh_page boot_slabs" "live boot_slabs = {}"
proof -
  have "(4096 :: addr) = 2 ^ 12" by simp
  then have "page_ok boot_slabs"
    unfolding page_ok_def by (auto simp: boot_slabs_def get_node_size_def sizeof_node_def sizeof_node_slab_def
      intro!: exI[of _ "12 :: nat"])
  then show "slabs_ok boot_slabs" by (simp add: slabs_ok_def boot_slabs_def)
  show "fresh_page boot_slabs" by (simp add: fresh_page_def boot_slabs_def aligned_def node_to_slab_def)
  show "live boot_slabs = {}" by (simp add: live_def boot_slabs_def)
qed

text \<open>
  Property C35. The allocator never hands out a node that is in use: \<open>alloc_node\<close> returns, with
  NULL only when no slab had a free node and no page could be mapped, and otherwise with an address
  that was not allocated and now is, all other nodes staying as they were and the slab lists,
  free lists and use counts consistent.
\<close>

theorem slab_alloc_fresh:
  assumes "slabs_ok sb" and "fresh_page sb"
  shows "\<exists>r sb'. slab_alloc sb = Some (r, sb') \<and> slabs_ok sb' \<and>
    (case r of None \<Rightarrow> live sb' = live sb \<and> sb_partial sb = []
     | Some p \<Rightarrow> p \<notin> live sb \<and> live sb' = insert p (live sb))"
proof -
  obtain r sb' where r: "slab_alloc sb = Some (r, sb')" using slaballoc.alloc_defined[OF assms] by blast
  show ?thesis
  proof (cases r)
    case None
    with r slab_alloc_null[OF assms(1)] have "sb_partial sb = []" by simp
    with None r slaballoc.alloc_null[OF assms] show ?thesis by auto
  next
    case (Some p)
    with r slaballoc.alloc_node[OF assms] show ?thesis by auto
  qed
qed

lemma slab_alloc_fresh_witness:
  "\<exists>r sb'. slab_alloc boot_slabs = Some (r, sb') \<and> slabs_ok sb' \<and>
    (case r of None \<Rightarrow> live sb' = {} \<and> sb_partial boot_slabs = []
     | Some p \<Rightarrow> p \<notin> {} \<and> live sb' = {p})"
  using slab_alloc_fresh[OF boot_slabs_ok(1,2)] unfolding boot_slabs_ok(3) .

text \<open>
  Property C36. Releasing an allocated node finds its slab from the address alone and frees that
  node and no other; the lists and counts stay consistent, also when the slab moves from the full to
  the partial list or is unmapped with its last node.
\<close>

theorem free_node_mem_correct:
  assumes "slabs_ok sb" and "p \<in> live sb"
  shows "\<exists>sb'. free_node_mem sb p = Some sb' \<and> slabs_ok sb' \<and> live sb' = live sb - {p}"
  by (rule slaballoc.release_node[OF assms])

lemma free_node_mem_correct_witness:
  "\<exists>p sb1 sb2. slab_alloc boot_slabs = Some (Some p, sb1) \<and> free_node_mem sb1 p = Some sb2 \<and> live sb2 = {}"
proof -
  have "sb_pages boot_slabs = [Some 0x10000]" "sb_partial boot_slabs = []" by (simp_all add: boot_slabs_def)
  then have "fst (the (slab_alloc boot_slabs)) \<noteq> None"
    using slab_alloc_returns(1)[OF boot_slabs_ok(1,2)]
    by (auto simp: slab_alloc_def alloc_slab_def)
  then obtain p sb1 where a: "slab_alloc boot_slabs = Some (Some p, sb1)"
    using slab_alloc_returns(1)[OF boot_slabs_ok(1,2)] by auto
  note A = slaballoc.alloc_node[OF boot_slabs_ok(1,2) a]
  from free_node_mem_correct[of sb1 p] A a boot_slabs_ok(3) show ?thesis by auto
qed

end
