(* ===== verification/File_Locks.thy ===== *)
theory File_Locks
  imports Prelude
begin

text \<open>
  The record locks a node carries, src/lib/fuse.c \<open>locks_conflict\<close>, \<open>locks_insert\<close>,
  \<open>flock_to_lock\<close>, \<open>lock_to_flock\<close>: a list of byte ranges, each with an owner and a
  type. The \<open>next\<close> links are the list. Offsets (\<open>off_t\<close>) are integers; the theorems
  show that every offset the code computes stays within \<open>0 .. OFFSET_MAX\<close>.
\<close>

definition OFFSET_MAX :: int where "OFFSET_MAX = 0x7fffffffffffffff"
definition F_RDLCK :: int where "F_RDLCK = 0"
definition F_WRLCK :: int where "F_WRLCK = 1"
definition F_UNLCK :: int where "F_UNLCK = 2"

record lock =
  lk_type :: int
  lk_start :: int
  lk_end :: int
  lk_pid :: int
  lk_owner :: "64 word"

record flock =
  l_type :: int
  l_whence :: int
  l_start :: int
  l_len :: int
  l_pid :: int

section \<open>Operations\<close>

definition lock_conflicts :: "lock \<Rightarrow> lock \<Rightarrow> bool" where
  \<comment> \<open>the test in the loop of \<open>locks_conflict\<close>\<close>
  "lock_conflicts lock l \<longleftrightarrow> lk_owner l \<noteq> lk_owner lock \<and>
     lk_start lock \<le> lk_end l \<and> lk_start l \<le> lk_end lock \<and>
     (lk_type l = F_WRLCK \<or> lk_type lock = F_WRLCK)"

fun locks_conflict :: "lock list \<Rightarrow> lock \<Rightarrow> lock option" where
  "locks_conflict [] lock = None"
| "locks_conflict (l # ls) lock = (if lock_conflicts lock l then Some l else locks_conflict ls lock)"

definition insert_new :: "lock \<Rightarrow> lock list \<Rightarrow> lock list" where
  \<comment> \<open>after the loop: link a copy of the lock in at \<open>lp\<close>, unless it unlocks\<close>
  "insert_new lock ls = (if lk_type lock \<noteq> F_UNLCK then lock # ls else ls)"

function locks_insert_loop :: "lock \<Rightarrow> bool \<Rightarrow> lock list \<Rightarrow> lock list option" where
  \<comment> \<open>the loop of \<open>locks_insert\<close> from \<open>lp\<close> on: the list from there on after the call.
      The flag says whether \<open>newl2\<close> is still to be used; writing to it when it is NULL
      is \<open>None\<close>\<close>
  "locks_insert_loop lock newl2 [] = Some (insert_new lock [])"
| "locks_insert_loop lock newl2 (l # ls) =
     (let skip = (\<lambda>l. map_option ((#) l) (locks_insert_loop lock newl2 ls)) in
      if lk_owner l \<noteq> lk_owner lock then skip l
      else if lk_type lock = lk_type l then
        if lk_end l < lk_start lock - 1 then skip l
        else if lk_end lock < lk_start l - 1 then Some (insert_new lock (l # ls))
        else if lk_start l \<le> lk_start lock \<and> lk_end lock \<le> lk_end l then Some (l # ls)
        else
          let lock = (if lk_start l < lk_start lock then lock\<lparr>lk_start := lk_start l\<rparr> else lock);
              lock = (if lk_end lock < lk_end l then lock\<lparr>lk_end := lk_end l\<rparr> else lock)
          in locks_insert_loop lock newl2 ls
      else
        if lk_end l < lk_start lock then skip l
        else if lk_end lock < lk_start l then Some (insert_new lock (l # ls))
        else if lk_start lock \<le> lk_start l \<and> lk_end l \<le> lk_end lock then
          locks_insert_loop lock newl2 ls
        else if lk_end l \<le> lk_end lock then skip (l\<lparr>lk_end := lk_start lock - 1\<rparr>)
        else if lk_start lock \<le> lk_start l then
          Some (insert_new lock (l\<lparr>lk_start := lk_end lock + 1\<rparr> # ls))
        else if newl2 then
          map_option ((#) (l\<lparr>lk_end := lk_start lock - 1\<rparr>))
            (locks_insert_loop lock False (l\<lparr>lk_start := lk_end lock + 1\<rparr> # ls))
        else None)"
  by pat_completeness auto
termination
  by (relation "measure (\<lambda>(lock, newl2, ls). 2 * length ls + (if newl2 then 1 else 0))") auto

definition locks_insert :: "lock list \<Rightarrow> lock \<Rightarrow> mem \<Rightarrow> (int \<times> lock list \<times> mem) option" where
  "locks_insert ls lock m =
     (if lk_type lock \<noteq> F_UNLCK \<or> lk_start lock \<noteq> 0 \<or> lk_end lock \<noteq> OFFSET_MAX then
        let (newl1, m1) = malloc m; (newl2, m2) = malloc m1
        in if \<not> newl1 \<or> \<not> newl2 then Some (- ENOLCK, ls, m2)
           else map_option (\<lambda>ls'. (0, ls', m2)) (locks_insert_loop lock True ls)
      else map_option (\<lambda>ls'. (0, ls', m)) (locks_insert_loop lock False ls))"

definition flock_to_lock :: "flock \<Rightarrow> lock" where
  "flock_to_lock f = \<lparr>lk_type = l_type f, lk_start = l_start f,
     lk_end = (if l_len f \<noteq> 0 then l_start f + l_len f - 1 else OFFSET_MAX),
     lk_pid = l_pid f, lk_owner = 0\<rparr>"

definition lock_to_flock :: "lock \<Rightarrow> flock \<Rightarrow> flock" where
  \<comment> \<open>the second argument is the struct the result is written into: its \<open>l_whence\<close> stays\<close>
  "lock_to_flock l f = f\<lparr>l_type := lk_type l, l_start := lk_start l,
     l_len := (if lk_end l = OFFSET_MAX then 0 else lk_end l - lk_start l + 1),
     l_pid := lk_pid l\<rparr>"

section \<open>What a lock list means\<close>

definition covers :: "lock \<Rightarrow> int \<Rightarrow> bool" where
  "covers l x \<longleftrightarrow> lk_start l \<le> x \<and> x \<le> lk_end l"

definition held :: "lock list \<Rightarrow> 64 word \<Rightarrow> int \<Rightarrow> int \<Rightarrow> bool" where
  \<comment> \<open>owner \<open>w\<close> holds a lock of type \<open>t\<close> on byte \<open>x\<close>\<close>
  "held ls w t x \<longleftrightarrow> (\<exists>l \<in> set ls. lk_owner l = w \<and> lk_type l = t \<and> covers l x)"

definition apart :: "lock \<Rightarrow> lock \<Rightarrow> bool" where
  \<comment> \<open>\<open>a\<close> before \<open>b\<close> in the list: if of one owner, then in ascending order, disjoint, and not
      even adjacent when of one type\<close>
  "apart a b \<longleftrightarrow> (lk_owner a = lk_owner b \<longrightarrow>
     lk_end a < lk_start b \<and> (lk_type a = lk_type b \<longrightarrow> lk_end a + 1 < lk_start b))"

definition range_ok :: "lock \<Rightarrow> bool" where
  "range_ok l \<longleftrightarrow> 0 \<le> lk_start l \<and> lk_start l \<le> lk_end l \<and> lk_end l \<le> OFFSET_MAX"

definition locks_ok :: "lock list \<Rightarrow> bool" where
  "locks_ok ls \<longleftrightarrow> sorted_wrt apart ls \<and> (\<forall>l \<in> set ls. range_ok l \<and> lk_type l \<noteq> F_UNLCK)"

named_theorems lock_defs
lemmas [lock_defs] = covers_def apart_def range_ok_def insert_new_def

lemma locks_ok_Nil [simp]: "locks_ok []"
  by (simp add: locks_ok_def)

lemma locks_ok_Cons:
  "locks_ok (l # ls) \<longleftrightarrow>
     (\<forall>y \<in> set ls. apart l y) \<and> range_ok l \<and> lk_type l \<noteq> F_UNLCK \<and> locks_ok ls"
  by (auto simp: locks_ok_def)

lemma held_Nil [simp]: "\<not> held [] w t x"
  by (simp add: held_def)

lemma held_Cons:
  "held (l # ls) w t x \<longleftrightarrow> lk_owner l = w \<and> lk_type l = t \<and> covers l x \<or> held ls w t x"
  by (auto simp: held_def)

lemma apart_not_held:
  "\<forall>y \<in> set ls. apart l y \<Longrightarrow> covers l x \<Longrightarrow> \<not> held ls (lk_owner l) t x"
  by (auto simp: held_def lock_defs)

text \<open>
  The branches of the loop as a relation: what each visited lock \<open>l\<close> is to the new lock,
  and what becomes of it.
\<close>

inductive ins_rel :: "lock \<Rightarrow> lock list \<Rightarrow> lock list \<Rightarrow> bool" where
  nil: "ins_rel lock [] (insert_new lock [])"
| skip: "apart l lock \<Longrightarrow> ins_rel lock ls ls' \<Longrightarrow> ins_rel lock (l # ls) (l # ls')"
| stop: "apart lock l \<Longrightarrow> lk_owner l = lk_owner lock \<Longrightarrow>
    ins_rel lock (l # ls) (insert_new lock (l # ls))"
| inside: "lk_owner l = lk_owner lock \<Longrightarrow> lk_type l = lk_type lock \<Longrightarrow>
    lk_start l \<le> lk_start lock \<Longrightarrow> lk_end lock \<le> lk_end l \<Longrightarrow> ins_rel lock (l # ls) (l # ls)"
| merge: "lk_owner l = lk_owner lock \<Longrightarrow> lk_type l = lk_type lock \<Longrightarrow>
    lk_start lock - 1 \<le> lk_end l \<Longrightarrow> lk_start l - 1 \<le> lk_end lock \<Longrightarrow>
    ins_rel (lock\<lparr>lk_start := min (lk_start l) (lk_start lock), lk_end := max (lk_end l) (lk_end lock)\<rparr>) ls ls' \<Longrightarrow>
    ins_rel lock (l # ls) ls'"
| swallow: "lk_owner l = lk_owner lock \<Longrightarrow> lk_type l \<noteq> lk_type lock \<Longrightarrow>
    lk_start lock \<le> lk_start l \<Longrightarrow> lk_end l \<le> lk_end lock \<Longrightarrow> ins_rel lock ls ls' \<Longrightarrow>
    ins_rel lock (l # ls) ls'"
| cut_end: "lk_owner l = lk_owner lock \<Longrightarrow> lk_type l \<noteq> lk_type lock \<Longrightarrow>
    lk_start l < lk_start lock \<Longrightarrow> lk_start lock \<le> lk_end l \<Longrightarrow> lk_end l \<le> lk_end lock \<Longrightarrow>
    ins_rel lock ls ls' \<Longrightarrow> ins_rel lock (l # ls) (l\<lparr>lk_end := lk_start lock - 1\<rparr> # ls')"
| cut_start: "lk_owner l = lk_owner lock \<Longrightarrow> lk_type l \<noteq> lk_type lock \<Longrightarrow>
    lk_start lock \<le> lk_start l \<Longrightarrow> lk_start l \<le> lk_end lock \<Longrightarrow> lk_end lock < lk_end l \<Longrightarrow>
    ins_rel lock (l # ls) (insert_new lock (l\<lparr>lk_start := lk_end lock + 1\<rparr> # ls))"
| split: "lk_owner l = lk_owner lock \<Longrightarrow> lk_type l \<noteq> lk_type lock \<Longrightarrow>
    lk_start l < lk_start lock \<Longrightarrow> lk_end lock < lk_end l \<Longrightarrow> lk_start lock \<le> lk_end lock \<Longrightarrow>
    ins_rel lock (l # ls) (l\<lparr>lk_end := lk_start lock - 1\<rparr> #
      insert_new lock (l\<lparr>lk_start := lk_end lock + 1\<rparr> # ls))"

lemma apart_iff_skip:
  "apart l lock \<longleftrightarrow> lk_owner l \<noteq> lk_owner lock \<or>
     lk_owner l = lk_owner lock \<and> lk_type lock = lk_type l \<and> lk_end l < lk_start lock - 1 \<or>
     lk_owner l = lk_owner lock \<and> lk_type lock \<noteq> lk_type l \<and> lk_end l < lk_start lock"
  by (auto simp: apart_def)

lemma locks_insert_loop_stop:
  "lk_owner l = lk_owner lock \<Longrightarrow> lk_type l \<noteq> lk_type lock \<Longrightarrow> lk_end lock < lk_start l \<Longrightarrow>
     lk_start lock \<le> lk_end lock \<Longrightarrow> lk_start l \<le> lk_end l \<Longrightarrow>
     locks_insert_loop lock f (l # ls) = Some (insert_new lock (l # ls))"
  by (auto simp: Let_def)

lemma locks_insert_loop_rel:
  assumes "range_ok lock" and "locks_ok ls" and "newl2 \<or> lk_start lock = 0 \<and> lk_end lock = OFFSET_MAX"
  shows "\<exists>ls'. locks_insert_loop lock newl2 ls = Some ls' \<and> ins_rel lock ls ls'"
  using assms
proof (induction ls arbitrary: lock)
  case Nil
  then show ?case by (auto intro: ins_rel.intros)
next
  case (Cons l ls)
  have l: "range_ok l" and ls: "locks_ok ls" using Cons.prems(2) by (auto simp: locks_ok_Cons)
  note IH = Cons.IH[OF _ ls]
  obtain ls' where ih: "locks_insert_loop lock newl2 ls = Some ls'" "ins_rel lock ls ls'"
    using IH[of lock] Cons.prems by blast
  let ?m = "lock\<lparr>lk_start := min (lk_start l) (lk_start lock), lk_end := max (lk_end l) (lk_end lock)\<rparr>"
  have m: "(if lk_end ((if lk_start l < lk_start lock then lock\<lparr>lk_start := lk_start l\<rparr> else lock)) < lk_end l
      then (if lk_start l < lk_start lock then lock\<lparr>lk_start := lk_start l\<rparr> else lock)\<lparr>lk_end := lk_end l\<rparr>
      else (if lk_start l < lk_start lock then lock\<lparr>lk_start := lk_start l\<rparr> else lock)) = ?m"
    by (cases lock) (auto simp: min_def max_def)
  have "range_ok ?m" and "newl2 \<or> lk_start ?m = 0 \<and> lk_end ?m = OFFSET_MAX"
    using Cons.prems l by (auto simp: range_ok_def)
  then obtain lm where ihm: "locks_insert_loop ?m newl2 ls = Some lm" "ins_rel ?m ls lm"
    using IH by blast
  consider (skip) "apart l lock"
    | (same) "\<not> apart l lock" "lk_owner l = lk_owner lock" "lk_type l = lk_type lock"
    | (diff) "\<not> apart l lock" "lk_owner l = lk_owner lock" "lk_type l \<noteq> lk_type lock"
    by (auto simp: apart_def)
  then show ?case
  proof cases
    case skip
    with ih have "locks_insert_loop lock newl2 (l # ls) = Some (l # ls')"
      by (auto simp: Let_def apart_iff_skip)
    with skip ih show ?thesis by (auto intro: ins_rel.skip)
  next
    case same
    show ?thesis
    proof (cases "lk_end lock < lk_start l - 1 \<or> lk_start l \<le> lk_start lock \<and> lk_end lock \<le> lk_end l")
      case True
      with same Cons.prems(1) show ?thesis
        by (auto simp: Let_def apart_def range_ok_def intro: ins_rel.stop ins_rel.inside)
    next
      case False
      have "\<not> lk_end l < lk_start lock - 1" using same by (auto simp: apart_def)
      with same False ihm have "locks_insert_loop lock newl2 (l # ls) = Some lm"
        by (subst locks_insert_loop.simps(2), simp only: Let_def m) auto
      moreover have "ins_rel lock (l # ls) lm"
        using same False ihm(2) by (intro ins_rel.merge) (auto simp: apart_def)
      ultimately show ?thesis by blast
    qed
  next
    case diff
    then have ov: "lk_start lock \<le> lk_end l" by (auto simp: apart_def)
    consider "lk_end lock < lk_start l"
      | "lk_start lock \<le> lk_start l" "lk_end l \<le> lk_end lock"
      | "lk_start l < lk_start lock" "lk_end l \<le> lk_end lock"
      | "lk_start lock \<le> lk_start l" "lk_start l \<le> lk_end lock" "lk_end lock < lk_end l"
      | "lk_start l < lk_start lock" "lk_end lock < lk_end l"
      by linarith
    then show ?thesis
    proof cases
      case 1
      with diff ov show ?thesis by (auto simp: Let_def apart_def intro: ins_rel.stop)
    next
      case 2
      with diff ov ih l show ?thesis by (auto simp: Let_def range_ok_def intro: ins_rel.swallow)
    next
      case 3
      with diff ov ih l show ?thesis by (auto simp: Let_def range_ok_def intro: ins_rel.cut_end)
    next
      case 4
      with diff ov show ?thesis by (auto simp: Let_def intro: ins_rel.cut_start)
    next
      case 5
      have new: "newl2" using 5 Cons.prems l by (auto simp: range_ok_def)
      have "locks_insert_loop lock False (l\<lparr>lk_start := lk_end lock + 1\<rparr> # ls) =
          Some (insert_new lock (l\<lparr>lk_start := lk_end lock + 1\<rparr> # ls))"
        using diff 5 Cons.prems(1) by (intro locks_insert_loop_stop) (auto simp: range_ok_def)
      with 5 diff ov new have "locks_insert_loop lock newl2 (l # ls) =
          Some (l\<lparr>lk_end := lk_start lock - 1\<rparr> # insert_new lock (l\<lparr>lk_start := lk_end lock + 1\<rparr> # ls))"
        using Cons.prems(1)
        by (subst locks_insert_loop.simps(2)) (auto simp: Let_def range_ok_def simp del: locks_insert_loop.simps(2))
      with 5 diff Cons.prems(1) show ?thesis by (auto simp: range_ok_def intro: ins_rel.split)
    qed
  qed
qed


lemma apart_upd:
  "apart p (l\<lparr>lk_end := e\<rparr>) = apart p l"
  "apart p l \<Longrightarrow> lk_start l \<le> e \<Longrightarrow> apart p (l\<lparr>lk_start := e\<rparr>)"
  "apart p l \<Longrightarrow> apart p lock \<Longrightarrow> lk_owner l = lk_owner lock \<Longrightarrow> lk_type l = lk_type lock \<Longrightarrow>
     apart p (lock\<lparr>lk_start := min (lk_start l) (lk_start lock), lk_end := e\<rparr>)"
  by (auto simp: apart_def min_def)

lemma ins_rel_apart:
  "ins_rel lock ls ls' \<Longrightarrow> apart p lock \<Longrightarrow> \<forall>y \<in> set ls. apart p y \<Longrightarrow> \<forall>y \<in> set ls'. apart p y"
proof (induction rule: ins_rel.induct)
  case (merge l lock ls ls')
  then have "apart p (lock\<lparr>lk_start := min (lk_start l) (lk_start lock), lk_end := max (lk_end l) (lk_end lock)\<rparr>)"
    by (intro apart_upd(3)) auto
  with merge show ?case by auto
next
  case (cut_start l lock ls)
  then have "apart p (l\<lparr>lk_start := lk_end lock + 1\<rparr>)" by (intro apart_upd(2)) auto
  with cut_start show ?case by (auto simp: insert_new_def)
next
  case (split l lock ls)
  then have "apart p (l\<lparr>lk_start := lk_end lock + 1\<rparr>)" 
    by (intro apart_upd(2)) auto
  with split show ?case by (auto simp: insert_new_def apart_upd(1))
qed (auto simp: insert_new_def apart_upd(1))

lemma locks_ok_insert_new:
  "locks_ok ls \<Longrightarrow> range_ok lock \<Longrightarrow> \<forall>y \<in> set ls. apart lock y \<Longrightarrow> locks_ok (insert_new lock ls)"
  by (auto simp: insert_new_def locks_ok_Cons)

lemma apart_later: "apart lock l \<Longrightarrow> lk_owner l = lk_owner lock \<Longrightarrow> range_ok l \<Longrightarrow> apart l y \<Longrightarrow> apart lock y"
  by (auto simp: lock_defs)

lemma ins_rel_ok:
  "ins_rel lock ls ls' \<Longrightarrow> range_ok lock \<Longrightarrow> locks_ok ls \<Longrightarrow> locks_ok ls'"
proof (induction rule: ins_rel.induct)
  case (nil lock)
  then show ?case by (simp add: locks_ok_insert_new)
next
  case (skip l lock ls ls')
  then show ?case using ins_rel_apart[OF skip.hyps(2,1)] by (auto simp: locks_ok_Cons)
next
  case (stop lock l ls)
  then show ?case
    by (intro locks_ok_insert_new) (auto simp: locks_ok_Cons intro: apart_later)
next
  case (merge l lock ls ls')
  then show ?case by (auto simp: locks_ok_Cons range_ok_def)
next
  case (swallow l lock ls ls')
  then show ?case by (simp add: locks_ok_Cons)
next
  case (cut_end l lock ls ls')
  let ?l = "l\<lparr>lk_end := lk_start lock - 1\<rparr>"
  have "apart ?l lock" and "\<forall>y \<in> set ls. apart ?l y"
    using cut_end by (auto simp: locks_ok_Cons apart_def)
  from ins_rel_apart[OF cut_end.hyps(6) this] cut_end show ?case
    by (auto simp: locks_ok_Cons range_ok_def)
next
  case (cut_start l lock ls)
  let ?l = "l\<lparr>lk_start := lk_end lock + 1\<rparr>"
  have "range_ok ?l" using cut_start by (auto simp: locks_ok_Cons range_ok_def)
  moreover have "apart lock ?l" using cut_start by (auto simp: apart_def)
  moreover have "apart ?l y" if "apart l y" for y using that by (auto simp: apart_def)
  ultimately show ?case using cut_start
    by (intro locks_ok_insert_new) (auto simp: locks_ok_Cons intro: apart_later[of lock ?l])
next
  case (split l lock ls)
  let ?l = "l\<lparr>lk_start := lk_end lock + 1\<rparr>" and ?k = "l\<lparr>lk_end := lk_start lock - 1\<rparr>"
  have r: "range_ok ?l" "range_ok ?k" using split by (auto simp: locks_ok_Cons range_ok_def)
  have a: "apart lock ?l" "apart ?k lock" "apart ?k ?l"
    using split by (auto simp: apart_def locks_ok_Cons range_ok_def)
  have y: "apart ?l y" "apart ?k y" if "apart l y" for y
    using that split by (auto simp: apart_def locks_ok_Cons range_ok_def)
  have "locks_ok (insert_new lock (?l # ls))"
    using split r a y by (intro locks_ok_insert_new) (auto simp: locks_ok_Cons intro: apart_later[of lock ?l])
  with split r a y show ?case by (auto simp: locks_ok_Cons insert_new_def split: if_splits)
qed auto

lemma held_insert_new:
  "held (insert_new lock ls) w t x \<longleftrightarrow>
     lk_type lock \<noteq> F_UNLCK \<and> lk_owner lock = w \<and> lk_type lock = t \<and> covers lock x \<or> held ls w t x"
  by (auto simp: insert_new_def held_Cons)

lemma ins_rel_held:
  "ins_rel lock ls ls' \<Longrightarrow> range_ok lock \<Longrightarrow> locks_ok ls \<Longrightarrow>
   held ls' w t x \<longleftrightarrow>
     (if w = lk_owner lock \<and> covers lock x then t = lk_type lock \<and> t \<noteq> F_UNLCK else held ls w t x)"
proof (induction rule: ins_rel.induct)
  case (nil lock)
  then show ?case by (auto simp: held_insert_new)
next
  case (skip l lock ls ls')
  then have "lk_owner l = lk_owner lock \<Longrightarrow> covers lock x \<Longrightarrow> \<not> covers l x"
    by (auto simp: apart_def covers_def)
  with skip show ?case by (auto simp: locks_ok_Cons held_Cons)
next
  case (stop lock l ls)
  then have "\<forall>y \<in> set (l # ls). apart lock y" by (auto simp: locks_ok_Cons intro: apart_later)
  with stop show ?case using apart_not_held[of "l # ls" lock x t] by (auto simp: held_insert_new)
next
  case (inside l lock ls)
  then have "covers l x" if "covers lock x" using that by (auto simp: covers_def)
  then show ?case using inside apart_not_held[of ls l x t] by (auto simp: held_Cons locks_ok_Cons)
next
  case (merge l lock ls ls')
  let ?m = "lock\<lparr>lk_start := min (lk_start l) (lk_start lock), lk_end := max (lk_end l) (lk_end lock)\<rparr>"
  have c: "covers ?m x \<longleftrightarrow> covers l x \<or> covers lock x"
    using merge by (auto simp: covers_def min_def max_def locks_ok_Cons range_ok_def)
  have "range_ok ?m" using merge by (auto simp: locks_ok_Cons range_ok_def)
  with merge c show ?case using apart_not_held[of ls l x t] by (auto simp: held_Cons locks_ok_Cons)
next
  case (swallow l lock ls ls')
  then show ?case by (auto simp: locks_ok_Cons held_Cons covers_def)
next
  case (cut_end l lock ls ls')
  then show ?case by (auto simp: locks_ok_Cons held_Cons covers_def)
next
  case (cut_start l lock ls)
  then have "\<forall>y \<in> set ls. apart lock y" by (auto simp: locks_ok_Cons lock_defs)
  with cut_start show ?case using apart_not_held[of ls lock x t]
    by (auto simp: held_Cons held_insert_new covers_def)
next
  case (split l lock ls)
  then have "\<forall>y \<in> set ls. apart lock y" by (auto simp: locks_ok_Cons lock_defs)
  with split show ?case using apart_not_held[of ls lock x t]
    by (auto simp: held_Cons held_insert_new covers_def range_ok_def)
qed


text \<open>
  Property C16. \<open>locks_insert\<close> sets, replaces or removes exactly the range it is given.
  On a well-formed list (per owner ascending, disjoint, coalesced, within 0 to
  \<open>OFFSET_MAX\<close>) it always returns, never touches a NULL \<open>newl2\<close>, and leaves a
  well-formed list, so no offset it computes leaves that range. When it returns 0, the
  lock's owner holds precisely the new type on every byte of the new range (nothing, for
  \<open>F_UNLCK\<close>) and every other byte, and every other owner, keeps what it had; when an
  allocation fails it returns \<open>-ENOLCK\<close> and the list is unchanged.
\<close>

theorem locks_insert_correct:
  assumes "locks_ok ls" and "range_ok lock"
  shows "\<exists>r ls' m'. locks_insert ls lock m = Some (r, ls', m') \<and> locks_ok ls' \<and>
    (r = 0 \<and> (\<forall>w t x. held ls' w t x \<longleftrightarrow>
       (if w = lk_owner lock \<and> covers lock x then t = lk_type lock \<and> t \<noteq> F_UNLCK else held ls w t x)) \<or>
     r = - ENOLCK \<and> ls' = ls)"
proof -
  have loop: "\<exists>ls'. locks_insert_loop lock f ls = Some ls' \<and> locks_ok ls' \<and>
      (\<forall>w t x. held ls' w t x \<longleftrightarrow>
        (if w = lk_owner lock \<and> covers lock x then t = lk_type lock \<and> t \<noteq> F_UNLCK else held ls w t x))"
    if f: "f \<or> lk_start lock = 0 \<and> lk_end lock = OFFSET_MAX" for f
    using locks_insert_loop_rel[OF assms(2,1) f] ins_rel_ok[OF _ assms(2,1)]
      ins_rel_held[OF _ assms(2,1)] by blast
  show ?thesis
  proof (cases "lk_type lock \<noteq> F_UNLCK \<or> lk_start lock \<noteq> 0 \<or> lk_end lock \<noteq> OFFSET_MAX")
    case True
    obtain b1 m1 b2 m2 where m: "malloc m = (b1, m1)" "malloc m1 = (b2, m2)"
      by (meson surj_pair)
    from True m loop[of True] assms(1) show ?thesis
      by (cases "b1 \<and> b2") (auto simp: locks_insert_def Let_def)
  next
    case False
    with loop[of False] show ?thesis by (auto simp: locks_insert_def)
  qed
qed

text \<open>
  Property C17. \<open>locks_conflict\<close> finds a conflict exactly when some other owner holds, on
  some byte of the requested range, a lock that is incompatible with the request (one of the
  two is a write lock), and what it returns is such a lock of the list.
\<close>

theorem locks_conflict_correct:
  assumes "\<forall>l \<in> set ls. range_ok l" and "range_ok lock"
  shows "(locks_conflict ls lock \<noteq> None \<longleftrightarrow>
      (\<exists>w t x. w \<noteq> lk_owner lock \<and> held ls w t x \<and> covers lock x \<and>
         (t = F_WRLCK \<or> lk_type lock = F_WRLCK))) \<and>
    (\<forall>l. locks_conflict ls lock = Some l \<longrightarrow> l \<in> set ls \<and> lock_conflicts lock l)"
  using assms(1)
proof (induction ls)
  case Nil
  then show ?case by simp
next
  case (Cons l ls)
  have "lock_conflicts lock l \<longleftrightarrow> lk_owner l \<noteq> lk_owner lock \<and>
      (\<exists>x. covers l x \<and> covers lock x) \<and> (lk_type l = F_WRLCK \<or> lk_type lock = F_WRLCK)"
  proof -
    have "(lk_start lock \<le> lk_end l \<and> lk_start l \<le> lk_end lock) \<longleftrightarrow> (\<exists>x. covers l x \<and> covers lock x)"
    proof
      assume h: "lk_start lock \<le> lk_end l \<and> lk_start l \<le> lk_end lock"
      then have "covers l (max (lk_start l) (lk_start lock)) \<and> covers lock (max (lk_start l) (lk_start lock))"
        using Cons.prems assms(2) by (auto simp: covers_def range_ok_def)
      then show "\<exists>x. covers l x \<and> covers lock x" by blast
    qed (auto simp: covers_def)
    then show ?thesis by (auto simp: lock_conflicts_def)
  qed
  with Cons show ?case by (auto simp: held_Cons)
qed

text \<open>
  What \<open>flush\<close> does with the locks: unlocking the whole file needs no memory
  and cannot fail; it removes every lock of the owner and leaves all others in place.
\<close>

theorem unlock_all_removes_owner:
  assumes "locks_ok ls"
  shows "locks_insert ls
      ((flock_to_lock \<lparr>l_type = F_UNLCK, l_whence = 0, l_start = 0, l_len = 0, l_pid = p\<rparr>)\<lparr>lk_owner := w\<rparr>) m =
    Some (0, filter (\<lambda>l. lk_owner l \<noteq> w) ls, m)"
proof -
  let ?u = "(flock_to_lock \<lparr>l_type = F_UNLCK, l_whence = 0, l_start = 0, l_len = 0, l_pid = p\<rparr>)\<lparr>lk_owner := w\<rparr>"
  have u: "lk_type ?u = F_UNLCK" "lk_start ?u = 0" "lk_end ?u = OFFSET_MAX" "lk_owner ?u = w"
    by (simp_all add: flock_to_lock_def)
  from assms have "locks_insert_loop ?u False ls = Some (filter (\<lambda>l. lk_owner l \<noteq> w) ls)"
  proof (induction ls)
    case Nil
    then show ?case by (simp add: insert_new_def u)
  next
    case (Cons l ls)
    then have "lk_type l \<noteq> F_UNLCK" "0 \<le> lk_start l" "lk_start l \<le> lk_end l" "lk_end l \<le> OFFSET_MAX"
      by (auto simp: locks_ok_Cons range_ok_def)
    with Cons show ?case by (auto simp: u locks_ok_Cons)
  qed
  then show ?thesis by (simp add: locks_insert_def u)
qed

text \<open>
  The two conversions between a \<open>struct flock\<close> and a byte range are inverse:
  a range survives the trip through \<open>flock\<close> (up to its owner, which \<open>flock\<close> does not
  carry), and a \<open>flock\<close> from a non-negative offset with a length that ends before
  \<open>OFFSET_MAX\<close> survives the trip through a lock.
\<close>

theorem flock_lock_roundtrip:
  assumes "range_ok l" and "0 \<le> l_start f" and "0 \<le> l_len f" and "l_start f + l_len f \<le> OFFSET_MAX"
  shows "flock_to_lock (lock_to_flock l f) = l\<lparr>lk_owner := 0\<rparr> \<and>
         lock_to_flock (flock_to_lock f) f = f"
  using assms by (auto simp: flock_to_lock_def lock_to_flock_def range_ok_def)

section \<open>Witnesses\<close>

definition lock_rd :: "64 word \<Rightarrow> int \<Rightarrow> int \<Rightarrow> lock" where
  "lock_rd w a b = \<lparr>lk_type = F_RDLCK, lk_start = a, lk_end = b, lk_pid = 7, lk_owner = w\<rparr>"

definition lock_wr :: "64 word \<Rightarrow> int \<Rightarrow> int \<Rightarrow> lock" where
  "lock_wr w a b = \<lparr>lk_type = F_WRLCK, lk_start = a, lk_end = b, lk_pid = 7, lk_owner = w\<rparr>"

lemmas lock_examples = lock_rd_def lock_wr_def F_RDLCK_def F_WRLCK_def F_UNLCK_def OFFSET_MAX_def

theorem locks_insert_correct_witness:
  "\<exists>ls'. locks_insert [lock_rd 1 0 99, lock_rd 2 50 60] (lock_wr 1 10 19) [] = Some (0, ls', []) \<and>
     locks_ok ls' \<and> held ls' 1 F_WRLCK 15 \<and> held ls' 1 F_RDLCK 5"
proof -
  have a: "locks_ok [lock_rd 1 0 99, lock_rd 2 50 60]" "range_ok (lock_wr 1 10 19)"
    by (simp_all add: locks_ok_Cons lock_defs lock_examples)
  show ?thesis using locks_insert_correct[OF a, of "[]"]
    by (auto simp: locks_insert_def Let_def held_Cons covers_def insert_new_def lock_examples)
qed

theorem locks_conflict_correct_witness:
  "locks_conflict [lock_rd 1 0 9, lock_rd 2 0 99] (lock_wr 1 20 20) = Some (lock_rd 2 0 99)"
  using locks_conflict_correct[of "[lock_rd 1 0 9, lock_rd 2 0 99]" "lock_wr 1 20 20"]
  by (auto simp: lock_defs lock_examples lock_conflicts_def)

theorem unlock_all_removes_owner_witness:
  "locks_insert [lock_rd 1 0 99, lock_rd 2 50 60]
     ((flock_to_lock \<lparr>l_type = F_UNLCK, l_whence = 0, l_start = 0, l_len = 0, l_pid = 0\<rparr>)\<lparr>lk_owner := 1\<rparr>)
     [False] = Some (0, [lock_rd 2 50 60], [False])"
proof -
  have "locks_ok [lock_rd 1 0 99, lock_rd 2 50 60]"
    by (simp add: locks_ok_Cons lock_defs lock_examples)
  from unlock_all_removes_owner[OF this] show ?thesis by (simp add: lock_examples)
qed

theorem flock_lock_roundtrip_witness:
  "lock_to_flock (flock_to_lock \<lparr>l_type = F_WRLCK, l_whence = 0, l_start = 10, l_len = 5, l_pid = 3\<rparr>)
      \<lparr>l_type = F_WRLCK, l_whence = 0, l_start = 10, l_len = 5, l_pid = 3\<rparr> =
    \<lparr>l_type = F_WRLCK, l_whence = 0, l_start = 10, l_len = 5, l_pid = 3\<rparr>"
  using flock_lock_roundtrip[of "lock_rd 0 0 1" "\<lparr>l_type = F_WRLCK, l_whence = 0, l_start = 10, l_len = 5, l_pid = 3\<rparr>"]
  by (simp add: range_ok_def lock_examples)

end
