(* ===== verification/Posix.thy ===== *)
theory Posix
  imports Prelude
begin

text \<open>
  The interface to the operating system and the records of src/include/fuse_common.h, fuse.h and
  fuse_lowlevel.h that several components share. The operating system is a parameter of the
  model: a function from a system call and a state of the world to a reply and the next state.
  A reply carries the return value, the \<open>errno\<close> the call leaves when it fails (a negative
  return value), and the data it produces. A process state is the world and \<open>errno\<close>.
\<close>

section \<open>Printing numbers\<close>

definition digit_char :: "nat \<Rightarrow> char" where
  "digit_char d = char_of (if d < 10 then 48 + d else 87 + d)"

fun digits :: "nat \<Rightarrow> nat \<Rightarrow> string" where
  \<comment> \<open>\<open>%u\<close>, \<open>%o\<close> and \<open>%x\<close>: the digits of a number in a base\<close>
  "digits b n = (if n < b \<or> b < 2 then [digit_char n] else digits b (n div b) @ [digit_char (n mod b)])"

declare digits.simps [simp del]

definition dec :: "int \<Rightarrow> string" where
  \<comment> \<open>\<open>%d\<close>\<close>
  "dec i = (if i < 0 then CHR ''-'' # digits 10 (nat (- i)) else digits 10 (nat i))"

lemma digits_eval:
  "n < b \<Longrightarrow> digits b n = [digit_char n]"
  "b \<le> n \<Longrightarrow> 2 \<le> b \<Longrightarrow> digits b n = digits b (n div b) @ [digit_char (n mod b)]"
  by (subst digits.simps; simp)+

lemma digits_length_mono:
  assumes "m \<le> n"
  shows "length (digits b m) \<le> length (digits b n)"
  using assms
proof (induction b n arbitrary: m rule: digits.induct)
  case (1 b n)
  show ?case
  proof (cases "n < b \<or> b < 2")
    case True
    then show ?thesis using 1(2) by (subst (1 2) digits.simps) auto
  next
    case False
    have "m div b \<le> n div b" using 1(2) by (rule div_le_mono)
    from 1(1)[OF False this] False show ?thesis by (subst (1 2) digits.simps) simp
  qed
qed

section \<open>System calls\<close>

text \<open>
  A process that is forked to run another program (\<open>SysFork\<close>) is described by what its code
  depends on: the arguments of the program, for the daemon nothing. \<open>SysPoll\<close> asks for no events and
  does not wait, \<open>SysPollIn\<close> waits for input for a number of milliseconds; \<open>SysSetfd\<close> is \<open>fcntl(fd, F_SETFD, n)\<close>; \<open>SysRecvmsg\<close> receives one byte and one
  control message; \<open>SysClone\<close> is \<open>ioctl(fd, FUSE_DEV_IOC_CLONE, &other)\<close>. A signal handler is the default, to
  ignore the signal, one of the two of the library, or another; the dynamic linker's handle or symbol is a
  number, zero for NULL.
  \<open>SysWritev\<close> carries the concatenation of its pieces. \<open>SysSetPipeSize\<close> is
  \<open>fcntl(fd, F_SETPIPE_SZ, n)\<close>. \<open>SysSpliceOut\<close> is \<open>splice(fd, NULL, out, NULL, n, flags)\<close> out of a
  pipe whose first pages were given to it by \<open>vmsplice\<close>: it carries what these pages hold by then.
\<close>

type_synonym bytes = "8 word list"

record timespec =
  tv_sec :: int
  tv_nsec :: int

record stat =
  st_dev :: "64 word"
  st_ino :: "64 word"
  st_mode :: "32 word"
  st_nlink :: "64 word"
  st_uid :: "32 word"
  st_gid :: "32 word"
  st_rdev :: "64 word"
  st_size :: int
  st_blksize :: int
  st_blocks :: int
  st_atim :: timespec
  st_mtim :: timespec
  st_ctim :: timespec

definition zero_time :: timespec where
  "zero_time = \<lparr>tv_sec = 0, tv_nsec = 0\<rparr>"

definition zero_stat :: stat where
  \<comment> \<open>\<open>memset(&st, 0, sizeof(st))\<close>\<close>
  "zero_stat = \<lparr>st_dev = 0, st_ino = 0, st_mode = 0, st_nlink = 0, st_uid = 0, st_gid = 0, st_rdev = 0,
     st_size = 0, st_blksize = 0, st_blocks = 0, st_atim = zero_time, st_mtim = zero_time, st_ctim = zero_time\<rparr>"

record statvfs =
  f_bsize :: int
  f_frsize :: int
  f_blocks :: int
  f_bfree :: int
  f_bavail :: int
  f_files :: int
  f_ffree :: int
  f_namemax :: int

record dirent =
  d_ino :: "64 word"
  d_type :: "8 word"
  d_name :: string

datatype logarg = LS string | LI int | LPtr

datatype child =
    Ch_fusermount "string list" bool int int \<comment> \<open>arguments, quiet, the two sockets\<close>
  | Ch_version "string list" | Ch_program "string list" | Ch_daemon

datatype sighandler = Sig_dfl | Sig_ign | Sig_exit | Sig_intr | Sig_user nat

datatype syscall =
    SysLstat string | SysAccess string int | SysOpendir string | SysReaddir int | SysClosedir int
  | SysReadlink string int | SysOpen string int "32 word" | SysClose int | SysMkfifo string "32 word"
  | SysMknod string "32 word" "64 word" | SysMkdir string "32 word" | SysUnlink string | SysRmdir string
  | SysSymlink string string | SysRename string string | SysLink string string
  | SysChmod string "32 word" | SysLchown string "32 word" "32 word" | SysTruncate string int
  | SysUtimensat string "timespec list" int | SysStatvfs string
  | SysRead int nat | SysPread int nat int | SysWrite int bytes | SysPwrite int bytes int
  | SysSplice int "int option" int "int option" nat nat
  | SysRealpath string | SysGmtime | SysFopen string string
  | SysLog string "logarg list" | SysClockGettime int
  | SysWritev int bytes | SysPipe2 | SysSetPipeSize int nat | SysVmsplice int bytes
  | SysSpliceOut int int bytes nat nat | SysGetuid
  | SysStat string | SysGetgid | SysGeteuid | SysSetreuid int int | SysSigprocmask | SysFork child | SysWaitpid int
  | SysMount string string string "32 word" "string option" | SysUmount2 string int | SysPoll int
  | SysSocketpair | SysRecvmsg int | SysSetfd int int | SysFgets int nat | SysPipe | SysSetsid | SysChdir string
  | SysDup2 int int | SysSigaction nat "sighandler option" | SysClone int int
  | SysDlopen string | SysDlsym int string | SysDlclose int | SysPollIn int int

datatype payload =
    NoData | StatData stat | StatvfsData statvfs | ByteData bytes | DirentData dirent
  | StringData string | TimeData int int int | ClockData timespec | PipeData int int | IntData int
  | SigData sighandler

record reply =
  r_ret :: int
  r_errno :: int
  r_data :: payload

type_synonym 'w kernel = "syscall \<Rightarrow> 'w \<Rightarrow> reply \<times> 'w"

record 'w proc =
  p_world :: 'w
  p_errno :: int

definition sys :: "'w kernel \<Rightarrow> syscall \<Rightarrow> ('w, 'm) proc_scheme \<Rightarrow> reply \<times> ('w, 'm) proc_scheme" where
  \<comment> \<open>a failing call sets \<open>errno\<close>\<close>
  "sys k c st =
     (let (r, w) = k c (p_world st)
      in (r, st\<lparr>p_world := w, p_errno := (if r_ret r < 0 then r_errno r else p_errno st)\<rparr>))"

section \<open>Open flags and file modes\<close>

abbreviation (input) O_RDONLY :: int where "O_RDONLY \<equiv> 0"
abbreviation (input) O_WRONLY :: int where "O_WRONLY \<equiv> 1"
abbreviation (input) O_RDWR :: int where "O_RDWR \<equiv> 2"
abbreviation (input) O_CREAT :: int where "O_CREAT \<equiv> 64"
abbreviation (input) O_EXCL :: int where "O_EXCL \<equiv> 128"
abbreviation (input) O_TRUNC :: int where "O_TRUNC \<equiv> 512"
abbreviation (input) AT_SYMLINK_NOFOLLOW :: int where "AT_SYMLINK_NOFOLLOW \<equiv> 256"

definition S_IFMT :: "32 word" where "S_IFMT = 0xF000"
definition S_ISREG :: "32 word \<Rightarrow> bool" where "S_ISREG m \<longleftrightarrow> m AND S_IFMT = 0x8000"
definition S_ISDIR :: "32 word \<Rightarrow> bool" where "S_ISDIR m \<longleftrightarrow> m AND S_IFMT = 0x4000"
definition S_ISFIFO :: "32 word \<Rightarrow> bool" where "S_ISFIFO m \<longleftrightarrow> m AND S_IFMT = 0x1000"

section \<open>Shared structures of the library\<close>

record fuse_file_info =
  fi_flags :: int
  fi_writepage :: bool
  fi_direct_io :: bool
  fi_keep_cache :: bool
  fi_flush :: bool
  fi_nonseekable :: bool
  fi_flock_release :: bool
  fi_fh :: "64 word"
  fi_lock_owner :: "64 word"
  fi_poll_events :: "32 word"

definition zero_fi :: fuse_file_info where
  \<comment> \<open>\<open>memset(&fi, 0, sizeof(fi))\<close>\<close>
  "zero_fi = \<lparr>fi_flags = 0, fi_writepage = False, fi_direct_io = False, fi_keep_cache = False, fi_flush = False,
     fi_nonseekable = False, fi_flock_release = False, fi_fh = 0, fi_lock_owner = 0, fi_poll_events = 0\<rparr>"

record fuse_conn_info =
  cn_proto_major :: "32 word"
  cn_proto_minor :: "32 word"
  cn_async_read :: "32 word"
  cn_max_write :: "32 word"
  cn_max_readahead :: "32 word"
  cn_capable :: "32 word"
  cn_want :: "32 word"
  cn_max_background :: "32 word"
  cn_congestion_threshold :: "32 word"
  cn_time_gran :: "32 word"

record fuse_context =
  cx_uid :: "32 word"
  cx_gid :: "32 word"
  cx_pid :: int
  cx_umask :: "32 word"

record fuse_entry_param =
  e_ino :: "64 word"
  e_generation :: "64 word"
  e_attr :: stat
  e_attr_timeout :: real
  e_entry_timeout :: real

definition zero_entry :: fuse_entry_param where
  \<comment> \<open>\<open>memset(e, 0, sizeof(struct fuse_entry_param))\<close>\<close>
  "zero_entry = \<lparr>e_ino = 0, e_generation = 0, e_attr = zero_stat, e_attr_timeout = 0, e_entry_timeout = 0\<rparr>"

type_synonym ('b, 's) filler = "'b \<Rightarrow> string \<Rightarrow> stat option \<Rightarrow> int \<Rightarrow> 32 word \<Rightarrow> 's \<Rightarrow> int \<times> 'b \<times> 's"

lemma sys_simps [simp]:
  "fst (sys k c st) = fst (k c (p_world st))"
  "p_world (snd (sys k c st)) = snd (k c (p_world st))"
  "p_errno (snd (sys k c st)) =
     (if r_ret (fst (k c (p_world st))) < 0 then r_errno (fst (k c (p_world st))) else p_errno st)"
  by (simp_all add: sys_def Let_def split: prod.splits)

end
