(* ===== verification/Node_Tree.thy ===== *)
theory Node_Tree
  imports Node_Slab File_Locks Posix
begin

text \<open>
  The inode tree of src/lib/fuse.c: \<open>struct node\<close>, \<open>struct fuse_config\<close> and \<open>struct fuse\<close>
  as records, the node heap as a map from addresses, and the operations that run under \<open>f->lock\<close>:
  lookup, hashing and unhashing, the reference counting that deletes a node when its last child,
  lookup or other reference goes, \<open>find_node\<close>, and the node side of forget, unlink, rename and
  exchange. A dereference of an address that holds no node, a failing assertion and \<open>abort()\<close>
  are \<open>None\<close>. The tree invariant is split into the heap part (\<open>heap_ok\<close>) and the two indexes and
  the allocator (\<open>tree_ok\<close>).
\<close>

section \<open>State\<close>

record node =
  n_nodeid :: fuse_ino_t
  n_generation :: "32 word"
  n_refctr :: int
  n_parent :: "addr option"
  n_name :: "string option"
  n_nlookup :: "64 word"
  n_open_count :: int
  n_stat_updated :: timespec
  n_mtime :: timespec
  n_size :: int
  n_locks :: "lock list"
  n_is_hidden :: bool
  n_cache_valid :: bool
  n_treelock :: int
  n_forget_time :: timespec

record fuse_config =
  c_uid :: "32 word"
  c_gid :: "32 word"
  c_umask :: "32 word"
  c_entry_timeout :: real
  c_negative_timeout :: real
  c_attr_timeout :: real
  c_ac_attr_timeout :: real
  c_ac_attr_timeout_set :: int
  c_remember :: int
  c_nopath :: bool
  c_debug :: bool
  c_hard_remove :: bool
  c_use_ino :: bool
  c_readdir_ino :: bool
  c_set_mode :: bool
  c_set_uid :: bool
  c_set_gid :: bool
  c_direct_io :: bool
  c_kernel_cache :: bool
  c_auto_cache :: bool
  c_intr :: bool
  c_intr_signal :: int
  c_show_help :: bool
  c_modules :: "string option"

record lock_queue_element =
  \<comment> \<open>\<open>q_path1 = None\<close>: no path pointer given; the pointed-to strings and nodes are the
      \<open>q_res\<close> fields, written through the pointers by \<open>try_get_path\<close>\<close>
  q_id :: nat
  q_nodeid1 :: fuse_ino_t
  q_name1 :: "string option"
  q_path1 :: bool
  q_wr1 :: bool
  q_respath1 :: "string option"
  q_wnode1 :: "addr option"
  q_nodeid2 :: fuse_ino_t
  q_name2 :: "string option"
  q_path2 :: bool
  q_wr2 :: bool
  q_respath2 :: "string option"
  q_wnode2 :: "addr option"
  q_err :: int
  q_first_locked :: bool
  q_second_locked :: bool
  q_done :: bool

type_synonym heap = "addr \<Rightarrow> node option"

record fuse =
  f_nodes :: heap
  f_name_table :: node_table
  f_id_table :: node_table
  f_lru_table :: "addr list"
  f_ctr :: fuse_ino_t
  f_generation :: "32 word"
  f_hidectr :: "32 word"
  f_conf :: fuse_config
  f_lockq :: "lock_queue_element list"
  f_slabs :: slabs
  f_mem :: mem

abbreviation (input) FUSE_ROOT_ID :: fuse_ino_t where "FUSE_ROOT_ID \<equiv> 1"
abbreviation (input) FUSE_UNKNOWN_INO :: fuse_ino_t where "FUSE_UNKNOWN_INO \<equiv> 0xffffffff"

definition zero_node :: node where
  \<comment> \<open>\<open>memset(node, 0, sizeof(struct node))\<close>\<close>
  "zero_node = \<lparr>n_nodeid = 0, n_generation = 0, n_refctr = 0, n_parent = None, n_name = None,
     n_nlookup = 0, n_open_count = 0, n_stat_updated = \<lparr>tv_sec = 0, tv_nsec = 0\<rparr>,
     n_mtime = \<lparr>tv_sec = 0, tv_nsec = 0\<rparr>, n_size = 0, n_locks = [], n_is_hidden = False,
     n_cache_valid = False, n_treelock = 0, n_forget_time = \<lparr>tv_sec = 0, tv_nsec = 0\<rparr>\<rparr>"

definition upd :: "addr \<Rightarrow> (node \<Rightarrow> node) \<Rightarrow> fuse \<Rightarrow> fuse" where
  "upd p g f = f\<lparr>f_nodes := (f_nodes f)(p := map_option g (f_nodes f p))\<rparr>"

definition lru_enabled :: "fuse \<Rightarrow> bool" where
  "lru_enabled f \<longleftrightarrow> c_remember (f_conf f) > 0"

section \<open>The indexes\<close>

definition idk :: "heap \<Rightarrow> addr \<Rightarrow> nat" where
  "idk h p = (case h p of Some n \<Rightarrow> id_key (n_nodeid n) | None \<Rightarrow> 0)"

definition namek :: "heap \<Rightarrow> addr \<Rightarrow> nat" where
  \<comment> \<open>the key of \<open>name_hash(f, node->parent->nodeid, node->name)\<close>\<close>
  "namek h p =
     (case h p of
        Some n \<Rightarrow>
          (case (n_parent n, n_name n) of
             (Some q, Some s) \<Rightarrow> (case h q of Some m \<Rightarrow> name_key (n_nodeid m) s | None \<Rightarrow> 0)
           | _ \<Rightarrow> 0)
      | None \<Rightarrow> 0)"

definition get_node_nocheck :: "fuse \<Rightarrow> fuse_ino_t \<Rightarrow> addr option" where
  "get_node_nocheck f nodeid =
     List.find (\<lambda>p. map_option n_nodeid (f_nodes f p) = Some nodeid)
       (table_bucket (f_id_table f) (id_key nodeid))"

definition get_node :: "fuse \<Rightarrow> fuse_ino_t \<Rightarrow> addr option" where
  \<comment> \<open>\<open>None\<close>: \<open>abort()\<close>\<close>
  "get_node f nodeid = get_node_nocheck f nodeid"

definition hash_id :: "fuse \<Rightarrow> addr \<Rightarrow> fuse" where
  "hash_id f p =
     (let (t, m) = table_add (idk (f_nodes f)) p (f_id_table f) (f_mem f)
      in f\<lparr>f_id_table := t, f_mem := m\<rparr>)"

definition unhash_id :: "fuse \<Rightarrow> addr \<Rightarrow> fuse" where
  "unhash_id f p =
     (let (t, m) = table_del (idk (f_nodes f)) p (f_id_table f) (f_mem f)
      in f\<lparr>f_id_table := t, f_mem := m\<rparr>)"

definition rehash_name :: "fuse \<Rightarrow> fuse" where
  "rehash_name f =
     (let (t, m) = rehash (namek (f_nodes f)) (f_name_table f) (f_mem f)
      in f\<lparr>f_name_table := t, f_mem := m\<rparr>)"

definition remerge_name :: "fuse \<Rightarrow> fuse" where
  "remerge_name f =
     (let (t, m) = remerge (f_name_table f) (f_mem f) in f\<lparr>f_name_table := t, f_mem := m\<rparr>)"

definition lookup_node :: "fuse \<Rightarrow> fuse_ino_t \<Rightarrow> string \<Rightarrow> addr option" where
  "lookup_node f parent name =
     List.find (\<lambda>p. case f_nodes f p of
         Some n \<Rightarrow> n_name n = Some name \<and>
           map_option n_nodeid (Option.bind (n_parent n) (f_nodes f)) = Some parent
       | None \<Rightarrow> False)
       (table_bucket (f_name_table f) (name_key parent name))"

definition hash_name :: "fuse \<Rightarrow> addr \<Rightarrow> fuse_ino_t \<Rightarrow> string \<Rightarrow> (int \<times> fuse) option" where
  "hash_name f p parentid name = do {
     let hash = name_hash (f_name_table f) parentid name;
     parent \<leftarrow> get_node f parentid;
     let (ok, m) = (if length name < 32 then (True, f_mem f) else malloc (f_mem f));
     let f = upd p (\<lambda>n. n\<lparr>n_name := if ok then Some name else None\<rparr>) (f\<lparr>f_mem := m\<rparr>);
     if \<not> ok then Some (-1, f)
     else do {
       let f = upd parent (\<lambda>n. n\<lparr>n_refctr := n_refctr n + 1\<rparr>) f;
       let f = upd p (\<lambda>n. n\<lparr>n_parent := Some parent\<rparr>) f;
       let t = f_name_table f;
       let t = t\<lparr>nt_array := (nt_array t)[hash := p # nt_array t ! hash], nt_use := nt_use t + 1\<rparr>;
       let f = f\<lparr>f_name_table := t\<rparr>;
       Some (0, if nt_use t \<ge> nt_size t div 2 then rehash_name f else f)
     }
   }"

section \<open>Reference counts and deletion\<close>

definition remove_node_lru :: "fuse \<Rightarrow> addr \<Rightarrow> fuse" where
  "remove_node_lru f p = f\<lparr>f_lru_table := removeAll p (f_lru_table f)\<rparr>"

definition set_forget_time :: "timespec \<Rightarrow> fuse \<Rightarrow> addr \<Rightarrow> fuse" where
  \<comment> \<open>the clock's value is a parameter\<close>
  "set_forget_time now f p =
     upd p (\<lambda>n. n\<lparr>n_forget_time := now\<rparr>)
       (f\<lparr>f_lru_table := removeAll p (f_lru_table f) @ [p]\<rparr>)"

definition free_node :: "fuse \<Rightarrow> addr \<Rightarrow> fuse option" where
  "free_node f p = do {
     sb \<leftarrow> free_node_mem (f_slabs f) p;
     Some (f\<lparr>f_slabs := sb, f_nodes := (f_nodes f)(p := None)\<rparr>)
   }"

definition population :: "fuse \<Rightarrow> nat" where
  "population f = sum_list (map length (nt_array (f_name_table f)))"

lemma population_unlink:
  assumes "h < length (nt_array (f_name_table f))" and "p \<in> set (nt_array (f_name_table f) ! h)"
  shows "population (f\<lparr>f_name_table := table_unlink h p (f_name_table f)\<rparr>) < population f"
proof -
  let ?a = "nt_array (f_name_table f)"
  have "length (remove1 p (?a ! h)) < length (?a ! h)"
    using assms(2) length_pos_if_in_set[OF assms(2)] by (simp add: length_remove1)
  moreover have "length (?a ! h) \<le> sum_list (map length ?a)"
    using elem_le_sum_list[of h "map length ?a"] assms(1) by simp
  ultimately show ?thesis
    using assms(1) by (simp add: population_def table_unlink_def map_update sum_list_update)
qed

function (sequential) unhash_name :: "fuse \<Rightarrow> addr \<Rightarrow> fuse option"
  and unref_node :: "fuse \<Rightarrow> addr \<Rightarrow> fuse option"
  and delete_node :: "fuse \<Rightarrow> addr \<Rightarrow> fuse option" where
  "unhash_name f p = do {
     n \<leftarrow> f_nodes f p;
     case n_name n of
       None \<Rightarrow> Some f
     | Some name \<Rightarrow> do {
         q \<leftarrow> n_parent n;
         m \<leftarrow> f_nodes f q;
         let hash = name_hash (f_name_table f) (n_nodeid m) name;
         if hash < length (nt_array (f_name_table f)) \<and> p \<in> set (nt_array (f_name_table f) ! hash) then do {
           f \<leftarrow> unref_node (f\<lparr>f_name_table := table_unlink hash p (f_name_table f)\<rparr>) q;
           _ \<leftarrow> f_nodes f p;
           let f = upd p (\<lambda>n. n\<lparr>n_name := None, n_parent := None\<rparr>) f;
           let t = (f_name_table f)\<lparr>nt_use := nt_use (f_name_table f) - 1\<rparr>;
           let f = f\<lparr>f_name_table := t\<rparr>;
           Some (if nt_use t < nt_size t div 4 then remerge_name f else f)
         } else None
       }
   }"
| "unref_node f p = do {
     n \<leftarrow> f_nodes f p;
     if n_refctr n > 0 then do {
       let f = upd p (\<lambda>n. n\<lparr>n_refctr := n_refctr n - 1\<rparr>) f;
       if n_refctr n - 1 = 0 then delete_node f p else Some f
     } else None
   }"
| "delete_node f p = do {
     n \<leftarrow> f_nodes f p;
     if n_treelock n = 0 then do {
       f \<leftarrow> unhash_name f p;
       let f = (if lru_enabled f then remove_node_lru f p else f);
       free_node (unhash_id f p) p
     } else None
   }"
  by pat_completeness auto

termination
proof (relation "measures [case_sum (\<lambda>(f, p). population f) (case_sum (\<lambda>(f, p). population f) (\<lambda>(f, p). population f)),
    case_sum (\<lambda>_. 0) (case_sum (\<lambda>_. 2) (\<lambda>_. 1))]")
qed (auto simp: population_unlink, auto simp: population_def upd_def)

declare unhash_name.simps [simp del] unref_node.simps [simp del] delete_node.simps [simp del]

section \<open>The heap invariant\<close>

definition look :: "node \<Rightarrow> nat" where
  "look n = (if n_nlookup n = 0 then 0 else 1)"

definition linked :: "heap \<Rightarrow> addr set" where
  "linked h = {p. \<exists>n q. h p = Some n \<and> n_parent n = Some q}"

definition kids :: "heap \<Rightarrow> addr set \<Rightarrow> addr \<Rightarrow> addr set" where
  \<comment> \<open>the nodes in the name table whose parent is \<open>q\<close>\<close>
  "kids h L q = {p. p \<notin> L \<and> (\<exists>n. h p = Some n \<and> n_parent n = Some q)}"

definition pinned :: "(addr \<Rightarrow> nat) \<Rightarrow> addr \<Rightarrow> node \<Rightarrow> bool" where
  "pinned ex p n \<longleftrightarrow> n_nlookup n \<noteq> 0 \<or> 0 < ex p"

definition node_ok :: "(addr \<Rightarrow> nat) \<Rightarrow> addr set \<Rightarrow> addr set \<Rightarrow> heap \<Rightarrow> addr \<Rightarrow> node \<Rightarrow> bool" where
  "node_ok ex L Z h p n \<longleftrightarrow>
     n_refctr n = int (look n + card (kids h L p) + ex p) \<and>
     (p \<in> Z \<longleftrightarrow> n_refctr n = 0) \<and>
     (n_treelock n \<noteq> 0 \<longrightarrow> pinned ex p n) \<and>
     (p \<in> L \<longrightarrow> p \<in> Z \<or> pinned ex p n) \<and>
     (n_nodeid n = FUSE_ROOT_ID \<longrightarrow> n_parent n = None \<and> n_nlookup n \<noteq> 0) \<and>
     (n_parent n = None \<longrightarrow> n_nodeid n \<noteq> FUSE_ROOT_ID \<longrightarrow> n_name n = None) \<and>
     (\<forall>q. n_parent n = Some q \<longrightarrow> n_name n \<noteq> None \<and> (p \<notin> L \<longrightarrow> q \<in> dom h))"

definition heap_ok :: "(addr \<Rightarrow> nat) \<Rightarrow> addr set \<Rightarrow> addr set \<Rightarrow> heap \<Rightarrow> bool" where
  \<comment> \<open>\<open>ex\<close> counts the references held by a running operation, \<open>L\<close> are the nodes out of the name
      table whose parent field is still set, \<open>Z\<close> the nodes being deleted\<close>
  "heap_ok ex L Z h \<longleftrightarrow> finite (dom h) \<and> L \<subseteq> linked h \<and> Z \<subseteq> dom h \<and>
     (\<forall>p n. h p = Some n \<longrightarrow> node_ok ex L Z h p n) \<and>
     (\<forall>p. p \<notin> dom h \<longrightarrow> ex p = 0) \<and>
     (\<forall>p q n m. h p = Some n \<and> h q = Some m \<and> n_nodeid n = n_nodeid m \<longrightarrow> p = q) \<and>
     (\<forall>p q n m. h p = Some n \<and> h q = Some m \<and> p \<notin> L \<and> q \<notin> L \<and> n_parent n \<noteq> None \<and>
        n_parent n = n_parent m \<and> n_name n = n_name m \<longrightarrow> p = q) \<and>
     (\<exists>r n. h r = Some n \<and> n_nodeid n = FUSE_ROOT_ID)"

lemma heap_okD:
  assumes "heap_ok ex L Z h"
  shows "finite (dom h)" "L \<subseteq> linked h" "Z \<subseteq> dom h" "h p = Some n \<Longrightarrow> node_ok ex L Z h p n"
    "p \<notin> dom h \<Longrightarrow> ex p = 0"
    "h p = Some n \<Longrightarrow> h q = Some m \<Longrightarrow> n_nodeid n = n_nodeid m \<Longrightarrow> p = q"
    "h p = Some n \<Longrightarrow> h q = Some m \<Longrightarrow> p \<notin> L \<Longrightarrow> q \<notin> L \<Longrightarrow> n_parent n \<noteq> None \<Longrightarrow>
        n_parent n = n_parent m \<Longrightarrow> n_name n = n_name m \<Longrightarrow> p = q"
    "\<exists>r n. h r = Some n \<and> n_nodeid n = FUSE_ROOT_ID"
  using assms unfolding heap_ok_def by blast+

lemma heap_okI:
  assumes "finite (dom h)" "L \<subseteq> linked h" "Z \<subseteq> dom h"
    and "\<And>p n. h p = Some n \<Longrightarrow> node_ok ex L Z h p n" and "\<And>p. p \<notin> dom h \<Longrightarrow> ex p = 0"
    and "\<And>p q n m. h p = Some n \<Longrightarrow> h q = Some m \<Longrightarrow> n_nodeid n = n_nodeid m \<Longrightarrow> p = q"
    and "\<And>p q n m. h p = Some n \<Longrightarrow> h q = Some m \<Longrightarrow> p \<notin> L \<Longrightarrow> q \<notin> L \<Longrightarrow> n_parent n \<noteq> None \<Longrightarrow>
        n_parent n = n_parent m \<Longrightarrow> n_name n = n_name m \<Longrightarrow> p = q"
    and "\<exists>r n. h r = Some n \<and> n_nodeid n = FUSE_ROOT_ID"
  shows "heap_ok ex L Z h"
  unfolding heap_ok_def using assms by blast

lemma node_okD:
  assumes "node_ok ex L Z h p n"
  shows "n_refctr n = int (look n + card (kids h L p) + ex p)" "p \<in> Z \<longleftrightarrow> n_refctr n = 0"
    "n_treelock n \<noteq> 0 \<Longrightarrow> pinned ex p n" "p \<in> L \<Longrightarrow> p \<in> Z \<or> pinned ex p n"
    "n_nodeid n = FUSE_ROOT_ID \<Longrightarrow> n_parent n = None \<and> n_nlookup n \<noteq> 0"
    "n_parent n = None \<Longrightarrow> n_nodeid n \<noteq> FUSE_ROOT_ID \<Longrightarrow> n_name n = None"
    "n_parent n = Some q \<Longrightarrow> n_name n \<noteq> None" "n_parent n = Some q \<Longrightarrow> p \<notin> L \<Longrightarrow> q \<in> dom h"
  using assms unfolding node_ok_def by blast+

lemma kids_finite: "finite (dom h) \<Longrightarrow> finite (kids h L q)"
  by (rule finite_subset[of _ "dom h"]) (auto simp: kids_def)

lemma linkedI: "h p = Some n \<Longrightarrow> n_parent n = Some q \<Longrightarrow> p \<in> linked h"
  by (auto simp: linked_def)

text \<open>A node leaves the name table; the reference it holds on its parent becomes the caller's.\<close>

lemma heap_unlink:
  assumes ok: "heap_ok ex L Z h" and p: "h p = Some n" "n_parent n = Some q" "p \<notin> L"
    and pin: "p \<in> Z \<or> pinned ex p n"
  shows "heap_ok (ex(q := ex q + 1)) (insert p L) Z h" "q \<in> dom h" "q \<notin> Z"
    "h q = Some m \<Longrightarrow> q \<in> insert p L \<Longrightarrow> pinned ex q m"
proof -
  note D = heap_okD[OF ok]
  show q: "q \<in> dom h" using node_okD(8)[OF D(4)[OF p(1)]] p by blast
  have kp: "p \<in> kids h L q" using p by (auto simp: kids_def)
  have kids: "kids h (insert p L) r = kids h L r - (if r = q then {p} else {})" for r
    using p by (auto simp: kids_def)
  have card: "card (kids h L r) = card (kids h (insert p L) r) + (if r = q then 1 else 0)" for r
    using kids[of r] kp kids_finite[OF D(1)] card.remove[of "kids h L q" p] by auto
  have pos: "0 < card (kids h L q)" using card[of q] by simp
  have nZ: "r \<noteq> q" if "r \<in> Z" for r
    using that q pos node_okD(1,2)[OF D(4), of q] by auto
  show "q \<notin> Z" using nZ by blast
  show "pinned ex q m" if "h q = Some m" "q \<in> insert p L"
    using that pin p(1) nZ node_okD(4)[OF D(4)[OF that(1)]] by auto
  have pinex: "pinned ex r x \<Longrightarrow> pinned (ex(q := ex q + 1)) r x" for r x by (auto simp: pinned_def)
  show "heap_ok (ex(q := ex q + 1)) (insert p L) Z h"
  proof (rule heap_okI)
    show "insert p L \<subseteq> linked h" using D(2) p linkedI by auto
    fix r x assume r: "h r = Some x"
    note N = D(4)[OF r]
    show "node_ok (ex(q := ex q + 1)) (insert p L) Z h r x"
      unfolding node_ok_def using node_okD[OF N] card[of r] pinex pin p(1) r by auto
  next
    fix r s x y assume "h r = Some x" "h s = Some y" "r \<notin> insert p L" "s \<notin> insert p L" "n_parent x \<noteq> None"
        "n_parent x = n_parent y" "n_name x = n_name y"
    then show "r = s" using D(7)[of r x s y] by blast
  qed (use D(1,3,5,6,8) q in auto)
qed

text \<open>A node changes without moving in the tree.\<close>

lemma kids_update:
  assumes "h p = Some n" and "n_parent n' = n_parent n"
  shows "kids (h(p \<mapsto> n')) L = kids h L"
  using assms by (auto simp: fun_eq_iff kids_def)

lemma linked_update:
  assumes "h p = Some n" and "n_parent n' = n_parent n"
  shows "linked (h(p \<mapsto> n')) = linked h"
  using assms by (auto simp: linked_def)

lemma heap_update:
  assumes ok: "heap_ok ex L Z h" and p: "h p = Some n"
    and n': "n_nodeid n' = n_nodeid n" "n_parent n' = n_parent n" "n_name n' = n_name n"
    and new: "node_ok ex' L Z' h p n'"
    and others: "\<And>r. r \<noteq> p \<Longrightarrow> ex' r = ex r" "\<And>r. r \<noteq> p \<Longrightarrow> r \<in> Z' \<longleftrightarrow> r \<in> Z"
  shows "heap_ok ex' L Z' (h(p \<mapsto> n'))"
proof (rule heap_okI)
  note D = heap_okD[OF ok]
  note same = kids_update[of h p, OF p n'(2)] linked_update[of h p, OF p n'(2)]
  have dom: "dom (h(p \<mapsto> n')) = dom h" using p by auto
  show "finite (dom (h(p \<mapsto> n')))" "L \<subseteq> linked (h(p \<mapsto> n'))" using D same dom by simp_all
  have "Z' \<subseteq> insert p Z" using others(2) by blast
  then show "Z' \<subseteq> dom (h(p \<mapsto> n'))" unfolding dom using D(3) p by blast
  show "\<And>r. r \<notin> dom (h(p \<mapsto> n')) \<Longrightarrow> ex' r = 0" unfolding dom using D(5) others(1) p by fastforce
  show "node_ok ex' L Z' (h(p \<mapsto> n')) r x" if r: "(h(p \<mapsto> n')) r = Some x" for r x
  proof (cases "r = p")
    case True
    with r have x: "x = n'" by simp
    show ?thesis unfolding True x using new unfolding node_ok_def same dom .
  next
    case False
    with r have "node_ok ex L Z h r x" using D(4) by simp
    then show ?thesis unfolding node_ok_def same dom pinned_def others(1)[OF False] others(2)[OF False] .
  qed
  fix r s x y
  assume r: "(h(p \<mapsto> n')) r = Some x" and s: "(h(p \<mapsto> n')) s = Some y"
  define old where "old q z = (if q = p then n else z)" for q z
  have old: "h r = Some (old r x)" "h s = Some (old s y)"
    "n_nodeid (old r x) = n_nodeid x" "n_parent (old r x) = n_parent x" "n_name (old r x) = n_name x"
    "n_nodeid (old s y) = n_nodeid y" "n_parent (old s y) = n_parent y" "n_name (old s y) = n_name y"
    using r s p n' by (auto simp: old_def split: if_splits)
  show "r = s" if "n_nodeid x = n_nodeid y" using D(6)[OF old(1,2)] old that by simp
  show "r = s" if "r \<notin> L" "s \<notin> L" "n_parent x \<noteq> None" "n_parent x = n_parent y" "n_name x = n_name y"
    using D(7)[OF old(1,2)] old that by simp
next
  from heap_okD(8)[OF ok] show "\<exists>r m. (h(p \<mapsto> n')) r = Some m \<and> n_nodeid m = FUSE_ROOT_ID"
    using p n' by (metis fun_upd_apply option.inject)
qed

lemma heap_unref:
  \<comment> \<open>the caller's reference is given up and others remain\<close>
  assumes ok: "heap_ok (ex(q := ex q + 1)) L Z h" and q: "h q = Some n" "n_refctr n \<noteq> 1"
    and pin: "q \<in> L \<Longrightarrow> pinned ex q n" and lock: "n_treelock n \<noteq> 0 \<Longrightarrow> pinned ex q n"
  shows "heap_ok ex L Z (h(q \<mapsto> n\<lparr>n_refctr := n_refctr n - 1\<rparr>))"
proof (rule heap_update[OF ok q(1)])
  note N = node_okD[OF heap_okD(4)[OF ok q(1)]]
  have "q \<notin> Z" using N(1,2) by auto
  then show "node_ok ex L Z h q (n\<lparr>n_refctr := n_refctr n - 1\<rparr>)"
    unfolding node_ok_def using N q pin lock by (auto simp: look_def pinned_def)
qed auto

lemma heap_unref_last:
  assumes ok: "heap_ok (ex(q := ex q + 1)) L Z h" and q: "h q = Some n" "n_refctr n = 1"
    and pin: "q \<in> L \<Longrightarrow> pinned ex q n" and lock: "n_treelock n \<noteq> 0 \<Longrightarrow> pinned ex q n"
  shows "heap_ok ex L (insert q Z) (h(q \<mapsto> n\<lparr>n_refctr := n_refctr n - 1\<rparr>))"
    "q \<notin> L" "q \<notin> Z" "n_treelock n = 0"
proof -
  note N = node_okD[OF heap_okD(4)[OF ok q(1)]]
  have zero: "look n = 0" "ex q = 0" using N(1) q(2) by auto
  then have "\<not> pinned ex q n" by (auto simp: pinned_def look_def split: if_splits)
  then show "q \<notin> L" "n_treelock n = 0" using pin lock by auto
  show "q \<notin> Z" using N(2) q(2) by simp
  show "heap_ok ex L (insert q Z) (h(q \<mapsto> n\<lparr>n_refctr := n_refctr n - 1\<rparr>))"
  proof (rule heap_update[OF ok q(1)])
    show "node_ok ex L (insert q Z) h q (n\<lparr>n_refctr := n_refctr n - 1\<rparr>)"
      unfolding node_ok_def using N q \<open>q \<notin> L\<close> \<open>n_treelock n = 0\<close> zero by (auto simp: look_def)
  qed auto
qed

text \<open>A node out of the name table loses its name and parent.\<close>

lemma heap_clear:
  assumes ok: "heap_ok ex (insert p L) Z h" and p: "h p = Some n" "p \<notin> L"
  shows "heap_ok ex L Z (h(p \<mapsto> n\<lparr>n_name := None, n_parent := None\<rparr>))" (is "heap_ok ex L Z ?h")
proof (rule heap_okI)
  let ?n = "n\<lparr>n_name := None, n_parent := None\<rparr>"
  note D = heap_okD[OF ok]
  have dom: "dom ?h = dom h" using p by auto
  have kids: "kids ?h L = kids h (insert p L)" using p by (auto simp: fun_eq_iff kids_def)
  show "finite (dom ?h)" "Z \<subseteq> dom ?h" using D(1,3) dom by simp_all
  show "L \<subseteq> linked ?h" using D(2) p by (auto simp: linked_def)
  show "\<And>r. r \<notin> dom ?h \<Longrightarrow> ex r = 0" using D(5) dom by simp
  have npar: "n_parent n \<noteq> None" using D(2) p by (auto simp: linked_def)
  show "node_ok ex L Z ?h r x" if r: "?h r = Some x" for r x
  proof (cases "r = p")
    case True
    with r have x: "x = ?n" by simp
    note N = node_okD[OF D(4)[OF p(1)]]
    have "n_nodeid n \<noteq> FUSE_ROOT_ID" using N(5) npar by auto
    then show ?thesis unfolding node_ok_def kids dom x True
      using N p by (auto simp: look_def pinned_def)
  next
    case False
    with r have "node_ok ex (insert p L) Z h r x" using D(4) by simp
    then show ?thesis unfolding node_ok_def kids dom using False by auto
  qed
  fix r s x y
  assume r: "?h r = Some x" and s: "?h s = Some y"
  show "r = s" if "n_nodeid x = n_nodeid y"
    using D(6) r s p that by (auto split: if_splits)
  show "r = s" if "r \<notin> L" "s \<notin> L" "n_parent x \<noteq> None" "n_parent x = n_parent y" "n_name x = n_name y"
    using D(7) r s that by (auto split: if_splits)
next
  from heap_okD(8)[OF ok] show "\<exists>r m. ?h r = Some m \<and> n_nodeid m = FUSE_ROOT_ID"
    using p by (metis fun_upd_apply option.inject node.select_convs(1) node.surjective node.update_convs(4,5))
qed

text \<open>An unlinked node without references is freed.\<close>

lemma heap_free:
  assumes ok: "heap_ok ex L (insert p Z) h" and p: "h p = Some n" "n_parent n = None" "p \<notin> Z"
  shows "heap_ok ex L Z (h(p := None))"
proof (rule heap_okI)
  let ?h = "h(p := None)"
  note D = heap_okD[OF ok]
  note N = node_okD[OF D(4)[OF p(1)]]
  have ref0: "n_refctr n = 0" using N(2) by simp
  then have zero: "look n = 0" "card (kids h L p) = 0" "ex p = 0" using N(1) by linarith+
  then have nokids: "kids h L p = {}" using kids_finite[OF D(1)] by simp
  have kids: "kids ?h L = kids h L" using p by (auto simp: fun_eq_iff kids_def)
  have pL: "p \<notin> L" using D(2) p by (auto simp: linked_def)
  show "finite (dom ?h)" using D(1) by simp
  show "Z \<subseteq> dom ?h" using D(3) p(3) by auto
  show "L \<subseteq> linked ?h" using D(2) pL by (auto simp: linked_def)
  show "\<And>r. r \<notin> dom ?h \<Longrightarrow> ex r = 0" using D(5) zero(3) by fastforce
  show "node_ok ex L Z ?h r x" if r: "?h r = Some x" for r x
  proof -
    from r have rp: "r \<noteq> p" and hr: "h r = Some x" by (auto split: if_splits)
    note R = D(4)[OF hr]
    have "n_parent x = Some q \<Longrightarrow> r \<notin> L \<Longrightarrow> q \<noteq> p" for q using nokids hr by (auto simp: kids_def)
    with R rp show ?thesis unfolding node_ok_def kids by auto
  qed
  fix r s x y
  assume r: "?h r = Some x" and s: "?h s = Some y"
  show "r = s" if "n_nodeid x = n_nodeid y" using D(6) r s that by (auto split: if_splits)
  show "r = s" if "r \<notin> L" "s \<notin> L" "n_parent x \<noteq> None" "n_parent x = n_parent y" "n_name x = n_name y"
    using D(7) r s that by (auto split: if_splits)
next
  note D = heap_okD[OF ok]
  from D(8) obtain r m where r: "h r = Some m" "n_nodeid m = FUSE_ROOT_ID" by blast
  have "n_nlookup m \<noteq> 0" using node_okD(5)[OF D(4)[OF r(1)]] r(2) by blast
  moreover have "n_nlookup n = 0"
    using node_okD(1,2)[OF D(4)[OF p(1)]] by (auto simp: look_def split: if_splits)
  ultimately have "r \<noteq> p" using r p by auto
  with r show "\<exists>r m. (h(p := None)) r = Some m \<and> n_nodeid m = FUSE_ROOT_ID" by auto
qed

section \<open>The tree invariant\<close>

definition tree_inv :: "(addr \<Rightarrow> nat) \<Rightarrow> addr set \<Rightarrow> addr set \<Rightarrow> fuse \<Rightarrow> bool" where
  "tree_inv ex L Z f \<longleftrightarrow> heap_ok ex L Z (f_nodes f) \<and>
     slabs_ok (f_slabs f) \<and> live (f_slabs f) = dom (f_nodes f) \<and>
     table_ok (idk (f_nodes f)) (f_id_table f) (dom (f_nodes f)) \<and>
     nt_use (f_id_table f) = card (dom (f_nodes f)) \<and>
     table_ok (namek (f_nodes f)) (f_name_table f) (linked (f_nodes f) - L) \<and>
     nt_use (f_name_table f) = card (linked (f_nodes f))"

definition tree_ok :: "fuse \<Rightarrow> bool" where
  \<comment> \<open>between operations\<close>
  "tree_ok f \<longleftrightarrow> tree_inv (\<lambda>_. 0) {} {} f"

lemma tree_invD:
  assumes "tree_inv ex L Z f"
  shows "heap_ok ex L Z (f_nodes f)" "slabs_ok (f_slabs f)" "live (f_slabs f) = dom (f_nodes f)"
    "table_ok (idk (f_nodes f)) (f_id_table f) (dom (f_nodes f))"
    "nt_use (f_id_table f) = card (dom (f_nodes f))"
    "table_ok (namek (f_nodes f)) (f_name_table f) (linked (f_nodes f) - L)"
    "nt_use (f_name_table f) = card (linked (f_nodes f))"
  using assms by (auto simp: tree_inv_def)

lemma linked_dom: "linked h \<subseteq> dom h"
  by (auto simp: linked_def)

lemma idk_update: "h p = Some n \<Longrightarrow> n_nodeid n' = n_nodeid n \<Longrightarrow> idk (h(p \<mapsto> n')) = idk h"
  by (auto simp: fun_eq_iff idk_def)

lemma namek_update:
  assumes "h p = Some n" "n_nodeid n' = n_nodeid n" "n_parent n' = n_parent n" "n_name n' = n_name n"
  shows "namek (h(p \<mapsto> n')) = namek h"
  using assms by (auto simp: fun_eq_iff namek_def split: option.splits)

lemma namek_cut:
  assumes "h p = Some n" "n_nodeid n' = n_nodeid n" "r \<noteq> p"
  shows "namek (h(p \<mapsto> n')) r = namek h r"
  using assms by (auto simp: namek_def split: option.splits)

lemma upd_nodes:
  assumes "f_nodes f p = Some n"
  shows "upd p g f = f\<lparr>f_nodes := (f_nodes f)(p \<mapsto> g n)\<rparr>"
  using assms by (simp add: upd_def)

lemma tree_update:
  assumes "tree_inv ex L Z f" and "f_nodes f p = Some n"
    and "n_nodeid n' = n_nodeid n" "n_parent n' = n_parent n" "n_name n' = n_name n"
    and "heap_ok ex' L Z' ((f_nodes f)(p \<mapsto> n'))"
  shows "tree_inv ex' L Z' (f\<lparr>f_nodes := (f_nodes f)(p \<mapsto> n')\<rparr>)"
proof -
  have "dom ((f_nodes f)(p \<mapsto> n')) = dom (f_nodes f)" using assms(2) by auto
  then show ?thesis
    using tree_invD[OF assms(1)] assms(6) idk_update[of "f_nodes f" p, OF assms(2,3)]
      namek_update[of "f_nodes f" p, OF assms(2-5)] linked_update[of "f_nodes f" p, OF assms(2,4)]
    by (simp add: tree_inv_def)
qed

lemma namek_linked:
  assumes "h p = Some n" "n_parent n = Some q" "n_name n = Some s" "h q = Some m"
  shows "namek h p = name_key (n_nodeid m) s"
  using assms by (simp add: namek_def)

lemma tree_unlink:
  assumes inv: "tree_inv ex L Z f" and p: "f_nodes f p = Some n" "n_parent n = Some q" "n_name n = Some s" "p \<notin> L"
    and m: "f_nodes f q = Some m" and pin: "p \<in> Z \<or> pinned ex p n"
    and hash: "hash = name_hash (f_name_table f) (n_nodeid m) s"
  shows "hash < length (nt_array (f_name_table f))" "p \<in> set (nt_array (f_name_table f) ! hash)"
    "tree_inv (ex(q := ex q + 1)) (insert p L) Z (f\<lparr>f_name_table := table_unlink hash p (f_name_table f)\<rparr>)"
proof -
  note T = tree_invD[OF inv]
  have slot: "hash = table_slot (f_name_table f) (namek (f_nodes f) p)"
    using namek_linked[OF p(1-3) m] hash by (simp add: name_hash_def)
  show "hash < length (nt_array (f_name_table f))"
    using table_slot_less[OF table_okD(1)[OF T(6)]] table_okD(2)[OF T(6)] slot by simp
  have "p \<in> linked (f_nodes f) - L" using p linkedI by auto
  then have "p \<in> set (table_bucket (f_name_table f) (namek (f_nodes f) p))"
    by (rule ntab.bucket_complete[OF T(6)])
  then show "p \<in> set (nt_array (f_name_table f) ! hash)" by (simp add: table_bucket_def slot)
  have "linked (f_nodes f) - insert p L = linked (f_nodes f) - L - {p}" by auto
  then show "tree_inv (ex(q := ex q + 1)) (insert p L) Z (f\<lparr>f_name_table := table_unlink hash p (f_name_table f)\<rparr>)"
    using T heap_unlink(1)[OF T(1) p(1,2,4) pin] table_unlink_ok[OF T(6) slot] by (simp add: tree_inv_def)
qed

lemma tree_clear:
  assumes inv: "tree_inv ex (insert p L) Z f" and p: "f_nodes f p = Some n" "p \<notin> L"
    and f': "f' = (let t = (f_name_table f)\<lparr>nt_use := nt_use (f_name_table f) - 1\<rparr>;
        f = upd p (\<lambda>n. n\<lparr>n_name := None, n_parent := None\<rparr>) f; f = f\<lparr>f_name_table := t\<rparr>
      in if nt_use t < nt_size t div 4 then remerge_name f else f)"
  shows "tree_inv ex L Z f'"
proof -
  note T = tree_invD[OF inv]
  let ?h = "(f_nodes f)(p \<mapsto> n\<lparr>n_name := None, n_parent := None\<rparr>)"
  obtain t m where t: "table_dec (f_name_table f) (f_mem f) = (t, m)" by fastforce
  have nodes: "f_nodes f' = ?h" and rest: "f_slabs f' = f_slabs f" "f_id_table f' = f_id_table f"
    and table: "f_name_table f' = t"
    using p(1) t unfolding f' by (auto simp: upd_nodes Let_def remerge_name_def table_dec_def split: prod.splits)
  have dom: "dom ?h = dom (f_nodes f)" using p by auto
  have p_linked: "p \<in> linked (f_nodes f)" using heap_okD(2)[OF T(1)] by auto
  have linked: "linked ?h = linked (f_nodes f) - {p}" using p by (auto simp: linked_def)
  have "table_ok (namek ?h) (f_name_table f) (linked (f_nodes f) - insert p L)"
    by (rule table_ok_cong[OF T(6)]) (auto simp: namek_cut[of "f_nodes f" p, OF p(1)])
  moreover have "linked (f_nodes f) - insert p L = linked ?h - L" using linked by auto
  ultimately have "table_ok (namek ?h) (f_name_table f) (linked ?h - L)" by simp
  from table_dec_ok[OF this, of "f_mem f"] t
  have "table_ok (namek ?h) t (linked ?h - L)" "nt_use t = card (linked ?h)"
    using T(7) linked p_linked by (simp_all add: card_Diff_singleton)
  then show ?thesis
    unfolding tree_inv_def nodes rest table dom
    using T(2-5) heap_clear[OF T(1) p] idk_update[of "f_nodes f" p, OF p(1)] by simp
qed

lemma tree_free:
  assumes inv: "tree_inv ex L (insert p Z) f" and p: "f_nodes f p = Some n" "n_parent n = None" "p \<notin> Z"
  shows "\<exists>f'. free_node (unhash_id f p) p = Some f' \<and> tree_inv ex L Z f' \<and>
    f_nodes f' = (f_nodes f)(p := None) \<and> f_conf f' = f_conf f \<and> f_ctr f' = f_ctr f \<and>
    f_generation f' = f_generation f \<and> f_lockq f' = f_lockq f"
proof -
  note T = tree_invD[OF inv]
  let ?h = "(f_nodes f)(p := None)"
  have pd: "p \<in> dom (f_nodes f)" using p by auto
  obtain sb where sb: "free_node_mem (f_slabs f) p = Some sb" "slabs_ok sb" "live sb = live (f_slabs f) - {p}"
    using slaballoc.release_node[OF T(2), of p] pd T(3) by auto
  obtain t m where t: "table_del (idk (f_nodes f)) p (f_id_table f) (f_mem f) = (t, m)" by fastforce
  let ?f = "f\<lparr>f_id_table := t, f_mem := m, f_slabs := sb, f_nodes := ?h\<rparr>"
  have f': "free_node (unhash_id f p) p = Some ?f"
    using sb t by (simp add: free_node_def unhash_id_def)
  have dom: "dom ?h = dom (f_nodes f) - {p}" by auto
  have linked: "linked ?h = linked (f_nodes f)" using p by (auto simp: linked_def)
  have id: "table_ok (idk ?h) t (dom ?h)" "nt_use t = card (dom ?h)"
  proof -
    have "table_ok (idk (f_nodes f)) t (dom (f_nodes f) - {p})"
      using ntab.del_holds[OF T(4) pd, of m] ntab.del_holds[OF T(4) pd, of "f_mem f"] t by simp
    then show "table_ok (idk ?h) t (dom ?h)" unfolding dom by (rule table_ok_cong) (simp add: idk_def)
    show "nt_use t = card (dom ?h)"
      unfolding dom using ntab.del_use[OF T(4) pd, of "f_mem f"] t T(5) pd by (simp add: card_Diff_singleton)
  qed
  have "table_ok (namek ?h) (f_name_table f) (linked (f_nodes f) - L)"
  proof (rule table_ok_cong[OF T(6)])
    fix r assume r: "r \<in> linked (f_nodes f) - L"
    then obtain x q where x: "f_nodes f r = Some x" "n_parent x = Some q" by (auto simp: linked_def)
    note H = heap_free[OF T(1) p]
    have "r \<noteq> p" using x p by auto
    then have "?h r = Some x" using x by simp
    then have "q \<in> dom ?h" using node_okD(8)[OF heap_okD(4)[OF H]] x r by blast
    then have "q \<noteq> p" by auto
    with x \<open>r \<noteq> p\<close> show "namek ?h r = namek (f_nodes f) r" by (simp add: namek_def split: option.split)
  qed
  then have "tree_inv ex L Z ?f"
    unfolding tree_inv_def using heap_free[OF T(1) p] sb T(3,7) id linked dom by simp
  with f' show ?thesis by auto
qed

section \<open>The reference cascade\<close>

text \<open>
  \<open>frame X f f'\<close>: from \<open>f\<close> to \<open>f'\<close>, nodes may have gone, but none the kernel has looked up, the
  nodes left differ at most in the reference count, and those of \<open>X\<close> have lost name and parent.
\<close>

definition cut :: "node \<Rightarrow> node" where
  "cut n = n\<lparr>n_name := None, n_parent := None\<rparr>"

definition same_env :: "fuse \<Rightarrow> fuse \<Rightarrow> bool" where
  "same_env f f' \<longleftrightarrow> f_conf f' = f_conf f \<and> f_ctr f' = f_ctr f \<and>
     f_generation f' = f_generation f \<and> f_lockq f' = f_lockq f"

definition frame :: "addr set \<Rightarrow> fuse \<Rightarrow> fuse \<Rightarrow> bool" where
  "frame X f f' \<longleftrightarrow> same_env f f' \<and>
     (\<forall>p n'. f_nodes f' p = Some n' \<longrightarrow> (\<exists>n. f_nodes f p = Some n \<and>
        n' = (if p \<in> X then cut n else n)\<lparr>n_refctr := n_refctr n'\<rparr>)) \<and>
     (\<forall>p n. f_nodes f p = Some n \<and> n_nlookup n \<noteq> 0 \<longrightarrow> f_nodes f' p \<noteq> None)"

lemma same_env_refl [simp]: "same_env f f"
  by (simp add: same_env_def)

lemma same_env_trans: "same_env f g \<Longrightarrow> same_env g h \<Longrightarrow> same_env f h"
  by (simp add: same_env_def)

lemma frameD:
  assumes "frame X f f'"
  shows "same_env f f'"
    and "f_nodes f' p = Some n' \<Longrightarrow> \<exists>n. f_nodes f p = Some n \<and> n' = (if p \<in> X then cut n else n)\<lparr>n_refctr := n_refctr n'\<rparr>"
    and "f_nodes f p = Some n \<Longrightarrow> n_nlookup n \<noteq> 0 \<Longrightarrow> f_nodes f' p \<noteq> None"
  using assms by (auto simp: frame_def)

lemma frame_refl: "frame {} f f"
  by (auto simp: frame_def)

lemma frame_trans:
  assumes "frame X f g" "frame Y g h" shows "frame (X \<union> Y) f h"
proof -
  have "\<exists>n. f_nodes f p = Some n \<and> n'' = (if p \<in> X \<union> Y then cut n else n)\<lparr>n_refctr := n_refctr n''\<rparr>"
    if "f_nodes h p = Some n''" for p n''
  proof -
    from frameD(2)[OF assms(2) that] obtain n' where n': "f_nodes g p = Some n'"
      "n'' = (if p \<in> Y then cut n' else n')\<lparr>n_refctr := n_refctr n''\<rparr>" by blast
    from frameD(2)[OF assms(1) n'(1)] obtain n where n: "f_nodes f p = Some n"
      "n' = (if p \<in> X then cut n else n)\<lparr>n_refctr := n_refctr n'\<rparr>" by blast
    from n(2) have "n'\<lparr>n_refctr := r\<rparr> = (if p \<in> X then cut n else n)\<lparr>n_refctr := r\<rparr>" for r
      by (cases n'; cases n) (simp add: cut_def split: if_splits)
    moreover from n(2) have "(cut n')\<lparr>n_refctr := r\<rparr> = (cut n)\<lparr>n_refctr := r\<rparr>" for r
      by (cases n'; cases n) (simp add: cut_def split: if_splits)
    ultimately show ?thesis using n'(2) n(1) by (auto split: if_splits)
  qed
  moreover have "f_nodes h p \<noteq> None" if "f_nodes f p = Some n" "n_nlookup n \<noteq> 0" for p n
  proof -
    from frameD(3)[OF assms(1) that] obtain n' where n': "f_nodes g p = Some n'" by auto
    from frameD(2)[OF assms(1) n'] that(1)
    have "n' = (if p \<in> X then cut n else n)\<lparr>n_refctr := n_refctr n'\<rparr>" by simp
    then have "n_nlookup n' = n_nlookup n"
      by (cases n'; cases n) (simp add: cut_def split: if_splits)
    with that(2) show ?thesis using frameD(3)[OF assms(2) n'] by simp
  qed
  ultimately show ?thesis
    using same_env_trans[OF frameD(1)[OF assms(1)] frameD(1)[OF assms(2)]] unfolding frame_def by blast
qed

lemma frame_refctr:
  assumes "f_nodes f p = Some n"
  shows "frame {} f (upd p (\<lambda>n. n\<lparr>n_refctr := g n\<rparr>) f)"
  using assms by (auto simp: frame_def upd_def same_env_def)

lemma frame_cut:
  assumes "f_nodes f p = Some n" and "f_nodes f' = (f_nodes f)(p \<mapsto> cut n)" and "same_env f f'"
  shows "frame {p} f f'"
  unfolding frame_def assms(2) using assms(1,3) by (auto simp: cut_def)

lemma frame_table: "f_nodes f' = f_nodes f \<Longrightarrow> same_env f f' \<Longrightarrow> frame {} f f'"
  by (auto simp: frame_def)

lemma frame_free:
  assumes "f_nodes f' = (f_nodes f)(p := None)" "same_env f f'" "f_nodes f p = Some n" "n_nlookup n = 0"
  shows "frame {} f f'"
  unfolding frame_def assms(1) using assms(2-4) by auto

lemma frame_weaken:
  \<comment> \<open>a node that is gone need not be mentioned\<close>
  assumes "frame {p} f f'" "f_nodes f' p = None"
  shows "frame {} f f'"
  unfolding frame_def
proof (intro conjI allI impI)
  fix r n' assume r: "f_nodes f' r = Some n'"
  then have "r \<noteq> p" using assms(2) by auto
  with frameD(2)[OF assms(1) r]
  show "\<exists>n. f_nodes f r = Some n \<and> n' = (if r \<in> {} then cut n else n)\<lparr>n_refctr := n_refctr n'\<rparr>" by auto
next
  show "same_env f f'" by (rule frameD(1)[OF assms(1)])
next
  fix r n assume "f_nodes f r = Some n \<and> n_nlookup n \<noteq> 0"
  then show "f_nodes f' r \<noteq> None" using frameD(3)[OF assms(1)] by blast
qed

lemma frame_cong: "f_nodes f = f_nodes f1 \<Longrightarrow> same_env f f1 \<Longrightarrow> frame X f1 f' \<Longrightarrow> frame X f f'"
  unfolding frame_def by (auto intro: same_env_trans)

definition unhash_pre :: "(addr \<Rightarrow> nat) \<Rightarrow> addr set \<Rightarrow> addr set \<Rightarrow> fuse \<Rightarrow> addr \<Rightarrow> node \<Rightarrow> bool" where
  "unhash_pre ex L Z f p n \<longleftrightarrow> tree_inv ex L Z f \<and> f_nodes f p = Some n \<and> p \<notin> L \<and>
     (p \<in> Z \<or> pinned ex p n) \<and> n_nodeid n \<noteq> FUSE_ROOT_ID"

definition unref_pre :: "(addr \<Rightarrow> nat) \<Rightarrow> addr set \<Rightarrow> addr set \<Rightarrow> fuse \<Rightarrow> addr \<Rightarrow> node \<Rightarrow> bool" where
  "unref_pre ex L Z f q n \<longleftrightarrow> tree_inv (ex(q := ex q + 1)) L Z f \<and> f_nodes f q = Some n \<and>
     (q \<in> L \<longrightarrow> pinned ex q n) \<and> (n_treelock n \<noteq> 0 \<longrightarrow> pinned ex q n)"

definition delete_pre :: "(addr \<Rightarrow> nat) \<Rightarrow> addr set \<Rightarrow> addr set \<Rightarrow> fuse \<Rightarrow> addr \<Rightarrow> node \<Rightarrow> bool" where
  "delete_pre ex L Z f p n \<longleftrightarrow> tree_inv ex L (insert p Z) f \<and> f_nodes f p = Some n \<and>
     p \<notin> L \<and> p \<notin> Z \<and> n_treelock n = 0"

lemma unhash_step:
  \<comment> \<open>one level of the cascade, from what \<open>unref_node\<close> does on the parent\<close>
  assumes pre: "unhash_pre ex L Z f p n"
    and unref: "\<And>g q ex L x. unref_pre ex L Z g q x \<Longrightarrow> n_parent n = Some q \<Longrightarrow>
      population g < population f \<Longrightarrow> 
      \<exists>f'. unref_node g q = Some f' \<and> tree_inv ex L Z f' \<and> frame {} g f'"
  shows "\<exists>f' n'. unhash_name f p = Some f' \<and> tree_inv ex L Z f' \<and> frame {p} f f' \<and>
    f_nodes f' p = Some n' \<and> n_parent n' = None"
proof (cases "n_name n")
  case None
  from pre have P: "tree_inv ex L Z f" "f_nodes f p = Some n" by (auto simp: unhash_pre_def)
  note N = node_okD[OF heap_okD(4)[OF tree_invD(1)[OF P(1)] P(2)]]
  have par: "n_parent n = None" using N(7) None by (cases "n_parent n") auto
  have "unhash_name f p = Some f" using P(2) None by (subst unhash_name.simps) simp
  moreover have "frame {p} f f"
    using P(2) None par by (auto simp: frame_def cut_def)
  ultimately show ?thesis using P par by blast
next
  case (Some s)
  from pre have P: "tree_inv ex L Z f" "f_nodes f p = Some n" "p \<notin> L" "p \<in> Z \<or> pinned ex p n"
    "n_nodeid n \<noteq> FUSE_ROOT_ID" by (auto simp: unhash_pre_def)
  note H = tree_invD(1)[OF P(1)]
  note N = node_okD[OF heap_okD(4)[OF H P(2)]]
  obtain q where q: "n_parent n = Some q" using N(6) P(5) Some by (cases "n_parent n") auto
  note U = heap_unlink[OF H P(2) q P(3,4)]
  from U(2) obtain m where m: "f_nodes f q = Some m" by auto
  let ?h = "name_hash (f_name_table f) (n_nodeid m) s"
  let ?g = "f\<lparr>f_name_table := table_unlink ?h p (f_name_table f)\<rparr>"
  note T = tree_unlink[OF P(1,2) q Some P(3) m P(4) refl]
  have "unref_pre ex (insert p L) Z ?g q m"
    using T(3) m U(4)[OF m] node_okD(3)[OF heap_okD(4)[OF H m]] by (simp add: unref_pre_def)
  from unref[OF this q population_unlink[OF T(1,2)]] obtain f2 where
    f2: "unref_node ?g q = Some f2" "tree_inv ex (insert p L) Z f2" "frame {} ?g f2" by blast
  have "p \<in> linked (f_nodes f2)" using heap_okD(2)[OF tree_invD(1)[OF f2(2)]] by auto
  then obtain n2 where n2: "f_nodes f2 p = Some n2" by (auto simp: linked_def)
  let ?f3 = "let t = (f_name_table f2)\<lparr>nt_use := nt_use (f_name_table f2) - 1\<rparr>;
        f = upd p (\<lambda>n. n\<lparr>n_name := None, n_parent := None\<rparr>) f2; f = f\<lparr>f_name_table := t\<rparr>
      in if nt_use t < nt_size t div 4 then remerge_name f else f"
  have res: "unhash_name f p = Some ?f3"
    using P(2) q Some m T(1,2) f2(1) n2 by (subst unhash_name.simps) (simp add: Let_def upd_def)
  have nodes: "f_nodes ?f3 = (f_nodes f2)(p \<mapsto> cut n2)" "same_env f2 ?f3"
    using n2 by (auto simp: upd_nodes cut_def Let_def remerge_name_def same_env_def split: prod.splits)
  have fr: "frame {p} f ?f3"
    using frame_trans[OF frame_cong[OF _ _ f2(3), of f] frame_cut[OF n2 nodes]] by (simp add: same_env_def)
  have "n_parent (cut n2) = None" by (simp add: cut_def)
  with res tree_clear[OF f2(2) n2 P(3) refl] fr nodes(1) show ?thesis by (metis fun_upd_same)
qed

lemma unref_step:
  assumes pre: "unref_pre ex L Z f q n"
    and delete: "\<And>x. delete_pre ex L Z (upd q (\<lambda>n. n\<lparr>n_refctr := n_refctr n - 1\<rparr>) f) q x \<Longrightarrow>
      \<exists>f'. delete_node (upd q (\<lambda>n. n\<lparr>n_refctr := n_refctr n - 1\<rparr>) f) q = Some f' \<and> tree_inv ex L Z f' \<and>
        frame {} (upd q (\<lambda>n. n\<lparr>n_refctr := n_refctr n - 1\<rparr>) f) f'"
  shows "\<exists>f'. unref_node f q = Some f' \<and> tree_inv ex L Z f' \<and> frame {} f f'"
proof -
  from pre have P: "tree_inv (ex(q := ex q + 1)) L Z f" "f_nodes f q = Some n"
    "q \<in> L \<Longrightarrow> pinned ex q n" "n_treelock n \<noteq> 0 \<Longrightarrow> pinned ex q n" by (auto simp: unref_pre_def)
  let ?n = "n\<lparr>n_refctr := n_refctr n - 1\<rparr>"
  let ?f = "upd q (\<lambda>n. n\<lparr>n_refctr := n_refctr n - 1\<rparr>) f"
  note H = tree_invD(1)[OF P(1)]
  have pos: "n_refctr n > 0" using node_okD(1)[OF heap_okD(4)[OF H P(2)]] by simp
  have f: "?f = f\<lparr>f_nodes := (f_nodes f)(q \<mapsto> ?n)\<rparr>" by (rule upd_nodes[OF P(2)])
  have fr: "frame {} f ?f" by (rule frame_refctr[OF P(2)])
  show ?thesis
  proof (cases "n_refctr n = 1")
    case False
    have "tree_inv ex L Z ?f"
      unfolding f by (rule tree_update[OF P(1,2)]) (use heap_unref[OF H P(2) False P(3,4)] in auto)
    moreover have "unref_node f q = Some ?f"
      using P(2) pos False by (subst unref_node.simps) (simp add: Let_def)
    ultimately show ?thesis using fr by blast
  next
    case True
    note L = heap_unref_last[OF H P(2) True P(3,4)]
    have "tree_inv ex L (insert q Z) ?f"
      unfolding f by (rule tree_update[OF P(1,2)]) (use L(1) in auto)
    moreover have "f_nodes ?f q = Some ?n" unfolding f by simp
    ultimately have "delete_pre ex L Z ?f q ?n" using L(2-4) by (simp add: delete_pre_def)
    from delete[OF this] obtain f' where
      f': "delete_node ?f q = Some f'" "tree_inv ex L Z f'" "frame {} ?f f'" by blast
    have "unref_node f q = Some f'"
      using P(2) True f'(1) by (subst unref_node.simps) (simp add: Let_def)
    with f' frame_trans[OF fr f'(3)] show ?thesis by auto
  qed
qed

lemma delete_step:
  assumes pre: "delete_pre ex L Z f p n"
    and unhash: "unhash_pre ex L (insert p Z) f p n \<Longrightarrow>
      \<exists>f' n'. unhash_name f p = Some f' \<and> tree_inv ex L (insert p Z) f' \<and> frame {p} f f' \<and>
        f_nodes f' p = Some n' \<and> n_parent n' = None"
  shows "\<exists>f'. delete_node f p = Some f' \<and> tree_inv ex L Z f' \<and> frame {} f f'"
proof -
  from pre have P: "tree_inv ex L (insert p Z) f" "f_nodes f p = Some n" "p \<notin> L" "p \<notin> Z" "n_treelock n = 0"
    by (auto simp: delete_pre_def)
  note N = node_okD[OF heap_okD(4)[OF tree_invD(1)[OF P(1)] P(2)]]
  have zero: "n_nlookup n = 0" using N(1,2) by (auto simp: look_def split: if_splits)
  then have "unhash_pre ex L (insert p Z) f p n" using P N(5) by (auto simp: unhash_pre_def)
  from unhash[OF this] obtain f1 n1 where
    f1: "unhash_name f p = Some f1" "tree_inv ex L (insert p Z) f1" "frame {p} f f1"
      "f_nodes f1 p = Some n1" "n_parent n1 = None" by blast
  let ?f2 = "if lru_enabled f1 then remove_node_lru f1 p else f1"
  have same: "f_nodes ?f2 = f_nodes f1" "same_env f1 ?f2" "tree_inv ex L (insert p Z) ?f2"
    using f1(2) by (auto simp: remove_node_lru_def same_env_def tree_inv_def)
  have n1: "f_nodes ?f2 p = Some n1" using f1(4) same(1) by simp
  obtain f3 where f3: "free_node (unhash_id ?f2 p) p = Some f3" "tree_inv ex L Z f3"
      "f_nodes f3 = (f_nodes ?f2)(p := None)" "same_env ?f2 f3"
    using tree_free[OF same(3) n1 f1(5) P(4)] by (auto simp: same_env_def)
  have "delete_node f p = Some f3"
    using P(2,5) f1(1) f3(1) by (subst delete_node.simps) (simp add: Let_def)
  moreover have "n_nlookup n1 = 0"
  proof -
    obtain n0 where "f_nodes f p = Some n0" "n1 = (cut n0)\<lparr>n_refctr := n_refctr n1\<rparr>"
      using frameD(2)[OF f1(3) f1(4)] by auto
    then show ?thesis using zero P(2) by (cases n1; cases n0) (simp add: cut_def)
  qed
  then have "frame {} ?f2 f3" using frame_free[OF f3(3,4) n1] by blast
  then have "frame {} f1 f3" by (rule frame_cong[rotated 2]) (use same in auto)
  then have "frame {p} f f3" using frame_trans[OF f1(3)] by fastforce
  then have "frame {} f f3" by (rule frame_weaken) (simp add: f3(3))
  ultimately show ?thesis using f3(2) by blast
qed

lemma cascade:
  "unhash_pre ex L Z f p n \<Longrightarrow> \<exists>f' n'. unhash_name f p = Some f' \<and> tree_inv ex L Z f' \<and> frame {p} f f' \<and>
    f_nodes f' p = Some n' \<and> n_parent n' = None"
  "unref_pre ex L Z f p n \<Longrightarrow> \<exists>f'. unref_node f p = Some f' \<and> tree_inv ex L Z f' \<and> frame {} f f'"
  "delete_pre ex L Z f p n \<Longrightarrow> \<exists>f'. delete_node f p = Some f' \<and> tree_inv ex L Z f' \<and> frame {} f f'"
proof -
  let ?U = "\<lambda>f p. \<forall>ex L Z n. unhash_pre ex L Z f p n \<longrightarrow> (\<exists>f' n'. unhash_name f p = Some f' \<and>
    tree_inv ex L Z f' \<and> frame {p} f f' \<and> f_nodes f' p = Some n' \<and> n_parent n' = None)"
  let ?R = "\<lambda>f p. \<forall>ex L Z n. unref_pre ex L Z f p n \<longrightarrow> (\<exists>f'. unref_node f p = Some f' \<and>
    tree_inv ex L Z f' \<and> frame {} f f')"
  have unref: "?U f p" if A: "\<And>g q. population g < population f \<Longrightarrow> ?R g q" for f p
  proof (intro allI impI)
    fix ex L Z n assume pre: "unhash_pre ex L Z f p n"
    show "\<exists>f' n'. unhash_name f p = Some f' \<and> tree_inv ex L Z f' \<and> frame {p} f f' \<and>
      f_nodes f' p = Some n' \<and> n_parent n' = None"
      by (rule unhash_step[OF pre]) (use A in blast)
  qed
  have "\<forall>f p. population f = k \<longrightarrow> ?U f p \<and> ?R f p" for k
  proof (induction k rule: less_induct)
    case (less k)
    have U: "?U f p" if le: "population f \<le> k" for f p
    proof (rule unref)
      fix g q assume "population g < population f"
      then have "population g < k" using le by simp
      from less.IH[OF this] show "?R g q" by blast
    qed
    have "?R f q" if "population f = k" for f q
    proof (intro allI impI)
      fix ex L Z n assume pre: "unref_pre ex L Z f q n"
      let ?g = "upd q (\<lambda>n. n\<lparr>n_refctr := n_refctr n - 1\<rparr>) f"
      have "population ?g = k" using that by (simp add: population_def upd_def)
      then have U': "?U ?g q" by (intro U) simp
      show "\<exists>f'. unref_node f q = Some f' \<and> tree_inv ex L Z f' \<and> frame {} f f'"
      proof (rule unref_step[OF pre])
        fix x assume "delete_pre ex L Z ?g q x"
        then show "\<exists>f'. delete_node ?g q = Some f' \<and> tree_inv ex L Z f' \<and> frame {} ?g f'"
          by (rule delete_step) (use U' in blast)
      qed
    qed
    with U show ?case by simp
  qed
  then have UR: "?U f p \<and> ?R f p" for f p by blast
  then show "unhash_pre ex L Z f p n \<Longrightarrow> \<exists>f' n'. unhash_name f p = Some f' \<and> tree_inv ex L Z f' \<and> frame {p} f f' \<and>
      f_nodes f' p = Some n' \<and> n_parent n' = None"
    and "unref_pre ex L Z f p n \<Longrightarrow> \<exists>f'. unref_node f p = Some f' \<and> tree_inv ex L Z f' \<and> frame {} f f'"
    by blast+
  show "delete_pre ex L Z f p n \<Longrightarrow> \<exists>f'. delete_node f p = Some f' \<and> tree_inv ex L Z f' \<and> frame {} f f'"
    by (erule delete_step) (use UR in blast)
qed

end
