(* ===== verification/Node_Refs.thy ===== *)
theory Node_Refs
  imports Node_Ops
begin

text \<open>
  Lookup counts on the inode tree of src/lib/fuse.c: the tree \<open>fuse_new\<close> starts from, and what
  \<open>find_node\<close>, \<open>forget_node\<close> and \<open>exchange_node\<close> do to it.
\<close>

section \<open>The first tree\<close>

definition new_tree :: "fuse_config \<Rightarrow> slabs \<Rightarrow> mem \<Rightarrow> fuse option option" where
  \<comment> \<open>the node side of \<open>fuse_new\<close>: \<open>Some None\<close> where it fails with NULL\<close>
  "new_tree conf sb m =
     (let (res, names, m) = node_table_init m in
      if res = -1 then Some None
      else let (res, ids, m) = node_table_init m in
      if res = -1 then Some None
      else do {
        (r, sb) \<leftarrow> slab_alloc sb;
        (case r of
           None \<Rightarrow> Some None
         | Some rt \<Rightarrow>
             let f = \<lparr>f_nodes = [rt \<mapsto> zero_node\<lparr>n_name := Some ''/''\<rparr>], f_name_table = names,
               f_id_table = ids, f_lru_table = [], f_ctr = 0, f_generation = 0, f_hidectr = 0,
               f_conf = conf, f_lockq = [], f_slabs = sb, f_mem = m\<rparr>;
               f = upd rt (\<lambda>n. n\<lparr>n_parent := None, n_nodeid := FUSE_ROOT_ID\<rparr>) f
             in Some (Some (hash_id (inc_nlookup f rt) rt)))
      })"

lemma new_tree_ok:
  assumes "slabs_ok sb" "fresh_page sb" "live sb = {}" and "new_tree conf sb m = Some (Some f)"
  shows "tree_ok f" "known f FUSE_ROOT_ID" "f_ctr f = 0" "f_conf f = conf" "namespace f = {}" "entries f = {}"
    "\<And>p n. f_nodes f p = Some n \<Longrightarrow> n_nodeid n = FUSE_ROOT_ID"
proof -
  obtain r1 names m1 where t1: "node_table_init m = (r1, names, m1)" by (metis prod_cases3)
  obtain r2 ids m2 where t2: "node_table_init m1 = (r2, ids, m2)" by (metis prod_cases3)
  have r: "r1 \<noteq> -1" "r2 \<noteq> -1" using assms(4) t1 t2 by (auto simp: new_tree_def split: if_splits)
  have ok1: "table_ok key names {}" "nt_use names = 0" for key
  proof -
    have "fst (malloc m)" using t1 r by (auto simp: node_table_init_def split: prod.splits if_splits)
    from table_init_ok(2)[OF this, of key] t1 show "table_ok key names {}" by simp
    show "nt_use names = 0" using t1 by (auto simp: node_table_init_def split: prod.splits if_splits)
  qed
  have ok2: "table_ok key ids {}" "nt_use ids = 0" for key
  proof -
    have "fst (malloc m1)" using t2 r by (auto simp: node_table_init_def split: prod.splits if_splits)
    from table_init_ok(2)[OF this, of key] t2 show "table_ok key ids {}" by simp
    show "nt_use ids = 0" using t2 by (auto simp: node_table_init_def split: prod.splits if_splits)
  qed
  obtain rt sb' where a: "slab_alloc sb = Some (Some rt, sb')"
    using assms(4) t1 t2 r by (auto simp: new_tree_def bind_eq_Some_conv split: option.splits)
  note A = slaballoc.alloc_node[OF assms(1,2) a]
  let ?n = "zero_node\<lparr>n_name := Some ''/'', n_nodeid := FUSE_ROOT_ID, n_refctr := 1, n_nlookup := 1\<rparr>"
  define h where "h = [rt \<mapsto> ?n]"
  obtain t mm where t: "table_add (idk h) rt ids m2 = (t, mm)" by fastforce
  have f: "f = \<lparr>f_nodes = h, f_name_table = names, f_id_table = t, f_lru_table = [], f_ctr = 0,
      f_generation = 0, f_hidectr = 0, f_conf = conf, f_lockq = [], f_slabs = sb', f_mem = mm\<rparr>"
    using assms(4) t1 t2 r a t unfolding h_def by (simp add: new_tree_def hash_id_def inc_nlookup_def upd_def zero_node_def)
  have T: "table_ok (idk h) t {rt}" "nt_use t = 1"
    using ntab.add_holds[OF ok2(1), of rt "idk h" m2] ntab.add_use[OF ok2(1), of rt "idk h" m2] t ok2(2) by auto
  have at: "h p = Some n \<longleftrightarrow> p = rt \<and> n = ?n" for p n by (auto simp: h_def)
  have dom: "dom h = {rt}" by (simp add: h_def)
  have kids: "kids h {} p = {}" "linked h = {}" for p
    by (auto simp: kids_def linked_def at zero_node_def)
  have "heap_ok (\<lambda>_. 0) {} {} h"
  proof (rule heap_okI)
    show "\<exists>r n. h r = Some n \<and> n_nodeid n = FUSE_ROOT_ID" by (simp add: at)
    show "node_ok (\<lambda>_. 0) {} {} h p n" if "h p = Some n" for p n
    proof -
      from that have n: "n = ?n" by (simp add: at)
      show ?thesis unfolding node_ok_def kids n by (simp add: look_def zero_node_def)
    qed
  qed (simp_all add: at dom)
  then show "tree_ok f" unfolding tree_ok_def tree_inv_def f using A assms(3) T ok1 kids dom by simp
  show "known f FUSE_ROOT_ID" by (auto simp: known_def f at)
  show "f_ctr f = 0" "f_conf f = conf" by (simp_all add: f)
  show "entries f = {}" by (auto simp: entries_def is_entry_def f at zero_node_def)
  then show "namespace f = {}" by (auto simp: namespace_def)
  show "\<And>p n. f_nodes f p = Some n \<Longrightarrow> n_nodeid n = FUSE_ROOT_ID" by (auto simp: f at)
qed

section \<open>New nodes\<close>

lemma heap_new:
  assumes ok: "heap_ok (\<lambda>_. 0) {} {} h" and p: "p \<notin> dom h"
    and n: "n_parent n = None" "n_name n = None" "n_refctr n = 1" "n_nlookup n \<noteq> 0" "n_treelock n = 0"
    and fresh: "\<And>r x. h r = Some x \<Longrightarrow> n_nodeid x \<noteq> n_nodeid n"
  shows "heap_ok (\<lambda>_. 0) {} {} (h(p \<mapsto> n))"
proof (rule heap_okI)
  note D = heap_okD[OF ok]
  have kids: "kids (h(p \<mapsto> n)) {} r = kids h {} r" for r using p n by (auto simp: kids_def)
  have none: "kids h {} p = {}" using p node_okD(8)[OF D(4)] by (auto simp: kids_def)
  have root: "n_nodeid n \<noteq> FUSE_ROOT_ID" using D(8) fresh by metis
  show "node_ok (\<lambda>_. 0) {} {} (h(p \<mapsto> n)) r x" if r: "(h(p \<mapsto> n)) r = Some x" for r x
  proof (cases "r = p")
    case True
    with r have x: "x = n" by simp
    show ?thesis unfolding node_ok_def kids True x using n none root by (auto simp: look_def)
  next
    case False
    with r have "node_ok (\<lambda>_. 0) {} {} h r x" using D(4) by simp
    then show ?thesis unfolding node_ok_def kids by auto
  qed
  fix r s x y assume r: "(h(p \<mapsto> n)) r = Some x" and s: "(h(p \<mapsto> n)) s = Some y"
  show "r = s" if "n_nodeid x = n_nodeid y"
    using r s that D(6)[of r x s y] fresh[of r x] fresh[of s y] by (auto split: if_splits)
  show "r = s" if "n_parent x \<noteq> None" "n_parent x = n_parent y" "n_name x = n_name y"
    using r s that n D(7)[of r x s y] by (auto split: if_splits)
next
  from heap_okD(8)[OF ok] obtain r x where "h r = Some x" "n_nodeid x = FUSE_ROOT_ID" by blast
  then show "\<exists>r x. (h(p \<mapsto> n)) r = Some x \<and> n_nodeid x = FUSE_ROOT_ID"
    using p by (intro exI[of _ r]) auto
qed (use heap_okD[OF ok] p in auto)

lemma inc_nlookup_ok:
  assumes ok: "tree_ok f" and p: "f_nodes f p = Some n" "n_nlookup n + 1 \<noteq> 0"
  shows "tree_ok (inc_nlookup f p)" "entries (inc_nlookup f p) = entries f"
    "kept f (inc_nlookup f p)"
    "namespace (inc_nlookup f p) = namespace f \<union> {(d, s, n_nodeid n) | d s. (d, s, p) \<in> entries f}"
    "f_nodes (inc_nlookup f p) p = Some (n\<lparr>n_refctr := n_refctr n + (if n_nlookup n = 0 then 1 else 0),
      n_nlookup := n_nlookup n + 1\<rparr>)"
proof -
  let ?n = "n\<lparr>n_refctr := n_refctr n + (if n_nlookup n = 0 then 1 else 0), n_nlookup := n_nlookup n + 1\<rparr>"
  have inv: "tree_inv (\<lambda>_. 0) {} {} f" using ok by (simp add: tree_ok_def)
  note H = tree_invD(1)[OF inv]
  note N = node_okD[OF heap_okD(4)[OF H p(1)]]
  have f: "inc_nlookup f p = f\<lparr>f_nodes := (f_nodes f)(p \<mapsto> ?n)\<rparr>"
    unfolding inc_nlookup_def by (rule upd_nodes[OF p(1)])
  have "heap_ok (\<lambda>_. 0) {} {} ((f_nodes f)(p \<mapsto> ?n))"
    by (rule heap_update[OF H p(1)]) (use N p in \<open>auto simp: node_ok_def look_def pinned_def\<close>)
  then show "tree_ok (inc_nlookup f p)" unfolding f tree_ok_def by (intro tree_update[OF inv p(1)]) simp_all
  have ent: "is_entry ((f_nodes f)(p \<mapsto> ?n)) = is_entry (f_nodes f)"
    by (rule is_entry_cong) (use p(1) in auto)
  then show ents: "entries (inc_nlookup f p) = entries f" by (simp add: entries_def f)
  show "kept f (inc_nlookup f p)" using p by (auto simp: kept_def f same_env_def)
  show "f_nodes (inc_nlookup f p) p = Some ?n" by (simp add: f)
  show "namespace (inc_nlookup f p) = namespace f \<union> {(d, s, n_nodeid n) | d s. (d, s, p) \<in> entries f}"
    unfolding namespace_def f ents[unfolded f] using p by (auto split: if_splits)
qed

lemma tree_ok_lru: "tree_ok (remove_node_lru f p) = tree_ok f" "entries (remove_node_lru f p) = entries f"
  "namespace (remove_node_lru f p) = namespace f" "kept f (remove_node_lru f p)"
  "f_nodes (remove_node_lru f p) = f_nodes f"
  by (auto simp: tree_ok_def tree_inv_def remove_node_lru_def entries_def namespace_def kept_def same_env_def)

lemma find_existing:
  assumes ok: "tree_ok f" and p: "f_nodes f p = Some n" "n_nlookup n + 1 \<noteq> 0"
  shows "\<exists>f'. (let f1 = if lru_enabled f \<and> n_nlookup n = 1 then remove_node_lru f p else f
      in Some (Some p, inc_nlookup f1 p)) = Some (Some p, f') \<and> tree_ok f' \<and> kept f f' \<and> entries f' = entries f \<and>
    namespace f' = namespace f \<union> {(d, s, n_nodeid n) | d s. (d, s, p) \<in> entries f} \<and>
    (\<exists>n'. f_nodes f' p = Some n' \<and> n_nodeid n' = n_nodeid n \<and> n_nlookup n' = n_nlookup n + 1)"
proof -
  let ?f = "if lru_enabled f \<and> n_nlookup n = 1 then remove_node_lru f p else f"
  have F: "tree_ok ?f" "entries ?f = entries f" "namespace ?f = namespace f" "kept f ?f" "f_nodes ?f = f_nodes f"
    using ok by (simp_all add: tree_ok_lru)
  note I = inc_nlookup_ok[OF F(1), of p n]
  have p': "f_nodes ?f p = Some n" using p F by simp
  show ?thesis using I[OF p' p(2)] F kept_trans[OF F(4) I(3)[OF p' p(2)]] by (auto simp: Let_def)
qed

definition fresh_node :: "fuse_config \<Rightarrow> fuse_ino_t \<Rightarrow> 32 word \<Rightarrow> node" where
  \<comment> \<open>what \<open>find_node\<close> hashes\<close>
  "fresh_node conf ino g = zero_node\<lparr>n_nodeid := ino, n_generation := g,
     n_refctr := (if c_remember conf = 0 then 0 else 1), n_nlookup := (if c_remember conf = 0 then 0 else 1)\<rparr>"

definition with_fresh :: "fuse \<Rightarrow> slabs \<Rightarrow> addr \<Rightarrow> fuse_ino_t \<Rightarrow> 32 word \<Rightarrow> fuse" where
  "with_fresh f sb p ino g = f\<lparr>f_slabs := sb, f_ctr := ino, f_generation := g,
     f_nodes := (f_nodes f)(p \<mapsto> fresh_node (f_conf f) ino g)\<rparr>"

lemma fresh_node_fields [simp]:
  "n_parent (fresh_node c i g) = None" "n_name (fresh_node c i g) = None" "n_nodeid (fresh_node c i g) = i"
  "n_treelock (fresh_node c i g) = 0" "n_generation (fresh_node c i g) = g"
  by (simp_all add: fresh_node_def zero_node_def)

lemma with_fresh_fields [simp]:
  "f_nodes (with_fresh f sb p ino g) = (f_nodes f)(p \<mapsto> fresh_node (f_conf f) ino g)"
  "f_slabs (with_fresh f sb p ino g) = sb" "f_id_table (with_fresh f sb p ino g) = f_id_table f"
  "f_name_table (with_fresh f sb p ino g) = f_name_table f" "f_conf (with_fresh f sb p ino g) = f_conf f"
  "f_ctr (with_fresh f sb p ino g) = ino" "f_generation (with_fresh f sb p ino g) = g"
  by (simp_all add: with_fresh_def)

lemma find_node_new:
  assumes "lookup_node f dir s = None" and "slab_alloc (f_slabs f) = Some (Some p, sb)"
    and "next_id (f\<lparr>f_slabs := sb, f_nodes := (f_nodes f)(p \<mapsto> zero_node)\<rparr>) =
      Some (ino, f\<lparr>f_slabs := sb, f_nodes := (f_nodes f)(p \<mapsto> zero_node), f_ctr := ino, f_generation := g\<rparr>)"
    and "hash_name (with_fresh f sb p ino g) p dir s = Some (res, f5)"
  shows "find_node f dir (Some s) =
    (if res = -1 then map_option (\<lambda>f. (None, f)) (free_node f5 p)
     else Some (Some p, inc_nlookup (hash_id f5 p) p))"
proof -
  have "(let f = upd p (\<lambda>n. n\<lparr>n_nodeid := ino, n_generation := g\<rparr>)
        (f\<lparr>f_slabs := sb, f_nodes := (f_nodes f)(p \<mapsto> zero_node), f_ctr := ino, f_generation := g\<rparr>)
      in if c_remember (f_conf f) \<noteq> 0 then inc_nlookup f p else f) = with_fresh f sb p ino g"
    by (simp add: with_fresh_def fresh_node_def inc_nlookup_def upd_def zero_node_def Let_def)
  with assms show ?thesis
    by (cases "free_node f5 p") (auto simp: find_node_def Let_def upd_def)
qed

lemma get_node_fresh:
  assumes ok: "tree_ok f" and p: "p \<notin> dom (f_nodes f)"
  shows "get_node_nocheck (f\<lparr>f_slabs := sb, f_nodes := (f_nodes f)(p \<mapsto> n)\<rparr>) = get_node_nocheck f"
    "get_node (with_fresh f sb p ino g) = get_node f"
proof -
  have T: "table_ok (idk (f_nodes f)) (f_id_table f) (dom (f_nodes f))"
    using ok by (simp add: tree_ok_def tree_inv_def)
  have "List.find (\<lambda>r. map_option n_nodeid (((f_nodes f)(p \<mapsto> x)) r) = Some i) (table_bucket (f_id_table f) h) =
      List.find (\<lambda>r. map_option n_nodeid (f_nodes f r) = Some i) (table_bucket (f_id_table f) h)" for x i h
    by (rule find_cong[OF refl]) (use ntab.bucket_sound[OF T] p in auto)
  then show "get_node_nocheck (f\<lparr>f_slabs := sb, f_nodes := (f_nodes f)(p \<mapsto> n)\<rparr>) = get_node_nocheck f"
    "get_node (with_fresh f sb p ino g) = get_node f"
    by (simp_all add: fun_eq_iff get_node_def get_node_nocheck_def)
qed

lemma fresh_names:
  assumes ok: "tree_ok f" and p: "p \<notin> dom (f_nodes f)" and n: "n_parent n = None"
  shows "table_ok (namek ((f_nodes f)(p \<mapsto> n))) (f_name_table f) (linked ((f_nodes f)(p \<mapsto> n)))"
    "linked ((f_nodes f)(p \<mapsto> n)) = linked (f_nodes f)"
proof -
  have inv: "tree_inv (\<lambda>_. 0) {} {} f" using ok by (simp add: tree_ok_def)
  show linked: "linked ((f_nodes f)(p \<mapsto> n)) = linked (f_nodes f)" using p n by (auto simp: linked_def)
  have "namek ((f_nodes f)(p \<mapsto> n)) r = namek (f_nodes f) r" if "r \<in> linked (f_nodes f)" for r
  proof -
    from that obtain x q where x: "f_nodes f r = Some x" "n_parent x = Some q" by (auto simp: linked_def)
    have "q \<in> dom (f_nodes f)" using node_okD(8)[OF heap_okD(4)[OF tree_invD(1)[OF inv] x(1)] x(2)] by simp
    then have "r \<noteq> p" "q \<noteq> p" using p x by auto
    then show ?thesis using x by (simp add: namek_def split: option.split)
  qed
  with table_ok_cong[OF tree_invD(6)[OF inv]] linked
  show "table_ok (namek ((f_nodes f)(p \<mapsto> n))) (f_name_table f) (linked ((f_nodes f)(p \<mapsto> n)))" by simp
qed

lemma hash_name_fails:
  assumes "hash_name f p dir s = Some (-1, f')"
  shows "32 \<le> length s \<and> \<not> fst (malloc (f_mem f))"
proof (rule ccontr)
  assume "\<not> ?thesis"
  then have "fst (if length s < 32 then (True, f_mem f) else malloc (f_mem f))" by auto
  then show False using assms
    by (cases "if length s < 32 then (True, f_mem f) else malloc (f_mem f)"; cases "get_node f dir")
      (auto simp: hash_name_def Let_def)
qed

lemma find_new_failed:
  \<comment> \<open>out of memory for the name: the new node is released again\<close>
  assumes ok: "tree_ok f" and p: "p \<notin> dom (f_nodes f)" and sb: "slabs_ok sb" "live sb = insert p (dom (f_nodes f))"
    and f5: "f_slabs f5 = sb" "f_id_table f5 = f_id_table f" "f_name_table f5 = f_name_table f"
      "f_nodes f5 = (f_nodes f)(p \<mapsto> n)"
  shows "\<exists>f'. free_node f5 p = Some f' \<and> tree_ok f' \<and> f_nodes f' = f_nodes f \<and>
    f_conf f' = f_conf f5"
proof -
  obtain sb' where "free_node_mem sb p = Some sb'" "slabs_ok sb'" "live sb' = dom (f_nodes f)"
    using slaballoc.release_node[OF sb(1), of p] sb(2) p by auto
  moreover have "((f_nodes f)(p \<mapsto> n))(p := None) = f_nodes f" using p by (auto simp: domIff)
  ultimately show ?thesis using ok f5 by (simp add: free_node_def tree_ok_def tree_inv_def)
qed

lemma find_new_linked:
  assumes ok: "tree_ok f" and p: "p \<notin> dom (f_nodes f)" and sb: "slabs_ok sb" "live sb = insert p (dom (f_nodes f))"
    and ino: "\<forall>r x. f_nodes f r = Some x \<longrightarrow> n_nodeid x \<noteq> ino"
    and q: "f_nodes f q = Some m" and free: "\<forall>r. (n_nodeid m, s, r) \<notin> entries f"
    and f5: "f_slabs f5 = sb" "f_id_table f5 = f_id_table f"
      "f_nodes f5 = linked_under ((f_nodes f)(p \<mapsto> fresh_node c ino g)) p q s"
      "table_ok (namek (f_nodes f5)) (f_name_table f5) (linked (f_nodes f5))"
      "nt_use (f_name_table f5) = card (linked (f_nodes f5))"
  defines "f' \<equiv> inc_nlookup (hash_id f5 p) p"
  shows "tree_ok f'" "namespace f' = insert (n_nodeid m, s, ino) (namespace f)"
    "\<exists>n. f_nodes f' p = Some n \<and> n_nodeid n = ino \<and> n_nlookup n = (if c_remember c \<noteq> 0 then 2 else 1)"
    "\<And>i. known f i \<Longrightarrow> known f' i" "entries f' = insert (n_nodeid m, s, p) (entries f)"
proof -
  have inv: "tree_inv (\<lambda>_. 0) {} {} f" using ok by (simp add: tree_ok_def)
  note H = tree_invD(1)[OF inv]
  let ?z = "fresh_node c ino g"
  let ?n = "?z\<lparr>n_refctr := 1, n_nlookup := n_nlookup ?z + 1\<rparr>"
  let ?h = "(f_nodes f)(p \<mapsto> ?n)"
  have qp: "q \<noteq> p" using p q by auto
  have n0: "n_refctr ?z + (if n_nlookup ?z = 0 then 1 else 0) = 1" "n_nlookup ?n \<noteq> 0"
      "n_nlookup ?n = (if c_remember c \<noteq> 0 then 2 else 1)"
    by (auto simp: fresh_node_def zero_node_def)
  have nodes: "f_nodes f' = linked_under ?h p q s"
  proof
    fix r
    have "f_nodes f' = (f_nodes f5)(p := map_option (\<lambda>n. n\<lparr>n_refctr := n_refctr n +
        (if n_nlookup n = 0 then 1 else 0), n_nlookup := n_nlookup n + 1\<rparr>) (f_nodes f5 p))"
      unfolding f'_def by (simp add: inc_nlookup_def upd_def hash_id_def split: prod.splits)
    moreover have "f_nodes f5 p = Some (?z\<lparr>n_name := Some s, n_parent := Some q\<rparr>)"
      using qp by (simp add: f5(3) linked_under_at)
    moreover have "r \<noteq> p \<Longrightarrow> f_nodes f5 r = linked_under ?h p q s r" by (simp add: f5(3) linked_under_at)
    ultimately show "f_nodes f' r = linked_under ?h p q s r"
      using qp n0(1) by (cases "r = p") (simp_all add: linked_under_at)
  qed
  have new: "heap_ok (\<lambda>_. 0) {} {} ?h"
    by (rule heap_new[OF H p]) (use n0 ino in auto)
  have rt: "ino \<noteq> FUSE_ROOT_ID" using heap_okD(8)[OF H] ino by blast
  have ent: "is_entry ?h d t r \<longleftrightarrow> is_entry (f_nodes f) d t r" for d t r
  proof -
    have "q' \<noteq> p" if "f_nodes f r = Some x" "n_parent x = Some q'" for x q'
      using node_okD(8)[OF heap_okD(4)[OF H that(1)] that(2)] p by auto
    then show ?thesis using p by (auto simp: is_entry_def)
  qed
  have hp: "?h p = Some ?n" "n_parent ?n = None" "?h q = Some m" using q qp by auto
  have "heap_ok (\<lambda>_. 0) {} {} (linked_under ?h p q s)"
  proof (rule heap_link[OF new hp(1,2) _ hp(3)])
    show "n_nodeid ?n \<noteq> FUSE_ROOT_ID" using rt by simp
    show "\<not> is_entry ?h (n_nodeid m) s r" for r unfolding ent using free by (simp add: entries_def)
  qed
  moreover have lk: "linked (linked_under ?h p q s) = linked (f_nodes f5)"
    unfolding f5(3) by (simp add: linked_linked_under) (auto simp: linked_def)
  moreover have nk: "namek (linked_under ?h p q s) = namek (f_nodes f5)"
    unfolding f5(3) by (auto simp: fun_eq_iff namek_def linked_under_at split: option.splits)
  moreover have ik: "idk (linked_under ?h p q s) = idk (f_nodes f5)"
    unfolding f5(3) by (auto simp: fun_eq_iff idk_def)
  moreover have ids: "table_ok (idk (f_nodes f5)) (f_id_table f) (dom (f_nodes f))"
    by (rule table_ok_cong[OF tree_invD(4)[OF inv]]) (use p in \<open>auto simp: f5(3) idk_def\<close>)
  moreover note ntab.add_holds[OF ids p, of "f_mem f5"] ntab.add_use[OF ids p, of "f_mem f5"]
  moreover have "f_id_table f' = fst (table_add (idk (f_nodes f5)) p (f_id_table f) (f_mem f5))"
    "f_name_table f' = f_name_table f5" "f_slabs f' = sb"
    using f5(1,2) by (simp_all add: f'_def inc_nlookup_def upd_def hash_id_def split: prod.splits)
  ultimately show "tree_ok f'"
    unfolding tree_ok_def tree_inv_def nodes using f5(4,5) sb tree_invD(5)[OF inv] p heap_okD(1)[OF H] by simp
  let ?f = "f\<lparr>f_nodes := ?h\<rparr>"
  have ents: "entries ?f = entries f" 
    by (intro set_eqI) (auto simp del: fun_upd_apply simp add: entries_def ent)
  have "r \<noteq> p" if "(d, t, r) \<in> entries f" for d t r
    using that p by (auto simp: entries_def is_entry_def)
  then have "namespace ?f = namespace f" unfolding namespace_def ents by auto
  moreover note namespace_linked_under(1)[of ?f p ?n q m f' s]
  ultimately show "namespace f' = insert (n_nodeid m, s, ino) (namespace f)"
    using hp n0(2) nodes by simp
  show "entries f' = insert (n_nodeid m, s, p) (entries f)"
    using namespace_linked_under(2)[of ?f p ?n q m f' s] hp n0(2) nodes ents by simp
  show "\<exists>n. f_nodes f' p = Some n \<and> n_nodeid n = ino \<and> n_nlookup n = (if c_remember c \<noteq> 0 then 2 else 1)"
    unfolding nodes n0(3)[symmetric] by (simp add: linked_under_at)
  show "known f' i" if known: "known f i" for i
  proof -
    from known obtain r x where r: "f_nodes f r = Some x" "n_nodeid x = i" "n_nlookup x \<noteq> 0" by (auto simp: known_def)
    then have "r \<noteq> p" using p by auto
    with r show ?thesis unfolding known_def nodes by (intro exI[of _ r]) (simp add: linked_under_at)
  qed
qed

section \<open>Properties\<close>

text \<open>
  The tree \<open>fuse_new\<close> builds satisfies the tree invariant and holds the root, with
  its lookup count, and nothing else.
\<close>

theorem new_tree_correct:
  assumes "slabs_ok sb" "fresh_page sb" "live sb = {}" and "new_tree conf sb m = Some (Some f)"
  shows "tree_ok f \<and> known f FUSE_ROOT_ID \<and> namespace f = {} \<and> f_ctr f = 0"
  using new_tree_ok[OF assms] by simp

lemma find_node_fresh:
  assumes ok: "tree_ok f" and page: "fresh_page (f_slabs f)" and dir: "known f dir"
    and ids: "unat (f_ctr f) < 2 ^ 32" "id_free f t" and none: "lookup_node f dir s = None"
  shows "\<exists>r f'. find_node f dir (Some s) = Some (r, f') \<and> tree_ok f' \<and> f_conf f' = f_conf f \<and>
    (\<forall>i. known f i \<longrightarrow> known f' i) \<and>
    (case r of
       None \<Rightarrow> namespace f' = namespace f \<and>
         (sb_partial (f_slabs f) = [] \<or> 32 \<le> length s \<and> \<not> fst (malloc (f_mem f)))
     | Some p \<Rightarrow> \<exists>n. f_nodes f' p = Some n \<and> n_nlookup n = (if c_remember (f_conf f) \<noteq> 0 then 2 else 1) \<and>
         id_free f (n_nodeid n) \<and> namespace f' = insert (dir, s, n_nodeid n) (namespace f)) \<and>
    (r \<noteq> None \<longrightarrow> slab_alloc (f_slabs f) = Some (r, f_slabs f') \<and> unat (f_ctr f') < 2 ^ 32 \<and>
      entries f' = insert (dir, s, the r) (entries f))"
proof -
  have inv: "tree_inv (\<lambda>_. 0) {} {} f" using ok by (simp add: tree_ok_def)
  note T = tree_invD[OF inv]
  from dir obtain q m where q: "f_nodes f q = Some m" "n_nodeid m = dir" by (auto simp: known_def)
  obtain r sb where a: "slab_alloc (f_slabs f) = Some (r, sb)"
    using slaballoc.alloc_defined[OF T(2) page] by blast
  show ?thesis
  proof (cases r)
    case None
    let ?f = "f\<lparr>f_slabs := sb\<rparr>"
    have "find_node f dir (Some s) = Some (None, ?f)" using a None none by (simp add: find_node_def)
    moreover have "tree_ok ?f" "namespace ?f = namespace f" "\<forall>i. known f i \<longrightarrow> known ?f i"
      using T slaballoc.alloc_null[OF T(2) page a[unfolded None]]
      by (simp_all add: tree_ok_def tree_inv_def namespace_def entries_def known_def)
    moreover have "sb_partial (f_slabs f) = []"
      using slab_alloc_null[OF T(2)] a None by simp
    ultimately show ?thesis by auto
  next
    case (Some p)
    note A = slaballoc.alloc_node[OF T(2) page a[unfolded Some]]
    have p: "p \<notin> dom (f_nodes f)" and live: "live sb = insert p (dom (f_nodes f))" and sb: "slabs_ok sb"
      using A T(3) by auto
    let ?f1 = "f\<lparr>f_slabs := sb, f_nodes := (f_nodes f)(p \<mapsto> zero_node)\<rparr>"
    note G = get_node_fresh[OF ok p]
    have "unat (f_ctr ?f1) < 2 ^ 32" "id_free ?f1 t" using ids by (simp_all add: id_free_def G(1))
    from next_id_ok[OF this refl] obtain ino g where ino: "next_id ?f1 = Some (ino, ?f1\<lparr>f_ctr := ino, f_generation := g\<rparr>)"
      "id_free f ino" by (auto simp: id_free_def G(1))
    let ?f4 = "with_fresh f sb p ino g"
    have new: "\<forall>r x. f_nodes f r = Some x \<longrightarrow> n_nodeid x \<noteq> ino"
      using ino(2) get_node_iff[OF inv, of ino] by (auto simp: id_free_def get_node_def)
    have get: "get_node ?f4 dir = Some q" unfolding G(2) using get_node_iff[OF inv] q by blast
    have q4: "f_nodes ?f4 q = Some m" using q p by auto
    note N = fresh_names[OF ok p fresh_node_fields(1)[of "f_conf f" ino g]]
    have names: "table_ok (namek (f_nodes ?f4)) (f_name_table ?f4) (linked (f_nodes ?f4))"
      "nt_use (f_name_table ?f4) = card (linked (f_nodes ?f4))" using N T(7) by simp_all
    have p4: "f_nodes ?f4 p = Some (fresh_node (f_conf f) ino g)" by simp
    obtain res f5 where h: "hash_name ?f4 p dir s = Some (res, f5)" using hash_name_returns[OF get] by blast
    note R = hash_name_tables[OF names p4 _ get q4 q(2) h, simplified]
    have code: "find_node f dir (Some s) =
        (if res = -1 then map_option (\<lambda>f. (None, f)) (free_node f5 p) else Some (Some p, inc_nlookup (hash_id f5 p) p))"
      by (rule find_node_new[OF none a[unfolded Some] _ h]) (use ino(1) in simp)
    show ?thesis
    proof (cases "res = -1")
      case True
      with R obtain f' where "free_node f5 p = Some f'" "tree_ok f'" "f_nodes f' = f_nodes f" "f_conf f' = f_conf f5"
        using find_new_failed[OF ok p sb live, of f5] by auto
      moreover have "f_conf f5 = f_conf f" using R(3) by (simp add: same_env_def)
      moreover have "32 \<le> length s \<and> \<not> fst (malloc (f_mem f))"
        using hash_name_fails[OF h[unfolded True]] by (simp add: with_fresh_def)
      ultimately show ?thesis using code True by (auto simp: namespace_def entries_def known_def)
    next
      case False
      with R(5) have F: "f_nodes f5 = linked_under ((f_nodes f)(p \<mapsto> fresh_node (f_conf f) ino g)) p q s"
        "table_ok (namek (f_nodes f5)) (f_name_table f5) (linked (f_nodes f5))"
        "nt_use (f_name_table f5) = card (linked (f_nodes f5))" by auto
      have "\<forall>r. (n_nodeid m, s, r) \<notin> entries f" using none lookup_entries(2)[OF ok] q(2) by simp
      note L = find_new_linked[OF ok p sb live new q(1) this R(1,2) F]
      moreover have "f_conf (inc_nlookup (hash_id f5 p) p) = f_conf f"
        "f_slabs (inc_nlookup (hash_id f5 p) p) = sb" "f_ctr (inc_nlookup (hash_id f5 p) p) = ino"
        using R(1,3) by (simp_all add: inc_nlookup_def upd_def hash_id_def same_env_def split: prod.splits)
      ultimately show ?thesis using code False ino(2) q(2) a Some by (auto simp: id_free_def)
    qed
  qed
qed

lemma find_node_counts:
  assumes "tree_ok f" and "fresh_page (f_slabs f)" and "known f dir"
    and "unat (f_ctr f) < 2 ^ 32" and "id_free f t"
    and "\<And>p n. (dir, s, p) \<in> entries f \<Longrightarrow> f_nodes f p = Some n \<Longrightarrow> n_nlookup n + 1 \<noteq> 0"
  shows "\<exists>r f'. find_node f dir (Some s) = Some (r, f') \<and> tree_ok f' \<and> f_conf f' = f_conf f \<and>
    (\<forall>i. known f i \<longrightarrow> known f' i) \<and>
    (case r of
       None \<Rightarrow> namespace f' = namespace f \<and>
         (sb_partial (f_slabs f) = [] \<or> 32 \<le> length s \<and> \<not> fst (malloc (f_mem f)))
     | Some p \<Rightarrow> \<exists>n. f_nodes f' p = Some n \<and> n_nlookup n \<noteq> 0 \<and>
         (if (dir, s, p) \<in> entries f
          then \<exists>m. f_nodes f p = Some m \<and> n_nodeid n = n_nodeid m \<and> n_nlookup n = n_nlookup m + 1
          else id_free f (n_nodeid n) \<and> n_nlookup n = (if c_remember (f_conf f) \<noteq> 0 then 2 else 1)) \<and>
         namespace f' = insert (dir, s, n_nodeid n) (namespace f))"
proof (cases "lookup_node f dir s")
  case None
  then have "(dir, s, p) \<notin> entries f" for p using lookup_entries(2)[OF assms(1)] by simp
  then have E: "(dir, s, p) \<in> entries f \<longleftrightarrow> False" for p by simp
  show ?thesis unfolding E if_False using find_node_fresh[OF assms(1-5) None] by (fastforce split: option.splits)
next
  case (Some p)
  then have e: "(dir, s, p) \<in> entries f" using lookup_entries(1)[OF assms(1)] by simp
  obtain n where n: "f_nodes f p = Some n" by (rule entry_node[OF assms(1) e])
  obtain f' n' where f': "(let f1 = if lru_enabled f \<and> n_nlookup n = 1 then remove_node_lru f p else f
      in Some (Some p, inc_nlookup f1 p)) = Some (Some p, f')" "tree_ok f'" "kept f f'" 
      "namespace f' = namespace f \<union> {(d, s, n_nodeid n) | d s. (d, s, p) \<in> entries f}"
      "f_nodes f' p = Some n'" "n_nodeid n' = n_nodeid n" "n_nlookup n' = n_nlookup n + 1"
    using find_existing[OF assms(1) n assms(6)[OF e n]] by blast
  have "find_node f dir (Some s) = Some (Some p, f')"
    using Some n f'(1) by (simp add: find_node_def)
  moreover have "{(d, s, n_nodeid n) | d s. (d, s, p) \<in> entries f} = {(dir, s, n_nodeid n)}"
    using e entry_dir[OF e] by blast
  then have "namespace f' = insert (dir, s, n_nodeid n') (namespace f)" unfolding f'(4,6) by simp
  moreover have "f_conf f' = f_conf f" using f'(3) by (simp add: kept_def same_env_def)
  moreover have "n_nlookup n' \<noteq> 0" using f'(7) assms(6)[OF e n] by simp
  moreover have "\<forall>i. known f i \<longrightarrow> known f' i" using kept_known[OF f'(3)] by blast
  ultimately show ?thesis
    using e n f'(2,5,6,7) by (intro exI[of _ "Some p"] exI[of _ f']) simp
qed

lemma find_node_ok:
  assumes "tree_ok f" and "fresh_page (f_slabs f)" and "known f dir"
    and "unat (f_ctr f) < 2 ^ 32" and "id_free f t"
    and "\<And>p n. (dir, s, p) \<in> entries f \<Longrightarrow> f_nodes f p = Some n \<Longrightarrow> n_nlookup n + 1 \<noteq> 0"
  shows "\<exists>r f'. find_node f dir (Some s) = Some (r, f') \<and> tree_ok f' \<and> f_conf f' = f_conf f \<and>
    (\<forall>i. known f i \<longrightarrow> known f' i) \<and>
    (case r of
       None \<Rightarrow> namespace f' = namespace f \<and>
         (sb_partial (f_slabs f) = [] \<or> 32 \<le> length s \<and> \<not> fst (malloc (f_mem f)))
     | Some p \<Rightarrow> \<exists>n. f_nodes f' p = Some n \<and> n_nlookup n \<noteq> 0 \<and>
         (if (dir, s, p) \<in> entries f then map_option n_nodeid (f_nodes f p) = Some (n_nodeid n)
          else id_free f (n_nodeid n)) \<and>
         namespace f' = insert (dir, s, n_nodeid n) (namespace f))"
proof -
  obtain r f' where r: "find_node f dir (Some s) = Some (r, f')" "tree_ok f'" "f_conf f' = f_conf f"
    "\<forall>i. known f i \<longrightarrow> known f' i"
    "(case r of
       None \<Rightarrow> namespace f' = namespace f \<and>
         (sb_partial (f_slabs f) = [] \<or> 32 \<le> length s \<and> \<not> fst (malloc (f_mem f)))
     | Some p \<Rightarrow> \<exists>n. f_nodes f' p = Some n \<and> n_nlookup n \<noteq> 0 \<and>
         (if (dir, s, p) \<in> entries f
          then \<exists>m. f_nodes f p = Some m \<and> n_nodeid n = n_nodeid m \<and> n_nlookup n = n_nlookup m + 1
          else id_free f (n_nodeid n) \<and> n_nlookup n = (if c_remember (f_conf f) \<noteq> 0 then 2 else 1)) \<and>
         namespace f' = insert (dir, s, n_nodeid n) (namespace f))"
    by (rule exE[OF find_node_counts[OF assms(1-5), of s]]) (use assms(6) in blast)+
  then show ?thesis by (intro exI[of _ r] exI[of _ f']) (cases r; fastforce split: if_splits)
qed

text \<open>
  Property C10. \<open>find_node\<close> on a name: an existing node keeps its id and gets exactly one more lookup; a
  missing one is created with a fresh id and becomes the entry, looked up once, or twice when nodes are
  remembered; unless the slab has no free node and no page can be mapped, or the copy of a long name
  cannot be allocated, in which case NULL is returned and nothing is left behind. In every case the tree
  invariant holds and known nodes stay known.
\<close>

theorem find_node_correct:
  assumes "tree_ok f" and "fresh_page (f_slabs f)" and "known f dir"
    and "unat (f_ctr f) < 2 ^ 32" and "id_free f t"
    and "\<And>p n. (dir, s, p) \<in> entries f \<Longrightarrow> f_nodes f p = Some n \<Longrightarrow> n_nlookup n + 1 \<noteq> 0"
  shows "\<exists>r f'. find_node f dir (Some s) = Some (r, f') \<and> tree_ok f' \<and> f_conf f' = f_conf f \<and>
    (\<forall>i. known f i \<longrightarrow> known f' i) \<and>
    (case r of
       None \<Rightarrow> namespace f' = namespace f \<and>
         (sb_partial (f_slabs f) = [] \<or> 32 \<le> length s \<and> \<not> fst (malloc (f_mem f)))
     | Some p \<Rightarrow> \<exists>n. f_nodes f' p = Some n \<and> n_nlookup n \<noteq> 0 \<and>
         (if (dir, s, p) \<in> entries f
          then \<exists>m. f_nodes f p = Some m \<and> n_nodeid n = n_nodeid m \<and> n_nlookup n = n_nlookup m + 1
          else id_free f (n_nodeid n) \<and> n_nlookup n = (if c_remember (f_conf f) \<noteq> 0 then 2 else 1)) \<and>
         namespace f' = insert (dir, s, n_nodeid n) (namespace f))"
  by (rule find_node_counts[OF assms])

section \<open>Forgetting\<close>

lemma drop_last_lookup:
  assumes ok: "tree_ok f" and p: "f_nodes f p = Some n" "n_nlookup n \<noteq> 0" "n_nodeid n \<noteq> FUSE_ROOT_ID"
    "n_treelock n = 0"
  shows "\<exists>f'. unref_node (upd p (\<lambda>n. n\<lparr>n_nlookup := 0\<rparr>) f) p = Some f' \<and> tree_ok f' \<and>
    namespace f' = {(d, s, i) \<in> namespace f. i \<noteq> n_nodeid n} \<and>
    (\<forall>i. known f i \<and> i \<noteq> n_nodeid n \<longrightarrow> known f' i) \<and> \<not> known f' (n_nodeid n)"
proof -
  let ?n = "n\<lparr>n_nlookup := 0\<rparr>" and ?f = "upd p (\<lambda>n. n\<lparr>n_nlookup := 0\<rparr>) f"
  let ?ex = "(\<lambda>_. 0)(p := 0 + 1) :: addr \<Rightarrow> nat"
  have inv: "tree_inv (\<lambda>_. 0) {} {} f" using ok by (simp add: tree_ok_def)
  note H = tree_invD(1)[OF inv]
  have f: "?f = f\<lparr>f_nodes := (f_nodes f)(p \<mapsto> ?n)\<rparr>" by (rule upd_nodes[OF p(1)])
  have "heap_ok ?ex {} {} ((f_nodes f)(p \<mapsto> ?n))"
    by (rule heap_update[OF H p(1)])
      (use node_okD[OF heap_okD(4)[OF H p(1)]] p in \<open>auto simp: node_ok_def look_def pinned_def\<close>)
  then have inv1: "tree_inv ?ex {} {} ?f" unfolding f by (intro tree_update[OF inv p(1)]) simp_all
  moreover have "f_nodes ?f p = Some ?n" unfolding f by simp
  ultimately have "unref_pre (\<lambda>_. 0) {} {} ?f p ?n" using p(4) by (simp add: unref_pre_def)
  from cascade(2)[OF this] obtain f' where f': "unref_node ?f p = Some f'" "tree_inv (\<lambda>_. 0) {} {} f'"
    "frame {} ?f f'" by blast
  have inj: "r = p" if "f_nodes f r = Some x" "n_nodeid x = n_nodeid n" for r x
    using heap_okD(6)[OF H that(1) p(1) that(2)] .
  have ent: "entries ?f = entries f"
  proof -
    have "is_entry ((f_nodes f)(p \<mapsto> ?n)) = is_entry (f_nodes f)" by (rule is_entry_cong) (use p(1) in auto)
    then show ?thesis unfolding entries_def f by simp
  qed
  have "namespace f' = {(d, s, i) \<in> namespace ?f. i \<notin> {}}"
    by (rule frame_namespace[OF f'(3,2) inv1]) simp
  also have "\<dots> = {(d, s, i) \<in> namespace f. i \<noteq> n_nodeid n}"
  proof -
    have "(\<exists>x. f_nodes ?f r = Some x \<and> n_nodeid x = i \<and> n_nlookup x \<noteq> 0) \<longleftrightarrow>
        (\<exists>x. f_nodes f r = Some x \<and> n_nodeid x = i \<and> n_nlookup x \<noteq> 0) \<and> i \<noteq> n_nodeid n" for r i
    proof (cases "r = p")
      case True
      then show ?thesis unfolding f using p by auto
    next
      case False
      then have "f_nodes f r = Some x \<Longrightarrow> n_nodeid x \<noteq> n_nodeid n" for x using inj by blast
      then show ?thesis unfolding f using False by auto
    qed
    then have "namespace ?f = {(d, s, i). \<exists>r. (d, s, r) \<in> entries f \<and>
        (\<exists>x. f_nodes f r = Some x \<and> n_nodeid x = i \<and> n_nlookup x \<noteq> 0) \<and> i \<noteq> n_nodeid n}"
      unfolding namespace_def ent by simp
    then show ?thesis unfolding namespace_def by auto
  qed
  finally have ns: "namespace f' = {(d, s, i) \<in> namespace f. i \<noteq> n_nodeid n}" .
  have "known f' i" if i: "known f i" "i \<noteq> n_nodeid n" for i
  proof -
    from i(1) obtain r x where r: "f_nodes f r = Some x" "n_nodeid x = i" "n_nlookup x \<noteq> 0" by (auto simp: known_def)
    have "r \<noteq> p" using r i p by auto
    then have "known ?f i" using r unfolding known_def f by auto
    then show ?thesis by (rule kept_known[OF frame_kept[OF f'(3)]])
  qed
  moreover have "\<not> known f' (n_nodeid n)"
  proof
    assume "known f' (n_nodeid n)"
    then obtain r x where r: "f_nodes f' r = Some x" "n_nodeid x = n_nodeid n" "n_nlookup x \<noteq> 0" by (auto simp: known_def)
    obtain y where y: "f_nodes ?f r = Some y" "n_nodeid x = n_nodeid y" "n_nlookup x = n_nlookup y"
      by (rule frame_node[OF f'(3) r(1)])
    have "r = p" using inj[of r y] y r by (cases "r = p") (auto simp: f)
    with y(1) have "y = ?n" by (simp add: f)
    then show False using y(3) r(3) by simp
  qed
  ultimately show ?thesis using f' ns by (auto simp: tree_ok_def)
qed

lemma set_forget_time_ok:
  assumes ok: "tree_ok f" and p: "f_nodes f p = Some n"
  shows "tree_ok (set_forget_time now f p)" "namespace (set_forget_time now f p) = namespace f"
    "kept f (set_forget_time now f p)"
proof -
  let ?n = "n\<lparr>n_forget_time := now\<rparr>"
  let ?g = "f\<lparr>f_lru_table := removeAll p (f_lru_table f) @ [p]\<rparr>"
  have inv: "tree_inv (\<lambda>_. 0) {} {} f" using ok by (simp add: tree_ok_def)
  note H = tree_invD(1)[OF inv]
  have invg: "tree_inv (\<lambda>_. 0) {} {} ?g" using inv by (simp add: tree_inv_def)
  have gp: "f_nodes ?g p = Some n" using p by simp
  have f: "set_forget_time now f p = ?g\<lparr>f_nodes := (f_nodes ?g)(p \<mapsto> ?n)\<rparr>"
    unfolding set_forget_time_def by (rule upd_nodes[OF gp])
  have "heap_ok (\<lambda>_. 0) {} {} ((f_nodes f)(p \<mapsto> ?n))"
    by (rule heap_update[OF H p]) (use heap_okD(4)[OF H p] in \<open>auto simp: node_ok_def look_def pinned_def\<close>)
  then show "tree_ok (set_forget_time now f p)"
    unfolding f tree_ok_def by (intro tree_update[OF invg gp]) simp_all
  have "is_entry ((f_nodes f)(p \<mapsto> ?n)) = is_entry (f_nodes f)" by (rule is_entry_cong) (use p in auto)
  then show "namespace (set_forget_time now f p) = namespace f"
    unfolding namespace_def entries_def f using p by auto
  show "kept f (set_forget_time now f p)" using p by (auto simp: kept_def f same_env_def)
qed

text \<open>
  Property C9. Forgetting lookups of a node (once it is not locked): with the last one the node
  leaves the namespace and stays in the tree only while children or other references hold it; before
  that the namespace does not change. Either way the operation returns and the tree invariant holds.
\<close>

theorem forget_node_correct:
  assumes ok: "tree_ok f" and p: "f_nodes f p = Some n" "n_nodeid n \<noteq> FUSE_ROOT_ID"
    and le: "nlookup \<le> n_nlookup n" "n_nlookup n \<noteq> 0" and free: "n_nlookup n = nlookup \<Longrightarrow> n_treelock n = 0"
  shows "\<exists>f'. forget_node_tail now f p nlookup = Some f' \<and> tree_ok f' \<and>
    namespace f' = (if n_nlookup n = nlookup then {(d, s, i) \<in> namespace f. i \<noteq> n_nodeid n} else namespace f) \<and>
    (\<forall>i. known f i \<and> (n_nlookup n = nlookup \<longrightarrow> i \<noteq> n_nodeid n) \<longrightarrow> known f' i) \<and>
    (n_nlookup n = nlookup \<longrightarrow> \<not> known f' (n_nodeid n))"
proof (cases "n_nlookup n = nlookup")
  case True
  have "upd p (\<lambda>n. n\<lparr>n_nlookup := n_nlookup n - nlookup\<rparr>) f = upd p (\<lambda>n. n\<lparr>n_nlookup := 0\<rparr>) f"
    using p(1) True by (simp add: upd_def)
  with drop_last_lookup[OF ok p(1) le(2) p(2) free[OF True]] p(1) True show ?thesis
    by (auto simp: forget_node_tail_def)
next
  case False
  define v where "v = n_nlookup n - nlookup"
  have v: "v \<noteq> 0" using False by (simp add: v_def)
  define g where "g = upd p (\<lambda>n. n\<lparr>n_nlookup := v\<rparr>) f"
  have g: "upd p (\<lambda>n. n\<lparr>n_nlookup := n_nlookup n - nlookup\<rparr>) f = g"
    using p(1) by (simp add: upd_def g_def v_def)
  note U = nlookup_update[OF ok p(1) le(2) v, folded g_def]
  note S = set_forget_time_ok[OF U(1,5), of now]
  let ?f = "if lru_enabled g \<and> v = 1 then set_forget_time now g p else g"
  have "forget_node_tail now f p nlookup = Some ?f"
    unfolding forget_node_tail_def p(1) Option.bind.bind_lunit g v_def[symmetric] Let_def using le(1) v by simp
  moreover have "tree_ok ?f \<and> kept f ?f \<and> namespace ?f = namespace f"
    using U S kept_trans[OF U(4) S(3)] by simp
  ultimately show ?thesis using False kept_known[of f ?f] by auto
qed

lemma entry_not_root:
  assumes "tree_ok f" "(d, s, p) \<in> entries f" "f_nodes f p = Some n"
  shows "n_nodeid n \<noteq> FUSE_ROOT_ID"
proof -
  obtain n' where "f_nodes f p = Some n'" "n_nodeid n' \<noteq> FUSE_ROOT_ID" by (rule entry_node[OF assms(1,2)])
  with assms(3) show ?thesis by simp
qed

lemma unlinked_no_entry:
  assumes "tree_ok f" "f_nodes f p = Some n" and "\<And>d s. (d, s, p) \<notin> entries f"
  shows "n_parent n = None"
proof (rule ccontr)
  assume "\<not> ?thesis"
  then obtain q where q: "n_parent n = Some q" by auto
  have N: "node_ok (\<lambda>_. 0) {} {} (f_nodes f) p n"
    using assms(1,2) heap_okD(4)[OF tree_invD(1)] by (simp add: tree_ok_def)
  from node_okD(7,8)[OF N q] obtain s m where "n_name n = Some s" "f_nodes f q = Some m" by auto
  then have "(n_nodeid m, s, p) \<in> entries f" using assms(2) q by (auto simp: entries_def is_entry_def)
  with assms(3) show False by blast
qed

section \<open>Exchange\<close>

text \<open>
  Property C15. \<open>exchange_node\<close> on two existing entries swaps the two nodes and leaves every other
  entry and the known nodes alone. If memory for a long name runs out, the result is \<open>-ENOMEM\<close>, the
  tree invariant still holds, and of the two entries at most the first is back in the namespace.
\<close>

theorem exchange_node_correct:
  assumes ok: "tree_ok f" and src: "(olddir, oldname, i) \<in> namespace f" and dst: "(newdir, newname, j) \<in> namespace f"
    and dirs: "known f olddir" "known f newdir" and diff: "(olddir, oldname) \<noteq> (newdir, newname)"
  shows "\<exists>res f'. exchange_node f olddir oldname newdir newname = Some (res, f') \<and> tree_ok f' \<and> kept f f' \<and>
    (let others = {(d, s, k) \<in> namespace f. (d, s) \<noteq> (olddir, oldname) \<and> (d, s) \<noteq> (newdir, newname)}
     in res = 0 \<and> namespace f' = others \<union> {(newdir, newname, i), (olddir, oldname, j)} \<or>
        res = - ENOMEM \<and> (namespace f' = others \<or> namespace f' = insert (newdir, newname, i) others))"
proof -
  from src obtain p n where p: "(olddir, oldname, p) \<in> entries f" "f_nodes f p = Some n" "n_nodeid n = i"
    "n_nlookup n \<noteq> 0" by (auto simp: namespace_def)
  from dst obtain q m where q: "(newdir, newname, q) \<in> entries f" "f_nodes f q = Some m" "n_nodeid m = j"
    "n_nlookup m \<noteq> 0" by (auto simp: namespace_def)
  have rt: "i \<noteq> FUSE_ROOT_ID" "j \<noteq> FUSE_ROOT_ID"
    using entry_not_root[OF ok p(1,2)] entry_not_root[OF ok q(1,2)] p(3) q(3) by simp_all
  have look: "lookup_node f olddir oldname = Some p" "lookup_node f newdir newname = Some q"
    using lookup_entries(1)[OF ok] p q by simp_all
  have pq: "p \<noteq> q" using entry_dir[OF p(1), of newdir newname] q(1) diff by auto
  from cut_top[OF ok p(2,4)] p(3) rt obtain f1 n1 where f1: "unhash_name f p = Some f1" "tree_ok f1" "kept f f1"
    "namespace f1 = {(d, s, k) \<in> namespace f. k \<noteq> i}"
    "\<forall>d s r. (d, s, r) \<in> entries f1 \<longrightarrow> (d, s, r) \<in> entries f \<and> r \<noteq> p" by auto
  from keptD[OF f1(3) q(2,4)] q(3) obtain m1 where m1: "f_nodes f1 q = Some m1" "n_nodeid m1 = j" "n_nlookup m1 \<noteq> 0" by auto
  from cut_top[OF f1(2) m1(1,3)] m1(2,3) rt obtain f2 m2 where f2: "unhash_name f1 q = Some f2" "tree_ok f2" "kept f1 f2"
    "namespace f2 = {(d, s, k) \<in> namespace f1. k \<noteq> j}"
    "\<forall>d s r. (d, s, r) \<in> entries f2 \<longrightarrow> (d, s, r) \<in> entries f1 \<and> r \<noteq> q"
    "f_nodes f2 q = Some m2" "n_parent m2 = None" by auto
  have others: "namespace f2 =
      {(d, s, k) \<in> namespace f. (d, s) \<noteq> (olddir, oldname) \<and> (d, s) \<noteq> (newdir, newname)}"
  proof -
    have "k \<noteq> i \<and> k \<noteq> j \<longleftrightarrow> (d, s) \<noteq> (olddir, oldname) \<and> (d, s) \<noteq> (newdir, newname)"
      if "(d, s, k) \<in> namespace f" for d s k
      using namespace_id_iff[OF ok p(1,2) that] namespace_id_iff[OF ok q(1,2) that] p(3) q(3) by blast
    then show ?thesis unfolding f2(4) f1(4) by (intro set_eqI) (simp add: case_prod_unfold, metis prod.collapse)
  qed
  have gone: "(newdir, newname, r) \<notin> entries f2" "(olddir, oldname, r) \<notin> entries f2" for r
    using f2(5) f1(5) entry_unique[OF ok q(1), of r] entry_unique[OF ok p(1), of r] by blast+
  obtain n2 where n2: "f_nodes f2 p = Some n2" "n_nodeid n2 = i" "n_nlookup n2 \<noteq> 0"
    using keptD[OF kept_trans[OF f1(3) f2(3)] p(2,4)] p(3) by auto
  have par: "n_parent n2 = None" using unlinked_no_entry[OF f2(2) n2(1)] f2(5) f1(5) by blast
  have known: "known f2 newdir" "known f2 olddir"
    using dirs kept_known[OF kept_trans[OF f1(3) f2(3)]] by blast+
  from link_top[OF f2(2) n2(1) par _ n2(3) known(1) gone(1)] n2(2) rt obtain r3 f3 where
    f3: "hash_name f2 p newdir newname = Some (r3, f3)" "tree_ok f3" "kept f2 f3"
      "r3 = 0 \<and> namespace f3 = insert (newdir, newname, i) (namespace f2) \<and>
         (\<forall>d s r. (d, s, r) \<in> entries f3 \<longrightarrow> (d, s, r) \<in> entries f2 \<or> (d, s, r) = (newdir, newname, p)) \<or>
       r3 = -1 \<and> namespace f3 = namespace f2" by auto
  have k3: "kept f f3" by (rule kept_trans[OF kept_trans[OF f1(3) f2(3)] f3(3)])
  show ?thesis
  proof (cases "r3 = -1")
    case True
    with look f1(1) f2(1) f3 k3 others show ?thesis by (auto simp: exchange_node_def)
  next
    case False
    with f3(4) have N: "r3 = 0" "namespace f3 = insert (newdir, newname, i) (namespace f2)"
      "\<forall>d s r. (d, s, r) \<in> entries f3 \<longrightarrow> (d, s, r) \<in> entries f2 \<or> (d, s, r) = (newdir, newname, p)" by auto
    obtain m3 where m3: "f_nodes f3 q = Some m3" "n_nodeid m3 = j" "n_nlookup m3 \<noteq> 0"
      using keptD[OF k3 q(2,4)] q(3) by auto
    have par3: "n_parent m3 = None" using unlinked_no_entry[OF f3(2) m3(1)] N(3) f2(5) pq by blast
    have gone3: "(olddir, oldname, r) \<notin> entries f3" for r using N(3) gone(2) diff by blast
    from link_top[OF f3(2) m3(1) par3 _ m3(3) kept_known[OF f3(3) known(2)] gone3] m3(2) rt obtain r4 f4 where
      f4: "hash_name f3 q olddir oldname = Some (r4, f4)" "tree_ok f4" "kept f3 f4"
        "r4 = 0 \<and> namespace f4 = insert (olddir, oldname, j) (namespace f3) \<or> r4 = -1 \<and> namespace f4 = namespace f3"
      by auto
    have "exchange_node f olddir oldname newdir newname = (if r4 = -1 then Some (- ENOMEM, f4) else Some (0, f4))"
      using look f1(1) f2(1) f3(1) f4(1) N(1) by (simp add: exchange_node_def)
    with f4 N(2) kept_trans[OF k3 f4(3)] show ?thesis unfolding Let_def others[symmetric]
      by (cases "r4 = -1") auto
  qed
qed

section \<open>A small tree, for the witnesses\<close>

definition boot_conf :: fuse_config where
  "boot_conf = \<lparr>c_uid = 0, c_gid = 0, c_umask = 0, c_entry_timeout = 1, c_negative_timeout = 0,
     c_attr_timeout = 1, c_ac_attr_timeout = 1, c_ac_attr_timeout_set = 0, c_remember = 0, c_nopath = False,
     c_debug = False, c_hard_remove = False, c_use_ino = False, c_readdir_ino = False, c_set_mode = False,
     c_set_uid = False, c_set_gid = False, c_direct_io = False, c_kernel_cache = False, c_auto_cache = False,
     c_intr = False, c_intr_signal = 10, c_show_help = False, c_modules = None\<rparr>"

definition boot_page :: "addr list" where
  "boot_page = slab_nodes boot_slabs 0x10000"

definition boot_after :: "nat \<Rightarrow> slabs" where
  "boot_after k = boot_slabs\<lparr>sb_pages := [], sb_partial :=
     [\<lparr>sl_base = 0x10000, sl_free = drop k boot_page, sl_used = int k\<rparr>]\<rparr>"

lemma boot_page_length: "length boot_page = 26"
  by (simp add: boot_page_def slab_nodes_def slab_num_def boot_slabs_def get_node_size_def
      sizeof_node_def sizeof_node_slab_def)

lemma boot_alloc:
  "slab_alloc boot_slabs = Some (Some (boot_page ! 0), boot_after 1)"
  "k < 25 \<Longrightarrow> slab_alloc (boot_after k) = Some (Some (boot_page ! k), boot_after (Suc k))"
proof -
  have drop: "drop k boot_page = boot_page ! k # drop (Suc k) boot_page" "drop (Suc k) boot_page \<noteq> []" if "k < 25" for k
    using that boot_page_length by (simp_all add: Cons_nth_drop_Suc)
  have step: "slab_alloc (boot_after k) = Some (Some (boot_page ! k), boot_after (Suc k))" if "k < 25" for k
    using drop[OF that] by (simp add: slab_alloc_def boot_after_def take_node_def Let_def)
  then show "k < 25 \<Longrightarrow> slab_alloc (boot_after k) = Some (Some (boot_page ! k), boot_after (Suc k))" .
  have "slab_alloc boot_slabs = slab_alloc (boot_after 0)"
    by (simp add: slab_alloc_def alloc_slab_def boot_after_def boot_slabs_def
        boot_page_def[unfolded boot_slabs_def])
  then show "slab_alloc boot_slabs = Some (Some (boot_page ! 0), boot_after 1)"
    using step[of 0] by simp
qed

lemma boot_tree:
  "\<exists>f. new_tree boot_conf boot_slabs [] = Some (Some f) \<and> f_slabs f = boot_after 1 \<and> f_mem f = []"
  by (simp add: new_tree_def node_table_init_def boot_alloc(1) hash_id_def inc_nlookup_def upd_def
      table_add_def table_insert_def Let_def NODE_TABLE_MIN_SIZE_def split: prod.splits)

lemma boot_id_free:
  assumes ok: "tree_ok f" and slabs: "f_slabs f = boot_after k"
  shows "\<exists>t. id_free f t"
proof -
  have inv: "tree_inv (\<lambda>_. 0) {} {} f" using ok by (simp add: tree_ok_def)
  have "dom (f_nodes f) \<subseteq> set boot_page"
    using tree_invD(3)[OF inv] slabs
    by (auto simp: live_def live_in_def boot_after_def boot_slabs_def boot_page_def slab_nodes_def slab_num_def Let_def)
  then have "card (dom (f_nodes f)) \<le> card (set boot_page)" by (rule card_mono[OF List.finite_set])
  also have "\<dots> \<le> 26" using card_length[of boot_page] boot_page_length by simp
  finally have "card (dom (f_nodes f)) \<le> 26" .
  moreover define ids where "ids = (\<lambda>p. n_nodeid (the (f_nodes f p))) ` dom (f_nodes f)"
  moreover have fin: "finite (dom (f_nodes f))" by (rule heap_okD(1)[OF tree_invD(1)[OF inv]])
  ultimately have "card ids \<le> 26" using card_image_le[of "dom (f_nodes f)"] le_trans by blast
  moreover have "card ((of_nat :: nat \<Rightarrow> fuse_ino_t) ` {2..<30}) = 28"
  proof -
    have "inj_on (of_nat :: nat \<Rightarrow> fuse_ino_t) {2..<30}"
      by (rule inj_onI) (auto simp: word_of_nat_eq_iff take_bit_nat_eq_self)
    then show ?thesis by (simp add: card_image)
  qed
  ultimately have "\<not> (of_nat :: nat \<Rightarrow> fuse_ino_t) ` {2..<30} \<subseteq> ids"
    using card_mono[of ids "(of_nat :: nat \<Rightarrow> fuse_ino_t) ` {2..<30}"] fin by (auto simp: ids_def)
  then obtain k where "k \<in> {2..<30}" and nin: "(of_nat k :: fuse_ino_t) \<notin> ids" by blast
  then have k: "2 \<le> k" "k < 30" "(of_nat k :: fuse_ino_t) \<notin> ids" by simp_all
  have u: "unat (of_nat k :: fuse_ino_t) = k" using k by (simp add: unat_of_nat)
  have "get_node f (of_nat k) = None"
  proof (rule ccontr)
    assume "get_node f (of_nat k) \<noteq> None"
    then obtain p n where "f_nodes f p = Some n" "n_nodeid n = of_nat k" using get_node_iff[OF inv] by blast
    then have "of_nat k \<in> ids" unfolding ids_def by (intro image_eqI[of _ _ p]) auto
    with k(3) show False ..
  qed
  moreover have "(of_nat k :: fuse_ino_t) \<noteq> 0" "(of_nat k :: fuse_ino_t) \<noteq> FUSE_UNKNOWN_INO"
    using u k(1,2) by (auto dest: arg_cong[where f = unat])
  ultimately show ?thesis using u k(2) by (intro exI[of _ "of_nat k"]) (simp add: id_free_def get_node_def)
qed

lemma boot_find:
  assumes ok: "tree_ok f" and k: "f_slabs f = boot_after k" "k < 25" and dir: "known f dir"
    and c: "unat (f_ctr f) < 2 ^ 32" and none: "(dir, s) \<notin> (\<lambda>(d, t, p). (d, t)) ` entries f" and len: "length s < 32"
  shows "\<exists>p i f'. find_node f dir (Some s) = Some (Some p, f') \<and> tree_ok f' \<and> f_conf f' = f_conf f \<and>
    (\<forall>i. known f i \<longrightarrow> known f' i) \<and> namespace f' = insert (dir, s, i) (namespace f) \<and>
    f_slabs f' = boot_after (Suc k) \<and> unat (f_ctr f') < 2 ^ 32 \<and> entries f' = insert (dir, s, p) (entries f)"
proof -
  have page: "fresh_page (f_slabs f)" by (simp add: k(1) fresh_page_def boot_after_def)
  obtain t where t: "id_free f t" using boot_id_free[OF ok k(1)] ..
  have "lookup_node f dir s = None" using lookup_entries(2)[OF ok] none by force
  from find_node_fresh[OF ok page dir c t this] obtain r f' where
    r: "find_node f dir (Some s) = Some (r, f')" "tree_ok f'" "f_conf f' = f_conf f" "\<forall>i. known f i \<longrightarrow> known f' i"
      "(case r of
       None \<Rightarrow> namespace f' = namespace f \<and>
         (sb_partial (f_slabs f) = [] \<or> 32 \<le> length s \<and> \<not> fst (malloc (f_mem f)))
     | Some p \<Rightarrow> \<exists>n. f_nodes f' p = Some n \<and> n_nlookup n = (if c_remember (f_conf f) \<noteq> 0 then 2 else 1) \<and>
         id_free f (n_nodeid n) \<and> namespace f' = insert (dir, s, n_nodeid n) (namespace f))"
      "r \<noteq> None \<longrightarrow> slab_alloc (f_slabs f) = Some (r, f_slabs f') \<and> unat (f_ctr f') < 2 ^ 32 \<and>
        entries f' = insert (dir, s, the r) (entries f)" by blast
  have "sb_partial (f_slabs f) \<noteq> []" by (simp add: k(1) boot_after_def)
  with r(5) len obtain p where p: "r = Some p" by (cases r) auto
  with r boot_alloc(2)[OF k(2)] k(1) show ?thesis by auto
qed

lemma boot_root:
  "\<exists>f. tree_ok f \<and> f_slabs f = boot_after 1 \<and> known f 1 \<and> unat (f_ctr f) < 2 ^ 32 \<and> namespace f = {} \<and>
    entries f = {} \<and> c_remember (f_conf f) = 0"
proof -
  obtain f where f: "new_tree boot_conf boot_slabs [] = Some (Some f)" "f_slabs f = boot_after 1"
    using boot_tree by blast
  from new_tree_ok[OF boot_slabs_ok f(1)] f(2) show ?thesis
    by (intro exI[of _ f]) (simp add: boot_conf_def)
qed

lemma entries_looked_up:
  assumes "tree_ok f" "(d, s, i) \<in> namespace f" "c_remember (f_conf f) = 0"
  shows "looked_up f d s"
proof -
  from assms(2) obtain p n where p: "(d, s, p) \<in> entries f" "f_nodes f p = Some n" "n_nlookup n \<noteq> 0"
    by (auto simp: namespace_def)
  show ?thesis unfolding looked_up_def
  proof (intro allI impI)
    fix r x assume "(d, s, r) \<in> entries f \<and> f_nodes f r = Some x"
    with p entry_unique[OF assms(1) p(1), of r]
    show "n_nlookup x \<noteq> 0 \<and> (c_remember (f_conf f) \<noteq> 0 \<longrightarrow> n_nlookup x > 1)" using assms(3) by auto
  qed
qed

lemma boot_one:
  "\<exists>f p i. tree_ok f \<and> f_slabs f = boot_after 2 \<and> known f 1 \<and> unat (f_ctr f) < 2 ^ 32 \<and>
    namespace f = {(1, ''a'', i)} \<and> c_remember (f_conf f) = 0 \<and> entries f = {(1, ''a'', p)}"
proof -
  obtain f where f: "tree_ok f" "f_slabs f = boot_after 1" "known f 1" "unat (f_ctr f) < 2 ^ 32" "namespace f = {}"
    "entries f = {}" "c_remember (f_conf f) = 0" using boot_root by blast
  from boot_find[OF f(1,2) _ f(3,4), of "''a''"] f(5,6) obtain p i f' where
    f': "tree_ok f'" "f_conf f' = f_conf f" "\<forall>i. known f i \<longrightarrow> known f' i" "namespace f' = {(1, ''a'', i)}"
      "f_slabs f' = boot_after (Suc 1)" "unat (f_ctr f') < 2 ^ 32" "entries f' = {(1, ''a'', p)}" by auto
  with f(3,7) show ?thesis by (intro exI[of _ f'] exI[of _ p] exI[of _ i]) (simp add: numeral_2_eq_2)
qed

lemma boot_two:
  "\<exists>f i j. tree_ok f \<and> known f 1 \<and> namespace f = {(1, ''a'', i), (1, ''b'', j)}"
proof -
  obtain f p i where f: "tree_ok f" "f_slabs f = boot_after 2" "known f 1" "unat (f_ctr f) < 2 ^ 32"
    "namespace f = {(1, ''a'', i)}" "entries f = {(1, ''a'', p)}" using boot_one by blast
  from boot_find[OF f(1,2) _ f(3,4), of "''b''"] f(3,5,6) show ?thesis by (auto simp: insert_commute)
qed

text \<open>Witnesses: each property above applies to the trees just built.\<close>

lemma new_tree_correct_witness:
  "\<exists>f. new_tree boot_conf boot_slabs [] = Some (Some f) \<and> tree_ok f \<and> namespace f = {}"
proof -
  obtain f where f: "new_tree boot_conf boot_slabs [] = Some (Some f)" using boot_tree by blast
  with new_tree_correct[OF boot_slabs_ok f] show ?thesis by blast
qed

lemma next_id_correct_witness:
  "\<exists>f i f'. next_id f = Some (i, f') \<and> id_free f i"
proof -
  obtain f where f: "tree_ok f" "f_slabs f = boot_after 1" "unat (f_ctr f) < 2 ^ 32" using boot_root by blast
  obtain t where "id_free f t" using boot_id_free[OF f(1,2)] ..
  from next_id_correct[OF f(3) this] show ?thesis by blast
qed

lemma find_node_correct_witness:
  "\<exists>f p i f' n. find_node f 1 (Some ''a'') = Some (Some p, f') \<and> tree_ok f' \<and> namespace f' = {(1, ''a'', i)} \<and>
    f_nodes f' p = Some n \<and> n_nlookup n = 1"
proof -
  obtain f where f: "tree_ok f" "f_slabs f = boot_after 1" "known f 1" "unat (f_ctr f) < 2 ^ 32" "namespace f = {}"
    "entries f = {}" "c_remember (f_conf f) = 0" using boot_root by blast
  obtain t where t: "id_free f t" using boot_id_free[OF f(1,2)] ..
  have page: "fresh_page (f_slabs f)" by (simp add: f(2) fresh_page_def boot_after_def)
  have part: "sb_partial (f_slabs f) \<noteq> []" by (simp add: f(2) boot_after_def)
  obtain r f' where r: "find_node f 1 (Some ''a'') = Some (r, f')" "tree_ok f'"
    "(case r of
       None \<Rightarrow> namespace f' = namespace f \<and>
         (sb_partial (f_slabs f) = [] \<or> 32 \<le> length ''a'' \<and> \<not> fst (malloc (f_mem f)))
     | Some p \<Rightarrow> \<exists>n. f_nodes f' p = Some n \<and> n_nlookup n \<noteq> 0 \<and>
         (if (1, ''a'', p) \<in> entries f
          then \<exists>m. f_nodes f p = Some m \<and> n_nodeid n = n_nodeid m \<and> n_nlookup n = n_nlookup m + 1
          else id_free f (n_nodeid n) \<and> n_nlookup n = (if c_remember (f_conf f) \<noteq> 0 then 2 else 1)) \<and>
         namespace f' = insert (1, ''a'', n_nodeid n) (namespace f))"
    by (rule exE[OF find_node_correct[OF f(1) page f(3,4) t, of "''a''"]]) (use f(6) in blast)+
  then obtain p n where n: "r = Some p" "f_nodes f' p = Some n" "n_nlookup n = 1" "namespace f' = {(1, ''a'', n_nodeid n)}"
    using part f(5,6,7) by (cases r) auto
  with r(1,2) show ?thesis by (intro exI[of _ f] exI[of _ p] exI[of _ "n_nodeid n"] exI[of _ f'] exI[of _ n]) simp
qed

lemma remove_node_correct_witness:
  "\<exists>f f'. (\<exists>i. (1, ''a'', i) \<in> namespace f) \<and> remove_node f 1 ''a'' = Some f' \<and> tree_ok f' \<and> namespace f' = {}"
proof -
  obtain f i where f: "tree_ok f" "namespace f = {(1, ''a'', i)}" "c_remember (f_conf f) = 0"
    using boot_one by blast
  then have "looked_up f 1 ''a''" using entries_looked_up[of f 1 "''a''" i] by simp
  from remove_node_correct[OF f(1) this] f(2) show ?thesis by auto
qed

lemma rename_node_correct_witness:
  "\<exists>f i res f'. namespace f = {(1, ''a'', i)} \<and> rename_node f 1 ''a'' 1 ''b'' False = Some (res, f') \<and> tree_ok f' \<and>
    (res = 0 \<and> namespace f' = {(1, ''b'', i)} \<or> res = - ENOMEM \<and> namespace f' = {})"
proof -
  obtain f i p where f: "tree_ok f" "known f 1" "namespace f = {(1, ''a'', i)}" "entries f = {(1, ''a'', p)}"
    using boot_one by blast
  have up: "looked_up f 1 ''b''" using f(4) by (simp add: looked_up_def)
  have src: "(1, ''a'', i) \<in> namespace f" using f(3) by simp
  have none: "{(d, s, j). (d, s, j) \<in> namespace f \<and> (d, s) \<noteq> (1, ''a'') \<and> (d, s) \<noteq> (1, ''b'')} = {}"
    using f(3) by auto
  from rename_node_correct[OF f(1) src f(2) up, of False, unfolded none Let_def] f(3) show ?thesis by auto
qed

lemma unlocked_ok:
  assumes ok: "tree_ok f" and p: "f_nodes f p = Some n"
  shows "tree_ok (upd p (\<lambda>n. n\<lparr>n_treelock := 0\<rparr>) f)"
    "namespace (upd p (\<lambda>n. n\<lparr>n_treelock := 0\<rparr>) f) = namespace f"
proof -
  let ?n = "n\<lparr>n_treelock := 0\<rparr>"
  have inv: "tree_inv (\<lambda>_. 0) {} {} f" using ok by (simp add: tree_ok_def)
  note H = tree_invD(1)[OF inv]
  have f: "upd p (\<lambda>n. n\<lparr>n_treelock := 0\<rparr>) f = f\<lparr>f_nodes := (f_nodes f)(p \<mapsto> ?n)\<rparr>" by (rule upd_nodes[OF p])
  have "heap_ok (\<lambda>_. 0) {} {} ((f_nodes f)(p \<mapsto> ?n))"
    by (rule heap_update[OF H p]) (use heap_okD(4)[OF H p] in \<open>auto simp: node_ok_def look_def pinned_def\<close>)
  then show "tree_ok (upd p (\<lambda>n. n\<lparr>n_treelock := 0\<rparr>) f)"
    unfolding f tree_ok_def by (intro tree_update[OF inv p]) simp_all
  have "is_entry ((f_nodes f)(p \<mapsto> ?n)) = is_entry (f_nodes f)" by (rule is_entry_cong) (use p in auto)
  then show "namespace (upd p (\<lambda>n. n\<lparr>n_treelock := 0\<rparr>) f) = namespace f"
    unfolding namespace_def entries_def f using p by auto
qed

lemma forget_node_correct_witness:
  "\<exists>f p n f'. f_nodes f p = Some n \<and> namespace f = {(1, ''a'', n_nodeid n)} \<and>
    forget_node_tail \<lparr>tv_sec = 0, tv_nsec = 0\<rparr> f p (n_nlookup n) = Some f' \<and> tree_ok f' \<and> namespace f' = {}"
proof -
  obtain f0 i where f0: "tree_ok f0" "namespace f0 = {(1, ''a'', i)}" using boot_one by blast
  then have "(1, ''a'', i) \<in> namespace f0" by simp
  then obtain p n where p: "(1, ''a'', p) \<in> entries f0" "f_nodes f0 p = Some n" "n_nodeid n = i" "n_nlookup n \<noteq> 0"
    by (auto simp: namespace_def)
  let ?f = "upd p (\<lambda>n. n\<lparr>n_treelock := 0\<rparr>) f0" and ?n = "n\<lparr>n_treelock := 0\<rparr>"
  note U = unlocked_ok[OF f0(1) p(2)]
  have n: "f_nodes ?f p = Some ?n" using p(2) by (simp add: upd_def)
  have "n_nodeid ?n \<noteq> FUSE_ROOT_ID" using entry_not_root[OF f0(1) p(1,2)] by simp
  from forget_node_correct[OF U(1) n this order_refl, of "\<lparr>tv_sec = 0, tv_nsec = 0\<rparr>"] p(3,4) obtain f' where
    f': "forget_node_tail \<lparr>tv_sec = 0, tv_nsec = 0\<rparr> ?f p (n_nlookup ?n) = Some f'" "tree_ok f'"
      "namespace f' = {(d, s, j) \<in> namespace ?f. j \<noteq> i}" by auto
  have "namespace f' = {}" unfolding f'(3) U(2) f0(2) by auto
  with f' n U(2) f0(2) p(3) show ?thesis by (intro exI[of _ ?f] exI[of _ p] exI[of _ ?n] exI[of _ f']) simp
qed

lemma exchange_node_correct_witness:
  "\<exists>f i j res f'. namespace f = {(1, ''a'', i), (1, ''b'', j)} \<and>
    exchange_node f 1 ''a'' 1 ''b'' = Some (res, f') \<and> tree_ok f' \<and>
    (res = 0 \<longrightarrow> namespace f' = {(1, ''b'', i), (1, ''a'', j)})"
proof -
  obtain f i j where f: "tree_ok f" "known f 1" "namespace f = {(1, ''a'', i), (1, ''b'', j)}"
    using boot_two by blast
  have m: "(1, ''a'', i) \<in> namespace f" "(1, ''b'', j) \<in> namespace f" using f(3) by simp_all
  have none: "{(d, s, k). (d, s, k) \<in> namespace f \<and> (d, s) \<noteq> (1, ''a'') \<and> (d, s) \<noteq> (1, ''b'')} = {}"
    using f(3) by auto
  obtain res f' where r: "exchange_node f 1 ''a'' 1 ''b'' = Some (res, f')" "tree_ok f'"
    "res = 0 \<and> namespace f' = {(1, ''b'', i), (1, ''a'', j)} \<or> res = - ENOMEM"
    using exchange_node_correct[OF f(1) m f(2) f(2), unfolded none Let_def] by auto
  then have "res = 0 \<longrightarrow> namespace f' = {(1, ''b'', i), (1, ''a'', j)}" by auto
  with r f(3) show ?thesis
    by (intro exI[of _ f] exI[of _ i] exI[of _ j] exI[of _ res] exI[of _ f'] conjI)
qed

end
