(* ===== verification/Path_Lock.thy ===== *)
theory Path_Lock
  imports Node_Refs
begin

text \<open>
  Paths and their locks in src/lib/fuse.c. A request on a node gets its path by walking to the
  root; with \<open>need_lock\<close> every node on the way is read-locked (\<open>treelock\<close> counts up), and the
  entry to be created or removed, if it exists, is write-locked (\<open>TREELOCK_WRITE\<close>). A request
  that meets a conflicting lock queues up (\<open>struct lock_queue_element\<close>) and is served when locks
  are released. What other threads do while a request waits in \<open>pthread_cond_wait\<close> is the
  parameter \<open>env\<close>: the k-th wait turns the state into \<open>env k f\<close>; wakeups may be spurious.
\<close>

abbreviation (input) TREELOCK_WRITE :: int where "TREELOCK_WRITE \<equiv> -1"
abbreviation (input) TREELOCK_WAIT_OFFSET :: int where "TREELOCK_WAIT_OFFSET \<equiv> -2147483648"

section \<open>The path buffer\<close>

partial_function (option) grow :: "nat \<Rightarrow> nat \<Rightarrow> nat option" where
  \<comment> \<open>\<open>None\<close>: the length does not fit in 32 bits, the loop does not end\<close>
  "grow newbufsize need =
     (if newbufsize < need then
        (if newbufsize \<ge> 0x80000000 then grow 0xffffffff need else grow (newbufsize * 2) need)
      else Some newbufsize)"

definition add_name :: "nat \<Rightarrow> string \<Rightarrow> string \<Rightarrow> mem \<Rightarrow> ((nat \<times> string) option \<times> mem) option" where
  \<comment> \<open>\<open>s\<close> is the path at the end of the buffer; result: buffer size and path, or NULL\<close>
  "add_name bufsize s name m =
     (let len = length name; pathlen = length s + 1 in
      if bufsize - pathlen \<le> len then do {
        newbufsize \<leftarrow> grow bufsize (pathlen + len + 1);
        let (ok, m) = malloc m;
        Some (if ok then Some (newbufsize, CHR ''/'' # name @ s) else None, m)
      } else Some (Some (bufsize, CHR ''/'' # name @ s), m))"

section \<open>Locking and unlocking a path\<close>

partial_function (option) unlock_walk :: "fuse \<Rightarrow> addr option \<Rightarrow> addr option \<Rightarrow> fuse option" where
  "unlock_walk f node fin =
     (if node = fin then Some f
      else do {
        p \<leftarrow> node;
        n \<leftarrow> f_nodes f p;
        if n_nodeid n = FUSE_ROOT_ID then Some f
        else if n_treelock n \<noteq> 0 \<and> n_treelock n \<noteq> TREELOCK_WAIT_OFFSET \<and> n_treelock n \<noteq> TREELOCK_WRITE then
          unlock_walk
            (upd p (\<lambda>n. n\<lparr>n_treelock := (if n_treelock n - 1 = TREELOCK_WAIT_OFFSET then 0 else n_treelock n - 1)\<rparr>) f)
            (n_parent n) fin
        else None
      })"

definition unlock_path :: "fuse \<Rightarrow> fuse_ino_t \<Rightarrow> addr option \<Rightarrow> addr option \<Rightarrow> fuse option" where
  "unlock_path f nodeid wnode fin = do {
     f \<leftarrow> (case wnode of
            None \<Rightarrow> Some f
          | Some w \<Rightarrow> do {
              n \<leftarrow> f_nodes f w;
              if n_treelock n = TREELOCK_WRITE then Some (upd w (\<lambda>n. n\<lparr>n_treelock := 0\<rparr>) f) else None });
     p \<leftarrow> get_node f nodeid;
     unlock_walk f (Some p) fin
   }"

partial_function (option) path_walk :: "fuse \<Rightarrow> addr \<Rightarrow> bool \<Rightarrow> nat \<Rightarrow> string \<Rightarrow> (int \<times> addr \<times> string \<times> fuse) option" where
  \<comment> \<open>error or 0, the node reached, the path so far\<close>
  "path_walk f p need_lock bufsize s = do {
     n \<leftarrow> f_nodes f p;
     if n_nodeid n = FUSE_ROOT_ID then Some (0, p, s, f)
     else case n_name n of
       None \<Rightarrow> Some (- ENOENT, p, s, f)
     | Some name \<Rightarrow>
         (case n_parent n of
            None \<Rightarrow> Some (- ENOENT, p, s, f)
          | Some q \<Rightarrow> do {
              (r, m) \<leftarrow> add_name bufsize s name (f_mem f);
              (case r of
                 None \<Rightarrow> Some (- ENOMEM, p, s, f\<lparr>f_mem := m\<rparr>)
               | Some (bufsize', s') \<Rightarrow>
                   if need_lock then
                     if n_treelock n < 0 then Some (- EAGAIN, p, s', f\<lparr>f_mem := m\<rparr>)
                     else path_walk (upd p (\<lambda>n. n\<lparr>n_treelock := n_treelock n + 1\<rparr>) (f\<lparr>f_mem := m\<rparr>)) q need_lock bufsize' s'
                   else path_walk (f\<lparr>f_mem := m\<rparr>) q need_lock bufsize' s') })
   }"

definition lock_wnode :: "fuse \<Rightarrow> fuse_ino_t \<Rightarrow> string option \<Rightarrow> (int \<times> addr option \<times> fuse) option" where
  \<comment> \<open>the part of \<open>try_get_path\<close> under \<open>if (wnodep)\<close>\<close>
  "lock_wnode f nodeid name = do {
     s \<leftarrow> name;
     (case lookup_node f nodeid s of
        None \<Rightarrow> Some (0, None, f)
      | Some w \<Rightarrow> do {
          n \<leftarrow> f_nodes f w;
          if n_treelock n \<noteq> 0 then
            Some (- EAGAIN, None,
              if n_treelock n > 0 then upd w (\<lambda>n. n\<lparr>n_treelock := n_treelock n + TREELOCK_WAIT_OFFSET\<rparr>) f else f)
          else Some (0, Some w, upd w (\<lambda>n. n\<lparr>n_treelock := TREELOCK_WRITE\<rparr>) f) })
   }"

definition try_get_path ::
  "fuse \<Rightarrow> fuse_ino_t \<Rightarrow> string option \<Rightarrow> bool \<Rightarrow> bool \<Rightarrow> (int \<times> string option \<times> addr option \<times> fuse) option" where
  \<comment> \<open>\<open>wnodep\<close>: whether the caller asks for the write lock; results: error, \<open>*path\<close>, \<open>*wnodep\<close>\<close>
  "try_get_path f nodeid name wnodep need_lock = do {
     let (ok, m) = malloc (f_mem f);
     let f = f\<lparr>f_mem := m\<rparr>;
     if \<not> ok then Some (- ENOMEM, None, None, f)
     else do {
       (r, m) \<leftarrow> (case name of None \<Rightarrow> Some (Some (256, []), f_mem f) | Some s \<Rightarrow> add_name 256 [] s (f_mem f));
       let f = f\<lparr>f_mem := m\<rparr>;
       (case r of
          None \<Rightarrow> Some (- ENOMEM, None, None, f)
        | Some (bufsize, s) \<Rightarrow> do {
            (err, wnode, f) \<leftarrow>
              (if wnodep then if need_lock then lock_wnode f nodeid name else None else Some (0, None, f));
            if err \<noteq> 0 then Some (err, None, None, f)
            else do {
              p \<leftarrow> get_node f nodeid;
              (err, node, s, f) \<leftarrow> path_walk f p need_lock bufsize s;
              if err \<noteq> 0 then do {
                f \<leftarrow> (if need_lock then unlock_path f nodeid wnode (Some node) else Some f);
                Some (err, None, None, f)
              } else Some (0, Some (if s \<noteq> [] then s else ''/''), wnode, f)
            } })
     }
   }"

section \<open>The queue of waiting requests\<close>

definition queue_element_unlock :: "fuse \<Rightarrow> lock_queue_element \<Rightarrow> (fuse \<times> lock_queue_element) option" where
  "queue_element_unlock f qe = do {
     (f, qe) \<leftarrow> (if q_first_locked qe then do {
         f \<leftarrow> unlock_path f (q_nodeid1 qe) (if q_wr1 qe then q_wnode1 qe else None) None;
         Some (f, qe\<lparr>q_first_locked := False\<rparr>)
       } else Some (f, qe));
     if q_second_locked qe then do {
       f \<leftarrow> unlock_path f (q_nodeid2 qe) (if q_wr2 qe then q_wnode2 qe else None) None;
       Some (f, qe\<lparr>q_second_locked := False\<rparr>)
     } else Some (f, qe)
   }"

definition try_first :: "fuse \<Rightarrow> lock_queue_element \<Rightarrow> (int \<times> fuse \<times> lock_queue_element) option" where
  "try_first f qe = do {
     (err, path, w, f) \<leftarrow> try_get_path f (q_nodeid1 qe) (q_name1 qe) (q_wr1 qe) True;
     Some (err, f, if err = 0 then qe\<lparr>q_respath1 := path, q_wnode1 := w, q_first_locked := True\<rparr>
                   else qe\<lparr>q_respath1 := None\<rparr>)
   }"

definition try_second :: "fuse \<Rightarrow> lock_queue_element \<Rightarrow> (int \<times> fuse \<times> lock_queue_element) option" where
  "try_second f qe = do {
     (err, path, w, f) \<leftarrow> try_get_path f (q_nodeid2 qe) (q_name2 qe) (q_wr2 qe) True;
     Some (err, f, if err = 0 then qe\<lparr>q_respath2 := path, q_wnode2 := w, q_second_locked := True\<rparr>
                   else qe\<lparr>q_respath2 := None\<rparr>)
   }"

definition queue_element_wakeup :: "fuse \<Rightarrow> bool \<Rightarrow> lock_queue_element \<Rightarrow> (fuse \<times> lock_queue_element) option" where
  \<comment> \<open>\<open>first\<close>: the element is the head of the queue\<close>
  "queue_element_wakeup f first qe =
     (if \<not> q_path1 qe then do { _ \<leftarrow> get_node f (q_nodeid1 qe); Some (f, qe) }
      else do {
        (err, f, qe) \<leftarrow> (if \<not> q_first_locked qe then try_first f qe else Some (0, f, qe));
        if err \<noteq> 0 \<and> err \<noteq> - EAGAIN then do {
          (f, qe) \<leftarrow> queue_element_unlock f qe;
          Some (f, qe\<lparr>q_err := err, q_done := True\<rparr>)
        } else do {
          (err, f, qe) \<leftarrow> (if \<not> q_second_locked qe \<and> q_path2 qe then try_second f qe else Some (0, f, qe));
          if err \<noteq> 0 \<and> err \<noteq> - EAGAIN then do {
            (f, qe) \<leftarrow> queue_element_unlock f qe;
            Some (f, qe\<lparr>q_err := err, q_done := True\<rparr>)
          } else if q_first_locked qe \<and> (q_second_locked qe \<or> \<not> q_path2 qe) then
            Some (f, qe\<lparr>q_err := 0, q_done := True\<rparr>)
          else if \<not> first then queue_element_unlock f qe
          else Some (f, qe)
        }
      })"

fun wake_loop :: "fuse \<Rightarrow> bool \<Rightarrow> lock_queue_element list \<Rightarrow> (fuse \<times> lock_queue_element list) option" where
  "wake_loop f first [] = Some (f, [])"
| "wake_loop f first (qe # qs) = do {
     (f, qe) \<leftarrow> queue_element_wakeup f first qe;
     (f, qs) \<leftarrow> wake_loop f False qs;
     Some (f, qe # qs)
   }"

definition wake_up_queued :: "fuse \<Rightarrow> fuse option" where
  "wake_up_queued f = do { (f, qs) \<leftarrow> wake_loop f True (f_lockq f); Some (f\<lparr>f_lockq := qs\<rparr>) }"

definition queue_path :: "fuse \<Rightarrow> lock_queue_element \<Rightarrow> fuse" where
  "queue_path f qe = f\<lparr>f_lockq := f_lockq f @ [qe\<lparr>q_done := False, q_first_locked := False, q_second_locked := False\<rparr>]\<rparr>"

definition dequeue_path :: "fuse \<Rightarrow> nat \<Rightarrow> fuse" where
  "dequeue_path f i = f\<lparr>f_lockq := filter (\<lambda>qe. q_id qe \<noteq> i) (f_lockq f)\<rparr>"

definition queued :: "fuse \<Rightarrow> nat \<Rightarrow> lock_queue_element option" where
  "queued f i = List.find (\<lambda>qe. q_id qe = i) (f_lockq f)"

section \<open>Waiting\<close>

type_synonym env = "nat \<Rightarrow> fuse \<Rightarrow> fuse"

partial_function (option) wait_loop :: "env \<Rightarrow> nat \<Rightarrow> nat \<Rightarrow> fuse \<Rightarrow> (lock_queue_element \<times> fuse) option" where
  \<comment> \<open>\<open>None\<close>: nobody ever completes the request\<close>
  "wait_loop env k i f = do {
     qe \<leftarrow> queued (env k f) i;
     if q_done qe then Some (qe, env k f) else wait_loop env (Suc k) i (env k f)
   }"

definition wait_path :: "env \<Rightarrow> fuse \<Rightarrow> lock_queue_element \<Rightarrow> (lock_queue_element \<times> fuse) option" where
  "wait_path env f qe = do {
     (qe', f) \<leftarrow> wait_loop env 0 (q_id qe) (queue_path f qe);
     Some (qe', dequeue_path f (q_id qe))
   }"

definition lock_request :: "nat \<Rightarrow> fuse_ino_t \<Rightarrow> string option \<Rightarrow> bool \<Rightarrow> lock_queue_element" where
  "lock_request i nodeid name wr = \<lparr>q_id = i, q_nodeid1 = nodeid, q_name1 = name, q_path1 = True, q_wr1 = wr,
     q_respath1 = None, q_wnode1 = None, q_nodeid2 = 0, q_name2 = None, q_path2 = False, q_wr2 = False,
     q_respath2 = None, q_wnode2 = None, q_err = 0, q_first_locked = False, q_second_locked = False, q_done = False\<rparr>"

definition get_path_common ::
  "env \<Rightarrow> nat \<Rightarrow> fuse \<Rightarrow> fuse_ino_t \<Rightarrow> string option \<Rightarrow> bool \<Rightarrow> (int \<times> string option \<times> addr option \<times> fuse) option" where
  "get_path_common env i f nodeid name wr = do {
     (err, path, w, f) \<leftarrow> try_get_path f nodeid name wr True;
     if err = - EAGAIN then do {
       (qe, f) \<leftarrow> wait_path env f (lock_request i nodeid name wr);
       Some (q_err qe, q_respath1 qe, q_wnode1 qe, f)
     } else Some (err, path, w, f)
   }"

definition get_path :: "env \<Rightarrow> nat \<Rightarrow> fuse \<Rightarrow> fuse_ino_t \<Rightarrow> (int \<times> string option \<times> fuse) option" where
  "get_path env i f nodeid = do {
     (err, path, _, f) \<leftarrow> get_path_common env i f nodeid None False; Some (err, path, f) }"

definition get_path_nullok :: "env \<Rightarrow> nat \<Rightarrow> fuse \<Rightarrow> fuse_ino_t \<Rightarrow> (int \<times> string option \<times> fuse) option" where
  "get_path_nullok env i f nodeid =
     (if c_nopath (f_conf f) then Some (0, None, f)
      else do {
        (err, path, _, f) \<leftarrow> get_path_common env i f nodeid None False;
        Some (if err = - ENOENT then 0 else err, path, f) })"

definition get_path_name ::
  "env \<Rightarrow> nat \<Rightarrow> fuse \<Rightarrow> fuse_ino_t \<Rightarrow> string option \<Rightarrow> (int \<times> string option \<times> fuse) option" where
  "get_path_name env i f nodeid name = do {
     (err, path, _, f) \<leftarrow> get_path_common env i f nodeid name False; Some (err, path, f) }"

definition get_path_wrlock ::
  "env \<Rightarrow> nat \<Rightarrow> fuse \<Rightarrow> fuse_ino_t \<Rightarrow> string \<Rightarrow> (int \<times> string option \<times> addr option \<times> fuse) option" where
  "get_path_wrlock env i f nodeid name = get_path_common env i f nodeid (Some name) True"

definition try_get_path2 ::
  "fuse \<Rightarrow> fuse_ino_t \<Rightarrow> string option \<Rightarrow> fuse_ino_t \<Rightarrow> string option \<Rightarrow> bool \<Rightarrow> bool \<Rightarrow>
   (int \<times> string option \<times> string option \<times> addr option \<times> addr option \<times> fuse) option" where
  "try_get_path2 f nodeid1 name1 nodeid2 name2 wr1 wr2 = do {
     (err, path1, w1, f) \<leftarrow> try_get_path f nodeid1 name1 wr1 True;
     if err = 0 then do {
       (err, path2, w2, f) \<leftarrow> try_get_path f nodeid2 name2 wr2 True;
       if err \<noteq> 0 then do {
         f \<leftarrow> unlock_path f nodeid1 (if wr1 then w1 else None) None;
         Some (err, None, path2, w1, w2, f)
       } else Some (0, path1, path2, w1, w2, f)
     } else Some (err, path1, None, w1, None, f)
   }"

definition get_path2 ::
  "env \<Rightarrow> nat \<Rightarrow> fuse \<Rightarrow> fuse_ino_t \<Rightarrow> string option \<Rightarrow> fuse_ino_t \<Rightarrow> string option \<Rightarrow> bool \<Rightarrow> bool \<Rightarrow>
   (int \<times> string option \<times> string option \<times> addr option \<times> addr option \<times> fuse) option" where
  "get_path2 env i f nodeid1 name1 nodeid2 name2 wr1 wr2 = do {
     (err, path1, path2, w1, w2, f) \<leftarrow> try_get_path2 f nodeid1 name1 nodeid2 name2 wr1 wr2;
     if err = - EAGAIN then do {
       (qe, f) \<leftarrow> wait_path env f ((lock_request i nodeid1 name1 wr1)
         \<lparr>q_nodeid2 := nodeid2, q_name2 := name2, q_path2 := True, q_wr2 := wr2\<rparr>);
       Some (q_err qe, q_respath1 qe, q_respath2 qe, q_wnode1 qe, q_wnode2 qe, f)
     } else Some (err, path1, path2, w1, w2, f)
   }"

definition free_path_wrlock :: "fuse \<Rightarrow> fuse_ino_t \<Rightarrow> addr option \<Rightarrow> fuse option" where
  "free_path_wrlock f nodeid wnode = do {
     f \<leftarrow> unlock_path f nodeid wnode None;
     if f_lockq f \<noteq> [] then wake_up_queued f else Some f
   }"

definition free_path :: "fuse \<Rightarrow> fuse_ino_t \<Rightarrow> string option \<Rightarrow> fuse option" where
  "free_path f nodeid path = (if path \<noteq> None then free_path_wrlock f nodeid None else Some f)"

definition free_path2 :: "fuse \<Rightarrow> fuse_ino_t \<Rightarrow> fuse_ino_t \<Rightarrow> addr option \<Rightarrow> addr option \<Rightarrow> fuse option" where
  "free_path2 f nodeid1 nodeid2 wnode1 wnode2 = do {
     f \<leftarrow> unlock_path f nodeid1 wnode1 None;
     f \<leftarrow> unlock_path f nodeid2 wnode2 None;
     wake_up_queued f
   }"

definition node_busy :: "fuse \<Rightarrow> addr \<Rightarrow> 64 word \<Rightarrow> bool option" where
  "node_busy f p nlookup = do { n \<leftarrow> f_nodes f p; Some (n_nlookup n = nlookup \<and> n_treelock n \<noteq> 0) }"

partial_function (option) forget_wait :: "env \<Rightarrow> nat \<Rightarrow> fuse \<Rightarrow> addr \<Rightarrow> 64 word \<Rightarrow> (nat \<times> fuse) option" where
  \<comment> \<open>the inner \<open>do ... while\<close> of \<open>forget_node\<close>\<close>
  "forget_wait env k f p nlookup = do {
     b \<leftarrow> node_busy (env k f) p nlookup;
     if b then forget_wait env (Suc k) (env k f) p nlookup else Some (Suc k, env k f)
   }"

definition forget_ready :: "env \<Rightarrow> nat \<Rightarrow> fuse \<Rightarrow> fuse_ino_t \<Rightarrow> 64 word \<Rightarrow> (addr \<times> fuse) option" where
  \<comment> \<open>\<open>forget_node\<close> up to the end of its wait for a locked node\<close>
  "forget_ready env i f nodeid nlookup = do {
     p \<leftarrow> get_node f nodeid;
     b \<leftarrow> node_busy f p nlookup;
     f \<leftarrow> (if b then do {
            (_, f) \<leftarrow> forget_wait env 0
              (queue_path f ((lock_request i nodeid None False)\<lparr>q_path1 := False\<rparr>)) p nlookup;
            Some (dequeue_path f i)
          } else Some f);
     Some (p, f)
   }"

section \<open>Bounds of the path buffer\<close>

lemma grow_ok:
  assumes "need \<le> 0xffffffff" and "0 < n" and "n \<le> 0xffffffff"
  shows "\<exists>n'. grow n need = Some n' \<and> need \<le> n' \<and> n \<le> n' \<and> n' \<le> 0xffffffff"
  using assms
proof (induction "0xffffffff - n" arbitrary: n rule: less_induct)
  case less
  show ?case
  proof (cases "n < need")
    case False
    then show ?thesis using less.prems by (subst grow.simps) simp
  next
    case True
    let ?n = "if n \<ge> 0x80000000 then 0xffffffff else n * 2"
    have step: "grow n need = grow ?n need" using True by (subst grow.simps) simp
    have bounds: "0 < ?n" "?n \<le> 0xffffffff" "n < ?n" using less.prems True by auto
    then have "0xffffffff - ?n < 0xffffffff - n" using less.prems True by linarith
    from less.hyps[OF this less.prems(1) bounds(1,2)] step bounds show ?thesis by auto
  qed
qed

lemma add_name_ok:
  assumes "length s + 1 \<le> bufsize" and "0 < bufsize" and "bufsize \<le> 0xffffffff"
    and "length s + length name + 2 \<le> 0xffffffff"
  shows "\<exists>r m'. add_name bufsize s name m = Some (r, m') \<and>
    (case r of None \<Rightarrow> \<not> fst (malloc m)
     | Some (bufsize', s') \<Rightarrow> s' = ''/'' @ name @ s \<and> length s' + 1 \<le> bufsize' \<and>
         bufsize \<le> bufsize' \<and> bufsize' \<le> 0xffffffff)"
proof (cases "bufsize - (length s + 1) \<le> length name")
  case False
  then show ?thesis using assms by (simp add: add_name_def Let_def)
next
  case True
  obtain n where n: "grow bufsize (length s + 1 + length name + 1) = Some n"
    "length s + 1 + length name + 1 \<le> n" "bufsize \<le> n" "n \<le> 0xffffffff"
    using grow_ok[of "length s + 1 + length name + 1" bufsize] assms by auto
  obtain ok m' where m: "malloc m = (ok, m')" by fastforce
  have "add_name bufsize s name m = Some (if ok then Some (n, CHR ''/'' # name @ s) else None, m')"
    using True n(1) m by (simp add: add_name_def Let_def)
  then show ?thesis using n(2-4) m by (cases ok) auto
qed

lemma add_name_mem:
  assumes "add_name b s name m = Some (r, m')" "no_oom m"
  shows "no_oom m'"
proof -
  obtain ok m1 where m1: "malloc m = (ok, m1)" by fastforce
  then have "no_oom m1" using malloc_keeps_no_oom[OF assms(2)] by simp
  then show ?thesis using assms m1
    by (cases "grow b (length s + 1 + length name + 1)") (auto simp: add_name_def Let_def split: if_splits)
qed

text \<open>
  Adding a component to the path puts "/" and the component in front, and the path
  with its terminator always fits the buffer: \<open>add_name\<close> writes inside it, growing it when needed,
  for every path a 32-bit length can hold; the only failure is NULL when memory runs out.
\<close>

theorem add_name_fits:
  assumes "length s + 1 \<le> bufsize" and "0 < bufsize" and "bufsize \<le> 0xffffffff"
    and "length s + length name + 2 \<le> 0xffffffff"
  shows "\<exists>r m'. add_name bufsize s name m = Some (r, m') \<and>
    (case r of None \<Rightarrow> \<not> fst (malloc m)
     | Some (bufsize', s') \<Rightarrow> s' = ''/'' @ name @ s \<and> length s' + 1 \<le> bufsize' \<and>
         bufsize \<le> bufsize' \<and> bufsize' \<le> 0xffffffff)"
  by (rule add_name_ok[OF assms])

lemma add_name_fits_witness:
  "\<exists>r m'. add_name 4 ''/b'' ''aa'' [] = Some (r, m') \<and> r = Some (8, ''/aa/b'')"
proof -
  have g: "grow 4 (Suc (Suc (Suc (Suc (Suc (Suc 0)))))) = Some 8"
    by (subst grow.simps, simp, subst grow.simps, simp)
  obtain r m' where r: "add_name 4 ''/b'' ''aa'' [] = Some (r, m')"
    "(case r of None \<Rightarrow> \<not> fst (malloc [])
     | Some (bufsize', s') \<Rightarrow> s' = ''/'' @ ''aa'' @ ''/b'' \<and> length s' + 1 \<le> bufsize' \<and>
         (4::nat) \<le> bufsize' \<and> bufsize' \<le> 0xffffffff)"
    using add_name_fits[of "''/b''" 4 "''aa''" "[]"] by auto
  moreover from r(1) g have "map_option fst r = Some 8" by (auto simp: add_name_def)
  ultimately show ?thesis by (cases r) auto
qed

end
