(* ===== verification/Path_Lock_Props.thy ===== *)
theory Path_Lock_Props
  imports Path_Lock
begin

text \<open>
  What \<open>try_get_path\<close> and \<open>unlock_path\<close> promise: the path is the names from the root down, the lock
  counts of exactly the nodes on the way change, a failed attempt takes everything back, and
  unlocking undoes a successful one.
\<close>

section \<open>Chains to the root\<close>

inductive chain :: "heap \<Rightarrow> addr \<Rightarrow> (addr \<times> string) list \<Rightarrow> bool" for h where
  chain_root: "h p = Some n \<Longrightarrow> n_nodeid n = FUSE_ROOT_ID \<Longrightarrow> chain h p []"
| chain_step: "h p = Some n \<Longrightarrow> n_nodeid n \<noteq> FUSE_ROOT_ID \<Longrightarrow> n_name n = Some s \<Longrightarrow> n_parent n = Some q \<Longrightarrow>
    chain h q c \<Longrightarrow> chain h p ((p, s) # c)"

inductive_cases chain_NilE: "chain h p []"
inductive_cases chain_ConsE: "chain h p (x # c)"

definition path_str :: "(addr \<times> string) list \<Rightarrow> string" where
  "path_str c = concat (map (\<lambda>(p, s). CHR ''/'' # s) (rev c))"

definition locked_by :: "int \<Rightarrow> addr set \<Rightarrow> heap \<Rightarrow> heap" where
  \<comment> \<open>the lock counts of the nodes in \<open>A\<close> changed by \<open>k\<close>\<close>
  "locked_by k A h = (\<lambda>p. if p \<in> A then map_option (\<lambda>n. n\<lparr>n_treelock := n_treelock n + k\<rparr>) (h p) else h p)"

definition tl_at :: "heap \<Rightarrow> addr \<Rightarrow> int" where
  "tl_at h p = (case h p of Some n \<Rightarrow> n_treelock n | None \<Rightarrow> 0)"

definition shape :: "heap \<Rightarrow> addr \<Rightarrow> (fuse_ino_t \<times> string option \<times> addr option) option" where
  "shape h p = map_option (\<lambda>n. (n_nodeid n, n_name n, n_parent n)) (h p)"

abbreviation on_chain :: "(addr \<times> string) list \<Rightarrow> addr set" where
  "on_chain c \<equiv> fst ` set c"

lemma shape_lock [simp]: "shape (locked_by k A h) = shape h"
  by (auto simp: fun_eq_iff shape_def locked_by_def option.map_comp o_def)

lemma locked_by_empty [simp]: "locked_by k {} h = h"
  by (simp add: locked_by_def)

lemma locked_by_insert:
  assumes "h p = Some n" "p \<notin> A"
  shows "locked_by k A (h(p \<mapsto> n\<lparr>n_treelock := n_treelock n + k\<rparr>)) = locked_by k (insert p A) h"
  using assms by (auto simp: fun_eq_iff locked_by_def)

lemma chain_shape:
  assumes "chain h p c" "shape h' = shape h"
  shows "chain h' p c"
  using assms(1)
proof (induction rule: chain.induct)
  case (chain_root p n)
  have "shape h' p = shape h p" using assms(2) by simp
  then have "shape h' p = Some (FUSE_ROOT_ID, n_name n, n_parent n)" using chain_root by (simp add: shape_def)
  then obtain n' where "h' p = Some n'" "n_nodeid n' = FUSE_ROOT_ID" by (auto simp: shape_def)
  then show ?case by (rule chain.chain_root)
next
  case (chain_step p n s q c)
  have "shape h' p = shape h p" using assms(2) by simp
  then have "shape h' p = Some (n_nodeid n, Some s, Some q)"
    using chain_step.hyps(1-4) by (simp add: shape_def)
  then obtain n' where n': "h' p = Some n'" "n_nodeid n' = n_nodeid n" "n_name n' = Some s" "n_parent n' = Some q"
    by (auto simp: shape_def)
  show ?case
  proof (rule chain.chain_step[OF n'(1) _ n'(3,4) chain_step.IH])
    show "n_nodeid n' \<noteq> FUSE_ROOT_ID" using n'(2) chain_step.hyps(2) by simp
  qed
qed

lemma chain_unique: "chain h p c \<Longrightarrow> chain h p d \<Longrightarrow> c = d"
proof (induction arbitrary: d rule: chain.induct)
  case (chain_root p n)
  from chain_root.prems show ?case by (cases rule: chain.cases) (use chain_root.hyps in auto)
next
  case (chain_step p n s q c)
  note IH = chain_step.IH
  from chain_step.prems show ?case
  proof (cases rule: chain.cases)
    case (chain_root n')
    then show ?thesis using chain_step.hyps(1,2) by simp
  next
    case (chain_step n' s' q' c')
    with \<open>h p = Some n\<close> \<open>n_name n = Some s\<close> \<open>n_parent n = Some q\<close> have "s' = s" "chain h q c'" by simp_all
    with IH[of c'] \<open>d = (p, s') # c'\<close> show ?thesis by simp
  qed
qed

lemma chain_suffix: "chain h p (c @ d) \<Longrightarrow> \<exists>r. chain h r d"
proof (induction c arbitrary: p)
  case Nil
  then show ?case by auto
next
  case (Cons x c)
  from Cons.prems have "\<exists>q. chain h q (c @ d)" by (cases rule: chain.cases) auto
  with Cons.IH show ?case by blast
qed

lemma chain_head: "chain h p ((r, s) # c) \<Longrightarrow> p = r"
  by (erule chain_ConsE) simp

lemma chain_notin: "chain h p ((p, s) # c) \<Longrightarrow> p \<notin> on_chain c"
proof
  assume ch: "chain h p ((p, s) # c)" and "p \<in> on_chain c"
  then obtain t c1 c2 where c: "c = c1 @ (p, t) # c2" by (auto dest: split_list)
  then have "chain h p (((p, s) # c1) @ (p, t) # c2)" using ch by simp
  from chain_suffix[OF this] obtain r where "chain h r ((p, t) # c2)" by blast
  moreover from this have "r = p" by (rule chain_head)
  ultimately have "chain h p ((p, t) # c2)" by simp
  from chain_unique[OF ch this] have "length c = length c2" by simp
  then show False using c by simp
qed

lemma path_str_Cons: "path_str ((p, s) # c) = path_str c @ ''/'' @ s"
  by (simp add: path_str_def)

section \<open>Walking up\<close>

definition with_locks :: "bool \<Rightarrow> addr set \<Rightarrow> mem \<Rightarrow> fuse \<Rightarrow> fuse" where
  "with_locks nl A m f = f\<lparr>f_nodes := if nl then locked_by 1 A (f_nodes f) else f_nodes f, f_mem := m\<rparr>"

definition walked :: "bool \<Rightarrow> (addr \<times> string) list \<Rightarrow> string \<Rightarrow> fuse \<Rightarrow> int \<times> addr \<times> string \<times> fuse \<Rightarrow> bool" where
  \<comment> \<open>the outcomes of walking the chain \<open>c\<close>: error, node reached, path, state\<close>
  "walked nl c s f = (\<lambda>(err, p', s', f'). \<exists>c1 c2 m. f' = with_locks nl (on_chain c1) m f \<and>
     c = c1 @ c2 \<and> chain (f_nodes f) p' c2 \<and>
     (err = 0 \<longrightarrow> c2 = [] \<and> s' = path_str c @ s) \<and>
     (nl \<longrightarrow> (\<forall>a \<in> on_chain c1. 0 \<le> tl_at (f_nodes f) a)) \<and>
     (err \<noteq> 0 \<longrightarrow> err = - ENOMEM \<and> \<not> no_oom (f_mem f) \<or>
        err = - EAGAIN \<and> nl \<and> (\<exists>a \<in> on_chain c. tl_at (f_nodes f) a < 0)))"

lemma with_locks_compose:
  assumes "p \<notin> A" "f_nodes f p = Some n"
  shows "with_locks nl A m (with_locks nl {p} m' f) = with_locks nl (insert p A) m f"
proof -
  have "locked_by 1 A (locked_by 1 {p} (f_nodes f)) = locked_by 1 (insert p A) (f_nodes f)"
    using assms by (auto simp: fun_eq_iff locked_by_def)
  then show ?thesis by (simp add: with_locks_def)
qed

lemma with_locks_upd:
  assumes "f_nodes f p = Some n"
  shows "upd p (\<lambda>n. n\<lparr>n_treelock := n_treelock n + 1\<rparr>) (f\<lparr>f_mem := m\<rparr>) = with_locks True {p} m f"
proof -
  have "(f_nodes f)(p := map_option (\<lambda>n. n\<lparr>n_treelock := n_treelock n + 1\<rparr>) (f_nodes f p)) =
      locked_by 1 {p} (f_nodes f)"
    by (auto simp: fun_eq_iff locked_by_def)
  then show ?thesis by (simp add: upd_def with_locks_def)
qed

lemma with_locks_shape [simp]: "shape (f_nodes (with_locks nl A m f)) = shape (f_nodes f)"
  by (simp add: with_locks_def)

lemma tl_with_locks: "a \<notin> A \<Longrightarrow> tl_at (f_nodes (with_locks nl A m f)) a = tl_at (f_nodes f) a"
  by (simp add: tl_at_def with_locks_def locked_by_def)

lemma walked_step:
  assumes w: "walked nl c (''/'' @ t @ s) (with_locks nl {p} m f) r"
    and p: "f_nodes f p = Some n" "p \<notin> on_chain c" "nl \<Longrightarrow> 0 \<le> n_treelock n"
    and mem: "no_oom (f_mem f) \<Longrightarrow> no_oom m"
  shows "walked nl ((p, t) # c) s f r"
proof -
  obtain err p' s' f' where r: "r = (err, p', s', f')" by (cases r) auto
  let ?g = "with_locks nl {p} m f"
  from w[unfolded walked_def r prod.case] obtain c1 c2 m2 where W: "f' = with_locks nl (on_chain c1) m2 ?g"
    "c = c1 @ c2" "chain (f_nodes ?g) p' c2" "err = 0 \<longrightarrow> c2 = [] \<and> s' = path_str c @ ''/'' @ t @ s"
    "nl \<longrightarrow> (\<forall>a \<in> on_chain c1. 0 \<le> tl_at (f_nodes ?g) a)"
    "err \<noteq> 0 \<longrightarrow> err = - ENOMEM \<and> \<not> no_oom (f_mem ?g) \<or>
        err = - EAGAIN \<and> nl \<and> (\<exists>a \<in> on_chain c. tl_at (f_nodes ?g) a < 0)" by blast
  have tl: "tl_at (f_nodes ?g) a = tl_at (f_nodes f) a" if "a \<in> on_chain c" for a
    by (rule tl_with_locks) (use that p(2) in auto)
  have "f' = with_locks nl (on_chain ((p, t) # c1)) m2 f"
    using with_locks_compose[of p "on_chain c1" f n nl m2 m] W(1,2) p(1,2) by auto
  moreover have "(p, t) # c = ((p, t) # c1) @ c2" using W(2) by simp
  moreover have "chain (f_nodes f) p' c2" by (rule chain_shape[OF W(3)]) simp
  moreover have "err = 0 \<longrightarrow> c2 = [] \<and> s' = path_str ((p, t) # c) @ s" using W(4) by (simp add: path_str_Cons)
  moreover have "nl \<longrightarrow> (\<forall>a \<in> on_chain ((p, t) # c1). 0 \<le> tl_at (f_nodes f) a)"
  proof (intro impI ballI)
    fix a assume nl: "nl" and a: "a \<in> on_chain ((p, t) # c1)"
    show "0 \<le> tl_at (f_nodes f) a"
    proof (cases "a = p")
      case True
      with p(1) p(3)[OF nl] show ?thesis by (simp add: tl_at_def)
    next
      case False
      with a have "a \<in> on_chain c1" "a \<in> on_chain c" using W(2) by auto
      then have "0 \<le> tl_at (f_nodes ?g) a" using W(5) nl by blast
      then show ?thesis using tl[OF \<open>a \<in> on_chain c\<close>] by simp
    qed
  qed
  moreover have "err \<noteq> 0 \<longrightarrow> err = - ENOMEM \<and> \<not> no_oom (f_mem f) \<or>
      err = - EAGAIN \<and> nl \<and> (\<exists>a \<in> on_chain ((p, t) # c). tl_at (f_nodes f) a < 0)"
    using W(6) tl mem by (auto simp: with_locks_def)
  ultimately show ?thesis unfolding walked_def r prod.case by blast
qed

lemma walked_stop:
  assumes "chain (f_nodes f) p c" and "err = - ENOMEM \<and> \<not> no_oom (f_mem f) \<or>
     err = - EAGAIN \<and> nl \<and> (\<exists>a \<in> on_chain c. tl_at (f_nodes f) a < 0)"
  shows "walked nl c s f (err, p, s', f\<lparr>f_mem := m\<rparr>)"
  using assms unfolding walked_def prod.case
  by (intro exI[of _ "[]"] exI[of _ c] exI[of _ m]) (auto simp: with_locks_def)

lemma path_walk_chain:
  assumes "chain h p c" and "shape (f_nodes f) = shape h"
    and "length s + 1 \<le> b" "b \<le> 0xffffffff" "length s + length (path_str c) + 2 \<le> 0xffffffff"
  shows "\<exists>r. path_walk f p nl b s = Some r \<and> walked nl c s f r"
  using assms
proof (induction arbitrary: f b s rule: chain.induct)
  case (chain_root p n)
  have "shape (f_nodes f) p = shape h p" using chain_root.prems(1) by simp
  then have "shape (f_nodes f) p = Some (FUSE_ROOT_ID, n_name n, n_parent n)"
    using chain_root.hyps by (simp add: shape_def)
  then obtain n' where n': "f_nodes f p = Some n'" "n_nodeid n' = FUSE_ROOT_ID" by (auto simp: shape_def)
  then have "path_walk f p nl b s = Some (0, p, s, f)" by (subst path_walk.simps) simp
  moreover have "walked nl [] s f (0, p, s, f)"
    unfolding walked_def prod.case using chain.chain_root[of "f_nodes f" p, OF n']
    by (intro exI[of _ "[]"] exI[of _ "f_mem f"]) (simp add: with_locks_def path_str_def)
  ultimately show ?case by blast
next
  case (chain_step p n0 t q c)
  have "shape (f_nodes f) p = shape h p" using chain_step.prems(1) by simp
  then have "shape (f_nodes f) p = Some (n_nodeid n0, Some t, Some q)"
    using chain_step.hyps(1-4) by (simp add: shape_def)
  then obtain n where n: "f_nodes f p = Some n" "n_nodeid n \<noteq> FUSE_ROOT_ID" "n_name n = Some t" "n_parent n = Some q"
    using chain_step(2) by (auto simp: shape_def)
  have ch0: "chain h p ((p, t) # c)" using chain.chain_step[OF chain_step(1-5)] .
  have ch: "chain (f_nodes f) p ((p, t) # c)" by (rule chain_shape[OF ch0]) (use chain_step.prems(1) in simp)
  have len: "length (''/'' @ t @ s) + length (path_str c) + 2 \<le> 0xffffffff"
    using chain_step.prems(4) by (simp add: path_str_Cons)
  then have len1: "length s + length t + 2 \<le> 0xffffffff" by simp
  have b0: "0 < b" using chain_step.prems(2) by linarith
  from add_name_ok[OF chain_step.prems(2) b0 chain_step.prems(3) len1, of "f_mem f"] obtain r m where
    r: "add_name b s t (f_mem f) = Some (r, m)"
      "(case r of None \<Rightarrow> \<not> fst (malloc (f_mem f))
       | Some (b', s') \<Rightarrow> s' = ''/'' @ t @ s \<and> length s' + 1 \<le> b' \<and> b \<le> b' \<and> b' \<le> 0xffffffff)" by blast
  note mem = add_name_mem[OF r(1)]
  show ?case
  proof (cases r)
    case None
    then have "path_walk f p nl b s = Some (- ENOMEM, p, s, f\<lparr>f_mem := m\<rparr>)"
      using n r(1) by (subst path_walk.simps) simp
    moreover have "\<not> no_oom (f_mem f)" using r(2) None malloc_no_oom by auto
    ultimately show ?thesis using walked_stop[OF ch] by blast
  next
    case (Some bs)
    then obtain b' where bs: "r = Some (b', ''/'' @ t @ s)" "length (''/'' @ t @ s) + 1 \<le> b'" "b' \<le> 0xffffffff"
      using r(2) by (cases bs) auto
    let ?s = "''/'' @ t @ s"
    have shape: "shape (f_nodes (with_locks nl {p} m f)) = shape h" using chain_step.prems(1) by simp
    from chain_step.IH[OF shape bs(2,3) len] obtain r' where
      r': "path_walk (with_locks nl {p} m f) q nl b' ?s = Some r'" "walked nl c ?s (with_locks nl {p} m f) r'" by blast
    show ?thesis
    proof (cases "nl \<and> n_treelock n < 0")
      case True
      then have "path_walk f p nl b s = Some (- EAGAIN, p, ?s, f\<lparr>f_mem := m\<rparr>)"
        using n r(1) bs by (subst path_walk.simps) simp
      moreover have "\<exists>a \<in> on_chain ((p, t) # c). tl_at (f_nodes f) a < 0"
        using True n(1) by (simp add: tl_at_def)
      ultimately show ?thesis using walked_stop[OF ch] True by blast
    next
      case False
      have "\<not> nl \<Longrightarrow> with_locks nl {p} m f = f\<lparr>f_mem := m\<rparr>" by (simp add: with_locks_def)
      then have "path_walk f p nl b s = path_walk (with_locks nl {p} m f) q nl b' ?s"
        using n r(1) bs False with_locks_upd[OF n(1), of m] by (subst path_walk.simps) (cases nl; simp)
      with r' walked_step[OF r'(2) n(1) chain_notin[OF ch0] _ mem] False show ?thesis by auto
    qed
  qed
qed

section \<open>Unlocking\<close>

definition release :: "addr set \<Rightarrow> heap \<Rightarrow> heap" where
  \<comment> \<open>one read lock less on each node of \<open>A\<close>; the last one ends a writer's wait mark\<close>
  "release A h = (\<lambda>p. if p \<in> A
     then map_option (\<lambda>n. n\<lparr>n_treelock := (if n_treelock n - 1 = TREELOCK_WAIT_OFFSET then 0 else n_treelock n - 1)\<rparr>) (h p)
     else h p)"

definition set_lock :: "int \<Rightarrow> addr option \<Rightarrow> heap \<Rightarrow> heap" where
  "set_lock v w h = (case w of None \<Rightarrow> h | Some x \<Rightarrow> h(x := map_option (\<lambda>n. n\<lparr>n_treelock := v\<rparr>) (h x)))"

lemma release_locked_by:
  assumes "\<And>a. a \<in> A \<Longrightarrow> 0 \<le> tl_at h a"
  shows "release A (locked_by 1 A h) = h"
proof
  fix p show "release A (locked_by 1 A h) p = h p"
    using assms[of p] by (cases "h p") (auto simp: release_def locked_by_def tl_at_def)
qed

lemma release_insert:
  assumes "p \<notin> A"
  shows "release A (release {p} h) = release (insert p A) h"
  using assms by (auto simp: fun_eq_iff release_def)

lemma shape_release [simp]: "shape (release A h) = shape h"
  by (auto simp: fun_eq_iff shape_def release_def option.map_comp o_def)

lemma shape_set_lock [simp]: "shape (set_lock v w h) = shape h"
  by (auto simp: fun_eq_iff shape_def set_lock_def option.map_comp o_def split: option.splits)

lemma shape_some: "shape h' = shape h \<Longrightarrow> h p = Some n \<Longrightarrow>
    \<exists>n'. h' p = Some n' \<and> n_nodeid n' = n_nodeid n \<and> n_name n' = n_name n \<and> n_parent n' = n_parent n"
proof -
  assume "shape h' = shape h" "h p = Some n"
  then have "shape h' p = Some (n_nodeid n, n_name n, n_parent n)" by (simp add: shape_def)
  then show ?thesis by (auto simp: shape_def)
qed

lemma get_node_shape:
  assumes "shape h = shape (f_nodes f)"
  shows "get_node (f\<lparr>f_nodes := h, f_mem := m\<rparr>) i = get_node f i"
proof -
  have "map_option n_nodeid (h p) = map_option n_nodeid (f_nodes f p)" for p
  proof -
    have "shape h p = shape (f_nodes f) p" using assms by simp
    then show ?thesis by (cases "h p"; cases "f_nodes f p") (auto simp: shape_def)
  qed
  then show ?thesis by (simp add: get_node_def get_node_nocheck_def)
qed

lemma mem_nodes_swap: "f\<lparr>f_mem := m, f_nodes := h\<rparr> = f\<lparr>f_nodes := h, f_mem := m\<rparr>"
  by simp

lemma lookup_node_some: "lookup_node f i s = Some w \<Longrightarrow> \<exists>n. f_nodes f w = Some n"
  by (auto simp: lookup_node_def find_Some_iff split: option.splits)

lemma upd_release:
  "upd p (\<lambda>n. n\<lparr>n_treelock := (if n_treelock n - 1 = TREELOCK_WAIT_OFFSET then 0 else n_treelock n - 1)\<rparr>) f =
   f\<lparr>f_nodes := release {p} (f_nodes f)\<rparr>"
  by (rule fuse.equality) (auto simp: fun_eq_iff upd_def release_def)

lemma chain_end_notin:
  assumes "chain h p (c1 @ c2)" "chain h e c2"
  shows "e \<notin> on_chain c1"
proof
  assume "e \<in> on_chain c1"
  then obtain s d1 d2 where c1: "c1 = d1 @ (e, s) # d2" by (auto dest: split_list)
  from chain_suffix[of h p d1 "(e, s) # d2 @ c2"] assms(1) c1 obtain r where r: "chain h r ((e, s) # d2 @ c2)" by auto
  have re: "r = e" by (rule chain_head[OF r])
  have "c2 = (e, s) # d2 @ c2" by (rule chain_unique[OF assms(2) r[unfolded re]])
  then have "length c2 = length ((e, s) # d2 @ c2)" by (rule arg_cong)
  then show False by simp
qed

lemma unlock_walk_chain:
  assumes "chain h p (c1 @ c2)" and "shape (f_nodes f) = shape h"
    and "\<And>a. a \<in> on_chain c1 \<Longrightarrow> tl_at (f_nodes f) a \<notin> {0, TREELOCK_WAIT_OFFSET, TREELOCK_WRITE}"
    and "fin = None \<and> c2 = [] \<or> (\<exists>e. fin = Some e \<and> chain h e c2)"
  shows "unlock_walk f (Some p) fin = Some (f\<lparr>f_nodes := release (on_chain c1) (f_nodes f)\<rparr>)"
  using assms
proof (induction c1 arbitrary: p f)
  case Nil
  have rel: "release {} (f_nodes f) = f_nodes f" by (simp add: release_def)
  show ?case
  proof (cases "fin = Some p")
    case True
    then show ?thesis by (subst unlock_walk.simps) (simp add: rel)
  next
    case False
    have "c2 = []"
    proof (rule ccontr)
      assume "c2 \<noteq> []"
      then obtain r s d where c2: "c2 = (r, s) # d" by (cases c2) auto
      with Nil.prems(4) obtain e where e: "fin = Some e" "chain h e ((r, s) # d)" by auto
      moreover have "chain h p ((r, s) # d)" using Nil.prems(1) c2 by simp
      ultimately have "e = p" using chain_head by metis
      then show False using False e by simp
    qed
    with Nil.prems(1) obtain n where "h p = Some n" "n_nodeid n = FUSE_ROOT_ID" by (auto elim: chain_NilE)
    with shape_some[OF Nil.prems(2)] obtain n' where "f_nodes f p = Some n'" "n_nodeid n' = FUSE_ROOT_ID" by metis
    then show ?thesis using False by (subst unlock_walk.simps) (simp add: rel)
  qed
next
  case (Cons x c1)
  obtain r s where x: "x = (r, s)" by (cases x)
  have ch: "chain h p ((r, s) # c1 @ c2)" using Cons.prems(1) x by simp
  then have r: "r = p" using chain_head by metis
  from ch obtain n q where n: "h p = Some n" "n_nodeid n \<noteq> FUSE_ROOT_ID" "n_parent n = Some q" "chain h q (c1 @ c2)"
    by (auto elim: chain_ConsE)
  with shape_some[OF Cons.prems(2)] obtain n' where n': "f_nodes f p = Some n'" "n_nodeid n' \<noteq> FUSE_ROOT_ID"
    "n_parent n' = Some q" by metis
  have np: "p \<notin> on_chain (c1 @ c2)" using chain_notin ch unfolding r .
  have fin: "fin \<noteq> Some p"
  proof
    assume "fin = Some p"
    with Cons.prems(4) have "chain h p c2" by auto
    from chain_end_notin[OF Cons.prems(1) this] show False using x r by simp
  qed
  have tl: "n_treelock n' \<notin> {0, TREELOCK_WAIT_OFFSET, TREELOCK_WRITE}"
    using Cons.prems(3)[of p] n'(1) x r by (simp add: tl_at_def)
  let ?f = "f\<lparr>f_nodes := release {p} (f_nodes f)\<rparr>"
  have "unlock_walk f (Some p) fin = unlock_walk ?f (Some q) fin"
    using fin n' tl by (subst unlock_walk.simps, unfold upd_release) simp
  also have "\<dots> = Some (?f\<lparr>f_nodes := release (on_chain c1) (f_nodes ?f)\<rparr>)"
  proof (rule Cons.IH[OF n(4)])
    show "shape (f_nodes ?f) = shape h" using Cons.prems(2) by simp
    fix a assume a: "a \<in> on_chain c1"
    then have "a \<noteq> p" using np by auto
    then have "tl_at (f_nodes ?f) a = tl_at (f_nodes f) a" by (simp add: tl_at_def release_def)
    then show "tl_at (f_nodes ?f) a \<notin> {0, TREELOCK_WAIT_OFFSET, TREELOCK_WRITE}" using Cons.prems(3)[of a] a by simp
  qed (rule Cons.prems(4))
  also have "\<dots> = Some (f\<lparr>f_nodes := release (on_chain (x # c1)) (f_nodes f)\<rparr>)"
    using release_insert[of p "on_chain c1" "f_nodes f"] np unfolding x r by (simp add: image_Un)
  finally show ?case .
qed

section \<open>try_get_path\<close>

definition full_path :: "(addr \<times> string) list \<Rightarrow> string option \<Rightarrow> string" where
  "full_path c name =
     (let s = path_str c @ (case name of None \<Rightarrow> [] | Some t \<Rightarrow> ''/'' @ t) in if s \<noteq> [] then s else ''/'')"

definition entry :: "fuse \<Rightarrow> fuse_ino_t \<Rightarrow> string option \<Rightarrow> bool \<Rightarrow> addr option" where
  "entry f nodeid name wr = (if wr then lookup_node f nodeid (the name) else None)"

definition acquire :: "bool \<Rightarrow> (addr \<times> string) list \<Rightarrow> addr option \<Rightarrow> heap \<Rightarrow> heap" where
  "acquire nl c w h = (if nl then locked_by 1 (on_chain c) (set_lock TREELOCK_WRITE w h) else h)"

definition free_for :: "(addr \<times> string) list \<Rightarrow> addr option \<Rightarrow> heap \<Rightarrow> bool" where
  "free_for c w h \<longleftrightarrow> list_all (\<lambda>a. 0 \<le> tl_at h (fst a)) c \<and> (\<forall>x. w = Some x \<longrightarrow> tl_at h x = 0 \<and> x \<notin> on_chain c)"

definition wait_mark :: "addr option \<Rightarrow> heap \<Rightarrow> heap" where
  \<comment> \<open>a read-locked entry is marked as waited for by a writer\<close>
  "wait_mark w h = (case w of None \<Rightarrow> h
     | Some x \<Rightarrow> if tl_at h x > 0 then set_lock (tl_at h x + TREELOCK_WAIT_OFFSET) w h else h)"

definition got_path ::
  "fuse \<Rightarrow> fuse_ino_t \<Rightarrow> string option \<Rightarrow> bool \<Rightarrow> bool \<Rightarrow> (addr \<times> string) list \<Rightarrow> int \<times> string option \<times> addr option \<times> fuse \<Rightarrow> bool" where
  "got_path f nodeid name wr nl c = (\<lambda>(err, path, w, f'). \<exists>h m. f' = f\<lparr>f_nodes := h, f_mem := m\<rparr> \<and>
     (if err = 0
      then path = Some (full_path c name) \<and> w = entry f nodeid name wr \<and>
           h = acquire nl c w (f_nodes f) \<and> (nl \<longrightarrow> free_for c w (f_nodes f))
      else path = None \<and> w = None \<and>
           (h = f_nodes f \<or> err = - EAGAIN \<and> h = wait_mark (entry f nodeid name wr) (f_nodes f)) \<and>
           (err = - ENOMEM \<and> \<not> no_oom (f_mem f) \<or>
            err = - EAGAIN \<and> nl \<and> \<not> free_for c (entry f nodeid name wr) (f_nodes f))))"

lemma lookup_present: "entry f i s wr = Some x \<Longrightarrow> \<exists>n. f_nodes f x = Some n"
  by (auto simp: entry_def dest: lookup_node_some split: if_splits)

lemma lock_wnode_outcome:
  fixes f i s
  defines "w \<equiv> entry f i (Some s) True" and "h \<equiv> f_nodes f"
  shows "lock_wnode f i (Some s) =
    Some (if \<forall>x. w = Some x \<longrightarrow> tl_at h x = 0 then (0, w, f\<lparr>f_nodes := set_lock TREELOCK_WRITE w h\<rparr>)
          else (- EAGAIN, None, f\<lparr>f_nodes := wait_mark w h\<rparr>))"
proof (cases w)
  case None
  then show ?thesis unfolding w_def h_def by (simp add: lock_wnode_def entry_def set_lock_def)
next
  case (Some x)
  then obtain n where n: "f_nodes f x = Some n" using lookup_present unfolding w_def by blast
  have "f\<lparr>f_nodes := f_nodes f\<rparr> = f" by simp
  with Some n show ?thesis unfolding w_def h_def
    by (auto simp: lock_wnode_def entry_def set_lock_def wait_mark_def tl_at_def upd_def)
qed

lemma unlock_path_chain:
  assumes p: "get_node f i = Some p" "chain (f_nodes f) p (c1 @ c2)"
    and w: "\<And>x. w = Some x \<Longrightarrow> tl_at (f_nodes f) x = TREELOCK_WRITE"
    and tl: "\<And>a. a \<in> on_chain c1 \<Longrightarrow> tl_at (f_nodes f) a \<notin> {0, TREELOCK_WAIT_OFFSET, TREELOCK_WRITE}"
    and fin: "fin = None \<and> c2 = [] \<or> (\<exists>e. fin = Some e \<and> chain (f_nodes f) e c2)"
  shows "unlock_path f i w fin = Some (f\<lparr>f_nodes := release (on_chain c1) (set_lock 0 w (f_nodes f))\<rparr>)"
proof -
  let ?g = "f\<lparr>f_nodes := set_lock 0 w (f_nodes f)\<rparr>"
  have g: "get_node ?g i = Some p" using get_node_shape[of "set_lock 0 w (f_nodes f)" f "f_mem f" i] p(1) by simp
  have "unlock_path f i w fin = unlock_walk ?g (Some p) fin"
  proof (cases w)
    case None
    then show ?thesis using p(1) by (simp add: unlock_path_def set_lock_def)
  next
    case (Some x)
    with w have "tl_at (f_nodes f) x = TREELOCK_WRITE" by simp
    then obtain n where n: "f_nodes f x = Some n" "n_treelock n = TREELOCK_WRITE"
      by (auto simp: tl_at_def split: option.splits)
    have "upd x (\<lambda>n. n\<lparr>n_treelock := 0\<rparr>) f = ?g" using Some by (simp add: upd_def set_lock_def)
    then show ?thesis using Some n g by (simp add: unlock_path_def)
  qed
  also have "\<dots> = Some (?g\<lparr>f_nodes := release (on_chain c1) (f_nodes ?g)\<rparr>)"
  proof (rule unlock_walk_chain[OF p(2)])
    fix a assume a: "a \<in> on_chain c1"
    then have "w \<noteq> Some a" using w[of a] tl[of a] by auto
    then have "tl_at (f_nodes ?g) a = tl_at (f_nodes f) a" by (auto simp: tl_at_def set_lock_def split: option.splits)
    then show "tl_at (f_nodes ?g) a \<notin> {0, TREELOCK_WAIT_OFFSET, TREELOCK_WRITE}" using tl[OF a] by simp
  qed (use fin in simp_all)
  finally show ?thesis by simp
qed

lemma release_acquired:
  assumes "\<And>a. a \<in> A \<Longrightarrow> 0 \<le> tl_at (set_lock TREELOCK_WRITE w h) a"
    and "\<And>x. w = Some x \<Longrightarrow> tl_at h x = 0 \<and> h x \<noteq> None"
  shows "release A (set_lock 0 w (locked_by 1 A (set_lock TREELOCK_WRITE w h))) = h"
proof -
  have "set_lock 0 w (locked_by 1 A (set_lock TREELOCK_WRITE w h)) = locked_by 1 A h"
  proof (cases w)
    case None
    then show ?thesis by (simp add: set_lock_def)
  next
    case (Some x)
    with assms(2) obtain n where n: "h x = Some n" "n_treelock n = 0" by (auto simp: tl_at_def)
    then have "x \<notin> A" using assms(1)[of x] Some by (auto simp: tl_at_def set_lock_def)
    moreover have "n\<lparr>n_treelock := 0\<rparr> = n" using n(2) by simp
    ultimately show ?thesis using Some n by (auto simp: fun_eq_iff set_lock_def locked_by_def)
  qed
  moreover have "release A (locked_by 1 A h) = h"
  proof (rule release_locked_by)
    fix a assume a: "a \<in> A"
    show "0 \<le> tl_at h a"
      using assms(1)[OF a] assms(2) by (cases "w = Some a") (auto simp: tl_at_def set_lock_def split: option.splits)
  qed
  ultimately show ?thesis by simp
qed

text \<open>The walk after the entry has been locked, with everything taken back on an error.\<close>

lemma walk_outcome:
  fixes f w
  defines "h \<equiv> f_nodes f"
  assumes p: "get_node f i = Some p" "chain h p c"
    and w': "w \<noteq> None \<longrightarrow> nl" "\<forall>x. w = Some x \<longrightarrow> tl_at h x = 0 \<and> h x \<noteq> None"
    and len: "length s + 1 \<le> b" "b \<le> 0xffffffff" "length s + length (path_str c) + 2 \<le> 0xffffffff"
  shows "\<exists>err p' s' f' m. path_walk (f\<lparr>f_nodes := set_lock TREELOCK_WRITE w h\<rparr>) p nl b s = Some (err, p', s', f') \<and>
     (if err = 0 then s' = path_str c @ s \<and> f' = f\<lparr>f_nodes := acquire nl c w h, f_mem := m\<rparr> \<and> (nl \<longrightarrow> free_for c w h)
      else (if nl then unlock_path f' i w (Some p') else Some f') = Some (f\<lparr>f_nodes := h, f_mem := m\<rparr>) \<and>
        (err = - ENOMEM \<and> \<not> no_oom (f_mem f) \<or> err = - EAGAIN \<and> nl \<and> \<not> free_for c w h))"
proof -
  have w: "w \<noteq> None \<Longrightarrow> nl" "\<And>x. w = Some x \<Longrightarrow> tl_at h x = 0 \<and> h x \<noteq> None" using w' by blast+
  let ?h = "set_lock TREELOCK_WRITE w h"
  let ?g = "f\<lparr>f_nodes := ?h\<rparr>"
  have sh: "shape (f_nodes ?g) = shape h" by simp
  from path_walk_chain[OF p(2) sh len, of nl] obtain r where r: "path_walk ?g p nl b s = Some r" "walked nl c s ?g r" by blast
  obtain err p' s' f' where R: "r = (err, p', s', f')" by (cases r) auto
  have gs: "f_nodes ?g = ?h" "f_mem ?g = f_mem f" by simp_all
  from r(2)[unfolded R walked_def prod.case gs] obtain c1 c2 m where W: "f' = with_locks nl (on_chain c1) m ?g"
    "c = c1 @ c2" "chain ?h p' c2" "err = 0 \<longrightarrow> c2 = [] \<and> s' = path_str c @ s"
    "nl \<longrightarrow> (\<forall>a \<in> on_chain c1. 0 \<le> tl_at ?h a)"
    "err \<noteq> 0 \<longrightarrow> err = - ENOMEM \<and> \<not> no_oom (f_mem f) \<or>
        err = - EAGAIN \<and> nl \<and> (\<exists>a \<in> on_chain c. tl_at ?h a < 0)" by blast
  have off: "tl_at ?h a = tl_at h a" if "w \<noteq> Some a" for a
    using that by (auto simp: set_lock_def tl_at_def split: option.splits)
  have at: "tl_at ?h x = -1" if "w = Some x" for x
    using w(2)[OF that] that by (auto simp: set_lock_def tl_at_def)
  show ?thesis
  proof (cases "err = 0")
    case True
    then have c: "c2 = []" "c1 = c" "s' = path_str c @ s" using W(2,4) by auto
    have "f' = f\<lparr>f_nodes := acquire nl c w h, f_mem := m\<rparr>"
      using W(1) c(2) w(1) by (cases w) (auto simp: with_locks_def acquire_def set_lock_def)
    moreover have "free_for c w h" if nl: "nl"
    proof -
      have nn: "0 \<le> tl_at ?h a" if "a \<in> on_chain c" for a using W(5) nl c(2) that by blast
      have nx: "x \<notin> on_chain c" if "w = Some x" for x using nn[of x] at[OF that] by auto
      have "0 \<le> tl_at h a" if "a \<in> on_chain c" for a
      proof -
        have "w \<noteq> Some a" using nx[of a] that by blast
        then show ?thesis using nn[OF that] off by simp
      qed
      then show ?thesis using nx w(2) by (auto simp: free_for_def list_all_iff)
    qed
    ultimately show ?thesis using r(1) R True c(3) by auto
  next
    case False
    let ?f = "f\<lparr>f_nodes := h, f_mem := m\<rparr>"
    have undo: "(if nl then unlock_path f' i w (Some p') else Some f') = Some ?f"
    proof (cases "nl")
      case False
      then have "w = None" using w(1) by blast
      then show ?thesis using W(1) False by (simp add: with_locks_def set_lock_def)
    next
      case True
      then have f': "f' = f\<lparr>f_nodes := locked_by 1 (on_chain c1) ?h, f_mem := m\<rparr>" using W(1) by (simp add: with_locks_def)
      have nn: "0 \<le> tl_at ?h a" if "a \<in> on_chain c1" for a using W(5) True that by blast
      have up: "tl_at (f_nodes f') a = tl_at ?h a + (if a \<in> on_chain c1 \<and> ?h a \<noteq> None then 1 else 0)" for a
        by (auto simp: f' locked_by_def tl_at_def split: option.splits)
      have live: "?h a \<noteq> None" if a: "a \<in> on_chain c1" for a
      proof -
        have ch: "chain ?h p c" by (rule chain_shape[OF p(2)]) simp
        obtain d1 t d2 where d: "c1 = d1 @ (a, t) # d2" using a by (auto dest: split_list)
        from chain_suffix[of ?h p d1 "(a, t) # d2 @ c2"] ch W(2) d obtain r where "chain ?h r ((a, t) # d2 @ c2)" by auto
        then show ?thesis by (auto elim: chain_ConsE)
      qed
      have gn: "get_node f' i = Some p" unfolding f' by (subst get_node_shape) (use p(1) h_def in simp_all)
      have ch: "chain (f_nodes f') p (c1 @ c2)" unfolding f' using chain_shape[OF p(2)] W(2) by simp
      have wr: "tl_at (f_nodes f') x = TREELOCK_WRITE" if "w = Some x" for x
        using up[of x] at[OF that] nn[of x] by auto
      have lk: "tl_at (f_nodes f') a \<notin> {0, TREELOCK_WAIT_OFFSET, TREELOCK_WRITE}" if "a \<in> on_chain c1" for a
        using up[of a] nn[OF that] live[OF that] that by auto
      have "chain (f_nodes f') p' c2" unfolding f' using chain_shape[OF W(3)] by simp
      then have "unlock_path f' i w (Some p') = Some (f'\<lparr>f_nodes := release (on_chain c1) (set_lock 0 w (f_nodes f'))\<rparr>)"
        using unlock_path_chain[OF gn ch wr lk] by blast
      also have "release (on_chain c1) (set_lock 0 w (f_nodes f')) = h"
        unfolding f' using release_acquired[of "on_chain c1" w h] nn w(2) by simp
      finally show ?thesis using True f' by simp
    qed
    have "err = - EAGAIN \<Longrightarrow> \<not> free_for c w h" if "\<exists>a \<in> on_chain c. tl_at ?h a < 0"
    proof
      assume fr: "free_for c w h"
      from that obtain a where a: "a \<in> on_chain c" "tl_at ?h a < 0" by blast
      show False
      proof (cases "w = Some a")
        case True
        then show False using fr a(1) by (simp add: free_for_def)
      next
        case False
        then show False using fr a off[OF False] by (auto simp: free_for_def list_all_iff)
      qed
    qed
    then show ?thesis using r(1) R False undo W(6) by auto
  qed
qed

lemma try_get_path_outcome:
  assumes p: "get_node f nodeid = Some p" "chain (f_nodes f) p c"
    and wr: "wr \<Longrightarrow> nl \<and> name \<noteq> None"
    and len: "length (path_str c) + length (case name of None \<Rightarrow> [] | Some t \<Rightarrow> t) + 300 \<le> 0xffffffff"
  shows "\<exists>r. try_get_path f nodeid name wr nl = Some r \<and> got_path f nodeid name wr nl c r"
proof -
  let ?w = "entry f nodeid name wr"
  let ?h = "f_nodes f"
  obtain ok m1 where m1: "malloc (f_mem f) = (ok, m1)" by fastforce
  show ?thesis
  proof (cases "ok")
    case False
    then have "\<not> no_oom (f_mem f)" using malloc_no_oom[of "f_mem f"] m1 by auto
    then have "got_path f nodeid name wr nl c (- ENOMEM, None, None, f\<lparr>f_mem := m1\<rparr>)"
      unfolding got_path_def prod.case by (intro exI[of _ ?h] exI[of _ m1]) simp
    then show ?thesis using False m1 by (simp add: try_get_path_def)
  next
    case ok: True
    let ?s0 = "case name of None \<Rightarrow> [] | Some t \<Rightarrow> ''/'' @ t"
    let ?add = "case name of None \<Rightarrow> Some (Some (256, []), m1) | Some s \<Rightarrow> add_name 256 [] s m1"
    have keep1: "no_oom (f_mem f) \<Longrightarrow> no_oom m1" using malloc_keeps_no_oom[of "f_mem f"] m1 by simp
    have "\<exists>r m2. ?add = Some (r, m2) \<and> (no_oom m1 \<longrightarrow> no_oom m2) \<and>
       (case r of None \<Rightarrow> \<not> no_oom m1
        | Some (b, s) \<Rightarrow> s = ?s0 \<and> length s + 1 \<le> b \<and> b \<le> 0xffffffff)"
    proof (cases name)
      case (Some t)
      then have lt: "length [] + length t + 2 \<le> 0xffffffff" using len by simp
      have "length [] + 1 \<le> (256::nat)" "(0::nat) < 256" "(256::nat) \<le> 0xffffffff" by simp_all
      from add_name_ok[OF this lt, of m1, unfolded append_Nil2] obtain r m2 where r: "add_name 256 [] t m1 = Some (r, m2)"
        "(case r of None \<Rightarrow> \<not> fst (malloc m1) | Some (b, s) \<Rightarrow> s = ''/'' @ t \<and> length s + 1 \<le> b \<and> 256 \<le> b \<and> b \<le> 0xffffffff)"
        by blast
      moreover have "no_oom m1 \<longrightarrow> no_oom m2" using add_name_mem[OF r(1)] by blast
      moreover have "case r of None \<Rightarrow> \<not> no_oom m1 | Some (b, s) \<Rightarrow> s = ?s0 \<and> length s + 1 \<le> b \<and> b \<le> 0xffffffff"
        using r(2) malloc_no_oom[of m1] Some by (auto split: option.splits)
      ultimately show ?thesis using Some by auto
    qed simp
    then obtain r m2 where r: "?add = Some (r, m2)" "no_oom m1 \<longrightarrow> no_oom m2"
      "case r of None \<Rightarrow> \<not> no_oom m1 | Some (b, s) \<Rightarrow> s = ?s0 \<and> length s + 1 \<le> b \<and> b \<le> 0xffffffff" by blast
    have add: "(case name of None \<Rightarrow> Some (Some (256, []), f_mem (f\<lparr>f_mem := m1\<rparr>))
       | Some s \<Rightarrow> add_name 256 [] s (f_mem (f\<lparr>f_mem := m1\<rparr>))) = Some (r, m2)" using r(1) by (cases name) simp_all
    show ?thesis
    proof (cases r)
      case None
      then have "got_path f nodeid name wr nl c (- ENOMEM, None, None, f\<lparr>f_mem := m2\<rparr>)"
        using r(3) keep1 unfolding got_path_def prod.case by (intro exI[of _ ?h] exI[of _ m2]) auto
      then show ?thesis using None ok m1 add by (simp add: try_get_path_def Let_def)
    next
      case (Some bs)
      then obtain b where b: "r = Some (b, ?s0)" "length ?s0 + 1 \<le> b" "b \<le> 0xffffffff" using r(3) by (cases bs) auto
      let ?g = "f\<lparr>f_mem := m2\<rparr>"
      have g: "get_node ?g nodeid = Some p" using get_node_shape[of ?h f m2 nodeid] p(1) by simp
      have eg: "entry ?g nodeid name wr = ?w" by (simp add: entry_def lookup_node_def cong: option.case_cong)
      have start: "try_get_path f nodeid name wr nl = do {
            (err, wnode, f) \<leftarrow>
              (if wr then if nl then lock_wnode ?g nodeid name else None else Some (0, None, ?g));
            if err \<noteq> 0 then Some (err, None, None, f)
            else do {
              p \<leftarrow> get_node f nodeid;
              (err, node, s, f) \<leftarrow> path_walk f p nl b ?s0;
              if err \<noteq> 0 then do {
                f \<leftarrow> (if nl then unlock_path f nodeid wnode (Some node) else Some f);
                Some (err, None, None, f)
              } else Some (0, Some (if s \<noteq> [] then s else ''/''), wnode, f)
            } }"
        using ok m1 add b(1) by (simp add: try_get_path_def Let_def)
      show ?thesis
      proof (cases "\<forall>x. ?w = Some x \<longrightarrow> tl_at ?h x = 0")
        case False
        then have w: "wr" "nl" "name \<noteq> None" using wr by (auto simp: entry_def split: if_splits)
        then obtain t where t: "name = Some t" by auto
        have "lock_wnode ?g nodeid name = Some (- EAGAIN, None, ?g\<lparr>f_nodes := wait_mark ?w ?h\<rparr>)"
          using lock_wnode_outcome[of ?g nodeid t] False w(1) t eg by simp
        then have "try_get_path f nodeid name wr nl = Some (- EAGAIN, None, None, f\<lparr>f_nodes := wait_mark ?w ?h, f_mem := m2\<rparr>)"
          unfolding start using w(1,2) by simp
        moreover have "got_path f nodeid name wr nl c (- EAGAIN, None, None, f\<lparr>f_nodes := wait_mark ?w ?h, f_mem := m2\<rparr>)"
          using False w(2) unfolding got_path_def prod.case
          by (intro exI[of _ "wait_mark ?w ?h"] exI[of _ m2]) (simp add: free_for_def, blast)
        ultimately show ?thesis by blast
      next
        case w0: True
        have lockw: "(if wr then if nl then lock_wnode ?g nodeid name else None else Some (0, None, ?g)) =
            Some (0, ?w, ?g\<lparr>f_nodes := set_lock TREELOCK_WRITE ?w ?h\<rparr>)"
        proof (cases wr)
          case True
          with wr obtain t where t: "name = Some t" "nl" by auto
          show ?thesis using lock_wnode_outcome[of ?g nodeid t] w0 True t eg by simp
        next
          case False
          then show ?thesis by (simp add: entry_def set_lock_def)
        qed
        have gg: "get_node (?g\<lparr>f_nodes := set_lock TREELOCK_WRITE ?w ?h\<rparr>) nodeid = Some p"
          using get_node_shape[of "set_lock TREELOCK_WRITE ?w ?h" f m2 nodeid] p(1) by (simp add: mem_nodes_swap)
        have ch: "chain (f_nodes ?g) p c" using p(2) by simp
        have wn: "?w \<noteq> None \<longrightarrow> nl" using wr by (auto simp: entry_def split: if_splits)
        have gs: "f_nodes ?g = ?h" "f_mem ?g = m2" by simp_all
        have wl: "\<forall>x. ?w = Some x \<longrightarrow> tl_at (f_nodes ?g) x = 0 \<and> f_nodes ?g x \<noteq> None"
          unfolding gs using w0 lookup_present[of f nodeid name wr] by blast
        have ln: "length ?s0 + length (path_str c) + 2 \<le> 0xffffffff" using len by (simp split: option.splits)
        from walk_outcome[OF g ch wn wl b(2,3) ln, unfolded gs] obtain err p' s' f' m where
          o: "path_walk (?g\<lparr>f_nodes := set_lock TREELOCK_WRITE ?w ?h\<rparr>) p nl b ?s0 = Some (err, p', s', f')"
          "if err = 0 then s' = path_str c @ ?s0 \<and> f' = ?g\<lparr>f_nodes := acquire nl c ?w ?h, f_mem := m\<rparr> \<and> (nl \<longrightarrow> free_for c ?w ?h)
           else (if nl then unlock_path f' nodeid ?w (Some p') else Some f') = Some (?g\<lparr>f_nodes := ?h, f_mem := m\<rparr>) \<and>
             (err = - ENOMEM \<and> \<not> no_oom m2 \<or> err = - EAGAIN \<and> nl \<and> \<not> free_for c ?w ?h)" by blast
        show ?thesis
        proof (cases "err = 0")
          case True
          then have "try_get_path f nodeid name wr nl = Some (0, Some (full_path c name), ?w, f\<lparr>f_nodes := acquire nl c ?w ?h, f_mem := m\<rparr>)"
            unfolding start lockw using gg o by (simp add: full_path_def Let_def)
          moreover have "got_path f nodeid name wr nl c (0, Some (full_path c name), ?w, f\<lparr>f_nodes := acquire nl c ?w ?h, f_mem := m\<rparr>)"
            using True o(2) unfolding got_path_def prod.case by (intro exI[of _ "acquire nl c ?w ?h"] exI[of _ m]) simp
          ultimately show ?thesis by blast
        next
          case False
          then have "try_get_path f nodeid name wr nl = Some (err, None, None, f\<lparr>f_nodes := ?h, f_mem := m\<rparr>)"
            unfolding start lockw using gg o by simp
          moreover have "got_path f nodeid name wr nl c (err, None, None, f\<lparr>f_nodes := ?h, f_mem := m\<rparr>)"
            using False o(2) r(2) keep1 unfolding got_path_def prod.case by (intro exI[of _ ?h] exI[of _ m]) auto
          ultimately show ?thesis by blast
        qed
      qed
    qed
  qed
qed

lemma unlock_acquired:
  assumes p: "get_node f nodeid = Some p" "chain (f_nodes f) p c"
    and got: "got_path f nodeid name wr True c (0, path, w, f')"
  shows "unlock_path f' nodeid w None = Some (f'\<lparr>f_nodes := f_nodes f\<rparr>)"
proof -
  let ?h = "f_nodes f"
  let ?h' = "set_lock TREELOCK_WRITE w ?h"
  from got obtain m where f': "f' = f\<lparr>f_nodes := locked_by 1 (on_chain c) ?h', f_mem := m\<rparr>"
    and free: "free_for c w ?h" and w: "w = entry f nodeid name wr"
    unfolding got_path_def prod.case acquire_def by auto
  have live: "?h x \<noteq> None" if "w = Some x" for x using lookup_present[of f nodeid name wr x] w that by auto
  have off: "0 \<le> tl_at ?h' a" if "a \<in> on_chain c" for a
  proof -
    have "w \<noteq> Some a" using free that by (auto simp: free_for_def)
    then have "tl_at ?h' a = tl_at ?h a" by (auto simp: set_lock_def tl_at_def split: option.splits)
    then show ?thesis using free that by (auto simp: free_for_def list_all_iff)
  qed
  have at: "tl_at (f_nodes f') x = TREELOCK_WRITE" if "w = Some x" for x
  proof -
    have "x \<notin> on_chain c" using free that by (auto simp: free_for_def)
    then show ?thesis using that live[OF that] by (auto simp: f' locked_by_def tl_at_def set_lock_def)
  qed
  have on: "tl_at (f_nodes f') a \<notin> {0, TREELOCK_WAIT_OFFSET, TREELOCK_WRITE}" if a: "a \<in> on_chain c" for a
  proof -
    have "chain ?h' p c" by (rule chain_shape[OF p(2)]) simp
    moreover obtain d1 t d2 where "c = d1 @ (a, t) # d2" using a by (auto dest: split_list)
    ultimately obtain r where "chain ?h' r ((a, t) # d2)" using chain_suffix[of ?h' p d1 "(a, t) # d2"] by auto
    then obtain n where "?h' a = Some n" by (auto elim: chain_ConsE)
    then show ?thesis using off[OF a] a by (simp add: f' locked_by_def tl_at_def)
  qed
  have gn: "get_node f' nodeid = Some p" unfolding f' using get_node_shape[of _ f m nodeid] p(1) by simp
  have ch: "chain (f_nodes f') p (c @ [])" unfolding f' using chain_shape[OF p(2)] by simp
  have "unlock_path f' nodeid w None = Some (f'\<lparr>f_nodes := release (on_chain c) (set_lock 0 w (f_nodes f'))\<rparr>)"
    using unlock_path_chain[OF gn ch at on] by blast
  also have "release (on_chain c) (set_lock 0 w (f_nodes f')) = ?h"
    unfolding f' using release_acquired[of "on_chain c" w ?h] off live free by (simp add: free_for_def)
  finally show ?thesis .
qed

text \<open>
  Property C12. For a node below the root, \<open>try_get_path\<close> always returns, and either
  succeeds with the names from the root down as the path (and the extra name at the end), every
  node on the way read-locked once more and the entry of that name, if there is one, write-locked,
  which needs all of them free; or fails with \<open>-ENOMEM\<close>, out of memory only, or \<open>-EAGAIN\<close>, when a
  lock is in the way, having taken every lock back (a busy entry is marked as waited for).
\<close>

theorem try_get_path_correct:
  assumes "get_node f nodeid = Some p" and "chain (f_nodes f) p c"
    and "wr \<Longrightarrow> nl \<and> name \<noteq> None"
    and "length (path_str c) + length (case name of None \<Rightarrow> [] | Some t \<Rightarrow> t) + 300 \<le> 0xffffffff"
  shows "\<exists>r. try_get_path f nodeid name wr nl = Some r \<and> got_path f nodeid name wr nl c r"
  by (rule try_get_path_outcome[OF assms])

definition demo_node :: "fuse_ino_t \<Rightarrow> addr option \<Rightarrow> string option \<Rightarrow> node" where
  "demo_node i q s = zero_node\<lparr>n_nodeid := i, n_parent := q, n_name := s, n_refctr := 1, n_nlookup := 1\<rparr>"

definition demo :: fuse where
  \<comment> \<open>the root, the directory "a" and the file "b" in it\<close>
  "demo = \<lparr>f_nodes = [1 \<mapsto> demo_node 1 None (Some ''/''), 2 \<mapsto> demo_node 2 (Some 1) (Some ''a''),
       3 \<mapsto> demo_node 3 (Some 2) (Some ''b'')],
     f_name_table = \<lparr>nt_array = [[2, 3], []], nt_use = 2, nt_size = 2, nt_split = 0\<rparr>,
     f_id_table = \<lparr>nt_array = [[1, 2, 3], []], nt_use = 3, nt_size = 2, nt_split = 0\<rparr>,
     f_lru_table = [], f_ctr = 3, f_generation = 0, f_hidectr = 0, f_conf = boot_conf, f_lockq = [],
     f_slabs = boot_slabs, f_mem = []\<rparr>"

lemma demo_chain: "get_node demo 2 = Some 2" "chain (f_nodes demo) 2 [(2, ''a'')]"
  "lookup_node demo 2 ''b'' = Some 3"
proof -
  show "get_node demo 2 = Some 2"
    by (simp add: get_node_def get_node_nocheck_def table_bucket_def table_slot_def demo_def demo_node_def zero_node_def)
  have "chain (f_nodes demo) 1 []" 
    by (rule chain_root[where n = "demo_node 1 None (Some ''/'')"]) (simp_all add: demo_def demo_node_def)
  then show "chain (f_nodes demo) 2 [(2, ''a'')]"
    by (intro chain_step[where q = 1 and n = "demo_node 2 (Some 1) (Some ''a'')"]) (simp_all add: demo_def demo_node_def)
  show "lookup_node demo 2 ''b'' = Some 3"
    by (simp add: lookup_node_def table_bucket_def table_slot_def demo_def demo_node_def zero_node_def)
qed

lemma try_get_path_correct_witness:
  "\<exists>err path w f'. try_get_path demo 2 (Some ''b'') True True = Some (err, path, w, f') \<and>
    err = 0 \<and> path = Some ''/a/b'' \<and> w = Some 3 \<and> tl_at (f_nodes f') 3 = -1 \<and> tl_at (f_nodes f') 2 = 1"
proof -
  have "length (path_str [(2::addr, ''a'')]) + length (case Some ''b'' of None \<Rightarrow> [] | Some t \<Rightarrow> t) + 300 \<le> 0xffffffff"
    by (simp add: path_str_def)
  from try_get_path_correct[OF demo_chain(1,2) _ this, of True True] obtain r where
    r: "try_get_path demo 2 (Some ''b'') True True = Some r" "got_path demo 2 (Some ''b'') True True [(2, ''a'')] r" by auto
  have "entry demo 2 (Some ''b'') True = Some 3" by (simp add: entry_def demo_chain)
  moreover have "free_for [(2, ''a'')] (Some 3) (f_nodes demo)"
    by (simp add: free_for_def tl_at_def demo_def demo_node_def zero_node_def)
  moreover have "no_oom (f_mem demo)" by (simp add: demo_def)
  moreover have "full_path [(2::addr, ''a'')] (Some ''b'') = ''/a/b''" by (simp add: full_path_def path_str_def)
  ultimately show ?thesis using r
    by (cases r) (auto simp: got_path_def acquire_def locked_by_def set_lock_def tl_at_def demo_def demo_node_def zero_node_def
        split: if_splits)
qed

text \<open>
  Property C13. Unlocking the path that a successful \<open>try_get_path\<close> locked, with the write-locked
  entry it returned, passes all of \<open>unlock_path\<close>'s assertions and gives every node back the lock
  count it had.
\<close>

theorem path_lock_roundtrip:
  assumes "get_node f nodeid = Some p" and "chain (f_nodes f) p c"
    and "wr \<Longrightarrow> name \<noteq> None"
    and "length (path_str c) + length (case name of None \<Rightarrow> [] | Some t \<Rightarrow> t) + 300 \<le> 0xffffffff"
    and "try_get_path f nodeid name wr True = Some (0, path, w, f')"
  shows "unlock_path f' nodeid w None = Some (f'\<lparr>f_nodes := f_nodes f\<rparr>)"
  using try_get_path_outcome[OF assms(1,2) _ assms(4), of wr True] assms(3,5) unlock_acquired[OF assms(1,2)] by auto

lemma path_lock_roundtrip_witness:
  "\<exists>path w f'. try_get_path demo 2 (Some ''b'') True True = Some (0, path, w, f') \<and>
    unlock_path f' 2 w None = Some (f'\<lparr>f_nodes := f_nodes demo\<rparr>)"
proof -
  have len: "length (path_str [(2::addr, ''a'')]) + length (case Some ''b'' of None \<Rightarrow> [] | Some t \<Rightarrow> t) + 300 \<le> 0xffffffff"
    by (simp add: path_str_def)
  from try_get_path_outcome[OF demo_chain(1,2) _ this, of True True] obtain r where
    r: "try_get_path demo 2 (Some ''b'') True True = Some r" "got_path demo 2 (Some ''b'') True True [(2, ''a'')] r" by auto
  have "free_for [(2, ''a'')] (entry demo 2 (Some ''b'') True) (f_nodes demo)" "no_oom (f_mem demo)"
    by (simp_all add: entry_def demo_chain(3)) (simp_all add: free_for_def tl_at_def demo_def demo_node_def zero_node_def)
  with r obtain path w f' where g: "try_get_path demo 2 (Some ''b'') True True = Some (0, path, w, f')"
    by (cases r) (auto simp: got_path_def split: if_splits)
  with path_lock_roundtrip[OF demo_chain(1,2) _ len g] show ?thesis by auto
qed

end
