(* ===== verification/Lock_States.thy ===== *)
theory Lock_States
  imports Path_Lock_Props
begin

text \<open>
  The tree locks of src/lib/fuse.c as a state machine. The states are the trees together with the
  grants: which request holds which path. A step is an attempt to lock a path (\<open>try_get_path\<close>,
  successful or not) or the release of a granted one (\<open>unlock_path\<close>). The abstract
  specification is a readers-writer lock per node; \<open>treelock\<close> is its encoding in one \<open>int\<close>, and
  the invariant says that every reachable state encodes the grants.
\<close>

type_synonym grant = "fuse_ino_t \<times> (addr \<times> string) list \<times> addr option"

definition readers :: "grant list \<Rightarrow> addr \<Rightarrow> nat" where
  "readers G a = length (filter (\<lambda>(i, c, w). a \<in> on_chain c) G)"

definition writers :: "grant list \<Rightarrow> addr \<Rightarrow> nat" where
  "writers G a = length (filter (\<lambda>(i, c, w). w = Some a) G)"

definition encodes :: "nat \<Rightarrow> nat \<Rightarrow> int \<Rightarrow> bool" where
  \<comment> \<open>how many readers and writers a \<open>treelock\<close> stands for\<close>
  "encodes r k t \<longleftrightarrow>
     (if k = 0 then t = int r \<or> 0 < r \<and> t = int r + TREELOCK_WAIT_OFFSET else k = 1 \<and> r = 0 \<and> t = TREELOCK_WRITE)"

inductive lock_step :: "fuse \<times> grant list \<Rightarrow> fuse \<times> grant list \<Rightarrow> bool" where
  step_get: "try_get_path f i name wr True = Some (0, path, w, f') \<Longrightarrow> (wr \<Longrightarrow> name \<noteq> None) \<Longrightarrow>
    get_node f i = Some p \<Longrightarrow> chain (f_nodes f) p c \<Longrightarrow>
    length (path_str c) + length (case name of None \<Rightarrow> [] | Some t \<Rightarrow> t) + 300 \<le> 0xffffffff \<Longrightarrow>
    length G < 2147483646 \<Longrightarrow> lock_step (f, G) (f', (i, c, w) # G)"
| step_fail: "try_get_path f i name wr True = Some (err, path, w, f') \<Longrightarrow> err \<noteq> 0 \<Longrightarrow> (wr \<Longrightarrow> name \<noteq> None) \<Longrightarrow>
    get_node f i = Some p \<Longrightarrow> chain (f_nodes f) p c \<Longrightarrow>
    length (path_str c) + length (case name of None \<Rightarrow> [] | Some t \<Rightarrow> t) + 300 \<le> 0xffffffff \<Longrightarrow>
    lock_step (f, G) (f', G)"
| step_put: "(i, c, w) \<in> set G \<Longrightarrow> unlock_path f i w None = Some f' \<Longrightarrow> lock_step (f, G) (f', remove1 (i, c, w) G)"

inductive_cases lock_stepE: "lock_step s t"

inductive lock_reach :: "fuse \<Rightarrow> fuse \<times> grant list \<Rightarrow> bool" for f where
  reach_start: "lock_reach f (f, [])"
| reach_step: "lock_reach f s \<Longrightarrow> lock_step s t \<Longrightarrow> lock_reach f t"

definition unlocked :: "fuse \<Rightarrow> bool" where
  "unlocked f \<longleftrightarrow> (\<forall>p n. f_nodes f p = Some n \<longrightarrow> n_treelock n = 0)"

definition grant_ok :: "fuse \<Rightarrow> grant \<Rightarrow> bool" where
  "grant_ok f = (\<lambda>(i, c, w). (\<exists>p. get_node f i = Some p \<and> chain (f_nodes f) p c) \<and>
     (\<forall>x. w = Some x \<longrightarrow> f_nodes f x \<noteq> None \<and> x \<notin> on_chain c))"

definition locks_ok :: "fuse \<Rightarrow> grant list \<Rightarrow> bool" where
  "locks_ok f G \<longleftrightarrow> length G \<le> 2147483646 \<and> (\<forall>g \<in> set G. grant_ok f g) \<and>
     (\<forall>a. f_nodes f a \<noteq> None \<longrightarrow> encodes (readers G a) (writers G a) (tl_at (f_nodes f) a))"

lemma locks_okD:
  assumes "locks_ok f G"
  shows "length G \<le> 2147483646" "g \<in> set G \<Longrightarrow> grant_ok f g"
    "f_nodes f a \<noteq> None \<Longrightarrow> encodes (readers G a) (writers G a) (tl_at (f_nodes f) a)"
  using assms by (auto simp: locks_ok_def)

lemma readers_le: "readers G a \<le> length G"
  by (simp add: readers_def)

lemma shape_dom: "shape h = shape h' \<Longrightarrow> h x \<noteq> None \<longleftrightarrow> h' x \<noteq> None"
proof -
  assume "shape h = shape h'"
  then have "shape h x = shape h' x" by simp
  then show ?thesis by (cases "h x"; cases "h' x") (simp_all add: shape_def)
qed

lemma grant_ok_shape:
  assumes "grant_ok f g" "shape h = shape (f_nodes f)"
  shows "grant_ok (f\<lparr>f_nodes := h, f_mem := m\<rparr>) g"
proof -
  note dom = shape_dom[OF assms(2)]
  obtain i c w where g: "g = (i, c, w)" by (cases g)
  from assms(1) g obtain p where p: "get_node f i = Some p" "chain (f_nodes f) p c"
    and w: "\<And>x. w = Some x \<Longrightarrow> f_nodes f x \<noteq> None \<and> x \<notin> on_chain c" by (auto simp: grant_ok_def)
  have "get_node (f\<lparr>f_nodes := h, f_mem := m\<rparr>) i = Some p" using get_node_shape[OF assms(2)] p(1) by simp
  moreover have "chain (f_nodes (f\<lparr>f_nodes := h, f_mem := m\<rparr>)) p c" using chain_shape[OF p(2)] assms(2) by simp
  ultimately show ?thesis unfolding g grant_ok_def using w dom by auto
qed

text \<open>Nodes on a chain are live.\<close>

lemma chain_live:
  assumes "chain h p c" "a \<in> on_chain c"
  shows "h a \<noteq> None"
proof -
  obtain d1 t d2 where "c = d1 @ (a, t) # d2" using assms(2) by (auto dest: split_list)
  with assms(1) chain_suffix[of h p d1 "(a, t) # d2"] obtain r where "chain h r ((a, t) # d2)" by auto
  then show ?thesis by (auto elim: chain_ConsE)
qed

lemma tl_release:
  "tl_at (release A h) a = (if a \<in> A \<and> h a \<noteq> None
     then if tl_at h a - 1 = TREELOCK_WAIT_OFFSET then 0 else tl_at h a - 1 else tl_at h a)"
  by (auto simp: tl_at_def release_def split: option.splits)

lemma tl_set_lock: "tl_at (set_lock v w h) a = (if w = Some a \<and> h a \<noteq> None then v else tl_at h a)"
  by (auto simp: tl_at_def set_lock_def split: option.splits)

lemma set_lock_None [simp]: "set_lock v w h a = None \<longleftrightarrow> h a = None"
  by (auto simp: set_lock_def split: option.splits)

lemma tl_locked_by: "tl_at (locked_by k A h) a = (if a \<in> A \<and> h a \<noteq> None then tl_at h a + k else tl_at h a)"
  by (auto simp: tl_at_def locked_by_def split: option.splits)

lemma readers_Cons [simp]: "readers ((i, c, w) # G) a = (if a \<in> on_chain c then 1 else 0) + readers G a"
  by (simp add: readers_def)

lemma writers_Cons [simp]: "writers ((i, c, w) # G) a = (if w = Some a then 1 else 0) + writers G a"
  by (simp add: writers_def)

lemma remove_grant:
  assumes "(i, c, w) \<in> set G"
  shows "readers G a = (if a \<in> on_chain c then 1 else 0) + readers (remove1 (i, c, w) G) a"
    "writers G a = (if w = Some a then 1 else 0) + writers (remove1 (i, c, w) G) a"
proof -
  obtain G1 G2 where G: "G = G1 @ (i, c, w) # G2" "(i, c, w) \<notin> set G1" using split_list_first[OF assms] by blast
  then have "remove1 (i, c, w) G = G1 @ G2" by (simp add: remove1_append)
  then show "readers G a = (if a \<in> on_chain c then 1 else 0) + readers (remove1 (i, c, w) G) a"
    "writers G a = (if w = Some a then 1 else 0) + writers (remove1 (i, c, w) G) a"
    using G(1) by (simp_all add: readers_def writers_def)
qed

section \<open>The steps keep the encoding\<close>

lemma encodes_reader: "encodes r k t \<Longrightarrow> 0 \<le> t \<Longrightarrow> r \<le> 2147483646 \<Longrightarrow> k = 0 \<and> t = int r"
  by (auto simp: encodes_def split: if_splits)

lemma get_keeps:
  assumes ok: "locks_ok f G" and G: "length G < 2147483646"
    and p: "get_node f i = Some p" "chain (f_nodes f) p c"
    and got: "got_path f i name wr True c (0, path, w, f')"
  shows "locks_ok f' ((i, c, w) # G)"
proof -
  let ?h = "f_nodes f"
  note D = locks_okD[OF ok]
  from got obtain m where f': "f' = f\<lparr>f_nodes := locked_by 1 (on_chain c) (set_lock TREELOCK_WRITE w ?h), f_mem := m\<rparr>"
    and free: "free_for c w ?h" and w: "w = entry f i name wr"
    unfolding got_path_def prod.case acquire_def by auto
  have sh: "shape (locked_by 1 (on_chain c) (set_lock TREELOCK_WRITE w ?h)) = shape ?h" by simp
  have new: "grant_ok f (i, c, w)"
    using p free lookup_present[of f i name wr] w by (auto simp: grant_ok_def free_for_def)
  show ?thesis unfolding locks_ok_def
  proof (intro conjI ballI allI impI)
    show "length ((i, c, w) # G) \<le> 2147483646" using G by simp
    fix g assume "g \<in> set ((i, c, w) # G)"
    then have "g = (i, c, w) \<or> g \<in> set G" by simp
    then have "grant_ok f g" using new D(2) by blast
    then show "grant_ok f' g" unfolding f' by (rule grant_ok_shape[OF _ sh])
  next
    fix a assume "f_nodes f' a \<noteq> None"
    then have live: "?h a \<noteq> None" by (auto simp: f' locked_by_def set_lock_def split: if_splits option.splits)
    have r: "readers G a \<le> 2147483646" using readers_le[of G a] G by linarith
    note E = D(3)[OF live]
    have t: "tl_at (f_nodes f') a = (if w = Some a then TREELOCK_WRITE else tl_at ?h a) + (if a \<in> on_chain c then 1 else 0)"
      using live by (simp add: f' tl_locked_by tl_set_lock)
    show "encodes (readers ((i, c, w) # G) a) (writers ((i, c, w) # G) a) (tl_at (f_nodes f') a)"
    proof (cases "w = Some a")
      case True
      then have "tl_at ?h a = 0" "a \<notin> on_chain c" using free by (auto simp: free_for_def)
      with encodes_reader[OF E _ r] True show ?thesis unfolding t by (simp add: encodes_def)
    next
      case w: False
      show ?thesis
      proof (cases "a \<in> on_chain c")
        case True
        then have "0 \<le> tl_at ?h a" using free by (auto simp: free_for_def list_all_iff)
        with encodes_reader[OF E _ r] True w show ?thesis unfolding t by (simp add: encodes_def)
      qed (use E w t in simp)
    qed
  qed
qed

lemma fail_keeps:
  assumes ok: "locks_ok f G" and err: "err \<noteq> 0"
    and got: "got_path f i name wr True c (err, path, w, f')"
  shows "locks_ok f' G"
proof -
  let ?h = "f_nodes f"
  note D = locks_okD[OF ok]
  let ?w = "entry f i name wr"
  from got err obtain h m where f': "f' = f\<lparr>f_nodes := h, f_mem := m\<rparr>" and h: "h = ?h \<or> h = wait_mark ?w ?h"
    unfolding got_path_def prod.case by auto
  have sh: "shape h = shape ?h" using h by (auto simp: wait_mark_def split: option.splits)
  show ?thesis unfolding locks_ok_def
  proof (intro conjI ballI allI impI)
    show "length G \<le> 2147483646" using D(1) .
    fix g assume "g \<in> set G"
    then show "grant_ok f' g" unfolding f' by (intro grant_ok_shape[OF _ sh] D(2))
  next
    fix a assume "f_nodes f' a \<noteq> None"
    then have live: "?h a \<noteq> None" using shape_dom[OF sh, of a] by (simp add: f')
    note E = D(3)[OF live]
    have r: "readers G a \<le> 2147483646" using readers_le[of G a] D(1) by linarith
    have "tl_at h a = tl_at ?h a \<or> 0 < tl_at ?h a \<and> tl_at h a = tl_at ?h a + TREELOCK_WAIT_OFFSET"
      using h live by (auto simp: wait_mark_def tl_set_lock split: option.splits if_splits)
    then show "encodes (readers G a) (writers G a) (tl_at (f_nodes f') a)"
      using E encodes_reader[OF E _ r] by (auto simp: f' encodes_def)
  qed
qed

lemma put_works:
  assumes ok: "locks_ok f G" and g: "(i, c, w) \<in> set G"
  shows "unlock_path f i w None = Some (f\<lparr>f_nodes := release (on_chain c) (set_lock 0 w (f_nodes f))\<rparr>)"
proof -
  note D = locks_okD[OF ok]
  from D(2)[OF g] obtain p where p: "get_node f i = Some p" "chain (f_nodes f) p c"
    and w: "\<And>x. w = Some x \<Longrightarrow> f_nodes f x \<noteq> None \<and> x \<notin> on_chain c" by (auto simp: grant_ok_def)
  have r: "readers G a \<le> 2147483646" for a using readers_le[of G a] D(1) by linarith
  have ch: "chain (f_nodes f) p (c @ [])" using p(2) by simp
  have wr: "tl_at (f_nodes f) x = TREELOCK_WRITE" if "w = Some x" for x
    using D(3)[of x] w[OF that] remove_grant(2)[OF g, of x] that by (auto simp: encodes_def)
  have rd: "tl_at (f_nodes f) a \<notin> {0, TREELOCK_WAIT_OFFSET, TREELOCK_WRITE}" if "a \<in> on_chain c" for a
    using D(3)[OF chain_live[OF p(2) that]] remove_grant(1)[OF g, of a] that r[of a]
    by (auto simp: encodes_def split: if_splits)
  show ?thesis using unlock_path_chain[OF p(1) ch wr rd] by blast
qed

lemma put_keeps:
  assumes ok: "locks_ok f G" and g: "(i, c, w) \<in> set G" and put: "unlock_path f i w None = Some f'"
  shows "locks_ok f' (remove1 (i, c, w) G)"
proof -
  let ?h = "f_nodes f"
  note D = locks_okD[OF ok]
  note rem = remove_grant[OF g]
  have f': "f' = f\<lparr>f_nodes := release (on_chain c) (set_lock 0 w ?h), f_mem := f_mem f\<rparr>"
    using put_works[OF ok g] put by auto
  have sh: "shape (release (on_chain c) (set_lock 0 w ?h)) = shape ?h" by simp
  show ?thesis unfolding locks_ok_def
  proof (intro conjI ballI allI impI)
    show "length (remove1 (i, c, w) G) \<le> 2147483646" using D(1) by (auto simp: length_remove1)
    fix g' assume "g' \<in> set (remove1 (i, c, w) G)"
    then have "g' \<in> set G" using set_remove1_subset by fastforce
    then show "grant_ok f' g'" unfolding f' by (intro grant_ok_shape[OF _ sh] D(2))
  next
    fix a assume "f_nodes f' a \<noteq> None"
    then have live: "?h a \<noteq> None" by (auto simp: f' release_def set_lock_def split: if_splits option.splits)
    note E = D(3)[OF live]
    have r: "readers G a \<le> 2147483646" using readers_le[of G a] D(1) by linarith
    have t: "tl_at (f_nodes f') a = (let t = if w = Some a then 0 else tl_at ?h a in
        if a \<in> on_chain c then if t - 1 = TREELOCK_WAIT_OFFSET then 0 else t - 1 else t)"
      using live by (simp add: f' tl_release tl_set_lock Let_def)
    have "w = Some a \<Longrightarrow> a \<notin> on_chain c" using D(2)[OF g] by (auto simp: grant_ok_def)
    then show "encodes (readers (remove1 (i, c, w) G) a) (writers (remove1 (i, c, w) G) a) (tl_at (f_nodes f') a)"
      using E r unfolding t rem by (auto simp: encodes_def split: if_splits)
  qed
qed

lemma lock_step_keeps:
  assumes "lock_step s t" "locks_ok (fst s) (snd s)"
  shows "locks_ok (fst t) (snd t)"
  using assms
proof (induction rule: lock_step.induct)
  case (step_get f i name wr path w f' p c G)
  have "got_path f i name wr True c (0, path, w, f')"
    using try_get_path_outcome[OF step_get(3,4) _ step_get(5), of wr True] step_get(1,2) by auto
  with get_keeps[OF _ step_get(6,3,4)] step_get.prems show ?case by simp
next
  case (step_fail f i name wr err path w f' p c G)
  have "got_path f i name wr True c (err, path, w, f')"
    using try_get_path_outcome[OF step_fail(4,5) _ step_fail(6), of wr True] step_fail(1,3) by auto
  with fail_keeps[OF _ step_fail(2)] step_fail.prems show ?case by simp
next
  case (step_put i c w G f f')
  with put_keeps show ?case by simp
qed

lemma no_grants_ok: "unlocked f \<Longrightarrow> locks_ok f []"
  by (auto simp: locks_ok_def unlocked_def tl_at_def readers_def writers_def encodes_def)

lemma lock_reach_ok: "lock_reach f s \<Longrightarrow> unlocked f \<Longrightarrow> locks_ok (fst s) (snd s)"
  by (induction rule: lock_reach.induct) (simp_all add: no_grants_ok lock_step_keeps)

lemma locks_ok_live:
  assumes "locks_ok f G" "f_nodes f a = None"
  shows "readers G a = 0" "writers G a = 0"
proof -
  have "a \<notin> on_chain c \<and> w \<noteq> Some a" if g: "(i, c, w) \<in> set G" for i c w
  proof -
    from locks_okD(2)[OF assms(1) g] obtain p where "chain (f_nodes f) p c" "w = Some a \<Longrightarrow> f_nodes f a \<noteq> None"
      by (auto simp: grant_ok_def)
    with assms(2) chain_live show ?thesis by blast
  qed
  then show "readers G a = 0" "writers G a = 0"
    by (auto simp: readers_def writers_def filter_empty_conv)
qed

text \<open>
  Property C7. However requests interleave their attempts and releases, starting from a tree
  without locks, a write-locked entry is held by one request only and no request holds a path
  through it, and every node's \<open>treelock\<close> is the number of its readers, \<open>-1\<close> for a writer, or
  the number of readers plus the wait offset.
\<close>

theorem write_lock_excludes:
  assumes "lock_reach f (f', G)" and "unlocked f"
  shows "writers G a \<le> 1 \<and> (writers G a = 0 \<or> readers G a = 0) \<and>
    (case f_nodes f' a of None \<Rightarrow> readers G a = 0 \<and> writers G a = 0
     | Some n \<Rightarrow> encodes (readers G a) (writers G a) (n_treelock n))"
proof -
  from lock_reach_ok[OF assms] have ok: "locks_ok f' G" by simp
  show ?thesis
  proof (cases "f_nodes f' a")
    case None
    then show ?thesis using locks_ok_live[OF ok] by simp
  next
    case (Some n)
    with locks_okD(3)[OF ok, of a] have "encodes (readers G a) (writers G a) (n_treelock n)" by (simp add: tl_at_def)
    then show ?thesis using Some by (auto simp: encodes_def split: if_splits)
  qed
qed

lemma demo_locked:
  "\<exists>f'. lock_reach demo (f', [(2, [(2, ''a'')], Some 3)]) \<and> unlocked demo"
proof -
  have len: "length (path_str [(2::addr, ''a'')]) + length (case Some ''b'' of None \<Rightarrow> [] | Some t \<Rightarrow> t) + 300 \<le> 0xffffffff"
    by (simp add: path_str_def)
  from try_get_path_outcome[OF demo_chain(1,2) _ this, of True True] obtain r where
    r: "try_get_path demo 2 (Some ''b'') True True = Some r" "got_path demo 2 (Some ''b'') True True [(2, ''a'')] r" by auto
  have e: "entry demo 2 (Some ''b'') True = Some 3" by (simp add: entry_def demo_chain(3))
  have "free_for [(2, ''a'')] (Some 3) (f_nodes demo)" "no_oom (f_mem demo)"
    by (simp_all add: free_for_def tl_at_def demo_def demo_node_def zero_node_def)
  with r e obtain path f' where g: "try_get_path demo 2 (Some ''b'') True True = Some (0, path, Some 3, f')"
    by (cases r) (auto simp: got_path_def split: if_splits)
  have "lock_step (demo, []) (f', [(2, [(2, ''a'')], Some 3)])"
    by (rule step_get[OF g _ demo_chain(1,2) len]) simp_all
  moreover have "unlocked demo" by (auto simp: unlocked_def demo_def demo_node_def zero_node_def split: if_splits)
  ultimately show ?thesis using reach_step[OF reach_start[of demo]] by blast
qed

lemma write_lock_excludes_witness:
  "\<exists>f' G n. lock_reach demo (f', G) \<and> writers G 3 = 1 \<and> readers G 3 = 0 \<and> f_nodes f' 3 = Some n \<and> n_treelock n = -1"
proof -
  obtain f' where r: "lock_reach demo (f', [(2, [(2, ''a'')], Some 3)])" "unlocked demo" using demo_locked by blast
  from write_lock_excludes[OF r, of 3] show ?thesis
    using r(1) by (intro exI[of _ f'] exI[of _ "[(2, [(2, ''a'')], Some 3)]"])
      (auto simp: encodes_def writers_def split: option.splits)
qed

lemma release_all:
  assumes "locks_ok f G"
  shows "\<exists>f'. lock_step\<^sup>*\<^sup>* (f, G) (f', []) \<and> unlocked f'"
  using assms
proof (induction "length G" arbitrary: f G)
  case 0
  have "n_treelock n = 0" if "f_nodes f p = Some n" for p n
    using locks_okD(3)[OF 0(2), of p] 0(1) that by (auto simp: tl_at_def readers_def writers_def encodes_def)
  then show ?case using 0 by (auto simp: unlocked_def)
next
  case (Suc k)
  then obtain i c w H where G: "G = (i, c, w) # H" by (cases G) auto
  then have g: "(i, c, w) \<in> set G" by simp
  obtain f1 where f1: "unlock_path f i w None = Some f1" using put_works[OF Suc(3) g] by blast
  have k: "k = length (remove1 (i, c, w) G)" using Suc(2) G by simp
  from Suc(1)[OF k put_keeps[OF Suc(3) g f1]] obtain f' where
    "lock_step\<^sup>*\<^sup>* (f1, remove1 (i, c, w) G) (f', [])" "unlocked f'" by blast
  then show ?case using step_put[OF g f1] converse_rtranclp_into_rtranclp[of lock_step] by blast
qed

text \<open>
  Property C8. From every state the requests can reach, releasing all granted paths is possible,
  none of \<open>unlock_path\<close>'s assertions fails on the way, and it leaves a tree without locks.
\<close>

theorem locks_can_be_released:
  assumes "lock_reach f (f', G)" and "unlocked f"
  shows "\<exists>f''. lock_step\<^sup>*\<^sup>* (f', G) (f'', []) \<and> unlocked f''"
  using release_all lock_reach_ok[OF assms] by simp

lemma locks_can_be_released_witness:
  "\<exists>f' G f''. lock_reach demo (f', G) \<and> G \<noteq> [] \<and> lock_step\<^sup>*\<^sup>* (f', G) (f'', []) \<and> unlocked f''"
proof -
  obtain f' where r: "lock_reach demo (f', [(2, [(2, ''a'')], Some 3)])" "unlocked demo" using demo_locked by blast
  from locks_can_be_released[OF r] r(1) show ?thesis by blast
qed

end
