(* ===== verification/Nosqlfs.thy ===== *)
theory Nosqlfs
  imports Posix
begin

text \<open>
  The file system of this repository: src/src/nosqlFS.c and src/src/log.c. Every callback logs its
  arguments, performs one or a few system calls on the path it is given and returns what they
  return, or \<open>-errno\<close>. A log line is a system call as well (\<open>SysLog\<close>: the time prefix, the format
  and its arguments, written to the log file), so that it may disturb \<open>errno\<close>.
\<close>

type_synonym ('w, 'm) op = "('w, 'm) proc_scheme \<Rightarrow> int \<times> ('w, 'm) proc_scheme"

section \<open>log.c\<close>

definition log_msg :: "'w kernel \<Rightarrow> string \<Rightarrow> logarg list \<Rightarrow> ('w, 'm) proc_scheme \<Rightarrow> ('w, 'm) proc_scheme" where
  "log_msg k format args st = snd (sys k (SysLog format args) st)"

definition log_error :: "'w kernel \<Rightarrow> string \<Rightarrow> ('w, 'm) op" where
  \<comment> \<open>the number stands for \<open>strerror(errno)\<close>\<close>
  "log_error k func st =
     (let st = log_msg k ''ERROR %s : %s'' [LS func, LI (p_errno st)] st in (- p_errno st, st))"

definition log_retstat :: "'w kernel \<Rightarrow> string \<Rightarrow> int \<Rightarrow> ('w, 'm) proc_scheme \<Rightarrow> ('w, 'm) proc_scheme" where
  "log_retstat k func retstat st =
     (let errsave = p_errno st;
          st = log_msg k ''%s returned %d'' [LS func, LI retstat] st
      in st\<lparr>p_errno := errsave\<rparr>)"

definition log_syscall :: "'w kernel \<Rightarrow> string \<Rightarrow> int \<Rightarrow> int \<Rightarrow> ('w, 'm) op" where
  "log_syscall k func retstat min_ret st =
     (let st = log_retstat k func retstat st
      in if retstat < min_ret then let (_, st) = log_error k func st in (- p_errno st, st)
         else (retstat, st))"

definition log_struct :: "'w kernel \<Rightarrow> string \<Rightarrow> logarg \<Rightarrow> ('w, 'm) proc_scheme \<Rightarrow> ('w, 'm) proc_scheme" where
  "log_struct k field v st = log_msg k (field @ '' = '') [v] st"

definition log_conn :: "'w kernel \<Rightarrow> fuse_conn_info \<Rightarrow> ('w, 'm) proc_scheme \<Rightarrow> ('w, 'm) proc_scheme" where
  "log_conn k conn st =
     (let u = (\<lambda>x. LI (int (unat x)));
          st = log_msg k ''fuse_conn_info:'' [] st;
          st = log_struct k ''proto_major'' (u (cn_proto_major conn)) st;
          st = log_struct k ''proto_minor'' (u (cn_proto_minor conn)) st;
          st = log_struct k ''async_read'' (u (cn_async_read conn)) st;
          st = log_struct k ''max_write'' (u (cn_max_write conn)) st;
          st = log_struct k ''max_readahead'' (u (cn_max_readahead conn)) st;
          st = log_struct k ''capable'' (u (cn_capable conn)) st;
          st = log_struct k ''want'' (u (cn_want conn)) st;
          st = log_struct k ''max_background'' (u (cn_max_background conn)) st
      in log_struct k ''congestion_threshold'' (u (cn_congestion_threshold conn)) st)"

record nosqlFS_state =
  logFile :: int
  rootdir :: "string option"

definition log_fuse_context :: "'w kernel \<Rightarrow> fuse_context \<Rightarrow> nosqlFS_state \<Rightarrow> ('w, 'm) proc_scheme \<Rightarrow> ('w, 'm) proc_scheme" where
  "log_fuse_context k context data st =
     (let st = log_msg k ''fuse_context'' [] st;
          st = log_struct k ''fuse'' LPtr st;
          st = log_struct k ''uid'' (LI (int (unat (cx_uid context)))) st;
          st = log_struct k ''gid'' (LI (int (unat (cx_gid context)))) st;
          st = log_struct k ''pid'' (LI (cx_pid context)) st;
          st = log_struct k ''private_data'' LPtr st;
          st = log_struct k ''logFile'' LPtr st
      in log_struct k ''rootdir'' (case rootdir data of None \<Rightarrow> LPtr | Some s \<Rightarrow> LS s) st)"

definition log_fi :: "'w kernel \<Rightarrow> fuse_file_info \<Rightarrow> ('w, 'm) proc_scheme \<Rightarrow> ('w, 'm) proc_scheme" where
  "log_fi k fi st =
     (let st = log_msg k ''fi:'' [] st;
          st = log_struct k ''flags'' (LI (fi_flags fi)) st;
          st = log_struct k ''writepage'' (LI (of_bool (fi_writepage fi))) st;
          st = log_struct k ''direct_io'' (LI (of_bool (fi_direct_io fi))) st;
          st = log_struct k ''keep_cache'' (LI (of_bool (fi_keep_cache fi))) st;
          st = log_struct k ''fh'' (LI (int (unat (fi_fh fi)))) st
      in log_struct k ''lock_owner'' (LI (int (unat (fi_lock_owner fi)))) st)"

definition log_name :: "int \<Rightarrow> int \<Rightarrow> int \<Rightarrow> string" where
  \<comment> \<open>the file name for \<open>tm_mon\<close>, \<open>tm_mday\<close>, \<open>tm_year\<close>\<close>
  "log_name mon mday year =
     ''../log/nosqlFS_'' @ dec (mon + 1) @ ''-'' @ dec mday @ ''-'' @ dec (year + 1900) @ ''.log''"

datatype 'a outcome = Aborted | Exited int | Continues 'a

definition log_open :: "'w kernel \<Rightarrow> ('w, 'm) proc_scheme \<Rightarrow> int outcome \<times> ('w, 'm) proc_scheme" where
  \<comment> \<open>the name overflowing its buffer of 30 bytes is \<open>Aborted\<close>\<close>
  "log_open k st =
     (let (r, st) = sys k SysGmtime st
      in case r_data r of
           TimeData mon mday year \<Rightarrow>
             (let name = log_name mon mday year
              in if length name + 1 > 30 then (Aborted, st)
                 else let (r, st) = sys k (SysFopen name ''a'') st
                      in (if r_ret r < 0 then Exited 1 else Continues (r_ret r), st))
         | _ \<Rightarrow> (Aborted, st))"

section \<open>Callbacks\<close>

definition call :: "'w kernel \<Rightarrow> syscall \<Rightarrow> string \<Rightarrow> ('w, 'm) op" where
  \<comment> \<open>\<open>log_syscall(name, call, 0)\<close>\<close>
  "call k c func st = (let (r, st) = sys k c st in log_syscall k func (r_ret r) 0 st)"

definition nosqlFS_getattr :: "'w kernel \<Rightarrow> string \<Rightarrow> stat \<Rightarrow> ('w, 'm) proc_scheme \<Rightarrow> int \<times> stat \<times> ('w, 'm) proc_scheme" where
  \<comment> \<open>\<open>stbuf\<close>: what the buffer holds before and after\<close>
  "nosqlFS_getattr k path stbuf st =
     (let st = log_msg k ''nosqlFS_getattr(char * path = %s, struct stat * stbuf = %08x)'' [LS path, LPtr] st;
          (r, st) = sys k (SysLstat path) st;
          (ret, st) = log_syscall k ''lstat'' (r_ret r) 0 st
      in (ret, case r_data r of StatData s \<Rightarrow> s | _ \<Rightarrow> stbuf, st))"

definition nosqlFS_access :: "'w kernel \<Rightarrow> string \<Rightarrow> int \<Rightarrow> ('w, 'm) op" where
  "nosqlFS_access k path amode st =
     (let (r, st) = sys k (SysAccess path amode) st in (if r_ret r < 0 then - p_errno st else 0, st))"

definition dirent_stat :: "dirent \<Rightarrow> stat" where
  "dirent_stat de = zero_stat\<lparr>st_ino := d_ino de, st_mode := push_bit 12 (ucast (d_type de))\<rparr>"

partial_function (option) readdir_loop :: "'w kernel \<Rightarrow> ('b, ('w, 'm) proc_scheme) filler \<Rightarrow> int \<Rightarrow> 'b \<Rightarrow> ('w, 'm) proc_scheme \<Rightarrow> ('b \<times> ('w, 'm) proc_scheme) option" where
  \<comment> \<open>\<open>None\<close>: the directory stream never ends and the buffer never fills\<close>
  "readdir_loop k filler dp buf st =
     (let (r, st) = sys k (SysReaddir dp) st
      in case r_data r of
           DirentData de \<Rightarrow>
             (let st = log_msg k ''calling filler with name %s'' [LS (d_name de)] st;
                  (full, buf, st) = filler buf (d_name de) (Some (dirent_stat de)) 0 0 st
              in if full \<noteq> 0 then Some (buf, st) else readdir_loop k filler dp buf st)
         | _ \<Rightarrow> Some (buf, st))"

definition nosqlFS_readdir :: "'w kernel \<Rightarrow> string \<Rightarrow> 'b \<Rightarrow> ('b, ('w, 'm) proc_scheme) filler \<Rightarrow> int \<Rightarrow> ('w, 'm) proc_scheme \<Rightarrow> (int \<times> 'b \<times> ('w, 'm) proc_scheme) option" where
  "nosqlFS_readdir k path buf filler offset st =
     (let st = log_msg k ''nosqlFS_opendir(path = \"%s\", fuse_file_info = 0x%08x)'' [LS path, LPtr] st;
          (r, st) = sys k (SysOpendir path) st
      in if r_ret r < 0 then let (ret, st) = log_error k ''nosqlFS_opendir'' st in Some (ret, buf, st)
         else do {
           let st = log_msg k ''nosqlFS_readdir(path = \"%s\", buf = 0x%08x, fuse_fill_dir_t = 0x%08x, offset = %lld, fi = 0x%08x)''
             [LS path, LPtr, LPtr, LI offset, LPtr] st;
           (buf, st) \<leftarrow> readdir_loop k filler (r_ret r) buf st;
           let (_, st) = sys k (SysClosedir (r_ret r)) st;
           Some (0, buf, st)
         })"

definition nosqlFS_releasedir :: "'w kernel \<Rightarrow> string \<Rightarrow> ('w, 'm) op" where
  "nosqlFS_releasedir k path st =
     (0, log_msg k ''nosqlFS_releasedir(path = \"%s\", fi = 0x%08x)'' [LS path, LPtr] st)"

definition overlay :: "'a list \<Rightarrow> 'a list \<Rightarrow> 'a list" where
  \<comment> \<open>the beginning of a buffer is overwritten\<close>
  "overlay xs buf = take (length buf) xs @ drop (length xs) buf"

definition nosqlFS_readlink :: "'w kernel \<Rightarrow> string \<Rightarrow> bytes \<Rightarrow> ('w, 'm) proc_scheme \<Rightarrow> int \<times> bytes \<times> ('w, 'm) proc_scheme" where
  \<comment> \<open>\<open>link\<close> is the caller's buffer of \<open>size\<close> bytes\<close>
  "nosqlFS_readlink k path link st =
     (let st = log_msg k ''nosqlFS_readlink(path = \"%s\", link = \"S\", size = %d)'' [LS path, LPtr, LS path] st;
          (r, st) = sys k (SysReadlink path (length link - 1)) st;
          link = (case r_data r of ByteData b \<Rightarrow> overlay b link | _ \<Rightarrow> link);
          (retstat, st) = log_syscall k ''readlink'' (to_int32 (r_ret r)) 0 st
      in if retstat > 0 then (0, link[nat retstat := 0], st) else (retstat, link, st))"

definition nosqlFS_mknod :: "'w kernel \<Rightarrow> string \<Rightarrow> 32 word \<Rightarrow> 64 word \<Rightarrow> ('w, 'm) op" where
  "nosqlFS_mknod k path mode rdev st =
     (let st = log_msg k ''nosqlFS_mknod(path = \"%s\", mode = 0%3o, dev = %lld)''
            [LS path, LI (int (unat mode)), LI (int (unat rdev))] st;
          (retstat, st) =
            (if S_ISREG mode then
               let (fd, st) = call k (SysOpen path (O_CREAT OR O_EXCL OR O_WRONLY) mode) ''open'' st
               in if fd \<ge> 0 then call k (SysClose fd) ''close'' st else (fd, st)
             else if S_ISFIFO mode then call k (SysMkfifo path mode) ''mkfifio'' st
             else call k (SysMknod path mode rdev) ''mknod'' st)
      in (if retstat = -1 then - p_errno st else 0, st))"

definition nosqlFS_mkdir :: "'w kernel \<Rightarrow> string \<Rightarrow> 32 word \<Rightarrow> ('w, 'm) op" where
  "nosqlFS_mkdir k path mode st =
     call k (SysMkdir path mode) ''mkdir''
       (log_msg k ''nosqlFS_mkdir(path = \"%s\", mode = 0%3o)'' [LS path, LI (int (unat mode))] st)"

definition nosqlFS_unlink :: "'w kernel \<Rightarrow> string \<Rightarrow> ('w, 'm) op" where
  "nosqlFS_unlink k path st =
     call k (SysUnlink path) ''unlink'' (log_msg k ''nosqlFS_unlink(path = \"%s\")'' [LS path] st)"

definition nosqlFS_rmdir :: "'w kernel \<Rightarrow> string \<Rightarrow> ('w, 'm) op" where
  "nosqlFS_rmdir k path st =
     call k (SysRmdir path) ''rmdir'' (log_msg k ''nosqlFS_rmdir(path = \"%s\")'' [LS path] st)"

definition nosqlFS_symlink :: "'w kernel \<Rightarrow> string \<Rightarrow> string \<Rightarrow> ('w, 'm) op" where
  "nosqlFS_symlink k src dest st =
     call k (SysSymlink src dest) ''symlink'' (log_msg k ''nosqlFS_symlink(from = \"%s\", to = \"%s\")'' [LS src, LS dest] st)"

definition nosqlFS_rename :: "'w kernel \<Rightarrow> string \<Rightarrow> string \<Rightarrow> 32 word \<Rightarrow> ('w, 'm) op" where
  "nosqlFS_rename k src dest flags st =
     call k (SysRename src dest) ''rename''
       (log_msg k ''nosqlFS_rename(from = \"%s\", to = \"%s\", flags = %u)'' [LS src, LS dest, LI (int (unat flags))] st)"

definition nosqlFS_link :: "'w kernel \<Rightarrow> string \<Rightarrow> string \<Rightarrow> ('w, 'm) op" where
  "nosqlFS_link k src dest st =
     call k (SysLink src dest) ''link'' (log_msg k ''nosqlFS_link(from = \"%s\", to = \"%s\")'' [LS src, LS dest] st)"

definition nosqlFS_chmod :: "'w kernel \<Rightarrow> string \<Rightarrow> 32 word \<Rightarrow> ('w, 'm) op" where
  "nosqlFS_chmod k path mode st =
     call k (SysChmod path mode) ''chmod''
       (log_msg k ''nosqlFS_chmod(path = \"%s\", mode = 0%3o)'' [LS path, LI (int (unat mode))] st)"

definition nosqlFS_chown :: "'w kernel \<Rightarrow> string \<Rightarrow> 32 word \<Rightarrow> 32 word \<Rightarrow> ('w, 'm) op" where
  "nosqlFS_chown k path uid gid st =
     call k (SysLchown path uid gid) ''lchown''
       (log_msg k ''nosqlFS_chown(path = \"%s\", uid = %d, gid = %d)'' [LS path, LI (sint uid), LI (sint gid)] st)"

definition nosqlFS_truncate :: "'w kernel \<Rightarrow> string \<Rightarrow> int \<Rightarrow> ('w, 'm) op" where
  "nosqlFS_truncate k path sz st =
     call k (SysTruncate path sz) ''truncate''
       (log_msg k ''nosqlFS_truncate(path = \"%s\", size = %lld)'' [LS path, LI sz] st)"

definition nosqlFS_open :: "'w kernel \<Rightarrow> string \<Rightarrow> fuse_file_info \<Rightarrow> ('w, 'm) op" where
  "nosqlFS_open k path fi st =
     (let st = log_msg k ''nosqlFS_open(path = \"%s\", fuse_file_info = 0x%08x)'' [LS path, LPtr] st;
          (retstat, st) = call k (SysOpen path (fi_flags fi) 0) ''open'' st;
          st = log_fi k fi st
      in if retstat = -1 then (- p_errno st, st)
         else (0, snd (sys k (SysClose retstat) st)))"

definition nosqlFS_read :: "'w kernel \<Rightarrow> string \<Rightarrow> bytes \<Rightarrow> int \<Rightarrow> ('w, 'm) proc_scheme \<Rightarrow> int \<times> bytes \<times> ('w, 'm) proc_scheme" where
  \<comment> \<open>\<open>buf\<close> is the caller's buffer of \<open>size\<close> bytes\<close>
  "nosqlFS_read k path buf offset st =
     (let (fd, st) = call k (SysOpen path O_RDONLY 0) ''open'' st
      in if fd = -1 then (- p_errno st, buf, st)
         else let
           st = log_msg k ''nosqlFS_read(path = \"%s\", buf = 0x%08x, size = %d, offset = %lld, fuse_file_info = 0x%08x)''
             [LS path, LPtr, LI (int (length buf)), LI offset, LPtr] st;
           (r, st) = sys k (SysPread fd (length buf) offset) st;
           buf = (case r_data r of ByteData b \<Rightarrow> overlay b buf | _ \<Rightarrow> buf);
           (retstat, st) = log_syscall k ''pread'' (to_int32 (r_ret r)) 0 st;
           (_, st) = sys k (SysClose fd) st
         in (retstat, buf, st))"

definition nosqlFS_write :: "'w kernel \<Rightarrow> string \<Rightarrow> bytes \<Rightarrow> int \<Rightarrow> ('w, 'm) op" where
  "nosqlFS_write k path buf offset st =
     (let st = log_msg k ''nosqlFS_write(path = \"%s\", buf = 0x%08x, size = %d, offset = %lld, fuse_file_info = 0x%08x)''
            [LS path, LPtr, LI (int (length buf)), LI offset, LPtr] st;
          (fd, st) = call k (SysOpen path O_WRONLY 0) ''open'' st
      in if fd = -1 then (- p_errno st, st)
         else let
           (r, st) = sys k (SysPwrite fd buf offset) st;
           (retstat, st) = log_syscall k ''pwrite'' (to_int32 (r_ret r)) 0 st;
           (_, st) = sys k (SysClose fd) st
         in (retstat, st))"

definition nosqlFS_statfs :: "'w kernel \<Rightarrow> string \<Rightarrow> statvfs \<Rightarrow> ('w, 'm) proc_scheme \<Rightarrow> int \<times> statvfs \<times> ('w, 'm) proc_scheme" where
  "nosqlFS_statfs k path stbuf st =
     (let st = log_msg k ''nosqlFS_statfs(path = \"%s\", statvfs = 0x%08x)'' [LS path, LPtr] st;
          (r, st) = sys k (SysStatvfs path) st;
          (ret, st) = log_syscall k ''statvfs'' (r_ret r) 0 st
      in (ret, case r_data r of StatvfsData s \<Rightarrow> s | _ \<Rightarrow> stbuf, st))"

definition nosqlFS_flush :: "'w kernel \<Rightarrow> string \<Rightarrow> ('w, 'm) op" where
  "nosqlFS_flush k path st = (0, log_msg k ''nosqlFS_flush(path = \"%s\", fuse_file_info = 0x%08x)'' [LS path, LPtr] st)"

definition nosqlFS_release :: "'w kernel \<Rightarrow> string \<Rightarrow> ('w, 'm) op" where
  "nosqlFS_release k path st =
     (0, log_msg k ''nosqlFS_release(path = \"%s\", fuse_file_info = 0x%08x)'' [LS path, LPtr] st)"

definition nosqlFS_init ::
  "'w kernel \<Rightarrow> fuse_conn_info \<Rightarrow> fuse_context \<Rightarrow> nosqlFS_state \<Rightarrow> ('w, 'm) proc_scheme \<Rightarrow> nosqlFS_state \<times> ('w, 'm) proc_scheme" where
  \<comment> \<open>\<open>data\<close> is the private data of the context, returned as it is\<close>
  "nosqlFS_init k conn context data st =
     (data, log_fuse_context k context data (log_conn k conn (log_msg k ''nosqlFS_init()'' [] st)))"

section \<open>main\<close>

definition nosqlFS_start ::
  "'w kernel \<Rightarrow> string list \<Rightarrow> mem \<Rightarrow> ('w, 'm) proc_scheme \<Rightarrow> (string list \<times> nosqlFS_state) outcome \<times> ('w, 'm) proc_scheme" where
  \<comment> \<open>up to \<open>fuse_main\<close>, which gets these arguments and this data; the messages to the terminal are left out\<close>
  "nosqlFS_start k argv m st =
     (if \<not> fst (malloc m) then (Aborted, st)
      else if length argv < 3 then (Aborted, st)
      else let
        (r, st) = sys k (SysRealpath (last argv)) st;
        rootdir = (case r_data r of StringData s \<Rightarrow> if r_ret r < 0 then None else Some s | _ \<Rightarrow> None);
        (log, st) = log_open k st
      in (case log of
            Continues f \<Rightarrow> Continues ((butlast argv)[length argv - 2 := last argv], \<lparr>logFile = f, rootdir = rootdir\<rparr>)
          | Exited e \<Rightarrow> Exited e
          | Aborted \<Rightarrow> Aborted, st))"

end
