(* ===== verification/Nosqlfs_Props.thy ===== *)
theory Nosqlfs_Props
  imports Nosqlfs
begin

text \<open>
  What the callbacks of src/src/nosqlFS.c promise when writing the log does not fail: the simple
  ones are the system call they are named after, \<open>readdir\<close> hands every entry to the filler, and
  the log file's name fits its buffer. The last section shows what \<open>open\<close> reports when the file
  cannot be opened.
\<close>

section \<open>Logging\<close>

definition log_quiet :: "'w kernel \<Rightarrow> bool" where
  "log_quiet k \<longleftrightarrow> (\<forall>f a w. 0 \<le> r_ret (fst (k (SysLog f a) w)))"

inductive log_only :: "'w kernel \<Rightarrow> 'w \<Rightarrow> 'w \<Rightarrow> bool" for k where
  log_none [intro]: "log_only k w w"
| log_more: "log_only k w w' \<Longrightarrow> log_only k w (snd (k (SysLog f a) w'))"

definition result :: "reply \<Rightarrow> int" where
  "result r = (if r_ret r < 0 then - r_errno r else r_ret r)"

lemma log_msg_quiet [simp]:
  assumes "log_quiet k"
  shows "p_errno (log_msg k f a st) = p_errno st"
proof -
  have "\<not> r_ret (fst (k (SysLog f a) (p_world st))) < 0" using assms by (simp add: log_quiet_def not_less)
  then show ?thesis by (simp add: log_msg_def)
qed

lemma log_msg_world: "log_only k w (p_world st) \<Longrightarrow> log_only k w (p_world (log_msg k f a st))"
  by (simp add: log_msg_def log_more)

lemma log_error_quiet: "log_quiet k \<Longrightarrow> fst (log_error k func st) = - p_errno st"
  by (simp add: log_error_def Let_def)

lemma log_syscall_quiet:
  assumes "log_quiet k"
  shows "fst (log_syscall k func ret 0 st) = (if ret < 0 then - p_errno st else ret)"
    "p_errno (snd (log_syscall k func ret 0 st)) = p_errno st"
  using assms by (auto simp: log_syscall_def log_retstat_def log_error_def Let_def)

lemma log_syscall_world: "log_only k w (p_world st) \<Longrightarrow> log_only k w (p_world (snd (log_syscall k func ret m st)))"
  by (simp add: log_syscall_def log_retstat_def log_error_def Let_def log_msg_world)

lemma call_quiet:
  assumes "log_quiet k"
  shows "fst (call k c func st) = result (fst (k c (p_world st)))"
    "p_errno (snd (call k c func st)) = p_errno (snd (sys k c st))"
  using assms by (simp_all add: call_def result_def log_syscall_quiet split: prod.splits)
    (simp_all add: sys_def Let_def split: prod.splits)

lemma call_world: "log_only k (snd (k c (p_world st))) (p_world (snd (call k c func st)))"
proof -
  have "log_only k (p_world (snd (sys k c st))) (p_world (snd (call k c func st)))"
  proof -
    obtain r st1 where r: "sys k c st = (r, st1)" by fastforce
    then show ?thesis using log_syscall_world[OF log_none, of k st1 func "r_ret r" 0] by (simp add: call_def)
  qed
  then show ?thesis by simp
qed

section \<open>The callbacks that are one system call\<close>

definition passes :: "'w kernel \<Rightarrow> syscall \<Rightarrow> ('w, 'm) op \<Rightarrow> bool" where
  \<comment> \<open>besides log lines, the operation is the system call, with \<open>-errno\<close> as its error\<close>
  "passes k c f \<longleftrightarrow> (\<forall>st. \<exists>w. log_only k (p_world st) w \<and> fst (f st) = result (fst (k c w)) \<and>
     log_only k (snd (k c w)) (p_world (snd (f st))))"

lemma call_passes:
  assumes "log_quiet k"
  shows "passes k c (\<lambda>st. call k c func (log_msg k f a st))"
  unfolding passes_def
proof
  fix st
  let ?w = "p_world (log_msg k f a st)"
  show "\<exists>w. log_only k (p_world st) w \<and> fst (call k c func (log_msg k f a st)) = result (fst (k c w)) \<and>
     log_only k (snd (k c w)) (p_world (snd (call k c func (log_msg k f a st))))"
    by (intro exI[of _ ?w] conjI log_msg_world log_none call_world) (simp add: call_quiet[OF assms])
qed

lemma access_passes:
  "\<exists>w. log_only k (p_world st) w \<and>
     fst (nosqlFS_access k path m st) = (if r_ret (fst (k (SysAccess path m) w)) < 0 then - r_errno (fst (k (SysAccess path m) w)) else 0)"
  by (rule exI[of _ "p_world st"])
    (auto simp: nosqlFS_access_def log_none split: prod.splits, auto simp: sys_def Let_def split: prod.splits)

text \<open>
  Property C29. As long as the log can be written, each of the callbacks mkdir, unlink, rmdir,
  symlink, rename, link, chmod, chown and truncate performs exactly the system call of its name
  (lchown for chown) on the path as given, nothing else but log lines, and returns the call's
  value or \<open>-errno\<close>; rename ignores its flags.
\<close>

theorem callbacks_pass_through:
  assumes "log_quiet k"
  shows "passes k (SysMkdir path mode) (nosqlFS_mkdir k path mode) \<and>
    passes k (SysUnlink path) (nosqlFS_unlink k path) \<and>
    passes k (SysRmdir path) (nosqlFS_rmdir k path) \<and>
    passes k (SysSymlink path dest) (nosqlFS_symlink k path dest) \<and>
    passes k (SysRename path dest) (nosqlFS_rename k path dest flags) \<and>
    passes k (SysLink path dest) (nosqlFS_link k path dest) \<and>
    passes k (SysChmod path mode) (nosqlFS_chmod k path mode) \<and>
    passes k (SysLchown path uid gid) (nosqlFS_chown k path uid gid) \<and>
    passes k (SysTruncate path sz) (nosqlFS_truncate k path sz)"
  by (simp add: call_passes[OF assms] nosqlFS_mkdir_def[abs_def] nosqlFS_unlink_def[abs_def] nosqlFS_rmdir_def[abs_def]
      nosqlFS_symlink_def[abs_def] nosqlFS_rename_def[abs_def] nosqlFS_link_def[abs_def]
      nosqlFS_chmod_def[abs_def] nosqlFS_chown_def[abs_def] nosqlFS_truncate_def[abs_def])

section \<open>readdir\<close>

definition logged :: "'w kernel \<Rightarrow> ('w, 'm) proc_scheme \<Rightarrow> ('w, 'm) proc_scheme \<Rightarrow> bool" where
  \<comment> \<open>nothing but log lines in between\<close>
  "logged k st st' \<longleftrightarrow> (\<exists>w. log_only k (p_world st) w \<and> st' = st\<lparr>p_world := w\<rparr>)"

lemma logged_refl: "logged k st st"
  unfolding logged_def by (intro exI[of _ "p_world st"]) (simp add: log_none)

lemma logged_msg: "log_quiet k \<Longrightarrow> logged k st (log_msg k f a st)"
proof -
  assume "log_quiet k"
  then have "\<not> r_ret (fst (k (SysLog f a) (p_world st))) < 0" by (simp add: log_quiet_def not_less)
  then have "log_msg k f a st = st\<lparr>p_world := snd (k (SysLog f a) (p_world st))\<rparr>"
    by (simp add: log_msg_def sys_def split_beta)
  then show ?thesis unfolding logged_def
    by (intro exI[of _ "snd (k (SysLog f a) (p_world st))"] conjI log_more[OF log_none])
qed

definition leaves_stream :: "'w kernel \<Rightarrow> ('b, ('w, 'm) proc_scheme) filler \<Rightarrow> ('w \<Rightarrow> 'w \<Rightarrow> bool) \<Rightarrow> bool" where
  \<comment> \<open>\<open>R\<close> relates the worlds before and after anything that happens between two reads of the
      directory: log lines and calls of the filler\<close>
  "leaves_stream k fl R \<longleftrightarrow> reflp R \<and> transp R \<and> (\<forall>f a w. R w (snd (k (SysLog f a) w))) \<and>
     (\<forall>buf name st off flags s. R (p_world s) (p_world (snd (snd (fl buf name st off flags s)))))"

fun stream :: "'w kernel \<Rightarrow> ('w \<Rightarrow> 'w \<Rightarrow> bool) \<Rightarrow> int \<Rightarrow> 'w \<Rightarrow> dirent list \<Rightarrow> bool" where
  \<comment> \<open>the directory stream yields these entries, whatever of \<open>R\<close> happens in between\<close>
  "stream k R dp w [] \<longleftrightarrow> (\<forall>de. r_data (fst (k (SysReaddir dp) w)) \<noteq> DirentData de)"
| "stream k R dp w (de # ds) \<longleftrightarrow> r_data (fst (k (SysReaddir dp) w)) = DirentData de \<and>
     (\<forall>w'. R (snd (k (SysReaddir dp) w)) w' \<longrightarrow> stream k R dp w' ds)"

inductive fills :: "'w kernel \<Rightarrow> ('b, ('w, 'm) proc_scheme) filler \<Rightarrow> int \<Rightarrow> dirent list \<Rightarrow>
    'b \<Rightarrow> ('w, 'm) proc_scheme \<Rightarrow> 'b \<Rightarrow> ('w, 'm) proc_scheme \<Rightarrow> bool" for k fl dp where
  \<comment> \<open>the filler is called on one entry after the other, with its attributes, the offset 0 and no
      flags, until it is full or the stream has ended\<close>
  fills_end: "fills k fl dp [] buf st buf (snd (sys k (SysReaddir dp) st))"
| fills_full: "logged k (snd (sys k (SysReaddir dp) st)) st1 \<Longrightarrow>
    fl buf (d_name de) (Some (dirent_stat de)) 0 0 st1 = (full, buf', st') \<Longrightarrow> full \<noteq> 0 \<Longrightarrow>
    fills k fl dp (de # ds) buf st buf' st'"
| fills_more: "logged k (snd (sys k (SysReaddir dp) st)) st1 \<Longrightarrow>
    fl buf (d_name de) (Some (dirent_stat de)) 0 0 st1 = (0, buf1, st2) \<Longrightarrow> fills k fl dp ds buf1 st2 buf' st' \<Longrightarrow>
    fills k fl dp (de # ds) buf st buf' st'"

inductive_cases fills_ConsE: "fills k fl dp (de # ds) buf st buf' st'"
inductive_cases fills_NilE: "fills k fl dp [] buf st buf' st'"

lemma logged_leaves: "leaves_stream k fl R \<Longrightarrow> logged k st st' \<Longrightarrow> R (p_world st) (p_world st')"
proof -
  assume R: "leaves_stream k fl R" and l: "logged k st st'"
  have "R w w'" if "log_only k w w'" for w w' using that
  proof induction
    case (log_none w)
    then show ?case using R by (simp add: leaves_stream_def reflp_def)
  next
    case (log_more w w' f a)
    have "R w' (snd (k (SysLog f a) w'))" using R by (simp add: leaves_stream_def)
    with log_more.IH show ?case using R unfolding leaves_stream_def transp_def by blast
  qed
  then show ?thesis using l by (auto simp: logged_def)
qed

lemma readdir_loop_fills:
  assumes "log_quiet k" and R: "leaves_stream k fl R" and "stream k R dp (p_world st) ds"
  shows "\<exists>buf' st'. readdir_loop k fl dp buf st = Some (buf', st') \<and> fills k fl dp ds buf st buf' st'"
  using assms(3)
proof (induction ds arbitrary: buf st)
  case Nil
  obtain r st1 where r: "sys k (SysReaddir dp) st = (r, st1)" by fastforce
  then have "fst (sys k (SysReaddir dp) st) = r" by simp
  then have "r = fst (k (SysReaddir dp) (p_world st))" by simp
  with Nil r have "readdir_loop k fl dp buf st = Some (buf, st1)" by (subst readdir_loop.simps) (auto split: payload.splits)
  then show ?case using fills_end[of k fl dp buf st] r by auto
next
  case (Cons de ds)
  obtain r st1 where r: "sys k (SysReaddir dp) st = (r, st1)" by fastforce
  then have "fst (sys k (SysReaddir dp) st) = r" "snd (sys k (SysReaddir dp) st) = st1" by simp_all
  then have r1: "r = fst (k (SysReaddir dp) (p_world st))" "p_world st1 = snd (k (SysReaddir dp) (p_world st))" by auto
  let ?st = "log_msg k ''calling filler with name %s'' [LS (d_name de)] st1"
  obtain full buf1 st2 where f: "fl buf (d_name de) (Some (dirent_stat de)) 0 0 ?st = (full, buf1, st2)" by (metis prod_cases3)
  have lg: "logged k (snd (sys k (SysReaddir dp) st)) ?st" using r logged_msg[OF assms(1)] by simp
  have tr: "transp R" and "R (p_world ?st) (p_world (snd (snd (fl buf (d_name de) (Some (dirent_stat de)) 0 0 ?st))))"
    using R by (simp_all add: leaves_stream_def)
  then have b: "R (p_world ?st) (p_world st2)" unfolding f by simp
  have a: "R (snd (k (SysReaddir dp) (p_world st))) (p_world ?st)" using logged_leaves[OF R lg] r r1(2) by simp
  have "R (snd (k (SysReaddir dp) (p_world st))) (p_world st2)" by (rule transpD[OF tr, OF a b])
  then have "stream k R dp (p_world st2) ds" using Cons.prems by simp
  from Cons.IH[OF this, of buf1] obtain buf' st' where
    ih: "readdir_loop k fl dp buf1 st2 = Some (buf', st')" "fills k fl dp ds buf1 st2 buf' st'" by blast
  have loop: "readdir_loop k fl dp buf st = (if full \<noteq> 0 then Some (buf1, st2) else readdir_loop k fl dp buf1 st2)"
    using Cons.prems r r1(1) f by (subst readdir_loop.simps) simp
  show ?case
  proof (cases "full = 0")
    case True
    then show ?thesis using loop ih fills_more[OF lg, of fl buf de] f by auto
  next
    case False
    then show ?thesis using loop fills_full[OF lg, of fl buf de full buf1 st2 ds] f by auto
  qed
qed

text \<open>
  Property C31. \<open>readdir\<close> with any filler returns, when the directory stream is finite and neither log
  lines nor the filler disturb it. It opens the directory; when that fails, it reports the error and calls no
  filler. Otherwise it calls the filler once for each entry of the stream, in order, with the entry's
  name, its inode number and the type bits of its mode, the offset 0 and no flags, on the
  state the previous call left, until the filler is full or the stream ends; then it closes the directory and
  returns 0. Nothing else happens but log lines.
\<close>

theorem readdir_fills:
  assumes "log_quiet k" and "leaves_stream k fl R"
    and "\<And>w. R (p_world st) w \<Longrightarrow> r_ret (fst (k (SysOpendir path) w)) = dp \<and> r_errno (fst (k (SysOpendir path) w)) = e"
    and "\<And>w w'. R (p_world st) w \<Longrightarrow> R (snd (k (SysOpendir path) w)) w' \<Longrightarrow> stream k R dp w' ds"
  shows "\<exists>st1 st2. logged k st st1 \<and> logged k (snd (sys k (SysOpendir path) st1)) st2 \<and>
    (if dp < 0 then nosqlFS_readdir k path buf fl off st = Some (- e, buf, st2)
     else \<exists>buf' st3. fills k fl dp ds buf st2 buf' st3 \<and>
       nosqlFS_readdir k path buf fl off st = Some (0, buf', snd (sys k (SysClosedir dp) st3)))"
proof -
  let ?st = "log_msg k ''nosqlFS_opendir(path = \"%s\", fuse_file_info = 0x%08x)'' [LS path, LPtr] st"
  have lg: "logged k st ?st" by (rule logged_msg[OF assms(1)])
  note w = logged_leaves[OF assms(2) lg]
  obtain r st1 where r: "sys k (SysOpendir path) ?st = (r, st1)" by fastforce
  then have "fst (sys k (SysOpendir path) ?st) = r" "snd (sys k (SysOpendir path) ?st) = st1" by simp_all
  then have r1: "r_ret r = dp" "r_errno r = e" "p_world st1 = snd (k (SysOpendir path) (p_world ?st))"
    "dp < 0 \<Longrightarrow> p_errno st1 = e" using assms(3)[OF w] by auto
  show ?thesis
  proof (cases "dp < 0")
    case True
    obtain x st2 where e: "log_error k ''nosqlFS_opendir'' st1 = (x, st2)" by fastforce
    then have "x = - e" using log_error_quiet[OF assms(1), of "''nosqlFS_opendir''" st1] r1(4)[OF True] by simp
    then have "nosqlFS_readdir k path buf fl off st = Some (- e, buf, st2)"
      using True r r1(1) e by (simp add: nosqlFS_readdir_def)
    moreover have "logged k st1 st2" using e logged_msg[OF assms(1)] by (auto simp: log_error_def Let_def)
    ultimately show ?thesis using lg r True by (intro exI[of _ ?st] exI[of _ st2]) simp
  next
    case False
    let ?st2 = "log_msg k ''nosqlFS_readdir(path = \"%s\", buf = 0x%08x, fuse_fill_dir_t = 0x%08x, offset = %lld, fi = 0x%08x)''
             [LS path, LPtr, LPtr, LI off, LPtr] st1"
    have l2: "logged k st1 ?st2" by (rule logged_msg[OF assms(1)])
    have "R (snd (k (SysOpendir path) (p_world ?st))) (p_world ?st2)"
      using logged_leaves[OF assms(2) l2] unfolding r1(3) .
    from readdir_loop_fills[OF assms(1,2) assms(4)[OF w this]] obtain buf' st3 where
      l: "readdir_loop k fl dp buf ?st2 = Some (buf', st3)" "fills k fl dp ds buf ?st2 buf' st3" by blast
    then have "nosqlFS_readdir k path buf fl off st = Some (0, buf', snd (sys k (SysClosedir dp) st3))"
      using False r r1(1) by (auto simp: nosqlFS_readdir_def split: prod.splits)
    then show ?thesis using lg r l2 l(2) False by (intro exI[of _ ?st] exI[of _ ?st2]) auto
  qed
qed

section \<open>The log file's name\<close>

lemma dec_length:
  assumes "0 \<le> i" "i \<le> int n"
  shows "length (dec i) \<le> length (digits 10 n)"
  using digits_length_mono[of "nat i" n 10] assms by (simp add: dec_def)

text \<open>
  For every date up to the year 9999 the name of the log file, with its
  terminator, fits the 30 bytes \<open>log_open\<close> has for it (and it fills them in December).
\<close>

theorem log_name_fits:
  assumes "0 \<le> mon" "mon \<le> 11" "1 \<le> mday" "mday \<le> 31" "0 \<le> year + 1900" "year + 1900 \<le> 9999"
  shows "length (log_name mon mday year) + 1 \<le> 30"
proof -
  have "length (dec (mon + 1)) \<le> length (digits 10 12)" by (rule dec_length) (use assms in simp_all)
  moreover have "length (dec mday) \<le> length (digits 10 31)" by (rule dec_length) (use assms in simp_all)
  moreover have "length (dec (year + 1900)) \<le> length (digits 10 9999)" by (rule dec_length) (use assms in simp_all)
  moreover have "length (digits 10 12) = 2" "length (digits 10 31) = 2" "length (digits 10 9999) = 4"
    by (simp_all add: digits_eval)
  ultimately show ?thesis by (simp add: log_name_def)
qed

lemma log_name_fits_witness: "length (log_name 11 31 123) + 1 \<le> 30 \<and> length (log_name 11 31 123) + 1 = 30"
proof
  show "length (log_name 11 31 123) + 1 \<le> 30" by (rule log_name_fits) simp_all
  show "length (log_name 11 31 123) + 1 = 30" by (simp add: log_name_def dec_def digits_eval)
qed

section \<open>A failing open\<close>

lemma log_fi_quiet: "log_quiet k \<Longrightarrow> p_errno (log_fi k fi st) = p_errno st"
  by (simp add: log_fi_def log_struct_def Let_def)

text \<open>
  Property C30. \<open>log_syscall\<close> turns a failure into \<open>-errno\<close>, but \<open>open\<close> tests its result for \<open>-1\<close>:
  when the file cannot be opened, the callback returns 0, success, for every error but
  \<open>EPERM\<close>, whose number happens to be 1.
\<close>

theorem open_reports_only_EPERM:
  assumes "log_quiet k"
    and "\<And>w. r_ret (fst (k (SysOpen path (fi_flags fi) 0) w)) < 0 \<and>
      r_errno (fst (k (SysOpen path (fi_flags fi) 0) w)) = e"
  shows "fst (nosqlFS_open k path fi st) = (if e = EPERM then - EPERM else 0)"
proof -
  let ?c = "SysOpen path (fi_flags fi) 0"
  let ?st = "log_msg k ''nosqlFS_open(path = \"%s\", fuse_file_info = 0x%08x)'' [LS path, LPtr] st"
  obtain ret st1 where c: "call k ?c ''open'' ?st = (ret, st1)" by fastforce
  have "ret = - e" "p_errno st1 = e"
    using call_quiet[OF assms(1), of ?c "''open''" ?st] assms(2) c by (auto simp: result_def)
  then show ?thesis using c log_fi_quiet[OF assms(1), of fi st1] by (simp add: nosqlFS_open_def Let_def)
qed

section \<open>A small operating system, for the witnesses\<close>

definition toy_kernel :: "nat kernel" where
  \<comment> \<open>one directory, handle 3, with two entries; the world counts the entries read. Other calls succeed,
      but nothing can be opened (\<open>ENOENT\<close>)\<close>
  "toy_kernel c w =
     (case c of
        SysOpendir p \<Rightarrow> (\<lparr>r_ret = 3, r_errno = 0, r_data = NoData\<rparr>, 0)
      | SysReaddir dp \<Rightarrow>
          (if w = 0 then (\<lparr>r_ret = 0, r_errno = 0, r_data = DirentData \<lparr>d_ino = 5, d_type = 4, d_name = ''a''\<rparr>\<rparr>, 1)
           else if w = 1 then (\<lparr>r_ret = 0, r_errno = 0, r_data = DirentData \<lparr>d_ino = 6, d_type = 8, d_name = ''b''\<rparr>\<rparr>, 2)
           else (\<lparr>r_ret = 0, r_errno = 0, r_data = NoData\<rparr>, w))
      | SysOpen p f m \<Rightarrow> (\<lparr>r_ret = -1, r_errno = ENOENT, r_data = NoData\<rparr>, w)
      | _ \<Rightarrow> (\<lparr>r_ret = 0, r_errno = 0, r_data = NoData\<rparr>, w))"

lemma toy_quiet: "log_quiet toy_kernel"
  by (simp add: log_quiet_def toy_kernel_def)

lemma toy_log: "log_only toy_kernel w w' \<Longrightarrow> w' = w"
  by (induction rule: log_only.induct) (simp_all add: toy_kernel_def)

lemma callbacks_pass_through_witness:
  "\<exists>w. log_only toy_kernel 0 w \<and>
    fst (nosqlFS_unlink toy_kernel ''/x'' \<lparr>p_world = 0, p_errno = 0\<rparr>) = result (fst (toy_kernel (SysUnlink ''/x'') w))"
proof -
  have "passes toy_kernel (SysUnlink ''/x'') (nosqlFS_unlink toy_kernel ''/x'')"
    using callbacks_pass_through[OF toy_quiet, of "''/x''" 0 "''/y''" 0 0 0 0] by blast
  from this[unfolded passes_def, THEN spec, of "\<lparr>p_world = 0, p_errno = 0\<rparr>"] show ?thesis by auto
qed

definition collect :: "(string \<times> int \<times> 32 word) list \<Rightarrow> string \<Rightarrow> stat option \<Rightarrow> int \<Rightarrow> 32 word \<Rightarrow>
    (nat, 'm) proc_scheme \<Rightarrow> int \<times> (string \<times> int \<times> 32 word) list \<times> (nat, 'm) proc_scheme" where
  \<comment> \<open>a filler that notes its arguments, and is full after two entries\<close>
  "collect buf name st off flags s = (if length buf \<ge> 1 then 1 else 0, buf @ [(name, off, flags)], s)"

lemma readdir_fills_witness:
  "\<exists>st'. nosqlFS_readdir toy_kernel ''/d'' [] collect 8 \<lparr>p_world = 7, p_errno = 0\<rparr> =
    Some (0, [(''a'', 0, 0), (''b'', 0, 0)], st')"
proof -
  let ?st = "\<lparr>p_world = 7, p_errno = 0\<rparr>"
  let ?ds = "[\<lparr>d_ino = 5, d_type = 4, d_name = ''a''\<rparr>, \<lparr>d_ino = 6, d_type = 8, d_name = ''b''\<rparr>]"
  have R: "leaves_stream toy_kernel collect (=)"
    by (auto simp: leaves_stream_def reflp_def transp_def toy_kernel_def collect_def)
  have "stream toy_kernel (=) 3 0 ?ds" by (simp add: toy_kernel_def)
  then have s: "stream toy_kernel (=) 3 w' ?ds" if "snd (toy_kernel (SysOpendir ''/d'') w) = w'" for w w'
    using that by (simp add: toy_kernel_def)
  have o: "r_ret (fst (toy_kernel (SysOpendir ''/d'') w)) = 3 \<and> r_errno (fst (toy_kernel (SysOpendir ''/d'') w)) = 0" for w
    by (simp add: toy_kernel_def)
  have "\<exists>st1 st2. logged toy_kernel ?st st1 \<and> logged toy_kernel (snd (sys toy_kernel (SysOpendir ''/d'') st1)) st2 \<and>
    (if (3::int) < 0 then nosqlFS_readdir toy_kernel ''/d'' [] collect 8 ?st = Some (- 0, [], st2)
     else \<exists>buf' st3. fills toy_kernel collect 3 ?ds [] st2 buf' st3 \<and>
       nosqlFS_readdir toy_kernel ''/d'' [] collect 8 ?st = Some (0, buf', snd (sys toy_kernel (SysClosedir 3) st3)))"
    by (rule readdir_fills[OF toy_quiet R]) (use o s in blast)+
  then obtain st2 buf' st3 where
    f: "fills toy_kernel collect 3 ?ds [] st2 buf' st3" and
    "nosqlFS_readdir toy_kernel ''/d'' [] collect 8 ?st = Some (0, buf', snd (sys toy_kernel (SysClosedir 3) st3))" by auto
  moreover have "buf' = [(''a'', 0, 0), (''b'', 0, 0)]"
    using f by (auto simp: collect_def elim!: fills_ConsE fills_NilE)
  ultimately show ?thesis by auto
qed

lemma open_reports_only_EPERM_witness:
  "fst (nosqlFS_open toy_kernel ''/x'' zero_fi \<lparr>p_world = 0, p_errno = 0\<rparr>) = 0"
  using open_reports_only_EPERM[OF toy_quiet, of "''/x''" zero_fi ENOENT "\<lparr>p_world = 0, p_errno = 0\<rparr>"]
  by (simp add: toy_kernel_def)

end
