(* ===== verification/Fs_Ops.thy ===== *)
theory Fs_Ops
  imports Buffers File_Locks
begin

text \<open>
  The file system's callbacks (\<open>struct fuse_operations\<close> of src/include/fuse.h) and the wrappers
  \<open>fuse_fs_*\<close> of src/lib/fuse.c that call them or stand in for a missing one. The callbacks are
  the client's code, so they are parameters: the fields of the record, \<open>None\<close> for a NULL pointer.
  A callback acts on the thread's state, which holds the world, the memory, and the context it can
  ask for with \<open>fuse_get_context\<close>; buffers it fills are passed in and returned. A path that may be
  NULL is an option. What \<open>debug\<close> prints is left out, and freeing memory has no effect here:
  the allocator (\<open>t_brk\<close>) never hands out an address twice.
\<close>

record 'w thread = "'w bproc" +
  t_context :: fuse_context
  t_private :: nat
  t_brk :: nat
  t_mem :: mem

type_synonym 'w act = "'w thread \<Rightarrow> int \<times> 'w thread"
type_synonym fi = fuse_file_info

record ('w, 'b) fuse_operations =
  op_getattr :: "(string \<Rightarrow> stat \<Rightarrow> 'w thread \<Rightarrow> int \<times> stat \<times> 'w thread) option"
  op_readlink :: "(string \<Rightarrow> bytes \<Rightarrow> 'w thread \<Rightarrow> int \<times> bytes \<times> 'w thread) option"
  op_mknod :: "(string \<Rightarrow> 32 word \<Rightarrow> 64 word \<Rightarrow> 'w act) option"
  op_mkdir :: "(string \<Rightarrow> 32 word \<Rightarrow> 'w act) option"
  op_unlink :: "(string \<Rightarrow> 'w act) option"
  op_rmdir :: "(string \<Rightarrow> 'w act) option"
  op_symlink :: "(string \<Rightarrow> string \<Rightarrow> 'w act) option"
  op_rename :: "(string \<Rightarrow> string \<Rightarrow> 32 word \<Rightarrow> 'w act) option"
  op_link :: "(string \<Rightarrow> string \<Rightarrow> 'w act) option"
  op_chmod :: "(string \<Rightarrow> 32 word \<Rightarrow> 'w act) option"
  op_chown :: "(string \<Rightarrow> 32 word \<Rightarrow> 32 word \<Rightarrow> 'w act) option"
  op_truncate :: "(string \<Rightarrow> int \<Rightarrow> 'w act) option"
  op_open :: "(string \<Rightarrow> fi \<Rightarrow> 'w thread \<Rightarrow> int \<times> fi \<times> 'w thread) option"
  op_read :: "(string option \<Rightarrow> nat \<Rightarrow> nat \<Rightarrow> int \<Rightarrow> fi \<Rightarrow> 'w act) option"
  op_write :: "(string option \<Rightarrow> nat \<Rightarrow> nat \<Rightarrow> int \<Rightarrow> fi \<Rightarrow> 'w act) option"
  op_statfs :: "(string \<Rightarrow> statvfs \<Rightarrow> 'w thread \<Rightarrow> int \<times> statvfs \<times> 'w thread) option"
  op_flush :: "(string option \<Rightarrow> fi \<Rightarrow> 'w act) option"
  op_release :: "(string option \<Rightarrow> fi \<Rightarrow> 'w act) option"
  op_fsync :: "(string option \<Rightarrow> int \<Rightarrow> fi \<Rightarrow> 'w act) option"
  op_setxattr :: "(string \<Rightarrow> string \<Rightarrow> bytes \<Rightarrow> int \<Rightarrow> 'w act) option"
  op_getxattr :: "(string \<Rightarrow> string \<Rightarrow> bytes \<Rightarrow> 'w thread \<Rightarrow> int \<times> bytes \<times> 'w thread) option"
  op_listxattr :: "(string \<Rightarrow> bytes \<Rightarrow> 'w thread \<Rightarrow> int \<times> bytes \<times> 'w thread) option"
  op_removexattr :: "(string \<Rightarrow> string \<Rightarrow> 'w act) option"
  op_opendir :: "(string \<Rightarrow> fi \<Rightarrow> 'w thread \<Rightarrow> int \<times> fi \<times> 'w thread) option"
  op_readdir :: "(string option \<Rightarrow> 'b \<Rightarrow> ('b, 'w thread) filler \<Rightarrow> int \<Rightarrow> fi \<Rightarrow> 32 word \<Rightarrow> 'w thread \<Rightarrow> int \<times> 'b \<times> 'w thread) option"
  op_releasedir :: "(string option \<Rightarrow> fi \<Rightarrow> 'w act) option"
  op_fsyncdir :: "(string option \<Rightarrow> int \<Rightarrow> fi \<Rightarrow> 'w act) option"
  op_init :: "(fuse_conn_info \<Rightarrow> 'w thread \<Rightarrow> nat \<times> fuse_conn_info \<times> 'w thread) option"
  op_destroy :: "(nat \<Rightarrow> 'w thread \<Rightarrow> 'w thread) option"
  op_access :: "(string \<Rightarrow> int \<Rightarrow> 'w act) option"
  op_create :: "(string \<Rightarrow> 32 word \<Rightarrow> fi \<Rightarrow> 'w thread \<Rightarrow> int \<times> fi \<times> 'w thread) option"
  op_ftruncate :: "(string option \<Rightarrow> int \<Rightarrow> fi \<Rightarrow> 'w act) option"
  op_fgetattr :: "(string option \<Rightarrow> stat \<Rightarrow> fi \<Rightarrow> 'w thread \<Rightarrow> int \<times> stat \<times> 'w thread) option"
  op_lock :: "(string option \<Rightarrow> fi \<Rightarrow> int \<Rightarrow> flock \<Rightarrow> 'w thread \<Rightarrow> int \<times> flock \<times> 'w thread) option"
  op_utimens :: "(string \<Rightarrow> timespec list \<Rightarrow> 'w act) option"
  op_bmap :: "(string \<Rightarrow> nat \<Rightarrow> 64 word \<Rightarrow> 'w thread \<Rightarrow> int \<times> 64 word \<times> 'w thread) option"
  op_ioctl :: "(string option \<Rightarrow> int \<Rightarrow> nat \<Rightarrow> fi \<Rightarrow> 32 word \<Rightarrow> bytes \<Rightarrow> 'w thread \<Rightarrow> int \<times> bytes \<times> 'w thread) option"
  op_poll :: "(string option \<Rightarrow> fi \<Rightarrow> nat option \<Rightarrow> 'w thread \<Rightarrow> int \<times> 32 word \<times> 'w thread) option"
  op_write_buf :: "(string option \<Rightarrow> fuse_bufvec \<Rightarrow> int \<Rightarrow> fi \<Rightarrow> 'w act) option"
  op_read_buf :: "(string option \<Rightarrow> nat \<Rightarrow> int \<Rightarrow> fi \<Rightarrow> 'w thread \<Rightarrow> int \<times> fuse_bufvec option \<times> 'w thread) option"
  op_flock :: "(string option \<Rightarrow> fi \<Rightarrow> int \<Rightarrow> 'w act) option"
  op_fallocate :: "(string option \<Rightarrow> int \<Rightarrow> int \<Rightarrow> int \<Rightarrow> fi \<Rightarrow> 'w act) option"
  op_flag_nopath :: bool

record ('w, 'b) fuse_fs =
  fs_op :: "('w, 'b) fuse_operations"
  fs_m :: "nat option"
  fs_user_data :: nat
  fs_debug :: bool

definition fs_call ::
  "('w, 'b) fuse_fs \<Rightarrow> 'c option \<Rightarrow> ('c \<Rightarrow> 'w thread \<Rightarrow> 'r) \<Rightarrow> ('w thread \<Rightarrow> 'r) \<Rightarrow> 'w thread \<Rightarrow> 'r" where
  \<comment> \<open>the shape of the wrappers: the context gets the file system's data, then the callback or the default\<close>
  "fs_call fs cb f dflt st =
     (let st = st\<lparr>t_private := fs_user_data fs\<rparr> in case cb of Some c \<Rightarrow> f c st | None \<Rightarrow> dflt st)"

abbreviation (input) nosys :: "'w thread \<Rightarrow> int \<times> 'w thread" where
  "nosys \<equiv> (\<lambda>st. (- ENOSYS, st))"

section \<open>Attributes and names\<close>

definition fuse_fs_getattr :: "('w, 'b) fuse_fs \<Rightarrow> string \<Rightarrow> stat \<Rightarrow> 'w thread \<Rightarrow> int \<times> stat \<times> 'w thread" where
  "fuse_fs_getattr fs path buf = fs_call fs (op_getattr (fs_op fs)) (\<lambda>c. c path buf) (\<lambda>st. (- ENOSYS, buf, st))"

definition fuse_fs_fgetattr ::
  "('w, 'b) fuse_fs \<Rightarrow> string option \<Rightarrow> stat \<Rightarrow> fi \<Rightarrow> 'w thread \<Rightarrow> int \<times> stat \<times> 'w thread" where
  "fuse_fs_fgetattr fs path buf fi =
     fs_call fs (op_fgetattr (fs_op fs)) (\<lambda>c. c path buf fi)
       (\<lambda>st. case (path, op_getattr (fs_op fs)) of (Some p, Some c) \<Rightarrow> c p buf st | _ \<Rightarrow> (- ENOSYS, buf, st))"

definition fuse_fs_rename :: "('w, 'b) fuse_fs \<Rightarrow> string \<Rightarrow> string \<Rightarrow> 32 word \<Rightarrow> 'w act" where
  "fuse_fs_rename fs oldpath newpath flags =
     fs_call fs (op_rename (fs_op fs)) (\<lambda>c. c oldpath newpath flags) nosys"

definition fuse_fs_unlink :: "('w, 'b) fuse_fs \<Rightarrow> string \<Rightarrow> 'w act" where
  "fuse_fs_unlink fs path = fs_call fs (op_unlink (fs_op fs)) (\<lambda>c. c path) nosys"

definition fuse_fs_rmdir :: "('w, 'b) fuse_fs \<Rightarrow> string \<Rightarrow> 'w act" where
  "fuse_fs_rmdir fs path = fs_call fs (op_rmdir (fs_op fs)) (\<lambda>c. c path) nosys"

definition fuse_fs_symlink :: "('w, 'b) fuse_fs \<Rightarrow> string \<Rightarrow> string \<Rightarrow> 'w act" where
  "fuse_fs_symlink fs linkname path = fs_call fs (op_symlink (fs_op fs)) (\<lambda>c. c linkname path) nosys"

definition fuse_fs_link :: "('w, 'b) fuse_fs \<Rightarrow> string \<Rightarrow> string \<Rightarrow> 'w act" where
  "fuse_fs_link fs oldpath newpath = fs_call fs (op_link (fs_op fs)) (\<lambda>c. c oldpath newpath) nosys"

definition fuse_fs_mknod :: "('w, 'b) fuse_fs \<Rightarrow> string \<Rightarrow> 32 word \<Rightarrow> 64 word \<Rightarrow> 'w act" where
  "fuse_fs_mknod fs path mode rdev = fs_call fs (op_mknod (fs_op fs)) (\<lambda>c. c path mode rdev) nosys"

definition fuse_fs_mkdir :: "('w, 'b) fuse_fs \<Rightarrow> string \<Rightarrow> 32 word \<Rightarrow> 'w act" where
  "fuse_fs_mkdir fs path mode = fs_call fs (op_mkdir (fs_op fs)) (\<lambda>c. c path mode) nosys"

definition fuse_fs_chmod :: "('w, 'b) fuse_fs \<Rightarrow> string \<Rightarrow> 32 word \<Rightarrow> 'w act" where
  "fuse_fs_chmod fs path mode = fs_call fs (op_chmod (fs_op fs)) (\<lambda>c. c path mode) nosys"

definition fuse_fs_chown :: "('w, 'b) fuse_fs \<Rightarrow> string \<Rightarrow> 32 word \<Rightarrow> 32 word \<Rightarrow> 'w act" where
  "fuse_fs_chown fs path uid gid = fs_call fs (op_chown (fs_op fs)) (\<lambda>c. c path uid gid) nosys"

definition fuse_fs_truncate :: "('w, 'b) fuse_fs \<Rightarrow> string \<Rightarrow> int \<Rightarrow> 'w act" where
  "fuse_fs_truncate fs path sz = fs_call fs (op_truncate (fs_op fs)) (\<lambda>c. c path sz) nosys"

definition fuse_fs_ftruncate :: "('w, 'b) fuse_fs \<Rightarrow> string option \<Rightarrow> int \<Rightarrow> fi \<Rightarrow> 'w act" where
  "fuse_fs_ftruncate fs path sz fi =
     fs_call fs (op_ftruncate (fs_op fs)) (\<lambda>c. c path sz fi)
       (\<lambda>st. case (path, op_truncate (fs_op fs)) of (Some p, Some c) \<Rightarrow> c p sz st | _ \<Rightarrow> (- ENOSYS, st))"

definition fuse_fs_utimens :: "('w, 'b) fuse_fs \<Rightarrow> string \<Rightarrow> timespec list \<Rightarrow> 'w act" where
  "fuse_fs_utimens fs path tv = fs_call fs (op_utimens (fs_op fs)) (\<lambda>c. c path tv) nosys"

definition fuse_fs_access :: "('w, 'b) fuse_fs \<Rightarrow> string \<Rightarrow> int \<Rightarrow> 'w act" where
  "fuse_fs_access fs path amode = fs_call fs (op_access (fs_op fs)) (\<lambda>c. c path amode) nosys"

definition fuse_fs_readlink :: "('w, 'b) fuse_fs \<Rightarrow> string \<Rightarrow> bytes \<Rightarrow> 'w thread \<Rightarrow> int \<times> bytes \<times> 'w thread" where
  \<comment> \<open>\<open>buf\<close> has \<open>len\<close> bytes\<close>
  "fuse_fs_readlink fs path buf =
     fs_call fs (op_readlink (fs_op fs)) (\<lambda>c. c path buf) (\<lambda>st. (- ENOSYS, buf, st))"

definition fuse_fs_statfs :: "('w, 'b) fuse_fs \<Rightarrow> string \<Rightarrow> statvfs \<Rightarrow> 'w thread \<Rightarrow> int \<times> statvfs \<times> 'w thread" where
  "fuse_fs_statfs fs path buf =
     fs_call fs (op_statfs (fs_op fs)) (\<lambda>c. c path buf) (\<lambda>st. (0, buf\<lparr>f_namemax := 255, f_bsize := 512\<rparr>, st))"

section \<open>Extended attributes\<close>

definition fuse_fs_setxattr :: "('w, 'b) fuse_fs \<Rightarrow> string \<Rightarrow> string \<Rightarrow> bytes \<Rightarrow> int \<Rightarrow> 'w act" where
  "fuse_fs_setxattr fs path name v flags = fs_call fs (op_setxattr (fs_op fs)) (\<lambda>c. c path name v flags) nosys"

definition fuse_fs_getxattr ::
  "('w, 'b) fuse_fs \<Rightarrow> string \<Rightarrow> string \<Rightarrow> bytes \<Rightarrow> 'w thread \<Rightarrow> int \<times> bytes \<times> 'w thread" where
  "fuse_fs_getxattr fs path name v =
     fs_call fs (op_getxattr (fs_op fs)) (\<lambda>c. c path name v) (\<lambda>st. (- ENOSYS, v, st))"

definition fuse_fs_listxattr :: "('w, 'b) fuse_fs \<Rightarrow> string \<Rightarrow> bytes \<Rightarrow> 'w thread \<Rightarrow> int \<times> bytes \<times> 'w thread" where
  "fuse_fs_listxattr fs path lst =
     fs_call fs (op_listxattr (fs_op fs)) (\<lambda>c. c path lst) (\<lambda>st. (- ENOSYS, lst, st))"

definition fuse_fs_removexattr :: "('w, 'b) fuse_fs \<Rightarrow> string \<Rightarrow> string \<Rightarrow> 'w act" where
  "fuse_fs_removexattr fs path name = fs_call fs (op_removexattr (fs_op fs)) (\<lambda>c. c path name) nosys"

section \<open>Open files and directories\<close>

definition fuse_fs_open :: "('w, 'b) fuse_fs \<Rightarrow> string \<Rightarrow> fi \<Rightarrow> 'w thread \<Rightarrow> int \<times> fi \<times> 'w thread" where
  "fuse_fs_open fs path fi = fs_call fs (op_open (fs_op fs)) (\<lambda>c. c path fi) (\<lambda>st. (0, fi, st))"

definition fuse_fs_opendir :: "('w, 'b) fuse_fs \<Rightarrow> string \<Rightarrow> fi \<Rightarrow> 'w thread \<Rightarrow> int \<times> fi \<times> 'w thread" where
  "fuse_fs_opendir fs path fi = fs_call fs (op_opendir (fs_op fs)) (\<lambda>c. c path fi) (\<lambda>st. (0, fi, st))"

definition fuse_fs_create ::
  "('w, 'b) fuse_fs \<Rightarrow> string \<Rightarrow> 32 word \<Rightarrow> fi \<Rightarrow> 'w thread \<Rightarrow> int \<times> fi \<times> 'w thread" where
  "fuse_fs_create fs path mode fi =
     fs_call fs (op_create (fs_op fs)) (\<lambda>c. c path mode fi) (\<lambda>st. (- ENOSYS, fi, st))"

definition fuse_fs_release :: "('w, 'b) fuse_fs \<Rightarrow> string option \<Rightarrow> fi \<Rightarrow> 'w act" where
  "fuse_fs_release fs path fi = fs_call fs (op_release (fs_op fs)) (\<lambda>c. c path fi) (\<lambda>st. (0, st))"

definition fuse_fs_releasedir :: "('w, 'b) fuse_fs \<Rightarrow> string option \<Rightarrow> fi \<Rightarrow> 'w act" where
  "fuse_fs_releasedir fs path fi = fs_call fs (op_releasedir (fs_op fs)) (\<lambda>c. c path fi) (\<lambda>st. (0, st))"

definition fuse_fs_flush :: "('w, 'b) fuse_fs \<Rightarrow> string option \<Rightarrow> fi \<Rightarrow> 'w act" where
  "fuse_fs_flush fs path fi = fs_call fs (op_flush (fs_op fs)) (\<lambda>c. c path fi) nosys"

definition fuse_fs_fsync :: "('w, 'b) fuse_fs \<Rightarrow> string option \<Rightarrow> int \<Rightarrow> fi \<Rightarrow> 'w act" where
  "fuse_fs_fsync fs path datasync fi = fs_call fs (op_fsync (fs_op fs)) (\<lambda>c. c path datasync fi) nosys"

definition fuse_fs_fsyncdir :: "('w, 'b) fuse_fs \<Rightarrow> string option \<Rightarrow> int \<Rightarrow> fi \<Rightarrow> 'w act" where
  "fuse_fs_fsyncdir fs path datasync fi = fs_call fs (op_fsyncdir (fs_op fs)) (\<lambda>c. c path datasync fi) nosys"

definition fuse_fs_readdir ::
  "('w, 'b) fuse_fs \<Rightarrow> string option \<Rightarrow> 'b \<Rightarrow> ('b, 'w thread) filler \<Rightarrow> int \<Rightarrow> fi \<Rightarrow> 32 word \<Rightarrow> 'w thread \<Rightarrow> int \<times> 'b \<times> 'w thread" where
  "fuse_fs_readdir fs path buf filler off fi flags =
     fs_call fs (op_readdir (fs_op fs)) (\<lambda>c. c path buf filler off fi flags) (\<lambda>st. (- ENOSYS, buf, st))"

definition fuse_fs_lock ::
  "('w, 'b) fuse_fs \<Rightarrow> string option \<Rightarrow> fi \<Rightarrow> int \<Rightarrow> flock \<Rightarrow> 'w thread \<Rightarrow> int \<times> flock \<times> 'w thread" where
  "fuse_fs_lock fs path fi cmd lk =
     fs_call fs (op_lock (fs_op fs)) (\<lambda>c. c path fi cmd lk) (\<lambda>st. (- ENOSYS, lk, st))"

definition fuse_fs_flock :: "('w, 'b) fuse_fs \<Rightarrow> string option \<Rightarrow> fi \<Rightarrow> int \<Rightarrow> 'w act" where
  "fuse_fs_flock fs path fi op = fs_call fs (op_flock (fs_op fs)) (\<lambda>c. c path fi op) nosys"

definition fuse_fs_bmap ::
  "('w, 'b) fuse_fs \<Rightarrow> string \<Rightarrow> nat \<Rightarrow> 64 word \<Rightarrow> 'w thread \<Rightarrow> int \<times> 64 word \<times> 'w thread" where
  "fuse_fs_bmap fs path blocksize idx =
     fs_call fs (op_bmap (fs_op fs)) (\<lambda>c. c path blocksize idx) (\<lambda>st. (- ENOSYS, idx, st))"

definition fuse_fs_ioctl ::
  "('w, 'b) fuse_fs \<Rightarrow> string option \<Rightarrow> int \<Rightarrow> nat \<Rightarrow> fi \<Rightarrow> 32 word \<Rightarrow> bytes \<Rightarrow> 'w thread \<Rightarrow> int \<times> bytes \<times> 'w thread" where
  "fuse_fs_ioctl fs path cmd arg fi flags data =
     fs_call fs (op_ioctl (fs_op fs)) (\<lambda>c. c path cmd arg fi flags data) (\<lambda>st. (- ENOSYS, data, st))"

definition fuse_fs_poll ::
  "('w, 'b) fuse_fs \<Rightarrow> string option \<Rightarrow> fi \<Rightarrow> nat option \<Rightarrow> 32 word \<Rightarrow> 'w thread \<Rightarrow> int \<times> 32 word \<times> 'w thread" where
  "fuse_fs_poll fs path fi ph revents =
     fs_call fs (op_poll (fs_op fs)) (\<lambda>c. c path fi ph) (\<lambda>st. (- ENOSYS, revents, st))"

definition fuse_fs_fallocate :: "('w, 'b) fuse_fs \<Rightarrow> string option \<Rightarrow> int \<Rightarrow> int \<Rightarrow> int \<Rightarrow> fi \<Rightarrow> 'w act" where
  "fuse_fs_fallocate fs path mode offset len fi =
     fs_call fs (op_fallocate (fs_op fs)) (\<lambda>c. c path mode offset len fi) nosys"

section \<open>Reading and writing\<close>

definition alloc :: "nat \<Rightarrow> 'w thread \<Rightarrow> nat option \<times> 'w thread" where
  \<comment> \<open>\<open>malloc(n)\<close>\<close>
  "alloc n st =
     (let (ok, m) = malloc (t_mem st)
      in if ok then (Some (t_brk st), st\<lparr>t_brk := t_brk st + n, t_mem := m\<rparr>) else (None, st\<lparr>t_mem := m\<rparr>))"

definition mem_bufvec :: "nat \<Rightarrow> nat \<Rightarrow> fuse_bufvec" where
  \<comment> \<open>\<open>FUSE_BUFVEC_INIT(n)\<close> with \<open>buf[0].mem\<close> set\<close>
  "mem_bufvec a n = (FUSE_BUFVEC_INIT n)\<lparr>bv_buf := [hd (bv_buf (FUSE_BUFVEC_INIT n))\<lparr>buf_mem := a\<rparr>]\<rparr>"

definition fuse_fs_read_buf ::
  "('w, 'b) fuse_fs \<Rightarrow> string option \<Rightarrow> nat \<Rightarrow> int \<Rightarrow> fi \<Rightarrow> 'w thread \<Rightarrow> (int \<times> fuse_bufvec option \<times> 'w thread) option" where
  \<comment> \<open>\<open>*bufp\<close> starts out NULL; \<open>None\<close>: a successful \<open>read_buf\<close> that left it so\<close>
  "fuse_fs_read_buf fs path n off fi st =
     (let st = st\<lparr>t_private := fs_user_data fs\<rparr>;
          (res, buf, st) =
            (case (op_read_buf (fs_op fs), op_read (fs_op fs)) of
               (Some c, _) \<Rightarrow> c path n off fi st
             | (None, Some c) \<Rightarrow>
                 (let (b, st) = alloc 0 st
                  in if b = None then (- ENOMEM, None, st)
                     else let (mp, st) = alloc n st
                       in case mp of
                            None \<Rightarrow> (- ENOMEM, None, st)
                          | Some a \<Rightarrow>
                              (let (res, st) = c path a n off fi st
                               in (res, Some (mem_bufvec a (if res \<ge> 0 then nat res else n)), st)))
             | (None, None) \<Rightarrow> (- ENOSYS, None, st))
      in if res \<ge> 0 \<and> buf = None then None else Some (if res < 0 then res else 0, buf, st))"

definition fuse_fs_read ::
  "'w kernel \<Rightarrow> nat \<Rightarrow> ('w, 'b) fuse_fs \<Rightarrow> string option \<Rightarrow> nat \<Rightarrow> nat \<Rightarrow> int \<Rightarrow> fi \<Rightarrow> 'w thread \<Rightarrow> (int \<times> 'w thread) option" where
  \<comment> \<open>\<open>mem\<close> is where the data goes\<close>
  "fuse_fs_read k a fs path mem n off fi st = do {
     (res, buf, st) \<leftarrow> fuse_fs_read_buf fs path n off fi st;
     if res = 0 then do {
       b \<leftarrow> buf;
       (res, _, _, st) \<leftarrow> fuse_buf_copy k a False (mem_bufvec mem n) b 0 st;
       Some (to_int32 res, st)
     } else Some (res, st)
   }"

definition write_flat ::
  "'w kernel \<Rightarrow> nat \<Rightarrow> (string option \<Rightarrow> nat \<Rightarrow> nat \<Rightarrow> int \<Rightarrow> fi \<Rightarrow> 'w act) \<Rightarrow> string option \<Rightarrow> fuse_bufvec \<Rightarrow> int \<Rightarrow> fi \<Rightarrow>
   'w thread \<Rightarrow> (int \<times> 'w thread) option" where
  \<comment> \<open>the branch of \<open>fuse_fs_write_buf\<close> for a file system with \<open>write\<close> only\<close>
  "write_flat k a c path buf off fi st =
     (if bv_count buf = 1 \<and> \<not> has (buf_flags (bv_buf buf ! 0)) FUSE_BUF_IS_FD
      then Some (c path (buf_mem (bv_buf buf ! 0)) (buf_size (bv_buf buf ! 0)) off fi st)
      else let (mp, st) = alloc (fuse_buf_size buf) st
        in case mp of
             None \<Rightarrow> Some (- ENOMEM, st)
           | Some p \<Rightarrow> do {
               (res, _, _, st) \<leftarrow> fuse_buf_copy k a False (mem_bufvec p (fuse_buf_size buf)) buf 0 st;
               let res = to_int32 res;
               if res \<le> 0 then Some (res, st) else Some (c path p (nat res) off fi st)
             })"

definition fuse_fs_write_buf ::
  "'w kernel \<Rightarrow> nat \<Rightarrow> ('w, 'b) fuse_fs \<Rightarrow> string option \<Rightarrow> fuse_bufvec \<Rightarrow> int \<Rightarrow> fi \<Rightarrow> 'w thread \<Rightarrow> (int \<times> 'w thread) option" where
  "fuse_fs_write_buf k a fs path buf off fi st =
     (let st = st\<lparr>t_private := fs_user_data fs\<rparr>
      in if op_write_buf (fs_op fs) = None \<and> op_write (fs_op fs) = None then Some (- ENOSYS, st)
         else if \<not> (bv_idx buf = 0 \<and> bv_off buf = 0) then None
         else case (op_write_buf (fs_op fs), op_write (fs_op fs)) of
                (Some c, _) \<Rightarrow> Some (c path buf off fi st)
              | (None, Some c) \<Rightarrow> write_flat k a c path buf off fi st
              | (None, None) \<Rightarrow> None)"

definition fuse_fs_write ::
  "'w kernel \<Rightarrow> nat \<Rightarrow> ('w, 'b) fuse_fs \<Rightarrow> string option \<Rightarrow> nat \<Rightarrow> nat \<Rightarrow> int \<Rightarrow> fi \<Rightarrow> 'w thread \<Rightarrow> (int \<times> 'w thread) option" where
  "fuse_fs_write k a fs path mem n off fi st = fuse_fs_write_buf k a fs path (mem_bufvec mem n) off fi st"

section \<open>Start and end\<close>

definition FUSE_CAP_ASYNC_READ :: "32 word" where "FUSE_CAP_ASYNC_READ = push_bit 0 1"
definition FUSE_CAP_POSIX_LOCKS :: "32 word" where "FUSE_CAP_POSIX_LOCKS = push_bit 1 1"
definition FUSE_CAP_EXPORT_SUPPORT :: "32 word" where "FUSE_CAP_EXPORT_SUPPORT = push_bit 4 1"
definition FUSE_CAP_SPLICE_READ :: "32 word" where "FUSE_CAP_SPLICE_READ = push_bit 9 1"
definition FUSE_CAP_FLOCK_LOCKS :: "32 word" where "FUSE_CAP_FLOCK_LOCKS = push_bit 10 1"

definition fuse_fs_init ::
  "('w, 'b) fuse_fs \<Rightarrow> fuse_conn_info \<Rightarrow> 'w thread \<Rightarrow> ('w, 'b) fuse_fs \<times> fuse_conn_info \<times> 'w thread" where
  "fuse_fs_init fs conn st =
     (let st = st\<lparr>t_private := fs_user_data fs\<rparr>;
          drop_cap = (\<lambda>missing c conn. if missing then conn\<lparr>cn_want := cn_want conn AND NOT c\<rparr> else conn);
          conn = drop_cap (op_write_buf (fs_op fs) = None) FUSE_CAP_SPLICE_READ conn;
          conn = drop_cap (op_lock (fs_op fs) = None) FUSE_CAP_POSIX_LOCKS conn;
          conn = drop_cap (op_flock (fs_op fs) = None) FUSE_CAP_FLOCK_LOCKS conn
      in case op_init (fs_op fs) of
           None \<Rightarrow> (fs, conn, st)
         | Some c \<Rightarrow> (let (d, conn, st) = c conn st in (fs\<lparr>fs_user_data := d\<rparr>, conn, st)))"

definition fuse_fs_destroy :: "('w, 'b) fuse_fs \<Rightarrow> 'w thread \<Rightarrow> 'w thread" where
  \<comment> \<open>releasing the module (\<open>fuse_put_module\<close>) is modelled with the modules\<close>
  "fuse_fs_destroy fs st =
     (let st = st\<lparr>t_private := fs_user_data fs\<rparr>
      in case op_destroy (fs_op fs) of None \<Rightarrow> st | Some c \<Rightarrow> c (fs_user_data fs) st)"

end
