(* ===== verification/Buffers_Props.thy ===== *)
theory Buffers_Props
  imports Buffers
begin

text \<open>
  What copying between buffer vectors promises (src/lib/buffer.c): between memory buffers it
  moves the bytes in order up to the shorter side, and with descriptors it never fails an
  assertion and never claims more than the shorter side, for every kernel that keeps the
  documented return values of read, write and splice.
\<close>

section \<open>What is left of a vector\<close>

definition spans :: "fuse_bufvec \<Rightarrow> (nat \<times> nat) list" where
  \<comment> \<open>address and length of the rest of the current buffer and of the later ones\<close>
  "spans v = (case drop (bv_idx v) (take (bv_count v) (bv_buf v)) of
      [] \<Rightarrow> []
    | b # bs \<Rightarrow> (buf_mem b + bv_off v, buf_size b - bv_off v) # map (\<lambda>b. (buf_mem b, buf_size b)) bs)"

definition addrs :: "fuse_bufvec \<Rightarrow> nat list" where
  "addrs v = concat (map (\<lambda>(a, n). [a..<a + n]) (spans v))"

definition vec_ok :: "fuse_bufvec \<Rightarrow> bool" where
  \<comment> \<open>as \<open>FUSE_BUFVEC_INIT\<close> and every advance leave it\<close>
  "vec_ok v \<longleftrightarrow> bv_count v \<le> length (bv_buf v) \<and>
     (bv_idx v < bv_count v \<longrightarrow> bv_off v \<le> buf_size (bv_buf v ! bv_idx v))"

lemma current_index:
  "fuse_bufvec_current v = Some b \<Longrightarrow> bv_idx v < bv_count v \<and> bv_buf v ! bv_idx v = b"
  by (cases "bv_idx v < bv_count v") (simp_all add: fuse_bufvec_current_def)

lemma current_spans:
  assumes "vec_ok v" "fuse_bufvec_current v = Some b"
  shows "drop (bv_idx v) (take (bv_count v) (bv_buf v)) = b # drop (Suc (bv_idx v)) (take (bv_count v) (bv_buf v))"
    "bv_off v \<le> buf_size b"
  using assms by (auto simp: fuse_bufvec_current_def vec_ok_def Cons_nth_drop_Suc[symmetric] split: if_splits)

lemma current_None: "fuse_bufvec_current v = None \<Longrightarrow> addrs v = []"
  by (auto simp: fuse_bufvec_current_def addrs_def spans_def split: if_splits)

lemma upt_from: "[a + i..<a + n] = drop i [a..<a + n]"
  by simp

lemma addrs_current:
  assumes "vec_ok v" "fuse_bufvec_current v = Some b"
  shows "addrs v = [buf_mem b + bv_off v..<buf_mem b + buf_size b] @
    concat (map (\<lambda>b. [buf_mem b..<buf_mem b + buf_size b]) (drop (Suc (bv_idx v)) (take (bv_count v) (bv_buf v))))"
  using current_spans[OF assms] by (simp add: addrs_def spans_def o_def)

lemma advance_addrs:
  assumes ok: "vec_ok v" and c: "fuse_bufvec_current v = Some b" and n: "n \<le> buf_size b - bv_off v"
  shows "\<exists>ok' v'. fuse_bufvec_advance v n = Some (ok', v') \<and> vec_ok v' \<and> addrs v' = drop n (addrs v) \<and>
    (\<not> ok' \<longrightarrow> addrs v' = []) \<and> bv_buf v' = bv_buf v"
proof -
  have off: "bv_off v \<le> buf_size b" using current_spans[OF ok c] by simp
  have idx: "bv_idx v < bv_count v" "bv_buf v ! bv_idx v = b" "bv_count v \<le> length (bv_buf v)"
    using current_index[OF c] ok by (simp_all add: vec_ok_def)
  let ?rest = "drop (Suc (bv_idx v)) (take (bv_count v) (bv_buf v))"
  note A = addrs_current[OF ok c]
  show ?thesis
  proof (cases "bv_off v + n = buf_size b")
    case False
    let ?v = "v\<lparr>bv_off := bv_off v + n\<rparr>"
    have lt: "bv_off v + n < buf_size b" using False n off by linarith
    have adv: "fuse_bufvec_advance v n = Some (True, ?v)"
      using lt c by (simp add: fuse_bufvec_advance_def)
    have ok': "vec_ok ?v" using ok idx lt by (simp add: vec_ok_def)
    have c': "fuse_bufvec_current ?v = Some b" using idx by (simp add: fuse_bufvec_current_def)
    have "addrs ?v = drop n (addrs v)"
      unfolding A addrs_current[OF ok' c'] using lt by (simp add: add.assoc)
    with adv ok' show ?thesis by auto
  next
    case True
    have gone: "drop n (addrs v) = concat (map (\<lambda>b. [buf_mem b..<buf_mem b + buf_size b]) ?rest)"
      unfolding A using True by (simp add: add.assoc)
    show ?thesis
    proof (cases "Suc (bv_idx v) = bv_count v")
      case last: True
      let ?v = "v\<lparr>bv_off := bv_off v + n, bv_idx := Suc (bv_idx v)\<rparr>"
      have adv: "fuse_bufvec_advance v n = Some (False, ?v)"
        using True c idx last by (simp add: fuse_bufvec_advance_def Let_def)
      have "vec_ok ?v" using ok last by (simp add: vec_ok_def)
      moreover have "addrs ?v = []" by (rule current_None) (simp add: fuse_bufvec_current_def last)
      moreover have "drop n (addrs v) = []" unfolding gone using last idx by simp
      ultimately show ?thesis using adv by auto
    next
      case False
      let ?v = "v\<lparr>bv_off := 0, bv_idx := Suc (bv_idx v)\<rparr>"
      have adv: "fuse_bufvec_advance v n = Some (True, ?v)"
        using True c idx False by (simp add: fuse_bufvec_advance_def Let_def)
      have ok': "vec_ok ?v" using ok False by (simp add: vec_ok_def)
      have lt: "Suc (bv_idx v) < bv_count v" using False idx by simp
      then have c': "fuse_bufvec_current ?v = Some (bv_buf v ! Suc (bv_idx v))" by (simp add: fuse_bufvec_current_def)
      have "?rest = bv_buf v ! Suc (bv_idx v) # drop (Suc (Suc (bv_idx v))) (take (bv_count v) (bv_buf v))"
        using lt idx by (simp add: Cons_nth_drop_Suc[symmetric])
      then have "addrs ?v = drop n (addrs v)" unfolding gone addrs_current[OF ok' c'] by simp
      with adv ok' show ?thesis by auto
    qed
  qed
qed

section \<open>The size\<close>

lemma buf_size_loop_sum:
  assumes "list_all (\<lambda>b. buf_size b < SIZE_MAX) bs" "sz + sum_list (map buf_size bs) < 2 ^ 64"
  shows "buf_size_loop bs sz = sz + sum_list (map buf_size bs)"
  using assms by (induction bs arbitrary: sz) auto

text \<open>
  The size of a vector is the sum of the sizes of its buffers when none of them is
  unlimited (\<open>SIZE_MAX\<close>) and the sum fits 64 bits, and the limit when the last one is. (An
  unlimited buffer that is not the last is not respected: the later sizes wrap around.)
\<close>

theorem fuse_buf_size_correct:
  assumes "bv_count v \<le> length (bv_buf v)" "bv_count v = Suc n"
    and "list_all (\<lambda>b. buf_size b < SIZE_MAX) (take n (bv_buf v))"
    and "sum_list (map buf_size (take n (bv_buf v))) + (if buf_size (bv_buf v ! n) = SIZE_MAX then 0 else buf_size (bv_buf v ! n)) < 2 ^ 64"
  shows "fuse_buf_size v =
    (if buf_size (bv_buf v ! n) = SIZE_MAX then SIZE_MAX else sum_list (map buf_size (take (bv_count v) (bv_buf v))))"
proof -
  have t: "take (Suc n) (bv_buf v) = take n (bv_buf v) @ [bv_buf v ! n]"
    using assms(1,2) by (simp add: take_Suc_conv_app_nth)
  have app: "buf_size_loop (xs @ ys) sz = buf_size_loop ys (buf_size_loop xs sz)" for xs ys sz
    by (induction xs arbitrary: sz) simp_all
  have "buf_size_loop (take n (bv_buf v)) 0 = sum_list (map buf_size (take n (bv_buf v)))"
    using buf_size_loop_sum[OF assms(3), of 0] assms(4) by (simp split: if_splits)
  then show ?thesis using assms(4) unfolding fuse_buf_size_def assms(2) t app
    by (cases "buf_size (bv_buf v ! n) = SIZE_MAX") simp_all
qed

definition mem_buf :: "nat \<Rightarrow> nat \<Rightarrow> fuse_buf" where
  "mem_buf p n = \<lparr>buf_size = n, buf_flags = 0, buf_mem = p, buf_fd = -1, buf_pos = 0\<rparr>"

definition mem_vec :: "(nat \<times> nat) list \<Rightarrow> fuse_bufvec" where
  "mem_vec bs = \<lparr>bv_count = length bs, bv_idx = 0, bv_off = 0, bv_buf = map (\<lambda>(p, n). mem_buf p n) bs\<rparr>"

lemma fuse_buf_size_correct_witness:
  "fuse_buf_size (mem_vec [(0, 3), (10, 4)]) = 7 \<and> fuse_buf_size (mem_vec [(0, SIZE_MAX), (10, 1)]) = 0"
proof
  show "fuse_buf_size (mem_vec [(0, 3), (10, 4)]) = 7"
    using fuse_buf_size_correct[of "mem_vec [(0, 3), (10, 4)]" 1] by (simp add: mem_vec_def mem_buf_def)
  show "fuse_buf_size (mem_vec [(0, SIZE_MAX), (10, 1)]) = 0"
    by (simp add: fuse_buf_size_def mem_vec_def mem_buf_def)
qed

section \<open>Copying between memory buffers\<close>

definition in_memory :: "fuse_bufvec \<Rightarrow> bool" where
  "in_memory v \<longleftrightarrow> list_all (\<lambda>b. \<not> has (buf_flags b) FUSE_BUF_IS_FD) (bv_buf v)"

definition copied_to :: "nat list \<Rightarrow> nat list \<Rightarrow> ('w, 'm) bproc_scheme \<Rightarrow> ('w, 'm) bproc_scheme \<Rightarrow> bool" where
  \<comment> \<open>the bytes at the first addresses went to the others, in order, nothing else changed\<close>
  "copied_to ss ds st st' \<longleftrightarrow>
     map (b_mem st') ds = map (b_mem st) (take (length ds) ss @ drop (length ss) ds) \<and>
     (\<forall>x. x \<notin> set ds \<longrightarrow> b_mem st' x = b_mem st x) \<and> p_world st' = p_world st \<and> p_errno st' = p_errno st"

lemma copied_none [simp]: "copied_to [] ds st st" "copied_to ss [] st st"
  by (simp_all add: copied_to_def)

lemma copied_else: "copied_to ss ds st st' \<Longrightarrow> x \<notin> set ds \<Longrightarrow> b_mem st' x = b_mem st x"
  by (simp add: copied_to_def)

lemma copied_append:
  assumes c1: "copied_to S1 D1 st st1" and len: "length S1 = length D1" and c2: "copied_to S2 D2 st1 st2"
    and dis: "set D1 \<inter> set S2 = {}" "set D1 \<inter> set D2 = {}"
  shows "copied_to (S1 @ S2) (D1 @ D2) st st2"
proof -
  have keep: "map (b_mem st2) D1 = map (b_mem st1) D1"
    using copied_else[OF c2] dis(2) by (intro map_cong) auto
  have before: "map (b_mem st1) xs = map (b_mem st) xs" if "set D1 \<inter> set xs = {}" for xs
    using copied_else[OF c1] that by (intro map_cong) auto
  have sub: "set D1 \<inter> set (take (length D2) S2 @ drop (length S2) D2) = {}"
    using dis set_take_subset[of "length D2" S2] set_drop_subset[of "length S2" D2] by auto
  have "map (b_mem st1) D1 = map (b_mem st) S1" using c1 len by (simp add: copied_to_def)
  moreover have "map (b_mem st2) D2 = map (b_mem st) (take (length D2) S2 @ drop (length S2) D2)"
    using c2 before[OF sub] by (simp add: copied_to_def)
  ultimately have "map (b_mem st2) (D1 @ D2) = map (b_mem st) (take (length (D1 @ D2)) (S1 @ S2) @ drop (length (S1 @ S2)) (D1 @ D2))"
    using keep len by simp
  then show ?thesis using copied_else[OF c1] copied_else[OF c2] c1 c2 unfolding copied_to_def by simp
qed

lemma store_load_copied:
  "copied_to [p..<p + n] [p'..<p' + n] st (store p' (load st p n) st)"
  unfolding copied_to_def by (auto simp: store_def load_def fun_eq_iff intro!: nth_equalityI)

lemma store_load_same: "store p (load st p n) st = st"
  by (rule bproc.equality) (auto simp: store_def load_def fun_eq_iff)

lemma min_rest: "n \<le> a \<Longrightarrow> n \<le> b \<Longrightarrow> n + min (a - n) (b - n) = min a (b::nat)"
  by (cases "a \<le> b") (simp_all add: min_absorb1 min_absorb2 diff_le_mono)

lemma copy_loop_stop:
  assumes "fuse_bufvec_current s = None \<or> fuse_bufvec_current d = None"
  shows "copy_loop k a flags d s copied st = Some (int copied, d, s, st)"
  using assms by (subst copy_loop.simps) (auto split: option.splits)

lemma copy_loop_step:
  assumes "fuse_bufvec_current s = Some sb" "fuse_bufvec_current d = Some db"
    and "fuse_buf_copy_one k a db (bv_off d) sb (bv_off s)
      (min_size (sub64 (buf_size sb) (bv_off s)) (sub64 (buf_size db) (bv_off d))) flags st = Some (res, st1)"
    and "0 \<le> res" "fuse_bufvec_advance s (nat res) = Some (sok, s')" "fuse_bufvec_advance d (nat res) = Some (dok, d')"
  shows "copy_loop k a flags d s copied st =
    (if \<not> sok then Some (int (copied + nat res), d, s', st1)
     else if \<not> dok then Some (int (copied + nat res), d', s', st1)
     else if res < int (min_size (sub64 (buf_size sb) (bv_off s)) (sub64 (buf_size db) (bv_off d)))
     then Some (int (copied + nat res), d', s', st1)
     else copy_loop k a flags d' s' (copied + nat res) st1)"
  using assms by (subst copy_loop.simps) (simp add: Let_def)

lemma copy_loop_mem:
  assumes "vec_ok s" "vec_ok d" "in_memory s" "in_memory d"
    and "distinct (addrs d)" "set (addrs d) \<inter> set (addrs s) = {}"
  shows "\<exists>d' s' st'. copy_loop k a flags d s copied st =
      Some (int (copied + min (length (addrs s)) (length (addrs d))), d', s', st') \<and>
    copied_to (addrs s) (addrs d) st st'"
  using assms
proof (induction "left_in s + left_in d" arbitrary: s d copied st rule: less_induct)
  case less
  note 1 = less
  show ?case
  proof (cases "fuse_bufvec_current s = None \<or> fuse_bufvec_current d = None")
    case True
    then have "addrs s = [] \<or> addrs d = []" using current_None by blast
    then show ?thesis using copy_loop_stop[OF True, of k a flags copied st] by auto
  next
    case False
    then obtain sb db where sb: "fuse_bufvec_current s = Some sb" and db: "fuse_bufvec_current d = Some db" by auto
    let ?sl = "buf_size sb - bv_off s" and ?dl = "buf_size db - bv_off d"
    let ?len = "min ?sl ?dl"
    note S = addrs_current[OF 1(2) sb] and D = addrs_current[OF 1(3) db]
    note soff = current_spans(2)[OF 1(2) sb] and doff = current_spans(2)[OF 1(3) db]
    have lens: "?sl \<le> length (addrs s)" "?dl \<le> length (addrs d)" unfolding S D by simp_all
    have len: "min_size (sub64 (buf_size sb) (bv_off s)) (sub64 (buf_size db) (bv_off d)) = ?len"
      using soff doff by (simp add: min_size_def sub64_def min_def)
    let ?dm = "buf_mem db + bv_off d" and ?sm = "buf_mem sb + bv_off s"
    let ?st = "store ?dm (load st ?sm ?len) st"
    have "sb \<in> set (bv_buf s)" "db \<in> set (bv_buf d)"
      using sb db 1(2,3) by (auto simp: fuse_bufvec_current_def vec_ok_def split: if_splits intro!: nth_mem)
    then have one: "fuse_buf_copy_one k a db (bv_off d) sb (bv_off s) ?len flags st = Some (int ?len, ?st)"
      using 1(4,5) store_load_same[of ?dm st ?len] by (auto simp: fuse_buf_copy_one_def in_memory_def list_all_iff Let_def)
    have S1: "take ?len (addrs s) = [?sm..<?sm + ?len]" unfolding S using soff by (simp add: min_def)
    have D1: "take ?len (addrs d) = [?dm..<?dm + ?len]" unfolding D using doff by (simp add: min_def)
    from advance_addrs[OF 1(2) sb, of ?len] obtain sok s' where s': "fuse_bufvec_advance s ?len = Some (sok, s')" "vec_ok s'"
      "addrs s' = drop ?len (addrs s)" "\<not> sok \<Longrightarrow> addrs s' = []" "bv_buf s' = bv_buf s" by auto
    from advance_addrs[OF 1(3) db, of ?len] obtain dok d' where d': "fuse_bufvec_advance d ?len = Some (dok, d')" "vec_ok d'"
      "addrs d' = drop ?len (addrs d)" "\<not> dok \<Longrightarrow> addrs d' = []" "bv_buf d' = bv_buf d" by auto
    have step: "copy_loop k a flags d s copied st =
        (if \<not> sok then Some (int (copied + ?len), d, s', ?st)
         else if \<not> dok then Some (int (copied + ?len), d', s', ?st)
         else copy_loop k a flags d' s' (copied + ?len) ?st)"
      using copy_loop_step[OF sb db, unfolded len, OF one, of sok s' dok d' copied] s'(1) d'(1) by simp
    have split: "addrs s = take ?len (addrs s) @ addrs s'" "addrs d = take ?len (addrs d) @ addrs d'"
      unfolding s'(3) d'(3) by simp_all
    have first: "copied_to (take ?len (addrs s)) (take ?len (addrs d)) st ?st"
      unfolding S1 D1 by (rule store_load_copied)
    have dis: "set (take ?len (addrs d)) \<inter> set (addrs s') = {}" "set (take ?len (addrs d)) \<inter> set (addrs d') = {}"
      "distinct (addrs d')" "set (addrs d') \<inter> set (addrs s') = {}"
      using 1(6,7) split by (metis (no_types, lifting) Int_Un_distrib Int_Un_distrib2 Un_empty distinct_append set_append)+
    have all: "copied_to (addrs s) (addrs d) st st2" if "copied_to (addrs s') (addrs d') ?st st2" for st2
      using copied_append[OF first _ that dis(1,2)] lens split by simp
    show ?thesis
    proof (cases "sok \<and> dok")
      case False
      then have empty: "addrs s' = [] \<or> addrs d' = []" using s'(4) d'(4) by auto
      then have "?len = length (addrs s) \<or> ?len = length (addrs d)" using lens unfolding s'(3) d'(3) by auto
      then have "?len = min (length (addrs s)) (length (addrs d))" using lens by auto
      moreover have "copied_to (addrs s) (addrs d) st ?st" using empty by (intro all) auto
      ultimately show ?thesis using step False by auto
    next
      case True
      have "\<exists>d2 s2 st'. copy_loop k a flags d' s' (copied + ?len) ?st =
          Some (int (copied + ?len + min (length (addrs s')) (length (addrs d'))), d2, s2, st') \<and>
          copied_to (addrs s') (addrs d') ?st st'"
      proof (rule less.hyps[OF _ s'(2) d'(2) _ _ dis(3,4)])
        have s1: "fuse_bufvec_advance s ?len = Some (True, s')" and d1: "fuse_bufvec_advance d ?len = Some (True, d')"
          using True s'(1) d'(1) by simp_all
        have "sub64 (buf_size sb) (bv_off s) \<le> ?len \<or> sub64 (buf_size db) (bv_off d) \<le> ?len"
          using soff doff by (auto simp: sub64_def min_def)
        then show "left_in s' + left_in d' < left_in s + left_in d"
          using advance_left(1)[OF s1] advance_left(1)[OF d1] advance_left(2)[OF s1 sb] advance_left(2)[OF d1 db] by linarith
      qed (use 1(4,5) s'(5) d'(5) in \<open>simp_all add: in_memory_def\<close>)
      then obtain d2 s2 st' where r: "copy_loop k a flags d' s' (copied + ?len) ?st =
          Some (int (copied + ?len + min (length (addrs s')) (length (addrs d'))), d2, s2, st')"
        "copied_to (addrs s') (addrs d') ?st st'" by blast
      have "?len \<le> length (addrs s)" "?len \<le> length (addrs d)" using lens by linarith+
      then have "?len + min (length (addrs s')) (length (addrs d')) = min (length (addrs s)) (length (addrs d))"
        unfolding s'(3) d'(3) length_drop by (rule min_rest)
      then have "int (copied + ?len + min (length (addrs s')) (length (addrs d'))) =
          int (copied + min (length (addrs s)) (length (addrs d)))" by simp
      then show ?thesis using step True all[OF r(2)] r(1) by simp
    qed
  qed
qed

text \<open>
  Property C18. Copying one vector of memory buffers to another whose bytes do not overlap each
  other or the source copies, in order, as many bytes as the shorter of the two has left, changes
  nothing else, and returns that number, however the two are cut into buffers.
\<close>

theorem fuse_buf_copy_memory:
  assumes "vec_ok s" "vec_ok d" "in_memory s" "in_memory d"
    and "distinct (addrs d)" "set (addrs d) \<inter> set (addrs s) = {}"
  shows "\<exists>d' s' st'. fuse_buf_copy k a False d s flags st =
      Some (int (min (length (addrs s)) (length (addrs d))), d', s', st') \<and>
    map (b_mem st') (addrs d) =
      map (b_mem st) (take (length (addrs d)) (addrs s) @ drop (length (addrs s)) (addrs d)) \<and>
    (\<forall>x. x \<notin> set (addrs d) \<longrightarrow> b_mem st' x = b_mem st x)"
  using copy_loop_mem[OF assms, of k a flags 0 st] by (auto simp: fuse_buf_copy_def copied_to_def)

lemma fuse_buf_copy_memory_witness:
  "\<exists>d' s' st'. fuse_buf_copy (\<lambda>c w. (\<lparr>r_ret = 0, r_errno = 0, r_data = NoData\<rparr>, w)) 0 False (mem_vec [(0, 2), (4, 2)]) (mem_vec [(10, 3)]) 0
      \<lparr>p_world = (), p_errno = 0, b_mem = of_nat\<rparr> = Some (3, d', s', st') \<and> b_mem st' 4 = 12 \<and> b_mem st' 5 = 5"
proof -
  let ?d = "mem_vec [(0, 2), (4, 2)]" and ?s = "mem_vec [(10, 3)]"
  have a: "addrs ?d = [0, 1, 4, 5]" "addrs ?s = [10, 11, 12]"
    by (simp_all add: addrs_def spans_def mem_vec_def mem_buf_def upt_rec)
  have "vec_ok ?d" "vec_ok ?s" "in_memory ?d" "in_memory ?s"
    by (simp_all add: vec_ok_def in_memory_def has_def mem_vec_def mem_buf_def)
  from fuse_buf_copy_memory[OF this(2,1,4,3), of "\<lambda>c w. (\<lparr>r_ret = 0, r_errno = 0, r_data = NoData\<rparr>, w)" 0 0 "\<lparr>p_world = (), p_errno = 0, b_mem = of_nat\<rparr>"] show ?thesis
    unfolding a by auto
qed

section \<open>Copying with descriptors\<close>

definition ret_ok :: "nat \<Rightarrow> reply \<Rightarrow> bool" where
  "ret_ok n r \<longleftrightarrow> -1 \<le> r_ret r \<and> r_ret r \<le> int n \<and> (r_ret r = -1 \<longrightarrow> 0 < r_errno r)"

definition transfers_ok :: "'w kernel \<Rightarrow> bool" where
  \<comment> \<open>the documented return values of read, pread, write, pwrite and splice\<close>
  "transfers_ok k \<longleftrightarrow> (\<forall>w.
     (\<forall>fd n. ret_ok n (fst (k (SysRead fd n) w))) \<and> (\<forall>fd n pos. ret_ok n (fst (k (SysPread fd n pos) w))) \<and>
     (\<forall>fd b. ret_ok (length b) (fst (k (SysWrite fd b) w))) \<and>
     (\<forall>fd b pos. ret_ok (length b) (fst (k (SysPwrite fd b pos) w))) \<and>
     (\<forall>fd p fd' p' n f. ret_ok n (fst (k (SysSplice fd p fd' p' n f) w))))"

lemma sys_ok: "ret_ok n (fst (k c (p_world st))) \<Longrightarrow> sys k c st = (r, st') \<Longrightarrow>
    ret_ok n r \<and> (r_ret r = -1 \<longrightarrow> 0 < p_errno st')"
  by (auto simp: sys_def ret_ok_def Let_def split: prod.splits)

definition returns_upto :: "nat \<Rightarrow> nat \<Rightarrow> (int \<times> ('w, 'm) bproc_scheme) option \<Rightarrow> bool" where
  "returns_upto copied len r \<longleftrightarrow> (\<exists>res st'. r = Some (res, st') \<and> res \<le> int (copied + len) \<and>
     (0 < copied \<longrightarrow> 0 \<le> res))"

lemma write_loop_returns:
  assumes k: "transfers_ok k"
  shows "returns_upto copied len (buf_write_loop k dst dst_off src src_off len copied st)"
proof (induction len arbitrary: dst_off src_off copied st rule: less_induct)
  case (less len)
  let ?b = "load st (buf_mem src + src_off) len"
  let ?c = "if has (buf_flags dst) FUSE_BUF_FD_SEEK then SysPwrite (buf_fd dst) ?b (buf_pos dst + int dst_off)
     else SysWrite (buf_fd dst) ?b"
  obtain r st' where r: "sys k ?c st = (r, st')" by fastforce
  have "length ?b = len" by (simp add: load_def)
  then have "ret_ok len (fst (k ?c (p_world st)))" using k unfolding transfers_ok_def by metis
  from sys_ok[OF this r] have ok: "ret_ok len r" "r_ret r = -1 \<Longrightarrow> 0 < p_errno st'" by auto
  show ?case
  proof (cases "len = 0 \<or> r_ret r \<le> 0 \<or> \<not> has (buf_flags dst) FUSE_BUF_FD_RETRY")
    case True
    then show ?thesis using r ok by (subst buf_write_loop.simps) (auto simp: returns_upto_def ret_ok_def Let_def)
  next
    case False
    then have "buf_write_loop k dst dst_off src src_off len copied st =
        buf_write_loop k dst (dst_off + nat (r_ret r)) src (src_off + nat (r_ret r)) (len - nat (r_ret r)) (copied + nat (r_ret r)) st'"
      using r ok by (subst buf_write_loop.simps) (auto simp: ret_ok_def Let_def)
    moreover have "len - nat (r_ret r) < len" using False by auto
    ultimately show ?thesis
      using less.IH[of "len - nat (r_ret r)" "copied + nat (r_ret r)" "dst_off + nat (r_ret r)" "src_off + nat (r_ret r)" st'] False ok(1)
      by (auto simp: returns_upto_def ret_ok_def)
  qed
qed

lemma read_loop_returns:
  assumes k: "transfers_ok k"
  shows "returns_upto copied len (buf_read_loop k dst dst_off src src_off len copied st)"
proof (induction len arbitrary: dst_off src_off copied st rule: less_induct)
  case (less len)
  let ?c = "if has (buf_flags src) FUSE_BUF_FD_SEEK then SysPread (buf_fd src) len (buf_pos src + int src_off)
     else SysRead (buf_fd src) len"
  obtain r st1 where r: "sys k ?c st = (r, st1)" by fastforce
  have "ret_ok len (fst (k ?c (p_world st)))" using k unfolding transfers_ok_def by metis
  from sys_ok[OF this r] have ok: "ret_ok len r" "r_ret r = -1 \<Longrightarrow> 0 < p_errno st1" by auto
  define st' where "st' = (case r_data r of ByteData b \<Rightarrow> store (buf_mem dst + dst_off) (take (nat (r_ret r)) b) st1 | _ \<Rightarrow> st1)"
  have e: "p_errno st' = p_errno st1" by (auto simp: st'_def store_def split: payload.splits)
  have unfold: "buf_read_loop k dst dst_off src src_off len copied st =
     (if len = 0 then Some (int copied, st)
      else if r_ret r = -1 then Some (if copied = 0 then - p_errno st' else int copied, st')
      else if r_ret r = 0 then Some (int copied, st')
      else if r_ret r < 0 \<or> nat (r_ret r) > len then None
      else if \<not> has (buf_flags src) FUSE_BUF_FD_RETRY then Some (int (copied + nat (r_ret r)), st')
      else buf_read_loop k dst (dst_off + nat (r_ret r)) src (src_off + nat (r_ret r)) (len - nat (r_ret r)) (copied + nat (r_ret r)) st')"
    using r by (subst buf_read_loop.simps) (simp only: Let_def prod.case st'_def)
  show ?case
  proof (cases "len = 0 \<or> r_ret r \<le> 0 \<or> \<not> has (buf_flags src) FUSE_BUF_FD_RETRY")
    case True
    then show ?thesis using ok e unfolding unfold by (auto simp: returns_upto_def ret_ok_def)
  next
    case False
    then have "len - nat (r_ret r) < len" by auto
    then show ?thesis
      using less.IH[of "len - nat (r_ret r)" "copied + nat (r_ret r)" "dst_off + nat (r_ret r)" "src_off + nat (r_ret r)" st'] False ok(1)
      unfolding unfold by (auto simp: returns_upto_def ret_ok_def)
  qed
qed

lemma fd_to_fd_returns:
  assumes k: "transfers_ok k"
  shows "returns_upto copied len (fd_to_fd_loop k a dst dst_off src src_off len copied st)"
proof (induction len arbitrary: dst_off src_off copied st rule: less_induct)
  case (less len)
  let ?n = "min_size (buf_size (tmp_buf a)) len"
  have n: "?n \<le> len" "0 < len \<Longrightarrow> 0 < ?n" by (simp_all add: min_size_def tmp_buf_def)
  obtain r1 st1 where r1: "fuse_buf_read k (tmp_buf a) 0 src src_off ?n st = Some (r1, st1)" "r1 \<le> int ?n"
    using read_loop_returns[OF k, of 0 ?n "tmp_buf a" 0 src src_off st] by (auto simp: returns_upto_def fuse_buf_read_def)
  obtain r2 st2 where r2: "fuse_buf_write k dst dst_off (tmp_buf a) 0 (nat r1) st1 = Some (r2, st2)" "r2 \<le> int (nat r1)"
    using write_loop_returns[OF k, of 0 "nat r1" dst dst_off "tmp_buf a" 0 st1] by (auto simp: returns_upto_def fuse_buf_write_def)
  have unfold: "fd_to_fd_loop k a dst dst_off src src_off len copied st =
     (if len = 0 then Some (int copied, st)
      else if r1 < 0 then Some (if copied = 0 then r1 else int copied, st1)
      else if r1 = 0 then Some (int copied, st1)
      else if r2 < 0 then Some (if copied = 0 then r2 else int copied, st2)
      else if r2 = 0 then Some (int copied, st2)
      else if r2 < int ?n then Some (int copied + r2, st2)
      else if nat r2 > len then None
      else fd_to_fd_loop k a dst (dst_off + nat r2) src (src_off + nat r2) (len - nat r2) (copied + nat r2) st2)"
    using r1(1) r2(1) by (subst fd_to_fd_loop.simps) (simp add: Let_def)
  show ?case
  proof (cases "len = 0 \<or> r1 \<le> 0 \<or> r2 \<le> 0 \<or> r2 < int ?n")
    case True
    then show ?thesis using r1(2) r2(2) n unfolding unfold by (auto simp: returns_upto_def)
  next
    case False
    then have len: "nat r2 \<le> len" "len - nat r2 < len" using r1(2) r2(2) n by linarith+
    have "fd_to_fd_loop k a dst dst_off src src_off len copied st =
        fd_to_fd_loop k a dst (dst_off + nat r2) src (src_off + nat r2) (len - nat r2) (copied + nat r2) st2"
      unfolding unfold using False len(1) by simp
    then show ?thesis using less.IH[OF len(2), of "copied + nat r2" "dst_off + nat r2" "src_off + nat r2" st2] False len(1)
      by (auto simp: returns_upto_def)
  qed
qed

lemma splice_returns:
  assumes k: "transfers_ok k"
  shows "returns_upto copied len (splice_loop k a dst dst_off src src_off flags sf srcpos dstpos len copied st)"
proof (induction len arbitrary: srcpos dstpos copied st rule: less_induct)
  case (less len)
  let ?c = "SysSplice (buf_fd src) srcpos (buf_fd dst) dstpos len sf"
  obtain r st' where r: "sys k ?c st = (r, st')" by fastforce
  have "ret_ok len (fst (k ?c (p_world st)))" using k unfolding transfers_ok_def by metis
  from sys_ok[OF this r] have ok: "ret_ok len r" "r_ret r = -1 \<Longrightarrow> 0 < p_errno st'" by auto
  have fallback: "returns_upto 0 len (fuse_buf_fd_to_fd k a dst dst_off src src_off len st')"
    unfolding fuse_buf_fd_to_fd_def by (rule fd_to_fd_returns[OF k])
  let ?retry = "has (buf_flags src) FUSE_BUF_FD_RETRY \<or> has (buf_flags dst) FUSE_BUF_FD_RETRY"
  have unfold: "splice_loop k a dst dst_off src src_off flags sf srcpos dstpos len copied st =
     (if len = 0 then Some (int copied, st)
      else if r_ret r = -1 then
           (if copied \<noteq> 0 then Some (int copied, st')
            else if p_errno st' \<noteq> EINVAL \<or> has flags FUSE_BUF_FORCE_SPLICE then Some (- p_errno st', st')
            else fuse_buf_fd_to_fd k a dst dst_off src src_off len st')
      else if r_ret r = 0 then Some (int copied, st')
      else if r_ret r < 0 \<or> nat (r_ret r) > len then None
      else if \<not> ?retry then Some (int (copied + nat (r_ret r)), st')
      else splice_loop k a dst dst_off src src_off flags sf (map_option (\<lambda>p. p + r_ret r) srcpos)
        (map_option (\<lambda>p. p + r_ret r) dstpos) (len - nat (r_ret r)) (copied + nat (r_ret r)) st')"
    using r by (subst splice_loop.simps) (simp add: Let_def)
  show ?case
  proof (cases "len = 0 \<or> r_ret r \<le> 0 \<or> \<not> ?retry")
    case True
    then show ?thesis using ok fallback unfolding unfold by (auto simp: returns_upto_def ret_ok_def)
  next
    case False
    then have "len - nat (r_ret r) < len" by auto
    then show ?thesis
      using less.IH[of "len - nat (r_ret r)" "copied + nat (r_ret r)" "map_option (\<lambda>p. p + r_ret r) srcpos"
          "map_option (\<lambda>p. p + r_ret r) dstpos" st'] False ok(1)
      unfolding unfold by (auto simp: returns_upto_def ret_ok_def)
  qed
qed

lemma returns_all [simp]: "returns_upto 0 len (Some (int len, st))"
  by (simp add: returns_upto_def)

lemma copy_one_returns:
  assumes "transfers_ok k"
  shows "returns_upto 0 len (fuse_buf_copy_one k a dst dst_off src src_off len flags st)"
  by (simp add: fuse_buf_copy_one_def fuse_buf_write_def fuse_buf_read_def fuse_buf_fd_to_fd_def fuse_buf_splice_def
      Let_def write_loop_returns[OF assms] read_loop_returns[OF assms] fd_to_fd_returns[OF assms] splice_returns[OF assms])

lemma copy_loop_returns:
  assumes k: "transfers_ok k" and "vec_ok s" "vec_ok d"
  shows "\<exists>res d' s' st'. copy_loop k a flags d s copied st = Some (res, d', s', st') \<and> vec_ok d' \<and> vec_ok s' \<and>
    res \<le> int (copied + min (length (addrs s)) (length (addrs d))) \<and> (0 < copied \<longrightarrow> 0 \<le> res)"
  using assms(2,3)
proof (induction "left_in s + left_in d" arbitrary: s d copied st rule: less_induct)
  case less
  show ?case
  proof (cases "fuse_bufvec_current s = None \<or> fuse_bufvec_current d = None")
    case True
    from copy_loop_stop[OF True, of k a flags copied st] show ?thesis using less.prems by auto
  next
    case False
    then obtain sb db where sb: "fuse_bufvec_current s = Some sb" and db: "fuse_bufvec_current d = Some db" by auto
    let ?len = "min_size (sub64 (buf_size sb) (bv_off s)) (sub64 (buf_size db) (bv_off d))"
    note soff = current_spans(2)[OF less.prems(1) sb] and doff = current_spans(2)[OF less.prems(2) db]
    have bounds: "?len \<le> buf_size sb - bv_off s" "?len \<le> buf_size db - bv_off d"
      using soff doff by (simp_all add: min_size_def sub64_def)
    have lens: "buf_size sb - bv_off s \<le> length (addrs s)" "buf_size db - bv_off d \<le> length (addrs d)"
      unfolding addrs_current[OF less.prems(1) sb] addrs_current[OF less.prems(2) db] by simp_all
    obtain res st1 where one: "fuse_buf_copy_one k a db (bv_off d) sb (bv_off s) ?len flags st = Some (res, st1)"
      "res \<le> int ?len" using copy_one_returns[OF k, of ?len a db "bv_off d" sb "bv_off s" flags st] by (auto simp: returns_upto_def)
    show ?thesis
    proof (cases "res < 0")
      case True
      then have "copy_loop k a flags d s copied st = Some (if copied = 0 then res else int copied, d, s, st1)"
        using sb db one(1) by (subst copy_loop.simps) (simp add: Let_def)
      then show ?thesis using True less.prems by auto
    next
      case False
      have nb: "nat res \<le> buf_size sb - bv_off s" "nat res \<le> buf_size db - bv_off d" "nat res \<le> ?len"
        using one(2) bounds by linarith+
      from advance_addrs[OF less.prems(1) sb nb(1)] obtain sok s' where s': "fuse_bufvec_advance s (nat res) = Some (sok, s')"
        "vec_ok s'" "addrs s' = drop (nat res) (addrs s)" by auto
      from advance_addrs[OF less.prems(2) db nb(2)] obtain dok d' where d': "fuse_bufvec_advance d (nat res) = Some (dok, d')"
        "vec_ok d'" "addrs d' = drop (nat res) (addrs d)" by auto
      note step = copy_loop_step[OF sb db one(1) _ s'(1) d'(1), of copied]
      have m: "nat res \<le> min (length (addrs s)) (length (addrs d))" using nb lens by simp
      show ?thesis
      proof (cases "sok \<and> dok \<and> \<not> res < int ?len")
        case stop: False
        have "\<exists>d2. copy_loop k a flags d s copied st = Some (int (copied + nat res), d2, s', st1) \<and> (d2 = d \<or> d2 = d')"
          using step False stop by (auto split: if_splits)
        then show ?thesis using less.prems s'(2) d'(2) m by force
      next
        case True
        then have s1: "fuse_bufvec_advance s (nat res) = Some (True, s')" and d1: "fuse_bufvec_advance d (nat res) = Some (True, d')"
          using s'(1) d'(1) by simp_all
        have "sub64 (buf_size sb) (bv_off s) \<le> nat res \<or> sub64 (buf_size db) (bv_off d) \<le> nat res"
          using True False by (auto simp: min_size_def split: if_splits)
        then have "left_in s' + left_in d' < left_in s + left_in d"
          using advance_left(1)[OF s1] advance_left(1)[OF d1] advance_left(2)[OF s1 sb] advance_left(2)[OF d1 db] by linarith
        from less.hyps[OF this s'(2) d'(2), of "copied + nat res" st1] obtain res2 d2 s2 st2 where
          r: "copy_loop k a flags d' s' (copied + nat res) st1 = Some (res2, d2, s2, st2)" "vec_ok d2" "vec_ok s2"
            "res2 \<le> int (copied + nat res + min (length (addrs s')) (length (addrs d')))" "0 < copied + nat res \<longrightarrow> 0 \<le> res2"
          by (elim exE conjE)
        have "nat res + min (length (addrs s')) (length (addrs d')) = min (length (addrs s)) (length (addrs d))"
          unfolding s'(3) d'(3) length_drop by (rule min_rest) (use m in simp_all)
        then show ?thesis using step False True r by (auto simp: add.assoc)
      qed
    qed
  qed
qed

text \<open>
  Property C19. Whatever kinds of buffers two well-formed vectors hold, and however the descriptors
  behave within the documented return values (short transfers, errors, end of file, a splice that
  is not supported), \<open>fuse_buf_copy\<close> returns: no assertion of \<open>fuse_bufvec_advance\<close> fails, and the
  result is an error or at most the number of bytes the shorter vector has left. The vectors stay
  well-formed.
\<close>

theorem fuse_buf_copy_returns:
  assumes "transfers_ok k" and "vec_ok s" "vec_ok d"
  shows "\<exists>res d' s' st'. fuse_buf_copy k a False d s flags st = Some (res, d', s', st') \<and> vec_ok d' \<and> vec_ok s' \<and>
    res \<le> int (min (length (addrs s)) (length (addrs d)))"
  using copy_loop_returns[OF assms, of a flags 0 st] by (auto simp: fuse_buf_copy_def)

definition short_kernel :: "unit kernel" where
  \<comment> \<open>transfers at most one byte at a time; no splice\<close>
  "short_kernel c w =
     ((case c of
         SysRead fd n \<Rightarrow> \<lparr>r_ret = int (min 1 n), r_errno = 0, r_data = ByteData (replicate (min 1 n) 7)\<rparr>
       | SysPread fd n pos \<Rightarrow> \<lparr>r_ret = int (min 1 n), r_errno = 0, r_data = ByteData (replicate (min 1 n) 7)\<rparr>
       | SysWrite fd b \<Rightarrow> \<lparr>r_ret = int (min 1 (length b)), r_errno = 0, r_data = NoData\<rparr>
       | SysPwrite fd b pos \<Rightarrow> \<lparr>r_ret = int (min 1 (length b)), r_errno = 0, r_data = NoData\<rparr>
       | _ \<Rightarrow> \<lparr>r_ret = -1, r_errno = EINVAL, r_data = NoData\<rparr>), w)"

definition fd_vec :: "nat \<Rightarrow> fuse_bufvec" where
  "fd_vec n = \<lparr>bv_count = 1, bv_idx = 0, bv_off = 0,
     bv_buf = [\<lparr>buf_size = n, buf_flags = FUSE_BUF_IS_FD, buf_mem = 0, buf_fd = 3, buf_pos = 0\<rparr>]\<rparr>"

lemma fuse_buf_copy_returns_witness:
  "\<exists>res d' s' st'. fuse_buf_copy short_kernel 100 False (fd_vec 5) (fd_vec 3) 0
      \<lparr>p_world = (), p_errno = 0, b_mem = of_nat\<rparr> = Some (res, d', s', st') \<and> res \<le> 3"
proof -
  have "transfers_ok short_kernel" by (simp add: transfers_ok_def short_kernel_def ret_ok_def)
  moreover have "vec_ok (fd_vec 3)" "vec_ok (fd_vec 5)" by (simp_all add: vec_ok_def fd_vec_def)
  moreover have "length (addrs (fd_vec 3)) = 3" "length (addrs (fd_vec 5)) = 5"
    by (simp_all add: addrs_def spans_def fd_vec_def)
  ultimately show ?thesis
    using fuse_buf_copy_returns[of short_kernel "fd_vec 3" "fd_vec 5" 100 0 "\<lparr>p_world = (), p_errno = 0, b_mem = of_nat\<rparr>"]
    by fastforce
qed

end
