(* ===== verification/Fs_Ops_Props.thy ===== *)
theory Fs_Ops_Props
  imports Fs_Ops Buffers_Props
begin

text \<open>
  What the wrappers of src/lib/fuse.c promise the file system: a \<open>write\<close> callback gets the bytes of
  the buffer vector in one piece, and what the wrappers do when a callback is missing.
\<close>

section \<open>Flattening\<close>

lemma length_addrs:
  assumes "vec_ok v" "bv_idx v = 0" "bv_off v = 0"
  shows "length (addrs v) = sum_list (map buf_size (take (bv_count v) (bv_buf v)))"
proof (cases "take (bv_count v) (bv_buf v)")
  case Nil
  then have "spans v = []" unfolding spans_def by (simp only: drop_Nil list.case)
  then show ?thesis unfolding addrs_def Nil by simp
next
  case (Cons b bs)
  then show ?thesis using assms by (simp add: addrs_def spans_def length_concat o_def)
qed

lemma addrs_mem_bufvec [simp]: "addrs (mem_bufvec p n) = [p..<p + n]"
  by (simp add: addrs_def spans_def mem_bufvec_def FUSE_BUFVEC_INIT_def)

lemma mem_bufvec_ok [simp]: "vec_ok (mem_bufvec p n)" "in_memory (mem_bufvec p n)"
  by (simp_all add: vec_ok_def in_memory_def mem_bufvec_def FUSE_BUFVEC_INIT_def has_def)

lemma fuse_buf_size_sum:
  assumes "list_all (\<lambda>b. buf_size b < SIZE_MAX) (take (bv_count v) (bv_buf v))"
    and "sum_list (map buf_size (take (bv_count v) (bv_buf v))) < 2 ^ 64"
  shows "fuse_buf_size v = sum_list (map buf_size (take (bv_count v) (bv_buf v)))"
  using buf_size_loop_sum[OF assms(1), of 0] assms(2) by (simp add: fuse_buf_size_def)

lemma in_memory_single:
  assumes "vec_ok v" "in_memory v" "bv_count v = 1"
  shows "\<not> has (buf_flags (bv_buf v ! 0)) FUSE_BUF_IS_FD"
  using assms by (cases "bv_buf v") (auto simp: vec_ok_def in_memory_def)

text \<open>
  Property C32. A file system with \<open>write\<close> but no \<open>write_buf\<close> gets the data of a write in one
  piece: whatever memory buffers the vector is cut into, the callback is called once, with the
  whole size and an address where exactly the vector's bytes are, in order. The vector is either a single buffer or
  shorter than \<open>2 ^ 31\<close> bytes: the code keeps the number of copied bytes in an \<open>int\<close>.
\<close>

theorem write_gets_the_bytes:
  assumes fs: "op_write_buf (fs_op fs) = None" "op_write (fs_op fs) = Some c"
    and buf: "vec_ok buf" "in_memory buf" "bv_idx buf = 0" "bv_off buf = 0" "addrs buf \<noteq> []"
    and size: "list_all (\<lambda>b. buf_size b < SIZE_MAX) (take (bv_count buf) (bv_buf buf))" "length (addrs buf) < 2 ^ 64"
      "bv_count buf = 1 \<or> length (addrs buf) < 2 ^ 31"
    and mem: "list_all (\<lambda>x. x < t_brk st) (addrs buf)" "fst (malloc (t_mem st))"
  shows "\<exists>p st'. fuse_fs_write_buf k a fs path buf off fi st = Some (c path p (length (addrs buf)) off fi st') \<and>
    load st' p (length (addrs buf)) = map (b_mem st) (addrs buf)"
proof -
  let ?n = "length (addrs buf)"
  let ?st = "st\<lparr>t_private := fs_user_data fs\<rparr>"
  have n: "fuse_buf_size buf = ?n"
    using fuse_buf_size_sum[OF size(1)] size(2) length_addrs[OF buf(1,3,4)] by simp
  have w: "fuse_fs_write_buf k a fs path buf off fi st = write_flat k a c path buf off fi ?st"
    using fs buf(3,4) by (simp add: fuse_fs_write_buf_def Let_def)
  show ?thesis
  proof (cases "bv_count buf = 1 \<and> \<not> has (buf_flags (bv_buf buf ! 0)) FUSE_BUF_IS_FD")
    case True
    then have "take (bv_count buf) (bv_buf buf) = [bv_buf buf ! 0]"
      using buf(1) by (cases "bv_buf buf") (auto simp: vec_ok_def)
    then have "addrs buf = [buf_mem (bv_buf buf ! 0)..<buf_mem (bv_buf buf ! 0) + buf_size (bv_buf buf ! 0)]"
      using buf(3,4) by (simp add: addrs_def spans_def)
    then have "load ?st (buf_mem (bv_buf buf ! 0)) ?n = map (b_mem st) (addrs buf)"
      "?n = buf_size (bv_buf buf ! 0)" by (simp_all add: load_def)
    moreover have "write_flat k a c path buf off fi ?st =
        Some (c path (buf_mem (bv_buf buf ! 0)) (buf_size (bv_buf buf ! 0)) off fi ?st)"
      unfolding write_flat_def using True by simp
    ultimately show ?thesis unfolding w by metis
  next
    case False
    let ?p = "t_brk st" and ?m = "snd (malloc (t_mem st))"
    let ?st1 = "?st\<lparr>t_brk := ?p + ?n, t_mem := ?m\<rparr>"
    have al: "alloc ?n ?st = (Some ?p, ?st1)"
      using mem(2) by (cases "malloc (t_mem st)") (simp add: alloc_def)
    have "set (addrs (mem_bufvec ?p ?n)) \<inter> set (addrs buf) = {}"
      using mem(1) by (fastforce simp: list_all_iff)
    moreover have "distinct (addrs (mem_bufvec ?p ?n))" by simp
    ultimately obtain d' s' st' where cp: "copy_loop k a 0 (mem_bufvec ?p ?n) buf 0 ?st1 =
        Some (int (0 + min (length (addrs buf)) (length (addrs (mem_bufvec ?p ?n)))), d', s', st')"
      "copied_to (addrs buf) (addrs (mem_bufvec ?p ?n)) ?st1 st'"
      using copy_loop_mem[OF buf(1) mem_bufvec_ok(1) buf(2) mem_bufvec_ok(2), of ?p ?n k a 0 0 ?st1] by blast
    have "load st' ?p ?n = map (b_mem st) (addrs buf)"
      using cp(2) by (simp add: copied_to_def load_def)
    moreover have "bv_count buf \<noteq> 1"
      using False in_memory_single[OF buf(1,2)] by blast
    then have "to_int32 (int ?n) = int ?n" using size(3) by simp
    then have "write_flat k a c path buf off fi ?st = Some (c path ?p ?n off fi st')"
      unfolding write_flat_def n al fuse_buf_copy_def if_not_P[OF False] using cp(1) buf(5) by simp
    ultimately show ?thesis unfolding w by blast
  qed
qed

definition no_ops :: "('w, 'b) fuse_operations" where
  \<comment> \<open>\<open>memset(&op, 0, sizeof(op))\<close>\<close>
  "no_ops = \<lparr>op_getattr = None, op_readlink = None, op_mknod = None, op_mkdir = None, op_unlink = None,
     op_rmdir = None, op_symlink = None, op_rename = None, op_link = None, op_chmod = None, op_chown = None,
     op_truncate = None, op_open = None, op_read = None, op_write = None, op_statfs = None, op_flush = None,
     op_release = None, op_fsync = None, op_setxattr = None, op_getxattr = None, op_listxattr = None,
     op_removexattr = None, op_opendir = None, op_readdir = None, op_releasedir = None, op_fsyncdir = None,
     op_init = None, op_destroy = None, op_access = None, op_create = None, op_ftruncate = None,
     op_fgetattr = None, op_lock = None, op_utimens = None, op_bmap = None, op_ioctl = None, op_poll = None,
     op_write_buf = None, op_read_buf = None, op_flock = None, op_fallocate = None, op_flag_nopath = False\<rparr>"

definition checking_fs :: "(unit, unit) fuse_fs" where
  \<comment> \<open>its write accepts everything and returns the first byte it sees\<close>
  "checking_fs = \<lparr>fs_op = no_ops\<lparr>op_write := Some (\<lambda>path p n off fi st. (int (unat (b_mem st p)), st))\<rparr>,
     fs_m = None, fs_user_data = 0, fs_debug = False\<rparr>"

definition idle_thread :: "unit thread" where
  "idle_thread = \<lparr>p_world = (), p_errno = 0, b_mem = of_nat,
     t_context = \<lparr>cx_uid = 0, cx_gid = 0, cx_pid = 0, cx_umask = 0\<rparr>, t_private = 0, t_brk = 100, t_mem = []\<rparr>"

lemma write_gets_the_bytes_witness:
  "\<exists>st'. fuse_fs_write_buf short_kernel 0 checking_fs None (mem_vec [(20, 2), (40, 3)]) 0 zero_fi idle_thread = Some (20, st')"
proof -
  let ?v = "mem_vec [(20, 2), (40, 3)]"
  have a: "addrs ?v = [20, 21, 40, 41, 42]" by (simp add: addrs_def spans_def mem_vec_def mem_buf_def upt_rec)
  have ok: "vec_ok ?v" "in_memory ?v" "bv_idx ?v = 0" "bv_off ?v = 0"
    by (simp_all add: vec_ok_def in_memory_def has_def mem_vec_def mem_buf_def)
  have fs: "op_write_buf (fs_op checking_fs) = None"
    "op_write (fs_op checking_fs) = Some (\<lambda>path p n off fi st. (int (unat (b_mem st p)), st))"
    by (simp_all add: checking_fs_def no_ops_def)
  have "\<exists>p st'. fuse_fs_write_buf short_kernel 0 checking_fs None ?v 0 zero_fi idle_thread =
      Some ((\<lambda>path p n off fi st. (int (unat (b_mem st p)), st)) None p (length (addrs ?v)) 0 zero_fi st') \<and>
    load st' p (length (addrs ?v)) = map (b_mem idle_thread) (addrs ?v)"
    by (rule write_gets_the_bytes[OF fs ok]) (simp_all add: a, simp_all add: mem_vec_def mem_buf_def idle_thread_def)
  then obtain p st' where r: "fuse_fs_write_buf short_kernel 0 checking_fs None ?v 0 zero_fi idle_thread =
      Some (int (unat (b_mem st' p)), st')" "load st' p 5 = map (b_mem idle_thread) [20, 21, 40, 41, 42]"
    unfolding a by (auto simp: numeral_eq_Suc)
  have "hd (load st' p 5) = b_mem st' p" by (simp add: load_def upt_rec)
  then have "b_mem st' p = 20" unfolding r(2) by (simp add: idle_thread_def)
  then show ?thesis using r(1) by simp
qed

end
