(* ===== verification/Requests.thy ===== *)
theory Requests
  imports Fs_Ops Path_Lock_Props
begin

text \<open>
  What the request handlers of src/lib/fuse.c share. The state of the library (\<open>struct fuse\<close>) is
  the inode tree (\<open>l_fuse\<close>), the open directory handles, the thread that runs the request, and the
  file system (\<open>l_fs\<close>, NULL once destroyed); all but the last are the core, which the filler of
  \<open>readdir\<close> can reach too. The environment gives the system calls, what
  other threads do while the request waits for a lock (\<open>n_wait\<close>, one behaviour per wait), the
  request's context and the message layer's answer to a reply. \<open>double\<close> is the exact real.
  Other requests act only while this one waits; threads that run in parallel with a callback
  are the state machine of \<open>Lock_States\<close>.
\<close>

section \<open>State\<close>

record fuse_direntry =
  de_stat :: stat
  de_name :: string

record fuse_dh =
  dh_contents :: bytes
  dh_first :: "fuse_direntry list"
  dh_len :: nat
  dh_size :: nat
  dh_needlen :: nat
  dh_filled :: bool
  dh_fh :: "64 word"
  dh_error :: int
  dh_nodeid :: fuse_ino_t

record 'w core =
  l_fuse :: fuse
  l_dhs :: "64 word \<Rightarrow> fuse_dh option"
  l_thread :: "'w thread"
  l_clockid :: int
  l_context :: bool
  l_intr :: bool
  l_waits :: nat

record ('w, 'b) lib = "'w core" +
  l_fs :: "('w, 'b) fuse_fs option"

datatype answer =
    Reply_err int | Reply_none | Reply_entry fuse_entry_param | Reply_create fuse_entry_param fi
  | Reply_attr stat real | Reply_readlink bytes | Reply_open fi | Reply_write int | Reply_buf bytes
  | Reply_data fuse_bufvec "32 word" | Reply_statfs statvfs | Reply_xattr int | Reply_lock flock
  | Reply_bmap "64 word" | Reply_ioctl int bytes | Reply_poll "32 word"

record 'w request =
  n_kernel :: "'w kernel"
  n_wait :: "nat \<Rightarrow> env"
  n_ticket :: nat
  n_stack :: nat
  n_ctx :: fuse_context
  n_reply :: "answer \<Rightarrow> 'w thread \<Rightarrow> int \<times> 'w thread"

abbreviation (input) CLOCK_REALTIME :: int where "CLOCK_REALTIME \<equiv> 0"
abbreviation (input) CLOCK_MONOTONIC :: int where "CLOCK_MONOTONIC \<equiv> 1"
abbreviation (input) UTIME_NOW :: int where "UTIME_NOW \<equiv> 0x3fffffff"
abbreviation (input) UTIME_OMIT :: int where "UTIME_OMIT \<equiv> 0x3ffffffe"

section \<open>The thread's context and its replies\<close>

definition fuse_create_context :: "('w, 'm) core_scheme \<Rightarrow> ('w, 'm) core_scheme option" where
  \<comment> \<open>the first request of a thread allocates the context; \<open>l_context\<close>: it exists\<close>
  "fuse_create_context x =
     (let th = l_thread x; (ok, m) = (if l_context x then (True, t_mem th) else malloc (t_mem th))
      in if ok then Some (x\<lparr>l_context := True, l_thread := th\<lparr>t_mem := m, t_private := 0,
           t_context := \<lparr>cx_uid = 0, cx_gid = 0, cx_pid = 0, cx_umask = 0\<rparr>\<rparr>\<rparr>)
         else None)"

definition req_fuse_prepare :: "'w request \<Rightarrow> ('w, 'm) core_scheme \<Rightarrow> ('w, 'm) core_scheme option" where
  "req_fuse_prepare e x = do {
     x \<leftarrow> fuse_create_context x;
     Some (x\<lparr>l_thread := (l_thread x)\<lparr>t_context := n_ctx e\<rparr>\<rparr>)
   }"

definition reply :: "'w request \<Rightarrow> answer \<Rightarrow> ('w, 'm) core_scheme \<Rightarrow> int \<times> ('w, 'm) core_scheme" where
  "reply e a x = (let (res, th) = n_reply e a (l_thread x) in (res, x\<lparr>l_thread := th\<rparr>))"

definition reply_err :: "'w request \<Rightarrow> int \<Rightarrow> ('w, 'm) core_scheme \<Rightarrow> ('w, 'm) core_scheme" where
  "reply_err e err x = snd (reply e (Reply_err (- err)) x)"

definition reply_or_err :: "'w request \<Rightarrow> int \<Rightarrow> answer \<Rightarrow> ('w, 'm) core_scheme \<Rightarrow> ('w, 'm) core_scheme" where
  \<comment> \<open>\<open>if (!err) fuse_reply_...(req, ...); else reply_err(req, err);\<close>\<close>
  "reply_or_err e err a x = (if err = 0 then snd (reply e a x) else reply_err e err x)"

definition fs_act :: "(('w, 'b) fuse_fs \<Rightarrow> 'w act) \<Rightarrow> ('w, 'b) lib \<Rightarrow> (int \<times> ('w, 'b) lib) option" where
  \<comment> \<open>a call of \<open>fuse_fs_*(f->fs, ...)\<close>\<close>
  "fs_act g x = do { fs \<leftarrow> l_fs x; let (res, th) = g fs (l_thread x); Some (res, x\<lparr>l_thread := th\<rparr>) }"

definition fs_get ::
  "(('w, 'b) fuse_fs \<Rightarrow> 'w thread \<Rightarrow> int \<times> 'v \<times> 'w thread) \<Rightarrow> ('w, 'b) lib \<Rightarrow> (int \<times> 'v \<times> ('w, 'b) lib) option" where
  \<comment> \<open>the same for a call that also fills something in\<close>
  "fs_get g x = do { fs \<leftarrow> l_fs x; let (res, v, th) = g fs (l_thread x); Some (res, v, x\<lparr>l_thread := th\<rparr>) }"

section \<open>Time and attributes\<close>

definition clock_gettime :: "'w request \<Rightarrow> ('w, 'm) core_scheme \<Rightarrow> reply \<times> ('w, 'm) core_scheme" where
  "clock_gettime e x =
     (let (r, th) = sys (n_kernel e) (SysClockGettime (l_clockid x)) (l_thread x) in (r, x\<lparr>l_thread := th\<rparr>))"

definition curr_time :: "'w request \<Rightarrow> ('w, 'm) core_scheme \<Rightarrow> (timespec \<times> ('w, 'm) core_scheme) option" where
  "curr_time e x =
     (let (r, x) = clock_gettime e x;
          (r, x) = (if r_ret r = -1 \<and> p_errno (l_thread x) = EINVAL
                    then clock_gettime e (x\<lparr>l_clockid := CLOCK_REALTIME\<rparr>) else (r, x))
      in if r_ret r = -1 then None
         else Some (case r_data r of ClockData t \<Rightarrow> t | _ \<Rightarrow> zero_time, x))"

definition diff_timespec :: "timespec \<Rightarrow> timespec \<Rightarrow> real" where
  "diff_timespec t1 t2 =
     of_int (tv_sec t1 - tv_sec t2) + (of_int (tv_nsec t1) - of_int (tv_nsec t2)) / 1000000000"

definition set_stat :: "fuse \<Rightarrow> fuse_ino_t \<Rightarrow> stat \<Rightarrow> stat" where
  "set_stat f nodeid stbuf =
     (let conf = f_conf f;
          stbuf = (if c_use_ino conf then stbuf else stbuf\<lparr>st_ino := nodeid\<rparr>);
          stbuf = (if c_set_mode conf
                   then stbuf\<lparr>st_mode := (st_mode stbuf AND S_IFMT) OR (0x1FF AND NOT (c_umask conf))\<rparr> else stbuf);
          stbuf = (if c_set_uid conf then stbuf\<lparr>st_uid := c_uid conf\<rparr> else stbuf)
      in if c_set_gid conf then stbuf\<lparr>st_gid := c_gid conf\<rparr> else stbuf)"

definition mtime_eq :: "stat \<Rightarrow> timespec \<Rightarrow> bool" where
  "mtime_eq stbuf ts \<longleftrightarrow> tv_sec (st_mtim stbuf) = tv_sec ts \<and> tv_nsec (st_mtim stbuf) = tv_nsec ts"

definition node_update_stat :: "stat \<Rightarrow> timespec \<Rightarrow> node \<Rightarrow> node" where
  "node_update_stat stbuf now n =
     n\<lparr>n_cache_valid := n_cache_valid n \<and> \<not> (\<not> mtime_eq stbuf (n_mtime n) \<or> st_size stbuf \<noteq> n_size n),
       n_mtime := st_mtim stbuf, n_size := st_size stbuf, n_stat_updated := now\<rparr>"

definition update_stat :: "'w request \<Rightarrow> addr \<Rightarrow> stat \<Rightarrow> ('w, 'm) core_scheme \<Rightarrow> ('w, 'm) core_scheme option" where
  "update_stat e p stbuf x = do {
     (now, x) \<leftarrow> curr_time e x;
     _ \<leftarrow> f_nodes (l_fuse x) p;
     Some (x\<lparr>l_fuse := upd p (node_update_stat stbuf now) (l_fuse x)\<rparr>)
   }"

section \<open>Looking names up\<close>

definition do_lookup ::
  "'w request \<Rightarrow> fuse_ino_t \<Rightarrow> string option \<Rightarrow> fuse_entry_param \<Rightarrow> ('w, 'm) core_scheme \<Rightarrow>
   (int \<times> fuse_entry_param \<times> ('w, 'm) core_scheme) option" where
  "do_lookup e nodeid name ent x = do {
     (node, f) \<leftarrow> find_node (l_fuse x) nodeid name;
     let x = x\<lparr>l_fuse := f\<rparr>;
     (case node of
        None \<Rightarrow> Some (- ENOMEM, ent, x)
      | Some p \<Rightarrow> do {
          n \<leftarrow> f_nodes f p;
          let ent = ent\<lparr>e_ino := n_nodeid n, e_generation := ucast (n_generation n),
            e_entry_timeout := c_entry_timeout (f_conf f), e_attr_timeout := c_attr_timeout (f_conf f)\<rparr>;
          x \<leftarrow> (if c_auto_cache (f_conf f) then update_stat e p (e_attr ent) x else Some x);
          Some (0, ent\<lparr>e_attr := set_stat f (e_ino ent) (e_attr ent)\<rparr>, x)
        })
   }"

definition lookup_path ::
  "'w request \<Rightarrow> fuse_ino_t \<Rightarrow> string option \<Rightarrow> string \<Rightarrow> fi option \<Rightarrow> ('w, 'b) lib \<Rightarrow>
   (int \<times> fuse_entry_param \<times> ('w, 'b) lib) option" where
  "lookup_path e nodeid name path fi x = do {
     (res, st, x) \<leftarrow> (case fi of
         Some fi \<Rightarrow> fs_get (\<lambda>fs. fuse_fs_fgetattr fs (Some path) zero_stat fi) x
       | None \<Rightarrow> fs_get (\<lambda>fs. fuse_fs_getattr fs path zero_stat) x);
     let ent = zero_entry\<lparr>e_attr := st\<rparr>;
     if res = 0 then do_lookup e nodeid name ent x else Some (res, ent, x)
   }"

section \<open>Paths, interrupts and forgetting\<close>

definition waited :: "('w, 'm) core_scheme \<Rightarrow> fuse \<Rightarrow> ('w, 'm) core_scheme" where
  "waited x f = x\<lparr>l_fuse := f, l_waits := Suc (l_waits x)\<rparr>"

type_synonym ('w, 'b) path_getter =
  "'w request \<Rightarrow> fuse_ino_t \<Rightarrow> ('w, 'b) lib \<Rightarrow> (int \<times> string option \<times> ('w, 'b) lib) option"

definition with_path :: "('w, 'b) path_getter" where
  \<comment> \<open>\<open>get_path(f, ino, &path)\<close>\<close>
  "with_path e ino x = do {
     (err, path, f) \<leftarrow> get_path (n_wait e (l_waits x)) (n_ticket e) (l_fuse x) ino; Some (err, path, waited x f) }"

definition with_path_nullok :: "('w, 'b) path_getter" where
  "with_path_nullok e ino x = do {
     (err, path, f) \<leftarrow> get_path_nullok (n_wait e (l_waits x)) (n_ticket e) (l_fuse x) ino;
     Some (err, path, waited x f) }"

definition with_path_name :: "string option \<Rightarrow> ('w, 'b) path_getter" where
  "with_path_name name e ino x = do {
     (err, path, f) \<leftarrow> get_path_name (n_wait e (l_waits x)) (n_ticket e) (l_fuse x) ino name;
     Some (err, path, waited x f) }"

definition fuse_prepare_interrupt :: "('w, 'm) core_scheme \<Rightarrow> ('w, 'm) core_scheme" where
  \<comment> \<open>\<open>l_intr\<close>: the request has an interrupt function\<close>
  "fuse_prepare_interrupt x = (if c_intr (f_conf (l_fuse x)) then x\<lparr>l_intr := True\<rparr> else x)"

definition fuse_finish_interrupt :: "('w, 'm) core_scheme \<Rightarrow> ('w, 'm) core_scheme" where
  "fuse_finish_interrupt x = (if c_intr (f_conf (l_fuse x)) then x\<lparr>l_intr := False\<rparr> else x)"

definition drop_path :: "fuse_ino_t \<Rightarrow> string option \<Rightarrow> ('w, 'm) core_scheme \<Rightarrow> ('w, 'm) core_scheme option" where
  \<comment> \<open>\<open>free_path(f, ino, path)\<close>\<close>
  "drop_path ino path x = do { f \<leftarrow> free_path (l_fuse x) ino path; Some (x\<lparr>l_fuse := f\<rparr>) }"

definition on_path ::
  "('w, 'b) path_getter \<Rightarrow> 'w request \<Rightarrow> fuse_ino_t \<Rightarrow> 'r \<Rightarrow>
   (string option \<Rightarrow> ('w, 'b) lib \<Rightarrow> (int \<times> 'r \<times> ('w, 'b) lib) option) \<Rightarrow> ('w, 'b) lib \<Rightarrow> (int \<times> 'r \<times> ('w, 'b) lib) option" where
  \<comment> \<open>the shape of the handlers: get the path and, if that succeeded, call the file system between
      preparing and finishing the interrupt, and free the path\<close>
  "on_path get e ino r body x = do {
     (err, path, x) \<leftarrow> get e ino x;
     if err \<noteq> 0 then Some (err, r, x)
     else do {
       (err, r, x) \<leftarrow> body path (fuse_prepare_interrupt x);
       x \<leftarrow> drop_path ino path (fuse_finish_interrupt x);
       Some (err, r, x)
     }
   }"

definition doing :: "(('w, 'b) fuse_fs \<Rightarrow> 'w act) \<Rightarrow> ('w, 'b) lib \<Rightarrow> (int \<times> unit \<times> ('w, 'b) lib) option" where
  "doing g x = do { (res, x) \<leftarrow> fs_act g x; Some (res, (), x) }"

definition forget_node :: "'w request \<Rightarrow> fuse_ino_t \<Rightarrow> 64 word \<Rightarrow> ('w, 'm) core_scheme \<Rightarrow> ('w, 'm) core_scheme option" where
  \<comment> \<open>the clock is read by \<open>set_forget_time\<close>, when one lookup is left and nodes are remembered\<close>
  "forget_node e nodeid nlookup x =
     (if nodeid = FUSE_ROOT_ID then Some x
      else do {
        (p, f) \<leftarrow> forget_ready (n_wait e (l_waits x)) (n_ticket e) (l_fuse x) nodeid nlookup;
        n \<leftarrow> f_nodes f p;
        let x = waited x f;
        (now, x) \<leftarrow> (if lru_enabled f \<and> n_nlookup n - nlookup = 1 then curr_time e x else Some (zero_time, x));
        f \<leftarrow> forget_node_tail now (l_fuse x) p nlookup;
        Some (x\<lparr>l_fuse := f\<rparr>)
      })"

definition reply_entry :: "'w request \<Rightarrow> fuse_entry_param \<Rightarrow> int \<Rightarrow> ('w, 'm) core_scheme \<Rightarrow> ('w, 'm) core_scheme option" where
  "reply_entry e ent err x =
     (if err = 0 then
        let (res, x) = reply e (Reply_entry ent) x
        in if res = - ENOENT \<and> e_ino ent \<noteq> 0 then forget_node e (e_ino ent) 1 x else Some x
      else Some (reply_err e err x))"

end
