(* ===== verification/Handlers.thy ===== *)
theory Handlers
  imports Requests
begin

text \<open>
  The request handlers of src/lib/fuse.c that work on names and nodes: lookup, forget, getattr,
  setattr, access, readlink, the creating, removing and renaming ones with the hiding of open files,
  create, open and closing. A handler locks the path, calls the file system, keeps the tree in step
  and answers through the message layer; an answer nobody waits for any more (\<open>-ENOENT\<close>) is undone.
\<close>

section \<open>Lookup and forget\<close>

definition dot_name :: "string \<Rightarrow> bool" where
  "dot_name name \<longleftrightarrow> cchar name 0 = CHR ''.'' \<and> length name = 1"

definition dotdot_name :: "string \<Rightarrow> bool" where
  "dotdot_name name \<longleftrightarrow> cchar name 0 = CHR ''.'' \<and> cchar name 1 = CHR ''.'' \<and> length name = 2"

definition parent_id :: "fuse \<Rightarrow> fuse_ino_t \<Rightarrow> fuse_ino_t option" where
  \<comment> \<open>\<open>get_node(f, parent)->parent->nodeid\<close>\<close>
  "parent_id f i = do { p \<leftarrow> get_node f i; n \<leftarrow> f_nodes f p; q \<leftarrow> n_parent n; m \<leftarrow> f_nodes f q; Some (n_nodeid m) }"

definition lookup_child ::
  "'w request \<Rightarrow> fuse_ino_t \<Rightarrow> string option \<Rightarrow> ('w, 'b) lib \<Rightarrow> (int \<times> fuse_entry_param \<times> ('w, 'b) lib) option" where
  \<comment> \<open>from \<open>get_path_name\<close> to \<open>free_path\<close> in \<open>fuse_lib_lookup\<close>\<close>
  "lookup_child e parent name x =
     on_path (with_path_name name) e parent zero_entry (\<lambda>path x. do {
       p \<leftarrow> path;
       (err, ent, x) \<leftarrow> lookup_path e parent name p None x;
       let timeout = c_negative_timeout (f_conf (l_fuse x));
       Some (if err = - ENOENT \<and> timeout \<noteq> 0 then (0, ent\<lparr>e_ino := 0, e_entry_timeout := timeout\<rparr>, x)
             else (err, ent, x))
     }) x"

definition fuse_lib_lookup :: "'w request \<Rightarrow> fuse_ino_t \<Rightarrow> string \<Rightarrow> ('w, 'b) lib \<Rightarrow> ('w, 'b) lib option" where
  "fuse_lib_lookup e parent name x = do {
     x \<leftarrow> req_fuse_prepare e x;
     if dot_name name then
       (case get_node_nocheck (l_fuse x) parent of
          None \<Rightarrow> reply_entry e zero_entry (- ESTALE) x
        | Some dot \<Rightarrow> do {
            (err, ent, x) \<leftarrow> lookup_child e parent None
              (x\<lparr>l_fuse := upd dot (\<lambda>n. n\<lparr>n_refctr := n_refctr n + 1\<rparr>) (l_fuse x)\<rparr>);
            f \<leftarrow> unref_node (l_fuse x) dot;
            reply_entry e ent err (x\<lparr>l_fuse := f\<rparr>)
          })
     else do {
       (parent, name) \<leftarrow> (if dotdot_name name then do { q \<leftarrow> parent_id (l_fuse x) parent; Some (q, None) }
                         else Some (parent, Some name));
       (err, ent, x) \<leftarrow> lookup_child e parent name x;
       reply_entry e ent err x
     }
   }"

definition fuse_lib_forget :: "'w request \<Rightarrow> fuse_ino_t \<Rightarrow> 64 word \<Rightarrow> ('w, 'b) lib \<Rightarrow> ('w, 'b) lib option" where
  "fuse_lib_forget e ino nlookup x = do { x \<leftarrow> forget_node e ino nlookup x; Some (snd (reply e Reply_none x)) }"

fun forget_all :: "'w request \<Rightarrow> (fuse_ino_t \<times> 64 word) list \<Rightarrow> ('w, 'b) lib \<Rightarrow> ('w, 'b) lib option" where
  "forget_all e [] x = Some x"
| "forget_all e ((ino, nlookup) # fs) x = do { x \<leftarrow> forget_node e ino nlookup x; forget_all e fs x }"

definition fuse_lib_forget_multi ::
  "'w request \<Rightarrow> (fuse_ino_t \<times> 64 word) list \<Rightarrow> ('w, 'b) lib \<Rightarrow> ('w, 'b) lib option" where
  "fuse_lib_forget_multi e forgets x = do { x \<leftarrow> forget_all e forgets x; Some (snd (reply e Reply_none x)) }"

section \<open>Attributes\<close>

definition has_fgetattr :: "('w, 'b) lib \<Rightarrow> bool option" where
  "has_fgetattr x = do { fs \<leftarrow> l_fs x; Some (op_fgetattr (fs_op fs) \<noteq> None) }"

definition get_attributes :: "string option \<Rightarrow> fi option \<Rightarrow> ('w, 'b) lib \<Rightarrow> (int \<times> stat \<times> ('w, 'b) lib) option" where
  "get_attributes path fi x =
     (case fi of
        Some fi \<Rightarrow> fs_get (\<lambda>fs. fuse_fs_fgetattr fs path zero_stat fi) x
      | None \<Rightarrow> do { p \<leftarrow> path; fs_get (\<lambda>fs. fuse_fs_getattr fs p zero_stat) x })"

definition fuse_lib_getattr :: "'w request \<Rightarrow> fuse_ino_t \<Rightarrow> fi option \<Rightarrow> ('w, 'b) lib \<Rightarrow> ('w, 'b) lib option" where
  "fuse_lib_getattr e ino fi x = do {
     x \<leftarrow> req_fuse_prepare e x;
     fget \<leftarrow> has_fgetattr x;
     (err, buf, x) \<leftarrow> on_path (if fi \<noteq> None \<and> fget then with_path_nullok else with_path) e ino zero_stat
       (\<lambda>path. get_attributes path fi) x;
     if err = 0 then do {
       p \<leftarrow> get_node (l_fuse x) ino;
       n \<leftarrow> f_nodes (l_fuse x) p;
       let buf = (if n_is_hidden n \<and> st_nlink buf > 0 then buf\<lparr>st_nlink := st_nlink buf - 1\<rparr> else buf);
       x \<leftarrow> (if c_auto_cache (f_conf (l_fuse x)) then update_stat e p buf x else Some x);
       Some (snd (reply e (Reply_attr (set_stat (l_fuse x) ino buf) (c_attr_timeout (f_conf (l_fuse x)))) x))
     } else Some (reply_err e err x)
   }"

definition FUSE_SET_ATTR_MODE :: "32 word" where "FUSE_SET_ATTR_MODE = push_bit 0 1"
definition FUSE_SET_ATTR_UID :: "32 word" where "FUSE_SET_ATTR_UID = push_bit 1 1"
definition FUSE_SET_ATTR_GID :: "32 word" where "FUSE_SET_ATTR_GID = push_bit 2 1"
definition FUSE_SET_ATTR_SIZE :: "32 word" where "FUSE_SET_ATTR_SIZE = push_bit 3 1"
definition FUSE_SET_ATTR_ATIME :: "32 word" where "FUSE_SET_ATTR_ATIME = push_bit 4 1"
definition FUSE_SET_ATTR_MTIME :: "32 word" where "FUSE_SET_ATTR_MTIME = push_bit 5 1"
definition FUSE_SET_ATTR_ATIME_NOW :: "32 word" where "FUSE_SET_ATTR_ATIME_NOW = push_bit 7 1"
definition FUSE_SET_ATTR_MTIME_NOW :: "32 word" where "FUSE_SET_ATTR_MTIME_NOW = push_bit 8 1"

definition set_times :: "32 word \<Rightarrow> stat \<Rightarrow> timespec list" where
  \<comment> \<open>\<open>tv[2]\<close> for \<open>utimens\<close>\<close>
  "set_times valid attr =
     (let omit = \<lparr>tv_sec = 0, tv_nsec = UTIME_OMIT\<rparr>; now = \<lparr>tv_sec = 0, tv_nsec = UTIME_NOW\<rparr>
      in [if has valid FUSE_SET_ATTR_ATIME_NOW then now else if has valid FUSE_SET_ATTR_ATIME then st_atim attr else omit,
          if has valid FUSE_SET_ATTR_MTIME_NOW then now else if has valid FUSE_SET_ATTR_MTIME then st_mtim attr else omit])"

definition and_then :: "bool \<Rightarrow> (('w, 'b) lib \<Rightarrow> (int \<times> ('w, 'b) lib) option) \<Rightarrow> int \<times> ('w, 'b) lib \<Rightarrow> (int \<times> ('w, 'b) lib) option" where
  \<comment> \<open>\<open>if (!err && c) err = step;\<close>\<close>
  "and_then c step = (\<lambda>(err, x). if err = 0 \<and> c then step x else Some (err, x))"

definition set_attributes ::
  "string option \<Rightarrow> stat \<Rightarrow> 32 word \<Rightarrow> fi option \<Rightarrow> ('w, 'b) lib \<Rightarrow> (int \<times> stat \<times> ('w, 'b) lib) option" where
  "set_attributes path attr valid fi x = do {
     r \<leftarrow> and_then (has valid FUSE_SET_ATTR_MODE)
       (\<lambda>x. do { p \<leftarrow> path; fs_act (\<lambda>fs. fuse_fs_chmod fs p (st_mode attr)) x }) (0, x);
     r \<leftarrow> and_then (has valid (FUSE_SET_ATTR_UID OR FUSE_SET_ATTR_GID))
       (\<lambda>x. do { p \<leftarrow> path; fs_act (\<lambda>fs. fuse_fs_chown fs p
           (if has valid FUSE_SET_ATTR_UID then st_uid attr else - 1)
           (if has valid FUSE_SET_ATTR_GID then st_gid attr else - 1)) x }) r;
     r \<leftarrow> and_then (has valid FUSE_SET_ATTR_SIZE)
       (\<lambda>x. case fi of
           Some fi \<Rightarrow> fs_act (\<lambda>fs. fuse_fs_ftruncate fs path (st_size attr) fi) x
         | None \<Rightarrow> do { p \<leftarrow> path; fs_act (\<lambda>fs. fuse_fs_truncate fs p (st_size attr)) x }) r;
     (err, x) \<leftarrow> and_then (has valid (FUSE_SET_ATTR_ATIME OR FUSE_SET_ATTR_MTIME))
       (\<lambda>x. do { p \<leftarrow> path; fs_act (\<lambda>fs. fuse_fs_utimens fs p (set_times valid attr)) x }) r;
     if err = 0 then get_attributes path fi x else Some (err, zero_stat, x)
   }"

definition fuse_lib_setattr ::
  "'w request \<Rightarrow> fuse_ino_t \<Rightarrow> stat \<Rightarrow> 32 word \<Rightarrow> fi option \<Rightarrow> ('w, 'b) lib \<Rightarrow> ('w, 'b) lib option" where
  "fuse_lib_setattr e ino attr valid fi x = do {
     x \<leftarrow> req_fuse_prepare e x;
     fs \<leftarrow> l_fs x;
     (err, buf, x) \<leftarrow> on_path
       (if valid = FUSE_SET_ATTR_SIZE \<and> fi \<noteq> None \<and> op_ftruncate (fs_op fs) \<noteq> None \<and> op_fgetattr (fs_op fs) \<noteq> None
        then with_path_nullok else with_path) e ino zero_stat
       (\<lambda>path. set_attributes path attr valid fi) x;
     if err = 0 then do {
       x \<leftarrow> (if c_auto_cache (f_conf (l_fuse x)) then do { p \<leftarrow> get_node (l_fuse x) ino; update_stat e p buf x } else Some x);
       Some (snd (reply e (Reply_attr (set_stat (l_fuse x) ino buf) (c_attr_timeout (f_conf (l_fuse x)))) x))
     } else Some (reply_err e err x)
   }"

definition fuse_lib_access :: "'w request \<Rightarrow> fuse_ino_t \<Rightarrow> int \<Rightarrow> ('w, 'b) lib \<Rightarrow> ('w, 'b) lib option" where
  "fuse_lib_access e ino amode x = do {
     x \<leftarrow> req_fuse_prepare e x;
     (err, _, x) \<leftarrow> on_path with_path e ino ()
       (\<lambda>path x. do { p \<leftarrow> path; doing (\<lambda>fs. fuse_fs_access fs p amode) x }) x;
     Some (reply_err e err x)
   }"

definition fuse_lib_readlink :: "'w request \<Rightarrow> fuse_ino_t \<Rightarrow> ('w, 'b) lib \<Rightarrow> ('w, 'b) lib option" where
  \<comment> \<open>\<open>char linkname[PATH_MAX + 1]\<close>; the reply ends at the first NUL\<close>
  "fuse_lib_readlink e ino x = do {
     x \<leftarrow> req_fuse_prepare e x;
     (err, linkname, x) \<leftarrow> on_path with_path e ino (replicate 4097 0)
       (\<lambda>path x. do { p \<leftarrow> path; fs_get (\<lambda>fs. fuse_fs_readlink fs p (replicate 4097 0)) x }) x;
     Some (reply_or_err e err (Reply_readlink (takeWhile (\<lambda>b. b \<noteq> 0) (linkname[4096 := 0]))) x)
   }"

section \<open>Making entries\<close>

definition made :: "'w request \<Rightarrow> fuse_ino_t \<Rightarrow> string \<Rightarrow> string \<Rightarrow> (('w, 'b) fuse_fs \<Rightarrow> 'w act) \<Rightarrow> ('w, 'b) lib \<Rightarrow>
    (int \<times> fuse_entry_param \<times> ('w, 'b) lib) option" where
  \<comment> \<open>call the file system and, if it succeeds, look the new entry up\<close>
  "made e parent name path g x = do {
     (err, x) \<leftarrow> fs_act g x;
     if err = 0 then lookup_path e parent (Some name) path None x else Some (err, zero_entry, x)
   }"

definition mknod_create ::
  "'w request \<Rightarrow> fuse_ino_t \<Rightarrow> string \<Rightarrow> string \<Rightarrow> 32 word \<Rightarrow> ('w, 'b) lib \<Rightarrow> (int \<times> fuse_entry_param \<times> ('w, 'b) lib) option" where
  \<comment> \<open>the branch of \<open>fuse_lib_mknod\<close> for a regular file\<close>
  "mknod_create e parent name p m x = do {
     (err, fi, x) \<leftarrow> fs_get (\<lambda>fs. fuse_fs_create fs p m (zero_fi\<lparr>fi_flags := O_CREAT + O_EXCL + O_WRONLY\<rparr>)) x;
     if err = 0 then do {
       (err, ent, x) \<leftarrow> lookup_path e parent (Some name) p (Some fi) x;
       (_, x) \<leftarrow> fs_act (\<lambda>fs. fuse_fs_release fs (Some p) fi) x;
       Some (err, ent, x)
     } else Some (err, zero_entry, x)
   }"

definition fuse_lib_mknod ::
  "'w request \<Rightarrow> fuse_ino_t \<Rightarrow> string \<Rightarrow> 32 word \<Rightarrow> 64 word \<Rightarrow> ('w, 'b) lib \<Rightarrow> ('w, 'b) lib option" where
  "fuse_lib_mknod e parent name m rdev x = do {
     x \<leftarrow> req_fuse_prepare e x;
     (err, ent, x) \<leftarrow> on_path (with_path_name (Some name)) e parent zero_entry (\<lambda>path x. do {
       p \<leftarrow> path;
       (err, ent, x) \<leftarrow> (if S_ISREG m then mknod_create e parent name p m x else Some (- ENOSYS, zero_entry, x));
       if err = - ENOSYS then made e parent name p (\<lambda>fs. fuse_fs_mknod fs p m rdev) x else Some (err, ent, x)
     }) x;
     reply_entry e ent err x
   }"

definition fuse_lib_mkdir :: "'w request \<Rightarrow> fuse_ino_t \<Rightarrow> string \<Rightarrow> 32 word \<Rightarrow> ('w, 'b) lib \<Rightarrow> ('w, 'b) lib option" where
  "fuse_lib_mkdir e parent name m x = do {
     x \<leftarrow> req_fuse_prepare e x;
     (err, ent, x) \<leftarrow> on_path (with_path_name (Some name)) e parent zero_entry
       (\<lambda>path x. do { p \<leftarrow> path; made e parent name p (\<lambda>fs. fuse_fs_mkdir fs p m) x }) x;
     reply_entry e ent err x
   }"

definition fuse_lib_symlink :: "'w request \<Rightarrow> string \<Rightarrow> fuse_ino_t \<Rightarrow> string \<Rightarrow> ('w, 'b) lib \<Rightarrow> ('w, 'b) lib option" where
  "fuse_lib_symlink e linkname parent name x = do {
     x \<leftarrow> req_fuse_prepare e x;
     (err, ent, x) \<leftarrow> on_path (with_path_name (Some name)) e parent zero_entry
       (\<lambda>path x. do { p \<leftarrow> path; made e parent name p (\<lambda>fs. fuse_fs_symlink fs linkname p) x }) x;
     reply_entry e ent err x
   }"

definition fuse_lib_link ::
  "'w request \<Rightarrow> fuse_ino_t \<Rightarrow> fuse_ino_t \<Rightarrow> string \<Rightarrow> ('w, 'b) lib \<Rightarrow> ('w, 'b) lib option" where
  "fuse_lib_link e ino newparent newname x = do {
     x \<leftarrow> req_fuse_prepare e x;
     (err, oldpath, newpath, _, _, f) \<leftarrow>
       get_path2 (n_wait e (l_waits x)) (n_ticket e) (l_fuse x) ino None newparent (Some newname) False False;
     let x = waited x f;
     if err = 0 then do {
       old \<leftarrow> oldpath;
       new \<leftarrow> newpath;
       (err, ent, x) \<leftarrow> made e newparent newname new (\<lambda>fs. fuse_fs_link fs old new) (fuse_prepare_interrupt x);
       let x = fuse_finish_interrupt x;
       f \<leftarrow> free_path2 (l_fuse x) ino newparent None None;
       reply_entry e ent err (x\<lparr>l_fuse := f\<rparr>)
     } else reply_entry e zero_entry err x
   }"

section \<open>Removing and renaming\<close>

definition is_open :: "fuse \<Rightarrow> fuse_ino_t \<Rightarrow> string \<Rightarrow> bool" where
  "is_open f dir name =
     (case Option.bind (lookup_node f dir name) (f_nodes f) of Some n \<Rightarrow> n_open_count n > 0 | None \<Rightarrow> False)"

definition hex8 :: "32 word \<Rightarrow> string" where
  \<comment> \<open>\<open>%08x\<close>\<close>
  "hex8 w = (let d = digits 16 (unat w) in replicate (8 - length d) (CHR ''0'') @ d)"

definition hidden_string :: "fuse_ino_t \<Rightarrow> 32 word \<Rightarrow> string" where
  "hidden_string nodeid ctr = ''.fuse_hidden'' @ hex8 (ucast nodeid) @ hex8 ctr"

partial_function (option) hidden_free :: "fuse \<Rightarrow> fuse_ino_t \<Rightarrow> fuse_ino_t \<Rightarrow> (string \<times> fuse) option" where
  \<comment> \<open>the inner loop of \<open>hidden_name\<close>; \<open>None\<close>: every hidden name is in use, the loop does not end\<close>
  "hidden_free f dir nodeid =
     (let f = f\<lparr>f_hidectr := f_hidectr f + 1\<rparr>; newname = hidden_string nodeid (f_hidectr f)
      in case lookup_node f dir newname of None \<Rightarrow> Some (newname, f) | Some _ \<Rightarrow> hidden_free f dir nodeid)"

fun hidden_name ::
  "nat \<Rightarrow> fuse_ino_t \<Rightarrow> string \<Rightarrow> ('w, 'b) lib \<Rightarrow> ((string \<times> string) option \<times> ('w, 'b) lib) option" where
  \<comment> \<open>the first argument is \<open>failctr\<close>; result: the new path and the new name, or NULL\<close>
  "hidden_name 0 dir oldname x = Some (None, x)"
| "hidden_name (Suc failctr) dir oldname x =
     (case lookup_node (l_fuse x) dir oldname of
        None \<Rightarrow> Some (None, x)
      | Some p \<Rightarrow> do {
          n \<leftarrow> f_nodes (l_fuse x) p;
          (newname, f) \<leftarrow> hidden_free (l_fuse x) dir (n_nodeid n);
          (res, newpath, _, f) \<leftarrow> try_get_path f dir (Some newname) False False;
          let x = x\<lparr>l_fuse := f\<rparr>;
          if res \<noteq> 0 then Some (None, x)
          else do {
            path \<leftarrow> newpath;
            (res, _, x) \<leftarrow> fs_get (\<lambda>fs. fuse_fs_getattr fs path zero_stat) x;
            if res = - ENOENT then Some (Some (path, newname), x)
            else if res = 0 then hidden_name failctr dir oldname x
            else Some (None, x)
          }
        })"

definition hide_node :: "string \<Rightarrow> fuse_ino_t \<Rightarrow> string \<Rightarrow> ('w, 'b) lib \<Rightarrow> (int \<times> ('w, 'b) lib) option" where
  "hide_node oldpath dir oldname x = do {
     (r, x) \<leftarrow> hidden_name 10 dir oldname x;
     (case r of
        None \<Rightarrow> Some (- EBUSY, x)
      | Some (newpath, newname) \<Rightarrow> do {
          (err, x) \<leftarrow> fs_act (\<lambda>fs. fuse_fs_rename fs oldpath newpath 0) x;
          if err = 0 then do {
            (err, f) \<leftarrow> rename_node (l_fuse x) dir oldname dir newname True;
            Some (err, x\<lparr>l_fuse := f\<rparr>)
          } else Some (err, x)
        })
   }"

definition unlink_entry :: "fuse_ino_t \<Rightarrow> string \<Rightarrow> string \<Rightarrow> ('w, 'b) lib \<Rightarrow> (int \<times> ('w, 'b) lib) option" where
  \<comment> \<open>the body of \<open>fuse_lib_unlink\<close>, with the path locked\<close>
  "unlink_entry parent name path x =
     (if \<not> c_hard_remove (f_conf (l_fuse x)) \<and> is_open (l_fuse x) parent name then hide_node path parent name x
      else do {
        (err, x) \<leftarrow> fs_act (\<lambda>fs. fuse_fs_unlink fs path) x;
        if err = 0 then do { f \<leftarrow> remove_node (l_fuse x) parent name; Some (err, x\<lparr>l_fuse := f\<rparr>) }
        else Some (err, x)
      })"

definition with_wrlock :: "'w request \<Rightarrow> fuse_ino_t \<Rightarrow> string \<Rightarrow> ('w, 'b) lib \<Rightarrow>
    (int \<times> string option \<times> addr option \<times> ('w, 'b) lib) option" where
  \<comment> \<open>\<open>get_path_wrlock(f, parent, name, &path, &wnode)\<close>\<close>
  "with_wrlock e parent name x = do {
     (err, path, wnode, f) \<leftarrow> get_path_wrlock (n_wait e (l_waits x)) (n_ticket e) (l_fuse x) parent name;
     Some (err, path, wnode, waited x f) }"

definition fuse_lib_unlink :: "'w request \<Rightarrow> fuse_ino_t \<Rightarrow> string \<Rightarrow> ('w, 'b) lib \<Rightarrow> ('w, 'b) lib option" where
  "fuse_lib_unlink e parent name x = do {
     x \<leftarrow> req_fuse_prepare e x;
     (err, path, wnode, x) \<leftarrow> with_wrlock e parent name x;
     if err = 0 then do {
       p \<leftarrow> path;
       (err, x) \<leftarrow> unlink_entry parent name p (fuse_prepare_interrupt x);
       let x = fuse_finish_interrupt x;
       f \<leftarrow> free_path_wrlock (l_fuse x) parent wnode;
       Some (reply_err e err (x\<lparr>l_fuse := f\<rparr>))
     } else Some (reply_err e err x)
   }"

definition fuse_lib_rmdir :: "'w request \<Rightarrow> fuse_ino_t \<Rightarrow> string \<Rightarrow> ('w, 'b) lib \<Rightarrow> ('w, 'b) lib option" where
  "fuse_lib_rmdir e parent name x = do {
     x \<leftarrow> req_fuse_prepare e x;
     (err, path, wnode, x) \<leftarrow> with_wrlock e parent name x;
     if err = 0 then do {
       p \<leftarrow> path;
       (err, x) \<leftarrow> fs_act (\<lambda>fs. fuse_fs_rmdir fs p) (fuse_prepare_interrupt x);
       let x = fuse_finish_interrupt x;
       f \<leftarrow> (if err = 0 then remove_node (l_fuse x) parent name else Some (l_fuse x));
       f \<leftarrow> free_path_wrlock f parent wnode;
       Some (reply_err e err (x\<lparr>l_fuse := f\<rparr>))
     } else Some (reply_err e err x)
   }"

definition RENAME_EXCHANGE :: "32 word" where "RENAME_EXCHANGE = push_bit 1 1"

definition rename_entry ::
  "fuse_ino_t \<Rightarrow> string \<Rightarrow> fuse_ino_t \<Rightarrow> string \<Rightarrow> 32 word \<Rightarrow> string \<Rightarrow> string \<Rightarrow> ('w, 'b) lib \<Rightarrow> (int \<times> ('w, 'b) lib) option" where
  \<comment> \<open>the body of \<open>fuse_lib_rename\<close>, with both paths locked\<close>
  "rename_entry olddir oldname newdir newname flags oldpath newpath x = do {
     (err, x) \<leftarrow> (if \<not> c_hard_remove (f_conf (l_fuse x)) \<and> \<not> has flags RENAME_EXCHANGE \<and> is_open (l_fuse x) newdir newname
       then hide_node newpath newdir newname x else Some (0, x));
     if err \<noteq> 0 then Some (err, x)
     else do {
       (err, x) \<leftarrow> fs_act (\<lambda>fs. fuse_fs_rename fs oldpath newpath flags) x;
       if err \<noteq> 0 then Some (err, x)
       else do {
         (err, f) \<leftarrow> (if has flags RENAME_EXCHANGE then exchange_node (l_fuse x) olddir oldname newdir newname
                      else rename_node (l_fuse x) olddir oldname newdir newname False);
         Some (err, x\<lparr>l_fuse := f\<rparr>)
       }
     }
   }"

definition fuse_lib_rename ::
  "'w request \<Rightarrow> fuse_ino_t \<Rightarrow> string \<Rightarrow> fuse_ino_t \<Rightarrow> string \<Rightarrow> 32 word \<Rightarrow> ('w, 'b) lib \<Rightarrow> ('w, 'b) lib option" where
  "fuse_lib_rename e olddir oldname newdir newname flags x = do {
     x \<leftarrow> req_fuse_prepare e x;
     (err, oldpath, newpath, wnode1, wnode2, f) \<leftarrow>
       get_path2 (n_wait e (l_waits x)) (n_ticket e) (l_fuse x) olddir (Some oldname) newdir (Some newname) True True;
     let x = waited x f;
     if err = 0 then do {
       old \<leftarrow> oldpath;
       new \<leftarrow> newpath;
       (err, x) \<leftarrow> rename_entry olddir oldname newdir newname flags old new (fuse_prepare_interrupt x);
       let x = fuse_finish_interrupt x;
       f \<leftarrow> free_path2 (l_fuse x) olddir newdir wnode1 wnode2;
       Some (reply_err e err (x\<lparr>l_fuse := f\<rparr>))
     } else Some (reply_err e err x)
   }"

section \<open>Open files\<close>

definition count_open :: "fuse_ino_t \<Rightarrow> ('w, 'b) lib \<Rightarrow> ('w, 'b) lib option" where
  \<comment> \<open>\<open>get_node(f, ino)->open_count++\<close>\<close>
  "count_open ino x = do {
     p \<leftarrow> get_node (l_fuse x) ino;
     Some (x\<lparr>l_fuse := upd p (\<lambda>n. n\<lparr>n_open_count := n_open_count n + 1\<rparr>) (l_fuse x)\<rparr>)
   }"

definition close_node :: "fuse \<Rightarrow> fuse_ino_t \<Rightarrow> (bool \<times> fuse) option" where
  \<comment> \<open>the critical section of \<open>fuse_do_release\<close>: \<open>unlink_hidden\<close>\<close>
  "close_node f ino = do {
     p \<leftarrow> get_node f ino;
     n \<leftarrow> f_nodes f p;
     if n_open_count n > 0 then
       (let c = n_open_count n - 1; last = (n_is_hidden n \<and> c = 0)
        in Some (last, upd p (\<lambda>n. n\<lparr>n_open_count := c, n_is_hidden := n_is_hidden n \<and> \<not> last\<rparr>) f))
     else None
   }"

definition fuse_do_release ::
  "'w request \<Rightarrow> fuse_ino_t \<Rightarrow> string option \<Rightarrow> fi \<Rightarrow> ('w, 'b) lib \<Rightarrow> ('w, 'b) lib option" where
  "fuse_do_release e ino path fi x = do {
     (_, x) \<leftarrow> fs_act (\<lambda>fs. fuse_fs_release fs path fi) x;
     (unlink_hidden, f) \<leftarrow> close_node (l_fuse x) ino;
     let x = x\<lparr>l_fuse := f\<rparr>;
     if \<not> unlink_hidden then Some x
     else (case path of
         Some p \<Rightarrow> do { (_, x) \<leftarrow> fs_act (\<lambda>fs. fuse_fs_unlink fs p) x; Some x }
       | None \<Rightarrow>
           if c_nopath (f_conf (l_fuse x)) then do {
             (err, unlinkpath, x) \<leftarrow> with_path e ino x;
             x \<leftarrow> (if err = 0 then do {
                      p \<leftarrow> unlinkpath;
                      (_, x) \<leftarrow> fs_act (\<lambda>fs. fuse_fs_unlink fs p) x;
                      Some x
                    } else Some x);
             drop_path ino unlinkpath x
           } else Some x)
   }"

definition open_flags :: "fuse_config \<Rightarrow> fi \<Rightarrow> fi" where
  "open_flags conf fi =
     fi\<lparr>fi_direct_io := fi_direct_io fi \<or> c_direct_io conf, fi_keep_cache := fi_keep_cache fi \<or> c_kernel_cache conf\<rparr>"

definition create_entry ::
  "'w request \<Rightarrow> fuse_ino_t \<Rightarrow> string \<Rightarrow> 32 word \<Rightarrow> fi \<Rightarrow> string \<Rightarrow> ('w, 'b) lib \<Rightarrow>
   (int \<times> fuse_entry_param \<times> fi \<times> ('w, 'b) lib) option" where
  \<comment> \<open>the body of \<open>fuse_lib_create\<close>, with the path locked\<close>
  "create_entry e parent name m fi p x = do {
     (err, fi, x) \<leftarrow> fs_get (\<lambda>fs. fuse_fs_create fs p m fi) x;
     if err \<noteq> 0 then Some (err, zero_entry, fi, x)
     else do {
       (err, ent, x) \<leftarrow> lookup_path e parent (Some name) p (Some fi) x;
       if err \<noteq> 0 then do {
         (_, x) \<leftarrow> fs_act (\<lambda>fs. fuse_fs_release fs (Some p) fi) x;
         Some (err, ent, fi, x)
       } else if \<not> S_ISREG (st_mode (e_attr ent)) then do {
         (_, x) \<leftarrow> fs_act (\<lambda>fs. fuse_fs_release fs (Some p) fi) x;
         x \<leftarrow> forget_node e (e_ino ent) 1 x;
         Some (- EIO, ent, fi, x)
       } else Some (0, ent, open_flags (f_conf (l_fuse x)) fi, x)
     }
   }"

definition fuse_lib_create ::
  "'w request \<Rightarrow> fuse_ino_t \<Rightarrow> string \<Rightarrow> 32 word \<Rightarrow> fi \<Rightarrow> ('w, 'b) lib \<Rightarrow> ('w, 'b) lib option" where
  "fuse_lib_create e parent name m fi x = do {
     x \<leftarrow> req_fuse_prepare e x;
     (err, path, x) \<leftarrow> with_path_name (Some name) e parent x;
     (err, ent, fi, x) \<leftarrow>
       (if err = 0 then do {
          p \<leftarrow> path;
          (err, ent, fi, x) \<leftarrow> create_entry e parent name m fi p (fuse_prepare_interrupt x);
          Some (err, ent, fi, fuse_finish_interrupt x)
        } else Some (err, zero_entry, fi, x));
     x \<leftarrow> (if err = 0 then do {
             x \<leftarrow> count_open (e_ino ent) x;
             let (res, x) = reply e (Reply_create ent fi) x;
             if res = - ENOENT then do {
               x \<leftarrow> fuse_do_release e (e_ino ent) path fi x;
               forget_node e (e_ino ent) 1 x
             } else Some x
           } else Some (reply_err e err x));
     drop_path parent path x
   }"

definition open_auto_cache ::
  "'w request \<Rightarrow> fuse_ino_t \<Rightarrow> string \<Rightarrow> fi \<Rightarrow> ('w, 'b) lib \<Rightarrow> (fi \<times> ('w, 'b) lib) option" where
  \<comment> \<open>the stat buffer handed to the file system is not initialised; here it is zero\<close>
  "open_auto_cache e ino path fi x = do {
     p \<leftarrow> get_node (l_fuse x) ino;
     n \<leftarrow> f_nodes (l_fuse x) p;
     x \<leftarrow> (if n_cache_valid n then do {
            (now, x) \<leftarrow> curr_time e x;
            if diff_timespec now (n_stat_updated n) > c_ac_attr_timeout (f_conf (l_fuse x)) then do {
              (err, stbuf, x) \<leftarrow> fs_get (\<lambda>fs. fuse_fs_fgetattr fs (Some path) zero_stat fi) x;
              if err = 0 then update_stat e p stbuf x
              else Some (x\<lparr>l_fuse := upd p (\<lambda>n. n\<lparr>n_cache_valid := False\<rparr>) (l_fuse x)\<rparr>)
            } else Some x
          } else Some x);
     n \<leftarrow> f_nodes (l_fuse x) p;
     Some (if n_cache_valid n then fi\<lparr>fi_keep_cache := True\<rparr> else fi,
       x\<lparr>l_fuse := upd p (\<lambda>n. n\<lparr>n_cache_valid := True\<rparr>) (l_fuse x)\<rparr>)
   }"

definition open_file :: "'w request \<Rightarrow> fuse_ino_t \<Rightarrow> fi \<Rightarrow> string \<Rightarrow> ('w, 'b) lib \<Rightarrow> (int \<times> fi \<times> ('w, 'b) lib) option" where
  \<comment> \<open>the body of \<open>fuse_lib_open\<close>, with the path locked\<close>
  "open_file e ino fi p x = do {
     (err, fi, x) \<leftarrow> fs_get (\<lambda>fs. fuse_fs_open fs p fi) x;
     if err \<noteq> 0 then Some (err, fi, x)
     else do {
       let fi = open_flags (f_conf (l_fuse x)) fi;
       (fi, x) \<leftarrow> (if c_auto_cache (f_conf (l_fuse x)) then open_auto_cache e ino p fi x else Some (fi, x));
       Some (0, fi, x)
     }
   }"

definition fuse_lib_open :: "'w request \<Rightarrow> fuse_ino_t \<Rightarrow> fi \<Rightarrow> ('w, 'b) lib \<Rightarrow> ('w, 'b) lib option" where
  "fuse_lib_open e ino fi x = do {
     x \<leftarrow> req_fuse_prepare e x;
     (err, path, x) \<leftarrow> with_path e ino x;
     (err, fi, x) \<leftarrow>
       (if err = 0 then do {
          p \<leftarrow> path;
          (err, fi, x) \<leftarrow> open_file e ino fi p (fuse_prepare_interrupt x);
          Some (err, fi, fuse_finish_interrupt x)
        } else Some (err, fi, x));
     x \<leftarrow> (if err = 0 then do {
             x \<leftarrow> count_open ino x;
             let (res, x) = reply e (Reply_open fi) x;
             if res = - ENOENT then fuse_do_release e ino path fi x else Some x
           } else Some (reply_err e err x));
     drop_path ino path x
   }"

end
