(* ===== verification/Handlers_IO.thy ===== *)
theory Handlers_IO
  imports Handlers
begin

text \<open>
  The request handlers of src/lib/fuse.c for open files: read, write, flush, release, fsync, statfs,
  the extended attributes, record locks, ioctl, poll and fallocate; the start and the end of the
  library; and the cleaning of the remembered nodes.
\<close>

section \<open>Locks\<close>

abbreviation (input) F_GETLK :: int where "F_GETLK \<equiv> 5"
abbreviation (input) F_SETLK :: int where "F_SETLK \<equiv> 6"
abbreviation (input) F_SETLKW :: int where "F_SETLKW \<equiv> 7"

definition owned_lock :: "fi \<Rightarrow> flock \<Rightarrow> lock" where
  \<comment> \<open>\<open>flock_to_lock(lock, &l); l.owner = fi->lock_owner;\<close>\<close>
  "owned_lock fi lk = (flock_to_lock lk)\<lparr>lk_owner := fi_lock_owner fi\<rparr>"

definition node_lock :: "fuse \<Rightarrow> fuse_ino_t \<Rightarrow> lock \<Rightarrow> fuse option" where
  \<comment> \<open>\<open>locks_insert(get_node(f, ino), &l)\<close>, whose result the callers ignore\<close>
  "node_lock f ino l = do {
     p \<leftarrow> get_node f ino;
     n \<leftarrow> f_nodes f p;
     (_, ls, m) \<leftarrow> locks_insert (n_locks n) l (f_mem f);
     Some (upd p (\<lambda>n. n\<lparr>n_locks := ls\<rparr>) (f\<lparr>f_mem := m\<rparr>))
   }"

definition fuse_flush_common ::
  "fuse_ino_t \<Rightarrow> string option \<Rightarrow> fi \<Rightarrow> ('w, 'b) lib \<Rightarrow> (int \<times> ('w, 'b) lib) option" where
  "fuse_flush_common ino path fi x = do {
     (err, x) \<leftarrow> fs_act (\<lambda>fs. fuse_fs_flush fs path fi) (fuse_prepare_interrupt x);
     (errlock, lk, x) \<leftarrow> fs_get (\<lambda>fs. fuse_fs_lock fs path fi F_SETLK
       \<lparr>l_type = F_UNLCK, l_whence = 0, l_start = 0, l_len = 0, l_pid = 0\<rparr>) x;
     let x = fuse_finish_interrupt x;
     if errlock \<noteq> - ENOSYS then do {
       f \<leftarrow> node_lock (l_fuse x) ino (owned_lock fi lk);
       Some (if err = - ENOSYS then 0 else err, x\<lparr>l_fuse := f\<rparr>)
     } else Some (err, x)
   }"

definition fuse_lib_release :: "'w request \<Rightarrow> fuse_ino_t \<Rightarrow> fi \<Rightarrow> ('w, 'b) lib \<Rightarrow> ('w, 'b) lib option" where
  "fuse_lib_release e ino fi x = do {
     x \<leftarrow> req_fuse_prepare e x;
     (_, path, x) \<leftarrow> with_path_nullok e ino x;
     (err, x) \<leftarrow> (if fi_flush fi then do {
         (err, x) \<leftarrow> fuse_flush_common ino path fi x;
         Some (if err = - ENOSYS then 0 else err, x)
       } else Some (0, x));
     x \<leftarrow> fuse_do_release e ino path fi (fuse_prepare_interrupt x);
     x \<leftarrow> drop_path ino path (fuse_finish_interrupt x);
     Some (reply_err e err x)
   }"

definition fuse_lib_flush :: "'w request \<Rightarrow> fuse_ino_t \<Rightarrow> fi \<Rightarrow> ('w, 'b) lib \<Rightarrow> ('w, 'b) lib option" where
  "fuse_lib_flush e ino fi x = do {
     x \<leftarrow> req_fuse_prepare e x;
     (_, path, x) \<leftarrow> with_path_nullok e ino x;
     (err, x) \<leftarrow> fuse_flush_common ino path fi x;
     x \<leftarrow> drop_path ino path x;
     Some (reply_err e err x)
   }"

definition fuse_lock_common ::
  "'w request \<Rightarrow> fuse_ino_t \<Rightarrow> fi \<Rightarrow> flock \<Rightarrow> int \<Rightarrow> ('w, 'b) lib \<Rightarrow> (int \<times> flock \<times> ('w, 'b) lib) option" where
  "fuse_lock_common e ino fi lk cmd x = do {
     x \<leftarrow> req_fuse_prepare e x;
     on_path with_path_nullok e ino lk (\<lambda>path. fs_get (\<lambda>fs. fuse_fs_lock fs path fi cmd lk)) x
   }"

definition fuse_lib_getlk :: "'w request \<Rightarrow> fuse_ino_t \<Rightarrow> fi \<Rightarrow> flock \<Rightarrow> ('w, 'b) lib \<Rightarrow> ('w, 'b) lib option" where
  "fuse_lib_getlk e ino fi lk x = do {
     p \<leftarrow> get_node (l_fuse x) ino;
     n \<leftarrow> f_nodes (l_fuse x) p;
     (err, lk, x) \<leftarrow> (case locks_conflict (n_locks n) (owned_lock fi lk) of
         Some c \<Rightarrow> Some (0, lock_to_flock c lk, x)
       | None \<Rightarrow> fuse_lock_common e ino fi lk F_GETLK x);
     Some (reply_or_err e err (Reply_lock lk) x)
   }"

definition fuse_lib_setlk ::
  "'w request \<Rightarrow> fuse_ino_t \<Rightarrow> fi \<Rightarrow> flock \<Rightarrow> bool \<Rightarrow> ('w, 'b) lib \<Rightarrow> ('w, 'b) lib option" where
  "fuse_lib_setlk e ino fi lk sleep x = do {
     (err, lk, x) \<leftarrow> fuse_lock_common e ino fi lk (if sleep then F_SETLKW else F_SETLK) x;
     f \<leftarrow> (if err = 0 then node_lock (l_fuse x) ino (owned_lock fi lk) else Some (l_fuse x));
     Some (reply_err e err (x\<lparr>l_fuse := f\<rparr>))
   }"

definition fuse_lib_flock :: "'w request \<Rightarrow> fuse_ino_t \<Rightarrow> fi \<Rightarrow> int \<Rightarrow> ('w, 'b) lib \<Rightarrow> ('w, 'b) lib option" where
  "fuse_lib_flock e ino fi op x = do {
     x \<leftarrow> req_fuse_prepare e x;
     (err, _, x) \<leftarrow> on_path with_path_nullok e ino () (\<lambda>path. doing (\<lambda>fs. fuse_fs_flock fs path fi op)) x;
     Some (reply_err e err x)
   }"

section \<open>Reading and writing\<close>

definition fuse_lib_read :: "'w request \<Rightarrow> fuse_ino_t \<Rightarrow> nat \<Rightarrow> int \<Rightarrow> fi \<Rightarrow> ('w, 'b) lib \<Rightarrow> ('w, 'b) lib option" where
  "fuse_lib_read e ino sz off fi x = do {
     x \<leftarrow> req_fuse_prepare e x;
     (res, buf, x) \<leftarrow> on_path with_path_nullok e ino None (\<lambda>path x. do {
       fs \<leftarrow> l_fs x;
       (res, buf, th) \<leftarrow> fuse_fs_read_buf fs path sz off fi (l_thread x);
       Some (res, buf, x\<lparr>l_thread := th\<rparr>)
     }) x;
     if res = 0 then do { b \<leftarrow> buf; Some (snd (reply e (Reply_data b FUSE_BUF_SPLICE_MOVE) x)) }
     else Some (reply_err e res x)
   }"

definition fuse_lib_write_buf ::
  "'w request \<Rightarrow> fuse_ino_t \<Rightarrow> fuse_bufvec \<Rightarrow> int \<Rightarrow> fi \<Rightarrow> ('w, 'b) lib \<Rightarrow> ('w, 'b) lib option" where
  "fuse_lib_write_buf e ino buf off fi x = do {
     x \<leftarrow> req_fuse_prepare e x;
     (res, _, x) \<leftarrow> on_path with_path_nullok e ino () (\<lambda>path x. do {
       fs \<leftarrow> l_fs x;
       (res, th) \<leftarrow> fuse_fs_write_buf (n_kernel e) (n_stack e) fs path buf off fi (l_thread x);
       Some (res, (), x\<lparr>l_thread := th\<rparr>)
     }) x;
     Some (if res \<ge> 0 then snd (reply e (Reply_write res) x) else reply_err e res x)
   }"

definition fuse_lib_fsync :: "'w request \<Rightarrow> fuse_ino_t \<Rightarrow> int \<Rightarrow> fi \<Rightarrow> ('w, 'b) lib \<Rightarrow> ('w, 'b) lib option" where
  "fuse_lib_fsync e ino datasync fi x = do {
     x \<leftarrow> req_fuse_prepare e x;
     (err, _, x) \<leftarrow> on_path with_path_nullok e ino () (\<lambda>path. doing (\<lambda>fs. fuse_fs_fsync fs path datasync fi)) x;
     Some (reply_err e err x)
   }"

definition zero_statvfs :: statvfs where
  "zero_statvfs = \<lparr>f_bsize = 0, f_frsize = 0, f_blocks = 0, f_bfree = 0, f_bavail = 0, f_files = 0, f_ffree = 0, f_namemax = 0\<rparr>"

definition fuse_lib_statfs :: "'w request \<Rightarrow> fuse_ino_t \<Rightarrow> ('w, 'b) lib \<Rightarrow> ('w, 'b) lib option" where
  "fuse_lib_statfs e ino x = do {
     x \<leftarrow> req_fuse_prepare e x;
     (err, buf, x) \<leftarrow> on_path (if ino \<noteq> 0 then with_path else (\<lambda>e ino x. Some (0, None, x))) e ino zero_statvfs
       (\<lambda>path. fs_get (\<lambda>fs. fuse_fs_statfs fs (case path of Some p \<Rightarrow> p | None \<Rightarrow> ''/'') zero_statvfs)) x;
     Some (reply_or_err e err (Reply_statfs buf) x)
   }"

section \<open>Extended attributes\<close>

definition fuse_lib_setxattr ::
  "'w request \<Rightarrow> fuse_ino_t \<Rightarrow> string \<Rightarrow> bytes \<Rightarrow> int \<Rightarrow> ('w, 'b) lib \<Rightarrow> ('w, 'b) lib option" where
  "fuse_lib_setxattr e ino name v flags x = do {
     x \<leftarrow> req_fuse_prepare e x;
     (err, _, x) \<leftarrow> on_path with_path e ino ()
       (\<lambda>path x. do { p \<leftarrow> path; doing (\<lambda>fs. fuse_fs_setxattr fs p name v flags) x }) x;
     Some (reply_err e err x)
   }"

definition common_getxattr ::
  "'w request \<Rightarrow> fuse_ino_t \<Rightarrow> string \<Rightarrow> bytes \<Rightarrow> ('w, 'b) lib \<Rightarrow> (int \<times> bytes \<times> ('w, 'b) lib) option" where
  "common_getxattr e ino name v =
     on_path with_path e ino v (\<lambda>path x. do { p \<leftarrow> path; fs_get (\<lambda>fs. fuse_fs_getxattr fs p name v) x })"

definition common_listxattr ::
  "'w request \<Rightarrow> fuse_ino_t \<Rightarrow> bytes \<Rightarrow> ('w, 'b) lib \<Rightarrow> (int \<times> bytes \<times> ('w, 'b) lib) option" where
  "common_listxattr e ino v =
     on_path with_path e ino v (\<lambda>path x. do { p \<leftarrow> path; fs_get (\<lambda>fs. fuse_fs_listxattr fs p v) x })"

definition xattr_reply ::
  "'w request \<Rightarrow> nat \<Rightarrow> (bytes \<Rightarrow> ('w, 'b) lib \<Rightarrow> (int \<times> bytes \<times> ('w, 'b) lib) option) \<Rightarrow> ('w, 'b) lib \<Rightarrow> ('w, 'b) lib option" where
  \<comment> \<open>what \<open>fuse_lib_getxattr\<close> and \<open>fuse_lib_listxattr\<close> do with the file system's answer: the bytes,
      or their number when \<open>size\<close> is 0; \<open>None\<close>: a result beyond the buffer\<close>
  "xattr_reply e sz common x =
     (if sz \<noteq> 0 then
        let (ok, m) = malloc (t_mem (l_thread x)); x = x\<lparr>l_thread := (l_thread x)\<lparr>t_mem := m\<rparr>\<rparr>
        in if \<not> ok then Some (reply_err e (- ENOMEM) x)
           else do {
             (res, v, x) \<leftarrow> common (replicate sz 0) x;
             if res > 0 then if nat res \<le> length v then Some (snd (reply e (Reply_buf (take (nat res) v)) x)) else None
             else Some (reply_err e res x)
           }
      else do {
        (res, _, x) \<leftarrow> common [] x;
        Some (if res \<ge> 0 then snd (reply e (Reply_xattr res) x) else reply_err e res x)
      })"

definition fuse_lib_getxattr ::
  "'w request \<Rightarrow> fuse_ino_t \<Rightarrow> string \<Rightarrow> nat \<Rightarrow> ('w, 'b) lib \<Rightarrow> ('w, 'b) lib option" where
  "fuse_lib_getxattr e ino name sz x = do {
     x \<leftarrow> req_fuse_prepare e x;
     xattr_reply e sz (common_getxattr e ino name) x
   }"

definition fuse_lib_listxattr :: "'w request \<Rightarrow> fuse_ino_t \<Rightarrow> nat \<Rightarrow> ('w, 'b) lib \<Rightarrow> ('w, 'b) lib option" where
  "fuse_lib_listxattr e ino sz x = do {
     x \<leftarrow> req_fuse_prepare e x;
     xattr_reply e sz (common_listxattr e ino) x
   }"

definition fuse_lib_removexattr :: "'w request \<Rightarrow> fuse_ino_t \<Rightarrow> string \<Rightarrow> ('w, 'b) lib \<Rightarrow> ('w, 'b) lib option" where
  "fuse_lib_removexattr e ino name x = do {
     x \<leftarrow> req_fuse_prepare e x;
     (err, _, x) \<leftarrow> on_path with_path e ino ()
       (\<lambda>path x. do { p \<leftarrow> path; doing (\<lambda>fs. fuse_fs_removexattr fs p name) x }) x;
     Some (reply_err e err x)
   }"

section \<open>Other requests on open files\<close>

definition fuse_lib_bmap :: "'w request \<Rightarrow> fuse_ino_t \<Rightarrow> nat \<Rightarrow> 64 word \<Rightarrow> ('w, 'b) lib \<Rightarrow> ('w, 'b) lib option" where
  "fuse_lib_bmap e ino blocksize idx x = do {
     x \<leftarrow> req_fuse_prepare e x;
     (err, idx, x) \<leftarrow> on_path with_path e ino idx
       (\<lambda>path x. do { p \<leftarrow> path; fs_get (\<lambda>fs. fuse_fs_bmap fs p blocksize idx) x }) x;
     Some (reply_or_err e err (Reply_bmap idx) x)
   }"

definition FUSE_IOCTL_UNRESTRICTED :: "32 word" where "FUSE_IOCTL_UNRESTRICTED = push_bit 1 1"
definition FUSE_IOCTL_DIR :: "32 word" where "FUSE_IOCTL_DIR = push_bit 4 1"

definition get_dirhandle :: "('w, 'b) lib \<Rightarrow> fi \<Rightarrow> (fuse_dh \<times> fi) option" where
  "get_dirhandle x llfi = do { dh \<leftarrow> l_dhs x (fi_fh llfi); Some (dh, zero_fi\<lparr>fi_fh := dh_fh dh\<rparr>) }"

definition fuse_lib_ioctl ::
  "'w request \<Rightarrow> fuse_ino_t \<Rightarrow> int \<Rightarrow> nat \<Rightarrow> fi \<Rightarrow> 32 word \<Rightarrow> bytes \<Rightarrow> nat \<Rightarrow> ('w, 'b) lib \<Rightarrow> ('w, 'b) lib option" where
  \<comment> \<open>\<open>in_buf\<close> holds \<open>in_bufsz\<close> bytes\<close>
  "fuse_lib_ioctl e ino cmd arg llfi flags in_buf out_bufsz x = do {
     x \<leftarrow> req_fuse_prepare e x;
     if has flags FUSE_IOCTL_UNRESTRICTED then Some (reply_err e (- EPERM) x)
     else do {
       fi \<leftarrow> (if has flags FUSE_IOCTL_DIR then map_option snd (get_dirhandle x llfi) else Some llfi);
       let (ok, m) = (if out_bufsz \<noteq> 0 then malloc (t_mem (l_thread x)) else (True, t_mem (l_thread x)));
       let x = x\<lparr>l_thread := (l_thread x)\<lparr>t_mem := m\<rparr>\<rparr>;
       if \<not> ok then Some (reply_err e (- ENOMEM) x)
       else if \<not> (in_buf = [] \<or> out_bufsz = 0 \<or> length in_buf = out_bufsz) then None
       else do {
         (err, path, x) \<leftarrow> with_path_nullok e ino x;
         if err \<noteq> 0 then Some (reply_err e err x)
         else do {
           (err, data, x) \<leftarrow> fs_get (\<lambda>fs. fuse_fs_ioctl fs path cmd arg fi flags
             (if out_bufsz \<noteq> 0 \<and> in_buf = [] then replicate out_bufsz 0 else in_buf)) (fuse_prepare_interrupt x);
           x \<leftarrow> drop_path ino path (fuse_finish_interrupt x);
           Some (snd (reply e (Reply_ioctl err (if out_bufsz \<noteq> 0 then data else [])) x))
         }
       }
     }
   }"

definition fuse_lib_poll :: "'w request \<Rightarrow> fuse_ino_t \<Rightarrow> fi \<Rightarrow> nat option \<Rightarrow> ('w, 'b) lib \<Rightarrow> ('w, 'b) lib option" where
  "fuse_lib_poll e ino fi ph x = do {
     x \<leftarrow> req_fuse_prepare e x;
     (err, revents, x) \<leftarrow> on_path with_path_nullok e ino 0 (\<lambda>path. fs_get (\<lambda>fs. fuse_fs_poll fs path fi ph 0)) x;
     Some (reply_or_err e err (Reply_poll revents) x)
   }"

definition fuse_lib_fallocate ::
  "'w request \<Rightarrow> fuse_ino_t \<Rightarrow> int \<Rightarrow> int \<Rightarrow> int \<Rightarrow> fi \<Rightarrow> ('w, 'b) lib \<Rightarrow> ('w, 'b) lib option" where
  "fuse_lib_fallocate e ino m offset len fi x = do {
     x \<leftarrow> req_fuse_prepare e x;
     (err, _, x) \<leftarrow> on_path with_path_nullok e ino () (\<lambda>path. doing (\<lambda>fs. fuse_fs_fallocate fs path m offset len fi)) x;
     Some (reply_err e err x)
   }"

section \<open>Start, end and cleaning\<close>

definition fuse_lib_init :: "fuse_conn_info \<Rightarrow> ('w, 'b) lib \<Rightarrow> (fuse_conn_info \<times> ('w, 'b) lib) option" where
  "fuse_lib_init conn x = do {
     x \<leftarrow> fuse_create_context x;
     fs \<leftarrow> l_fs x;
     let (fs, conn, th) = fuse_fs_init fs (conn\<lparr>cn_want := cn_want conn OR FUSE_CAP_EXPORT_SUPPORT\<rparr>) (l_thread x);
     Some (conn, x\<lparr>l_fs := Some fs, l_thread := th\<rparr>)
   }"

definition fuse_lib_destroy :: "('w, 'b) lib \<Rightarrow> ('w, 'b) lib option" where
  "fuse_lib_destroy x = do {
     x \<leftarrow> fuse_create_context x;
     fs \<leftarrow> l_fs x;
     Some (x\<lparr>l_thread := fuse_fs_destroy fs (l_thread x), l_fs := None\<rparr>)
   }"

definition clean_delay :: "fuse \<Rightarrow> int" where
  \<comment> \<open>a negative \<open>remember\<close> (forever) gives the minimum, with either rounding\<close>
  "clean_delay f =
     (let sleep_time = c_remember (f_conf f) div 10
      in if sleep_time > 3600 then 3600 else if sleep_time < 60 then 60 else sleep_time)"

definition lru_next :: "fuse \<Rightarrow> addr \<Rightarrow> addr option" where
  "lru_next f p = (case dropWhile (\<lambda>q. q \<noteq> p) (f_lru_table f) of _ # q # _ \<Rightarrow> Some q | _ \<Rightarrow> None)"

partial_function (option) clean_loop :: "timespec \<Rightarrow> addr option \<Rightarrow> fuse \<Rightarrow> fuse option" where
  \<comment> \<open>\<open>None\<close> as position: back at the head of the list\<close>
  "clean_loop now cur f =
     (case cur of
        None \<Rightarrow> Some f
      | Some p \<Rightarrow> do {
          let nxt = lru_next f p;
          n \<leftarrow> f_nodes f p;
          if diff_timespec now (n_forget_time n) \<le> of_int (c_remember (f_conf f)) then Some f
          else if n_nlookup n \<noteq> 1 then None
          else if n_refctr n > 1 then clean_loop now nxt f
          else do {
            f \<leftarrow> unhash_name (upd p (\<lambda>n. n\<lparr>n_nlookup := 0\<rparr>) f) p;
            f \<leftarrow> unref_node f p;
            clean_loop now nxt f
          }
        })"

definition fuse_clean_cache :: "'w request \<Rightarrow> ('w, 'b) lib \<Rightarrow> (int \<times> ('w, 'b) lib) option" where
  "fuse_clean_cache e x = do {
     (now, x) \<leftarrow> curr_time e x;
     f \<leftarrow> clean_loop now (case f_lru_table (l_fuse x) of [] \<Rightarrow> None | p # _ \<Rightarrow> Some p) (l_fuse x);
     Some (clean_delay f, x\<lparr>l_fuse := f\<rparr>)
   }"

end
