(* ===== verification/Wire.thy ===== *)
theory Wire
  imports Fs_Ops
begin

text \<open>
  The structures that travel to the kernel (src/include/fuse_kernel.h) and how
  src/lib/fuse_lowlevel.c fills them: attributes, entries with their timeouts, and directory
  entries, which are padded to 8 bytes. Numbers are little endian. \<open>parse_dirent\<close> reads a directory
  entry back the way the header's \<open>FUSE_DIRENT_SIZE\<close> lays it out.
\<close>

section \<open>Numbers\<close>

definition le :: "nat \<Rightarrow> 'a::len word \<Rightarrow> bytes" where
  "le n w = map (\<lambda>i. ucast (drop_bit (8 * i) w)) [0..<n]"

fun un_le :: "bytes \<Rightarrow> nat" where
  "un_le [] = 0"
| "un_le (b # bs) = unat b + 256 * un_le bs"

lemma le_length [simp]: "length (le n w) = n"
  by (simp add: le_def)

lemma un_le_le: "un_le (le n (w :: 'a::len word)) = unat w mod 256 ^ n"
proof (induction n arbitrary: w)
  case 0
  then show ?case by (simp add: le_def)
next
  case (Suc n)
  have b: "unat (ucast w :: 8 word) = unat w mod 256"
    by (simp add: unsigned_ucast_eq take_bit_eq_mod)
  have "le (Suc n) w = ucast w # le n (drop_bit 8 w)"
    by (simp add: le_def upt_conv_Cons map_Suc_upt[symmetric] o_def algebra_simps del: upt_Suc)
  moreover have "unat (drop_bit 8 w) = unat w div 256" by (simp only: unat_drop_bit_eq) (simp add: drop_bit_eq_div)
  ultimately show ?case using Suc.IH[of "drop_bit 8 w"] b
    by (simp add: mod_mult2_eq)
qed

section \<open>Attributes and entries\<close>

record fuse_attr =
  at_ino :: "64 word"
  at_size :: "64 word"
  at_blocks :: "64 word"
  at_atime :: "64 word"
  at_mtime :: "64 word"
  at_ctime :: "64 word"
  at_atimensec :: "32 word"
  at_mtimensec :: "32 word"
  at_ctimensec :: "32 word"
  at_mode :: "32 word"
  at_nlink :: "32 word"
  at_uid :: "32 word"
  at_gid :: "32 word"
  at_rdev :: "32 word"
  at_blksize :: "32 word"

definition convert_stat :: "stat \<Rightarrow> fuse_attr" where
  "convert_stat stbuf = \<lparr>at_ino = st_ino stbuf, at_size = of_int (st_size stbuf), at_blocks = of_int (st_blocks stbuf),
     at_atime = of_int (tv_sec (st_atim stbuf)), at_mtime = of_int (tv_sec (st_mtim stbuf)),
     at_ctime = of_int (tv_sec (st_ctim stbuf)), at_atimensec = of_int (tv_nsec (st_atim stbuf)),
     at_mtimensec = of_int (tv_nsec (st_mtim stbuf)), at_ctimensec = of_int (tv_nsec (st_ctim stbuf)),
     at_mode = st_mode stbuf, at_nlink = ucast (st_nlink stbuf), at_uid = st_uid stbuf, at_gid = st_gid stbuf,
     at_rdev = ucast (st_rdev stbuf), at_blksize = of_int (st_blksize stbuf)\<rparr>"

definition attr_bytes :: "fuse_attr \<Rightarrow> bytes" where
  \<comment> \<open>the layout of \<open>struct fuse_attr\<close>, 88 bytes with the padding\<close>
  "attr_bytes a = le 8 (at_ino a) @ le 8 (at_size a) @ le 8 (at_blocks a) @ le 8 (at_atime a) @ le 8 (at_mtime a) @
     le 8 (at_ctime a) @ le 4 (at_atimensec a) @ le 4 (at_mtimensec a) @ le 4 (at_ctimensec a) @ le 4 (at_mode a) @
     le 4 (at_nlink a) @ le 4 (at_uid a) @ le 4 (at_gid a) @ le 4 (at_rdev a) @ le 4 (at_blksize a) @ replicate 4 0"

lemma attr_bytes_length [simp]: "length (attr_bytes a) = 88"
  by (simp add: attr_bytes_def)

definition calc_timeout_sec :: "real \<Rightarrow> 64 word" where
  "calc_timeout_sec t = (if t > 2 ^ 64 then - 1 else if t < 0 then 0 else of_int \<lfloor>t\<rfloor>)"

definition calc_timeout_nsec :: "real \<Rightarrow> 32 word" where
  "calc_timeout_nsec t =
     (let f = t - real (unat (calc_timeout_sec t))
      in if f < 0 then 0 else if f \<ge> 0.999999999 then 999999999 else of_int \<lfloor>f * 1000000000\<rfloor>)"

record fuse_entry_out =
  eo_nodeid :: "64 word"
  eo_generation :: "64 word"
  eo_entry_valid :: "64 word"
  eo_attr_valid :: "64 word"
  eo_entry_valid_nsec :: "32 word"
  eo_attr_valid_nsec :: "32 word"
  eo_attr :: fuse_attr

definition fill_entry :: "fuse_entry_param \<Rightarrow> fuse_entry_out" where
  "fill_entry e = \<lparr>eo_nodeid = e_ino e, eo_generation = e_generation e,
     eo_entry_valid = calc_timeout_sec (e_entry_timeout e), eo_attr_valid = calc_timeout_sec (e_attr_timeout e),
     eo_entry_valid_nsec = calc_timeout_nsec (e_entry_timeout e), eo_attr_valid_nsec = calc_timeout_nsec (e_attr_timeout e),
     eo_attr = convert_stat (e_attr e)\<rparr>"

definition entry_bytes :: "fuse_entry_out \<Rightarrow> bytes" where
  \<comment> \<open>the layout of \<open>struct fuse_entry_out\<close>, 128 bytes\<close>
  "entry_bytes o' = le 8 (eo_nodeid o') @ le 8 (eo_generation o') @ le 8 (eo_entry_valid o') @ le 8 (eo_attr_valid o') @
     le 4 (eo_entry_valid_nsec o') @ le 4 (eo_attr_valid_nsec o') @ attr_bytes (eo_attr o')"

lemma entry_bytes_length [simp]: "length (entry_bytes x) = 128"
  by (simp add: entry_bytes_def)

section \<open>Directory entries\<close>

definition FUSE_NAME_OFFSET :: nat where "FUSE_NAME_OFFSET = 24"
definition FUSE_NAME_OFFSET_DIRENTPLUS :: nat where "FUSE_NAME_OFFSET_DIRENTPLUS = 128 + FUSE_NAME_OFFSET"
definition FUSE_DIRENT_ALIGN :: "nat \<Rightarrow> nat" where
  \<comment> \<open>\<open>(x + 7) & ~7\<close>\<close>
  "FUSE_DIRENT_ALIGN x = (x + 7) div 8 * 8"

definition file_type :: "stat \<Rightarrow> 32 word" where
  "file_type stbuf = drop_bit 12 (st_mode stbuf AND S_IFMT)"

definition byte_of :: "char \<Rightarrow> 8 word" where
  "byte_of c = of_nat (of_char c)"

definition dirent_bytes :: "stat \<Rightarrow> string \<Rightarrow> int \<Rightarrow> bytes" where
  \<comment> \<open>a \<open>struct fuse_dirent\<close> with its name\<close>
  "dirent_bytes stbuf name off = le 8 (st_ino stbuf) @ le 8 (of_int off :: 64 word) @
     le 4 (of_nat (length name) :: 32 word) @ le 4 (file_type stbuf) @ map byte_of name"

definition fuse_add_direntry :: "bool \<Rightarrow> nat \<Rightarrow> string \<Rightarrow> stat \<Rightarrow> int \<Rightarrow> nat \<times> bytes" where
  \<comment> \<open>\<open>buf\<close>: whether the buffer pointer is not NULL; result: the padded length and what is written\<close>
  "fuse_add_direntry buf bufsize name stbuf off =
     (let entlen = FUSE_NAME_OFFSET + length name; entlen_padded = FUSE_DIRENT_ALIGN entlen
      in (entlen_padded,
          if \<not> buf \<or> entlen_padded > bufsize then []
          else dirent_bytes stbuf name off @ replicate (entlen_padded - entlen) 0))"

definition fuse_add_direntry_plus :: "bool \<Rightarrow> nat \<Rightarrow> string \<Rightarrow> fuse_entry_param \<Rightarrow> int \<Rightarrow> nat \<times> bytes" where
  "fuse_add_direntry_plus buf bufsize name e off =
     (let entlen = FUSE_NAME_OFFSET_DIRENTPLUS + length name; entlen_padded = FUSE_DIRENT_ALIGN entlen
      in (entlen_padded,
          if \<not> buf \<or> entlen_padded > bufsize then []
          else entry_bytes (fill_entry e) @ dirent_bytes (e_attr e) name off @ replicate (entlen_padded - entlen) 0))"

lemma dirent_bytes_length [simp]: "length (dirent_bytes st name off) = FUSE_NAME_OFFSET + length name"
  by (simp add: dirent_bytes_def FUSE_NAME_OFFSET_def)

lemma align_ge: "x \<le> FUSE_DIRENT_ALIGN x" "FUSE_DIRENT_ALIGN x < x + 8" "FUSE_DIRENT_ALIGN x mod 8 = 0"
  unfolding FUSE_DIRENT_ALIGN_def by presburger+

lemma add_direntry_length:
  "snd (fuse_add_direntry buf n name st off) = [] \<or>
     length (snd (fuse_add_direntry buf n name st off)) = fst (fuse_add_direntry buf n name st off) \<and>
     fst (fuse_add_direntry buf n name st off) \<le> n"
  using align_ge(1)[of "FUSE_NAME_OFFSET + length name"] by (auto simp: fuse_add_direntry_def Let_def)

section \<open>Reading directory entries back\<close>

record kernel_dirent =
  kd_ino :: nat
  kd_off :: nat
  kd_type :: nat
  kd_name :: string

definition parse_dirent :: "bytes \<Rightarrow> (kernel_dirent \<times> bytes) option" where
  "parse_dirent b =
     (let namelen = un_le (take 4 (drop 16 b)); sz = FUSE_DIRENT_ALIGN (FUSE_NAME_OFFSET + namelen)
      in if length b < FUSE_NAME_OFFSET \<or> length b < sz then None
         else Some (\<lparr>kd_ino = un_le (take 8 b), kd_off = un_le (take 8 (drop 8 b)), kd_type = un_le (take 4 (drop 20 b)),
                kd_name = map (\<lambda>b. char_of (unat b)) (take namelen (drop FUSE_NAME_OFFSET b))\<rparr>, drop sz b))"

definition kernel_view :: "stat \<Rightarrow> string \<Rightarrow> int \<Rightarrow> kernel_dirent" where
  "kernel_view st name off = \<lparr>kd_ino = unat (st_ino st), kd_off = unat (of_int off :: 64 word),
     kd_type = unat (file_type st), kd_name = name\<rparr>"

lemma char_byte [simp]: "char_of (unat (byte_of c)) = c"
proof -
  have "(of_char c :: nat) < 256" by (rule nat_of_char_less_256)
  then have "unat (byte_of c) = of_char c" by (simp add: byte_of_def unat_of_nat)
  then show ?thesis by simp
qed

lemma un_le_full [simp]: "un_le (le 8 (w :: 64 word)) = unat w" "un_le (le 4 (v :: 32 word)) = unat v"
  using unsigned_less[of w, where 'a = nat] unsigned_less[of v, where 'a = nat] by (simp_all add: un_le_le)

lemma parse_dirent_bytes:
  assumes "length name < 2 ^ 32" and "length pad = FUSE_DIRENT_ALIGN (FUSE_NAME_OFFSET + length name) - (FUSE_NAME_OFFSET + length name)"
  shows "parse_dirent (dirent_bytes st name off @ pad @ rest) = Some (kernel_view st name off, rest)"
proof -
  let ?b = "dirent_bytes st name off @ pad @ rest"
  have n: "unat (of_nat (length name) :: 32 word) = length name" using assms(1) by (simp add: unat_of_nat)
  have f: "take 8 ?b = le 8 (st_ino st)" "take 8 (drop 8 ?b) = le 8 (of_int off :: 64 word)"
    "take 4 (drop 16 ?b) = le 4 (of_nat (length name) :: 32 word)" "take 4 (drop 20 ?b) = le 4 (file_type st)"
    by (simp_all add: dirent_bytes_def)
  let ?sz = "FUSE_DIRENT_ALIGN (FUSE_NAME_OFFSET + length name)"
  have le: "FUSE_NAME_OFFSET + length name \<le> ?sz" by (rule align_ge)
  have "length (dirent_bytes st name off @ pad) = ?sz" using assms(2) le by simp
  then have d: "drop ?sz ?b = rest" "?sz \<le> length ?b"
    using drop_append[of ?sz "dirent_bytes st name off @ pad" rest] by (simp_all add: assms(2) le)
  have nm: "drop FUSE_NAME_OFFSET (dirent_bytes st name off) = map byte_of name"
    by (simp add: dirent_bytes_def FUSE_NAME_OFFSET_def)
  show ?thesis using d le unfolding parse_dirent_def f un_le_full n Let_def
    by (simp add: nm o_def kernel_view_def)
qed

lemma parse_dirent_add:
  assumes "length name < 2 ^ 32" and "fuse_add_direntry True n name st off = (k, b)" and "k \<le> n"
  shows "parse_dirent (b @ rest) = Some (kernel_view st name off, rest)" and "length b = k"
proof -
  let ?p = "replicate (FUSE_DIRENT_ALIGN (FUSE_NAME_OFFSET + length name) - (FUSE_NAME_OFFSET + length name)) 0"
  have b: "k = FUSE_DIRENT_ALIGN (FUSE_NAME_OFFSET + length name)" "b = dirent_bytes st name off @ ?p"
    using assms(2,3) by (auto simp: fuse_add_direntry_def Let_def split: if_splits)
  show "parse_dirent (b @ rest) = Some (kernel_view st name off, rest)"
    using parse_dirent_bytes[OF assms(1), of ?p st off rest] by (simp add: b(2))
  show "length b = k" using align_ge(1)[of "FUSE_NAME_OFFSET + length name"] by (simp add: b)
qed

end
