(* ===== verification/Dirents.thy ===== *)
theory Dirents
  imports Handlers_IO Wire
begin

text \<open>
  Open directories in src/lib/fuse.c. A directory handle collects what the file system's \<open>readdir\<close>
  hands to the filler: either every entry at once (offset 0), kept as a list and sent piece by piece,
  or, when the file system gives offsets, the bytes of one reply. The filler works on the handle and
  on the core of the library's state (\<open>readdirplus\<close> looks names up); once it has aborted, its buffer
  is \<open>None\<close>. Sizes are 32 bits wide, as in \<open>struct fuse_dh\<close>.
\<close>

section \<open>The handle\<close>

type_synonym 'w dirbuf = "(fuse_dh \<times> 'w core) option"
type_synonym 'w dlib = "('w, 'w dirbuf) lib"

definition zero_dh :: "fuse_ino_t \<Rightarrow> fuse_dh" where
  "zero_dh ino = \<lparr>dh_contents = [], dh_first = [], dh_len = 0, dh_size = 0, dh_needlen = 0, dh_filled = False,
     dh_fh = 0, dh_error = 0, dh_nodeid = ino\<rparr>"

definition set_dh :: "64 word \<Rightarrow> fuse_dh option \<Rightarrow> ('w, 'm) core_scheme \<Rightarrow> ('w, 'm) core_scheme" where
  "set_dh h dh x = x\<lparr>l_dhs := (l_dhs x)(h := dh)\<rparr>"

definition fuse_lib_opendir :: "'w request \<Rightarrow> fuse_ino_t \<Rightarrow> fi \<Rightarrow> ('w, 'b) lib \<Rightarrow> ('w, 'b) lib option" where
  "fuse_lib_opendir e ino llfi x = do {
     x \<leftarrow> req_fuse_prepare e x;
     let (a, th) = alloc 128 (l_thread x);
     let x = x\<lparr>l_thread := th\<rparr>;
     (case a of
        None \<Rightarrow> Some (reply_err e (- ENOMEM) x)
      | Some a \<Rightarrow> do {
          let h = of_nat a;
          let llfi = llfi\<lparr>fi_fh := h\<rparr>;
          let fi = zero_fi\<lparr>fi_flags := fi_flags llfi\<rparr>;
          (err, path, x) \<leftarrow> with_path e ino (set_dh h (Some (zero_dh ino)) x);
          (err, fi, x) \<leftarrow> (if err = 0 then do {
              p \<leftarrow> path;
              (err, fi, x) \<leftarrow> fs_get (\<lambda>fs. fuse_fs_opendir fs p fi) (fuse_prepare_interrupt x);
              Some (err, fi, set_dh h (Some ((zero_dh ino)\<lparr>dh_fh := fi_fh fi\<rparr>)) (fuse_finish_interrupt x))
            } else Some (err, fi, x));
          x \<leftarrow> (if err = 0 then do {
                 let (res, x) = reply e (Reply_open llfi) x;
                 if res = - ENOENT then do {
                   (_, x) \<leftarrow> fs_act (\<lambda>fs. fuse_fs_releasedir fs path fi) x;
                   Some (set_dh h None x)
                 } else Some x
               } else Some (set_dh h None (reply_err e err x)));
          drop_path ino path x
        })
   }"

section \<open>Collecting entries\<close>

definition extend_contents :: "fuse_dh \<Rightarrow> nat \<Rightarrow> mem \<Rightarrow> (int \<times> fuse_dh \<times> mem) option" where
  \<comment> \<open>the doubling is the one of \<open>grow\<close>\<close>
  "extend_contents dh minsize m =
     (if minsize > dh_size dh then do {
        newsize \<leftarrow> grow (if dh_size dh = 0 then 1024 else dh_size dh) minsize;
        let (ok, m) = malloc m;
        Some (if \<not> ok then (-1, dh\<lparr>dh_error := - ENOMEM\<rparr>, m)
              else (0, dh\<lparr>dh_contents := dh_contents dh @ replicate (newsize - dh_size dh) 0, dh_size := newsize\<rparr>, m))
      } else Some (0, dh, m))"

definition fuse_add_direntry_to_dh :: "fuse_dh \<Rightarrow> string \<Rightarrow> stat \<Rightarrow> mem \<Rightarrow> int \<times> fuse_dh \<times> mem" where
  "fuse_add_direntry_to_dh dh name st m =
     (let (ok, m) = malloc m
      in if \<not> ok then (-1, dh\<lparr>dh_error := - ENOMEM\<rparr>, m)
         else let (ok, m) = malloc m
           in if \<not> ok then (-1, dh\<lparr>dh_error := - ENOMEM\<rparr>, m)
              else (0, dh\<lparr>dh_first := dh_first dh @ [\<lparr>de_stat = st, de_name = name\<rparr>]\<rparr>, m))"

definition lookup_nodeid :: "fuse \<Rightarrow> fuse_ino_t \<Rightarrow> string \<Rightarrow> fuse_ino_t" where
  "lookup_nodeid f parent name =
     (case Option.bind (lookup_node f parent name) (f_nodes f) of Some n \<Rightarrow> n_nodeid n | None \<Rightarrow> FUSE_UNKNOWN_INO)"

definition put :: "nat \<Rightarrow> bytes \<Rightarrow> bytes \<Rightarrow> bytes" where
  \<comment> \<open>write into a buffer at an offset\<close>
  "put i b buf = take i buf @ b @ drop (i + length b) buf"

definition fill_entry_at ::
  "(bool \<Rightarrow> nat \<Rightarrow> nat \<times> bytes) \<Rightarrow> string \<Rightarrow> stat \<Rightarrow> int \<Rightarrow> fuse_dh \<Rightarrow> mem \<Rightarrow> (int \<times> fuse_dh \<times> mem) option" where
  \<comment> \<open>the last part of \<open>fill_dir\<close> and \<open>fill_dir_plus\<close>; \<open>add\<close> is \<open>fuse_add_direntry\<close> or \<open>fuse_add_direntry_plus\<close>\<close>
  "fill_entry_at add name st off dh m =
     (if off \<noteq> 0 then
        if dh_first dh \<noteq> [] then Some (1, dh\<lparr>dh_error := - EIO\<rparr>, m)
        else do {
          (r, dh, m) \<leftarrow> extend_contents dh (dh_needlen dh) m;
          if r = -1 then Some (1, dh, m)
          else
            let (n, b) = add (dh_contents dh \<noteq> []) (nat ((int (dh_needlen dh) - int (dh_len dh)) mod 2 ^ 32));
                dh = dh\<lparr>dh_filled := False, dh_contents := put (dh_len dh) b (dh_contents dh)\<rparr>;
                newlen = dh_len dh + n
            in Some (if newlen > dh_needlen dh then (1, dh, m) else (0, dh\<lparr>dh_len := newlen\<rparr>, m))
        }
      else if \<not> dh_filled dh then Some (1, dh\<lparr>dh_error := - EIO\<rparr>, m)
      else let (r, dh, m) = fuse_add_direntry_to_dh dh name st m in Some (if r = -1 then 1 else 0, dh, m))"

definition FUSE_FILL_DIR_PLUS :: "32 word" where "FUSE_FILL_DIR_PLUS = push_bit 1 1"
definition FUSE_READDIR_PLUS :: "32 word" where "FUSE_READDIR_PLUS = push_bit 0 1"

definition filled_in :: "'w core \<Rightarrow> 'w thread \<Rightarrow> (int \<times> fuse_dh \<times> mem) option \<Rightarrow> int \<times> 'w dirbuf \<times> 'w thread" where
  \<comment> \<open>the filler's result from that of \<open>fill_entry_at\<close>\<close>
  "filled_in c th r = (case r of None \<Rightarrow> (1, None, th) | Some (res, dh, m) \<Rightarrow> (res, Some (dh, c), th\<lparr>t_mem := m\<rparr>))"

definition fill_dir :: "('w dirbuf, 'w thread) filler" where
  "fill_dir b name statp off flags th =
     (case b of
        None \<Rightarrow> (1, None, th)
      | Some (dh, c) \<Rightarrow>
          if flags AND NOT FUSE_FILL_DIR_PLUS \<noteq> 0 then (1, Some (dh\<lparr>dh_error := - EIO\<rparr>, c), th)
          else let
            conf = f_conf (l_fuse c);
            st = (case statp of Some st \<Rightarrow> st | None \<Rightarrow> zero_stat\<lparr>st_ino := FUSE_UNKNOWN_INO\<rparr>);
            st = (if c_use_ino conf then st
                  else st\<lparr>st_ino := if c_readdir_ino conf then lookup_nodeid (l_fuse c) (dh_nodeid dh) name else FUSE_UNKNOWN_INO\<rparr>)
          in filled_in c th (fill_entry_at (\<lambda>buf n. fuse_add_direntry buf n name st off) name st off dh (t_mem th)))"

definition is_dot_or_dotdot :: "string \<Rightarrow> bool" where
  "is_dot_or_dotdot name \<longleftrightarrow> cchar name 0 = CHR ''.'' \<and>
     (cchar name 1 = NUL \<or> cchar name 1 = CHR ''.'' \<and> cchar name 2 = NUL)"

definition plus_ino :: "fuse \<Rightarrow> fuse_ino_t \<Rightarrow> string \<Rightarrow> fuse_ino_t" where
  "plus_ino f nodeid name =
     (if \<not> c_use_ino (f_conf f) \<and> c_readdir_ino (f_conf f) then lookup_nodeid f nodeid name else FUSE_UNKNOWN_INO)"

definition plus_entry ::
  "'w request \<Rightarrow> fuse_ino_t \<Rightarrow> string \<Rightarrow> stat option \<Rightarrow> int \<Rightarrow> 32 word \<Rightarrow> 'w core \<Rightarrow> (int \<times> fuse_entry_param \<times> 'w core) option" where
  \<comment> \<open>the entry \<open>fill_dir_plus\<close> sends, looked up when the file system gave its attributes\<close>
  "plus_entry e nodeid name statp off flags c =
     (case statp of
        Some st \<Rightarrow>
          if off \<noteq> 0 \<and> has flags FUSE_FILL_DIR_PLUS then
            if is_dot_or_dotdot name then Some (0, zero_entry\<lparr>e_attr := st\<rparr>, c)
            else do_lookup e nodeid (Some name) (zero_entry\<lparr>e_attr := st\<rparr>) c
          else Some (0, zero_entry\<lparr>e_attr := zero_stat\<lparr>st_ino := plus_ino (l_fuse c) nodeid name\<rparr>\<rparr>, c)
      | None \<Rightarrow> Some (0, zero_entry\<lparr>e_attr := zero_stat\<lparr>st_ino := plus_ino (l_fuse c) nodeid name\<rparr>\<rparr>, c))"

definition fill_dir_plus :: "'w request \<Rightarrow> ('w dirbuf, 'w thread) filler" where
  "fill_dir_plus e b name statp off flags th =
     (case b of
        None \<Rightarrow> (1, None, th)
      | Some (dh, c) \<Rightarrow>
          if flags AND NOT FUSE_FILL_DIR_PLUS \<noteq> 0 then (1, Some (dh\<lparr>dh_error := - EIO\<rparr>, c), th)
          else case plus_entry e (dh_nodeid dh) name statp off flags (c\<lparr>l_thread := th\<rparr>) of
            None \<Rightarrow> (1, None, th)
          | Some (res, ent, c) \<Rightarrow>
              if res \<noteq> 0 then (1, Some (dh\<lparr>dh_error := res\<rparr>, c), l_thread c)
              else filled_in c (l_thread c) (fill_entry_at (\<lambda>buf n. fuse_add_direntry_plus buf n name ent off)
                     name (e_attr ent) off dh (t_mem (l_thread c))))"

section \<open>Reading a directory\<close>

definition readdir_fill ::
  "'w request \<Rightarrow> fuse_ino_t \<Rightarrow> nat \<Rightarrow> int \<Rightarrow> fuse_dh \<Rightarrow> fi \<Rightarrow> 32 word \<Rightarrow> 'w dlib \<Rightarrow> (int \<times> fuse_dh \<times> 'w dlib) option" where
  "readdir_fill e ino sz off dh fi flags x = do {
     fs \<leftarrow> l_fs x;
     on_path (if op_readdir (fs_op fs) \<noteq> None then with_path_nullok else with_path) e ino dh (\<lambda>path x. do {
       fs \<leftarrow> l_fs x;
       let dh = dh\<lparr>dh_first := [], dh_len := 0, dh_error := 0, dh_needlen := sz mod 2 ^ 32, dh_filled := True\<rparr>;
       let (err, b, th) = fuse_fs_readdir fs path (Some (dh, core.truncate x))
         (if has flags FUSE_READDIR_PLUS then fill_dir_plus e else fill_dir) off fi flags (l_thread x);
       (dh, c) \<leftarrow> b;
       let err = (if err = 0 then dh_error dh else err);
       Some (err, if err \<noteq> 0 then dh\<lparr>dh_filled := False\<rparr> else dh,
         x\<lparr>l_fuse := l_fuse c, l_clockid := l_clockid c, l_thread := th\<rparr>)
     }) x
   }"

definition add_listed :: "bool \<Rightarrow> fuse_direntry \<Rightarrow> int \<Rightarrow> bool \<Rightarrow> nat \<Rightarrow> nat \<times> bytes" where
  "add_listed pl de pos buf room =
     (if pl then fuse_add_direntry_plus buf room (de_name de) (zero_entry\<lparr>e_attr := de_stat de\<rparr>) pos
      else fuse_add_direntry buf room (de_name de) (de_stat de) pos)"

fun list_loop :: "bool \<Rightarrow> fuse_direntry list \<Rightarrow> int \<Rightarrow> fuse_dh \<Rightarrow> fuse_dh" where
  \<comment> \<open>the second loop of \<open>readdir_fill_from_list\<close>\<close>
  "list_loop pl [] pos dh = dh"
| "list_loop pl (de # des) pos dh =
     (let pos = pos + 1;
          room = nat ((int (dh_needlen dh) - int (dh_len dh)) mod 2 ^ 32);
          (thislen, b) = add_listed pl de pos (dh_contents dh \<noteq> []) room;
          newlen = (dh_len dh + thislen) mod 2 ^ 32;
          dh = dh\<lparr>dh_contents := put (dh_len dh) b (dh_contents dh)\<rparr>
      in if newlen > dh_needlen dh then dh else list_loop pl des pos (dh\<lparr>dh_len := newlen\<rparr>))"

definition readdir_fill_from_list :: "fuse_dh \<Rightarrow> int \<Rightarrow> 32 word \<Rightarrow> mem \<Rightarrow> (int \<times> fuse_dh \<times> mem) option" where
  "readdir_fill_from_list dh off flags m = do {
     (r, dh, m) \<leftarrow> extend_contents (dh\<lparr>dh_len := 0\<rparr>) (dh_needlen dh) m;
     if r = -1 then Some (dh_error dh, dh, m)
     else
       let pos = min (max off 0) (int (length (dh_first dh)))
       in Some (0, list_loop (has flags FUSE_READDIR_PLUS) (drop (nat pos) (dh_first dh)) pos dh, m)
   }"

definition fuse_readdir_common ::
  "'w request \<Rightarrow> fuse_ino_t \<Rightarrow> nat \<Rightarrow> int \<Rightarrow> fi \<Rightarrow> 32 word \<Rightarrow> 'w dlib \<Rightarrow> 'w dlib option" where
  "fuse_readdir_common e ino sz off llfi flags x = do {
     x \<leftarrow> req_fuse_prepare e x;
     (dh, fi) \<leftarrow> get_dirhandle x llfi;
     let dh = (if off = 0 then dh\<lparr>dh_filled := False\<rparr> else dh);
     (err, dh, x) \<leftarrow> (if \<not> dh_filled dh then readdir_fill e ino sz off dh fi flags x else Some (0, dh, x));
     (err, dh, x) \<leftarrow> (if err = 0 \<and> dh_filled dh then do {
         (err, dh, m) \<leftarrow> readdir_fill_from_list (dh\<lparr>dh_needlen := sz mod 2 ^ 32\<rparr>) off flags (t_mem (l_thread x));
         Some (err, dh, x\<lparr>l_thread := (l_thread x)\<lparr>t_mem := m\<rparr>\<rparr>)
       } else Some (err, dh, x));
     Some (reply_or_err e err (Reply_buf (take (dh_len dh) (dh_contents dh))) (set_dh (fi_fh llfi) (Some dh) x))
   }"

definition fuse_lib_readdir :: "'w request \<Rightarrow> fuse_ino_t \<Rightarrow> nat \<Rightarrow> int \<Rightarrow> fi \<Rightarrow> 'w dlib \<Rightarrow> 'w dlib option" where
  "fuse_lib_readdir e ino sz off llfi x = fuse_readdir_common e ino sz off llfi 0 x"

definition fuse_lib_readdirplus :: "'w request \<Rightarrow> fuse_ino_t \<Rightarrow> nat \<Rightarrow> int \<Rightarrow> fi \<Rightarrow> 'w dlib \<Rightarrow> 'w dlib option" where
  "fuse_lib_readdirplus e ino sz off llfi x = fuse_readdir_common e ino sz off llfi FUSE_READDIR_PLUS x"

section \<open>Closing and syncing\<close>

definition fuse_lib_releasedir :: "'w request \<Rightarrow> fuse_ino_t \<Rightarrow> fi \<Rightarrow> ('w, 'b) lib \<Rightarrow> ('w, 'b) lib option" where
  "fuse_lib_releasedir e ino llfi x = do {
     x \<leftarrow> req_fuse_prepare e x;
     (dh, fi) \<leftarrow> get_dirhandle x llfi;
     (_, path, x) \<leftarrow> with_path_nullok e ino x;
     (_, x) \<leftarrow> fs_act (\<lambda>fs. fuse_fs_releasedir fs path fi) (fuse_prepare_interrupt x);
     x \<leftarrow> drop_path ino path (fuse_finish_interrupt x);
     Some (reply_err e 0 (set_dh (fi_fh llfi) None x))
   }"

definition fuse_lib_fsyncdir :: "'w request \<Rightarrow> fuse_ino_t \<Rightarrow> int \<Rightarrow> fi \<Rightarrow> ('w, 'b) lib \<Rightarrow> ('w, 'b) lib option" where
  "fuse_lib_fsyncdir e ino datasync llfi x = do {
     x \<leftarrow> req_fuse_prepare e x;
     (_, fi) \<leftarrow> get_dirhandle x llfi;
     (err, _, x) \<leftarrow> on_path with_path_nullok e ino () (\<lambda>path. doing (\<lambda>fs. fuse_fs_fsyncdir fs path datasync fi)) x;
     Some (reply_err e err x)
   }"

end
