(* ===== verification/Dirents_Props.thy ===== *)
theory Dirents_Props
  imports Dirents
begin

text \<open>
  What a directory listing promises: the bytes of a reply are directory entries that the kernel
  reads back, in order, with the offset at which to go on, and never more than it asked for.
\<close>

section \<open>Reading a whole reply\<close>

lemma parse_dirent_shorter: "parse_dirent b = Some (d, r) \<Longrightarrow> length r < length b"
  using align_ge(1)[of "FUSE_NAME_OFFSET + un_le (take 4 (drop 16 b))"]
  by (auto simp: parse_dirent_def Let_def FUSE_NAME_OFFSET_def split: if_splits)

function parse_dirents :: "bytes \<Rightarrow> kernel_dirent list option" where
  "parse_dirents b =
     (if b = [] then Some []
      else do { (d, r) \<leftarrow> parse_dirent b; ds \<leftarrow> parse_dirents r; Some (d # ds) })"
  by pat_completeness auto
termination by (relation "measure length") (auto dest: parse_dirent_shorter)

declare parse_dirents.simps [simp del]

lemma parse_dirents_Nil [simp]: "parse_dirents [] = Some []"
  by (simp add: parse_dirents.simps)

fun fitting :: "nat \<Rightarrow> int \<Rightarrow> fuse_direntry list \<Rightarrow> kernel_dirent list" where
  \<comment> \<open>the entries that fit, each with the position after it\<close>
  "fitting room pos [] = []"
| "fitting room pos (de # des) =
     (let k = FUSE_DIRENT_ALIGN (FUSE_NAME_OFFSET + length (de_name de))
      in if k \<le> room then kernel_view (de_stat de) (de_name de) (pos + 1) # fitting (room - k) (pos + 1) des else [])"

lemma take_put: "i \<le> length c \<Longrightarrow> take i (put i b c) = take i c"
  by (simp add: put_def)

lemma take_put_all: "i + length b \<le> length c \<Longrightarrow> take (i + length b) (put i b c) = take i c @ b"
  by (simp add: put_def)

lemma length_put: "i + length b \<le> length c \<Longrightarrow> length (put i b c) = length c"
  by (simp add: put_def)

lemma put_Nil [simp]: "put i [] c = c"
  by (simp add: put_def)

definition roomy :: "fuse_dh \<Rightarrow> fuse_direntry list \<Rightarrow> bool" where
  \<comment> \<open>the buffer holds a reply of the size asked for, and no sum of lengths wraps around\<close>
  "roomy dh des \<longleftrightarrow> dh_len dh \<le> dh_needlen dh \<and> dh_needlen dh \<le> length (dh_contents dh) \<and>
     list_all (\<lambda>de. dh_needlen dh + length (de_name de) + 64 < 2 ^ 32) des"

lemma room_mod:
  assumes "len \<le> (n :: nat)" "n < 2 ^ 32"
  shows "nat ((int n - int len) mod 2 ^ 32) = n - len"
proof -
  have "(int n - int len) mod 2 ^ 32 = int n - int len"
    by (intro mod_pos_pos_trivial) (use assms in simp_all)
  then show ?thesis using assms(1) by (simp add: nat_diff_distrib)
qed

lemma list_loop_parse:
  assumes "roomy dh des"
  shows "\<exists>b len c. list_loop False des pos dh = dh\<lparr>dh_contents := c, dh_len := len\<rparr> \<and>
    length c = length (dh_contents dh) \<and> len \<le> dh_needlen dh \<and> take len c = take (dh_len dh) (dh_contents dh) @ b \<and>
    parse_dirents b = Some (fitting (dh_needlen dh - dh_len dh) pos des)"
  using assms
proof (induction des arbitrary: pos dh)
  case Nil
  then show ?case by (intro exI[of _ "[]"] exI[of _ "dh_len dh"] exI[of _ "dh_contents dh"]) (simp add: roomy_def)
next
  case (Cons de des)
  let ?k = "FUSE_DIRENT_ALIGN (FUSE_NAME_OFFSET + length (de_name de))"
  let ?room = "dh_needlen dh - dh_len dh"
  have r: "dh_len dh \<le> dh_needlen dh" "dh_needlen dh \<le> length (dh_contents dh)"
    "dh_needlen dh + length (de_name de) + 64 < 2 ^ 32" using Cons.prems by (simp_all add: roomy_def)
  have room: "nat ((int (dh_needlen dh) - int (dh_len dh)) mod 2 ^ 32) = ?room"
    using room_mod[OF r(1)] r(3) by simp
  have k: "?k < length (de_name de) + 32" using align_ge(2)[of "FUSE_NAME_OFFSET + length (de_name de)"]
    by (simp add: FUSE_NAME_OFFSET_def)
  obtain b where b: "fuse_add_direntry (dh_contents dh \<noteq> []) ?room (de_name de) (de_stat de) (pos + 1) = (?k, b)"
    by (simp add: fuse_add_direntry_def Let_def)
  have newlen: "(dh_len dh + ?k) mod 2 ^ 32 = dh_len dh + ?k" using r k by simp
  show ?case
  proof (cases "?k \<le> ?room")
    case False
    then have "b = []" using b by (auto simp: fuse_add_direntry_def Let_def)
    then have "list_loop False (de # des) pos dh = dh" using False b room newlen r by (simp add: add_listed_def Let_def)
    then show ?thesis using False r
      by (intro exI[of _ "[]"] exI[of _ "dh_len dh"] exI[of _ "dh_contents dh"]) simp
  next
    case True
    have "0 < ?k" using align_ge(1)[of "FUSE_NAME_OFFSET + length (de_name de)"] by (simp add: FUSE_NAME_OFFSET_def)
    then have ne: "dh_contents dh \<noteq> []" using True r by auto
    have n32: "length (de_name de) < 2 ^ 32" using r(3) by simp
    have "fuse_add_direntry True ?room (de_name de) (de_stat de) (pos + 1) = (?k, b)" using b ne by simp
    note P = parse_dirent_add[OF n32 this True]
    let ?c = "put (dh_len dh) b (dh_contents dh)"
    let ?dh = "dh\<lparr>dh_contents := ?c, dh_len := dh_len dh + ?k\<rparr>"
    have fits: "dh_len dh + length b \<le> length (dh_contents dh)" using P(2) True r by simp
    note L = length_put[OF fits] and T = take_put_all[OF fits, unfolded P(2)]
    have "list_loop False (de # des) pos dh = list_loop False des (pos + 1) ?dh"
      using True b room newlen r by (simp add: add_listed_def Let_def)
    moreover have "roomy ?dh des" using Cons.prems True r L by (simp add: roomy_def)
    from Cons.IH[OF this, of "pos + 1"] L T obtain b' len c where
      s: "list_loop False des (pos + 1) ?dh = dh\<lparr>dh_contents := c, dh_len := len\<rparr>" "length c = length (dh_contents dh)"
        "len \<le> dh_needlen dh" "take len c = (take (dh_len dh) (dh_contents dh) @ b) @ b'"
        "parse_dirents b' = Some (fitting (?room - ?k) (pos + 1) des)" by auto
    have "b @ b' \<noteq> []" using P(2) \<open>0 < ?k\<close> by auto
    then have "parse_dirents (b @ b') = Some (fitting ?room pos (de # des))"
      using P(1)[of b'] s(5) True by (subst parse_dirents.simps) (simp add: Let_def)
    ultimately show ?thesis using s by (intro exI[of _ "b @ b'"] exI[of _ len] exI[of _ c]) simp
  qed
qed

section \<open>Growing the buffer\<close>

lemma extend_contents_ok:
  assumes "n < 2 ^ 32" "dh_size dh \<le> 0xffffffff" "length (dh_contents dh) = dh_size dh"
  shows "\<exists>r dh' m'. extend_contents dh n m = Some (r, dh', m') \<and>
    (if r = 0 then (\<exists>c z. dh' = dh\<lparr>dh_contents := c, dh_size := z\<rparr> \<and> length c = z \<and> n \<le> z \<and> z \<le> 0xffffffff)
     else r = -1 \<and> dh' = dh\<lparr>dh_error := - ENOMEM\<rparr> \<and> \<not> fst (malloc m))"
proof (cases "n > dh_size dh")
  case False
  then show ?thesis using assms
    by (auto simp: extend_contents_def intro!: exI[of _ "dh_contents dh"] exI[of _ "dh_size dh"])
next
  case True
  define s where "s = (if dh_size dh = 0 then 1024 else dh_size dh)"
  have s: "0 < s" "s \<le> 0xffffffff" "dh_size dh \<le> s" "n \<le> 0xffffffff" using assms by (auto simp: s_def)
  obtain z where z: "grow s n = Some z" "n \<le> z" "s \<le> z" "z \<le> 0xffffffff" using grow_ok[OF s(4,1,2)] by blast
  obtain ok m' where m: "malloc m = (ok, m')" by fastforce
  have "extend_contents dh n m = Some (if \<not> ok then (-1, dh\<lparr>dh_error := - ENOMEM\<rparr>, m')
      else (0, dh\<lparr>dh_contents := dh_contents dh @ replicate (z - dh_size dh) 0, dh_size := z\<rparr>, m'))"
    using True z(1) m by (simp add: extend_contents_def s_def)
  then show ?thesis using z(2-4) s(3) assms(3) m
    by (cases ok) (auto intro!: exI[of _ "dh_contents dh @ replicate (z - dh_size dh) 0"] exI[of _ z])
qed

text \<open>
  Property C20. Sending a collected directory: from offset \<open>off\<close> on, the reply holds the entries at
  that position and after it, as many as fit in the size the kernel asked for, each readable as
  \<open>struct fuse_dirent\<close> with its inode number, type and name and the offset of the next one, so
  that going on at the last offset seen neither skips nor repeats an entry; the buffer is never
  written past its end, and the only failure is \<open>-ENOMEM\<close>, out of memory only.
\<close>

theorem readdir_from_list_correct:
  assumes "dh_needlen dh < 2 ^ 32" and "dh_size dh \<le> 0xffffffff" and "length (dh_contents dh) = dh_size dh"
    and "list_all (\<lambda>de. dh_needlen dh + length (de_name de) + 64 < 2 ^ 32) (dh_first dh)"
    and "0 \<le> off"
  shows "\<exists>err dh' m'. readdir_fill_from_list dh off 0 m = Some (err, dh', m') \<and> dh_first dh' = dh_first dh \<and>
    (if err = 0 then dh_len dh' \<le> dh_needlen dh \<and> length (dh_contents dh') = dh_size dh' \<and>
       parse_dirents (take (dh_len dh') (dh_contents dh')) = Some (fitting (dh_needlen dh) off (drop (nat off) (dh_first dh)))
     else err = - ENOMEM \<and> \<not> fst (malloc m))"
proof -
  let ?dh = "dh\<lparr>dh_len := 0\<rparr>"
  let ?pos = "min (max off 0) (int (length (dh_first dh)))"
  have sh: "dh_needlen dh < 2 ^ 32" "dh_size ?dh \<le> 0xffffffff" "length (dh_contents ?dh) = dh_size ?dh" using assms by simp_all
  from extend_contents_ok[OF sh, of m] obtain r d m' where
    e: "extend_contents ?dh (dh_needlen dh) m = Some (r, d, m')"
    "if r = 0 then (\<exists>c z. d = ?dh\<lparr>dh_contents := c, dh_size := z\<rparr> \<and> length c = z \<and> dh_needlen dh \<le> z \<and> z \<le> 0xffffffff)
     else r = -1 \<and> d = ?dh\<lparr>dh_error := - ENOMEM\<rparr> \<and> \<not> fst (malloc m)" by blast
  show ?thesis
  proof (cases "r = 0")
    case False
    then show ?thesis using e by (simp add: readdir_fill_from_list_def)
  next
    case True
    then obtain c z where d: "d = ?dh\<lparr>dh_contents := c, dh_size := z\<rparr>" "length c = z" "dh_needlen dh \<le> z" using e(2) by auto
    have "list_all P (drop i xs)" if "list_all P xs" for P i and xs :: "fuse_direntry list"
      using that by (meson in_set_dropD list.pred_set)
    then have "roomy d (drop (nat ?pos) (dh_first dh))" using assms(4) d by (simp add: roomy_def)
    from list_loop_parse[OF this, of ?pos] obtain b len c' where
      l: "list_loop False (drop (nat ?pos) (dh_first dh)) ?pos d = d\<lparr>dh_contents := c', dh_len := len\<rparr>"
        "length c' = z" "len \<le> dh_needlen dh" "take len c' = b"
        "parse_dirents b = Some (fitting (dh_needlen dh) ?pos (drop (nat ?pos) (dh_first dh)))"
      using d by auto
    have "fitting (dh_needlen dh) ?pos (drop (nat ?pos) (dh_first dh)) =
        fitting (dh_needlen dh) off (drop (nat off) (dh_first dh))"
    proof (cases "off \<le> int (length (dh_first dh))")
      case True
      then show ?thesis using assms(5) by simp
    next
      case False
      then show ?thesis using assms(5) by simp
    qed
    moreover have "\<not> has (0 :: 32 word) FUSE_READDIR_PLUS" by (simp add: has_def)
    ultimately show ?thesis using e(1) True d l by (auto simp: readdir_fill_from_list_def Let_def)
  qed
qed

definition two_files :: fuse_dh where
  "two_files = (zero_dh 1)\<lparr>dh_first := [\<lparr>de_stat = zero_stat\<lparr>st_ino := 7\<rparr>, de_name = ''a''\<rparr>,
     \<lparr>de_stat = zero_stat\<lparr>st_ino := 8\<rparr>, de_name = ''bc''\<rparr>], dh_needlen := 40, dh_filled := True\<rparr>"

lemma readdir_from_list_correct_witness:
  "\<exists>dh' m'. readdir_fill_from_list two_files 1 0 [] = Some (0, dh', m') \<and>
    parse_dirents (take (dh_len dh') (dh_contents dh')) =
      Some [\<lparr>kd_ino = 8, kd_off = 2, kd_type = 0, kd_name = ''bc''\<rparr>]"
proof -
  have "fitting 40 1 [\<lparr>de_stat = zero_stat\<lparr>st_ino := 8\<rparr>, de_name = ''bc''\<rparr>] =
      [\<lparr>kd_ino = 8, kd_off = 2, kd_type = 0, kd_name = ''bc''\<rparr>]"
    by (simp add: FUSE_DIRENT_ALIGN_def FUSE_NAME_OFFSET_def kernel_view_def file_type_def zero_stat_def)
  moreover have "dh_needlen two_files < 2 ^ 32" "dh_size two_files \<le> 0xffffffff"
    "length (dh_contents two_files) = dh_size two_files" "(0::int) \<le> 1"
    "list_all (\<lambda>de. dh_needlen two_files + length (de_name de) + 64 < 2 ^ 32) (dh_first two_files)"
    by (simp_all add: two_files_def zero_dh_def)
  note readdir_from_list_correct[OF this(1,2,3,5,4), of "[]"]
  ultimately show ?thesis by (auto simp: two_files_def zero_dh_def split: if_splits)
qed

end
