(* ===== verification/Handlers_Frame.thy ===== *)
theory Handlers_Frame
  imports Handlers
begin

text \<open>
  What the operations on the tree leave alone, as the handlers need it: a locked tree is still a
  tree, deleting nodes moves no other node and touches no lock, and a path that was locked can be
  unlocked whatever happened to the entries below it.
\<close>

section \<open>A tree and the same tree with locks\<close>

definition strip :: "node \<Rightarrow> node" where
  "strip n = n\<lparr>n_treelock := 0\<rparr>"

definition relocked :: "heap \<Rightarrow> heap \<Rightarrow> bool" where
  \<comment> \<open>the two differ in the locks only\<close>
  "relocked h h' \<longleftrightarrow> (\<forall>p. map_option strip (h p) = map_option strip (h' p))"

lemma strip_lock [simp]: "strip (n\<lparr>n_treelock := k\<rparr>) = strip n"
  by (simp add: strip_def)

lemma node_eqI:
  assumes "strip n = strip n'"
  shows "n_nodeid n = n_nodeid n'" "n_parent n = n_parent n'" "n_name n = n_name n'" "n_nlookup n = n_nlookup n'"
    "n_refctr n = n_refctr n'"
  using assms unfolding strip_def by (metis node.ext_inject node.surjective node.update_convs(14))+

lemma relocked_at:
  assumes "relocked h h'"
  shows "h p = Some n \<Longrightarrow> \<exists>n'. h' p = Some n' \<and> strip n = strip n'"
    "h' p = Some n' \<Longrightarrow> \<exists>n. h p = Some n \<and> strip n = strip n'"
    "h p = None \<longleftrightarrow> h' p = None"
  using assms[unfolded relocked_def, THEN spec, of p] by (cases "h p"; cases "h' p"; auto)+

lemma relocked_same:
  assumes "relocked h h'"
  shows "dom h' = dom h" "linked h' = linked h" "kids h' = kids h" "idk h' = idk h" "namek h' = namek h"
    "is_entry h' = is_entry h" "shape h' = shape h"
proof -
  note R = relocked_at[OF assms]
  have field: "map_option g (h' p) = map_option g (h p)"
    if g: "\<And>n n'. strip n = strip n' \<Longrightarrow> g n = g n'" for g :: "node \<Rightarrow> 'x" and p
  proof (cases "h p")
    case None
    then show ?thesis using R(3)[of p] by simp
  next
    case (Some n)
    then obtain n' where "h' p = Some n'" "strip n = strip n'" using R(1) by blast
    then show ?thesis using Some g[of n n'] by simp
  qed
  have shape: "map_option (\<lambda>n. (n_nodeid n, n_name n, n_parent n)) (h' p) = map_option (\<lambda>n. (n_nodeid n, n_name n, n_parent n)) (h p)" for p
    by (rule field) (auto dest: node_eqI)
  then show sh: "shape h' = shape h" by (simp add: fun_eq_iff shape_def)
  have s: "(\<exists>n. h' p = Some n \<and> P (n_nodeid n) (n_name n) (n_parent n)) = (\<exists>n. h p = Some n \<and> P (n_nodeid n) (n_name n) (n_parent n))" for p P
    using shape[of p] by (cases "h p"; cases "h' p") auto
  show d: "dom h' = dom h" using R(3) by (auto simp: dom_def)
  show "linked h' = linked h" unfolding linked_def using s[of _ "\<lambda>_ _ q. \<exists>r. q = Some r"] by auto
  show "kids h' = kids h" unfolding kids_def fun_eq_iff using s[of _ "\<lambda>_ _ q. q = Some _"] by auto
  have c: "case_option u (\<lambda>n. g (n_nodeid n) (n_name n) (n_parent n)) (h' p) = case_option u (\<lambda>n. g (n_nodeid n) (n_name n) (n_parent n)) (h p)"
    for u g p using shape[of p] by (cases "h p"; cases "h' p") auto
  show "idk h' = idk h" unfolding idk_def fun_eq_iff using c[of 0 "\<lambda>i _ _. id_key i"] by blast
  show "namek h' = namek h"
  proof
    fix p
    have i: "case_option 0 (\<lambda>m. name_key (n_nodeid m) t) (h' q) = case_option 0 (\<lambda>m. name_key (n_nodeid m) t) (h q)" for q t
      using c[of 0 "\<lambda>i _ _. name_key i t" q] .
    show "namek h' p = namek h p" unfolding namek_def i
      using c[of 0 "\<lambda>_ s q. case (q, s) of (Some q, Some s) \<Rightarrow> (case h q of Some m \<Rightarrow> name_key (n_nodeid m) s | None \<Rightarrow> 0) | _ \<Rightarrow> 0" p]
      by simp
  qed
  show "is_entry h' = is_entry h"
  proof (intro ext)
    fix d t p
    have "is_entry h' d t p \<longleftrightarrow> (\<exists>q. (\<exists>n. h' p = Some n \<and> n_parent n = Some q \<and> n_name n = Some t) \<and> (\<exists>m. h' q = Some m \<and> n_nodeid m = d))"
      for h' by (auto simp: is_entry_def)
    then show "is_entry h' d t p \<longleftrightarrow> is_entry h d t p"
      using s[of p "\<lambda>_ s q'. q' = Some _ \<and> s = Some t"] s[of _ "\<lambda>i _ _. i = d"] by simp
  qed
qed

lemma relocked_tree_ok:
  assumes ok: "tree_ok f" and r: "relocked (f_nodes f) h"
    and pin: "\<And>p n. h p = Some n \<Longrightarrow> n_treelock n \<noteq> 0 \<Longrightarrow> n_nlookup n \<noteq> 0"
  shows "tree_ok (f\<lparr>f_nodes := h, f_mem := m\<rparr>)"
proof -
  have inv: "tree_inv (\<lambda>_. 0) {} {} f" using ok by (simp add: tree_ok_def)
  note H = heap_okD[OF tree_invD(1)[OF inv]] and S = relocked_same[OF r] and R = relocked_at(2)[OF r]
  have "heap_ok (\<lambda>_. 0) {} {} h"
  proof (rule heap_okI)
    fix p n assume p: "h p = Some n"
    then obtain n0 where n0: "f_nodes f p = Some n0" "strip n0 = strip n" using R by blast
    note N = H(4)[OF n0(1)] and E = node_eqI[OF n0(2)]
    show "node_ok (\<lambda>_. 0) {} {} h p n"
      using N pin[OF p] unfolding node_ok_def S E look_def pinned_def by blast
  next
    fix p q n m assume p: "h p = Some n" "h q = Some m"
    from R[OF p(1)] R[OF p(2)] obtain n0 m0 where
      o: "f_nodes f p = Some n0" "strip n0 = strip n"
        "f_nodes f q = Some m0" "strip m0 = strip m" by blast
    note E = node_eqI[OF o(2)] node_eqI[OF o(4)]
    show "p = q" if "n_nodeid n = n_nodeid m" using H(6)[OF o(1,3)] that E by simp
    show "p = q" if "n_parent n \<noteq> None" "n_parent n = n_parent m" "n_name n = n_name m"
      using H(7)[OF o(1,3)] that E by simp
  next
    from H(8) obtain p n where "f_nodes f p = Some n" "n_nodeid n = FUSE_ROOT_ID" by blast
    then show "\<exists>p n. h p = Some n \<and> n_nodeid n = FUSE_ROOT_ID" using relocked_at(1)[OF r, of p n] node_eqI(1)
      by (metis (no_types, lifting))
  qed (use H(1) S in auto)
  then show ?thesis using tree_invD[OF inv] S by (simp add: tree_ok_def tree_inv_def)
qed

lemma relocked_names:
  assumes "relocked (f_nodes f) h"
  shows "entries (f\<lparr>f_nodes := h, f_mem := m\<rparr>) = entries f" "namespace (f\<lparr>f_nodes := h, f_mem := m\<rparr>) = namespace f"
    "looked_up (f\<lparr>f_nodes := h, f_mem := m\<rparr>) d s \<longleftrightarrow> looked_up f d s" "known (f\<lparr>f_nodes := h, f_mem := m\<rparr>) i \<longleftrightarrow> known f i"
proof -
  have nl: "(\<exists>n. h p = Some n \<and> P (n_nodeid n) (n_nlookup n)) = (\<exists>n. f_nodes f p = Some n \<and> P (n_nodeid n) (n_nlookup n))" for p P
  proof (cases "f_nodes f p")
    case None
    then show ?thesis using relocked_at(3)[OF assms, of p] by simp
  next
    case (Some n)
    then obtain n' where "h p = Some n'" "strip n = strip n'" using relocked_at(1)[OF assms] by blast
    then show ?thesis using Some node_eqI(1,4)[of n n'] by simp
  qed
  show e: "entries (f\<lparr>f_nodes := h, f_mem := m\<rparr>) = entries f" using relocked_same(6)[OF assms] by (simp add: entries_def)
  then show "namespace (f\<lparr>f_nodes := h, f_mem := m\<rparr>) = namespace f"
    unfolding namespace_def using nl[of _ "\<lambda>i k. i = _ \<and> k \<noteq> 0"] by auto
  show "known (f\<lparr>f_nodes := h, f_mem := m\<rparr>) i \<longleftrightarrow> known f i"
    using nl[of _ "\<lambda>j k. j = i \<and> k \<noteq> 0"] by (simp add: known_def)
  show "looked_up (f\<lparr>f_nodes := h, f_mem := m\<rparr>) d s \<longleftrightarrow> looked_up f d s"
    unfolding looked_up_def e using nl[of _ "\<lambda>_ k. \<not> (k \<noteq> 0 \<and> (c_remember (f_conf f) \<noteq> 0 \<longrightarrow> k > 1))"] by auto
qed

section \<open>Deleting nodes\<close>

definition thinned :: "addr set \<Rightarrow> heap \<Rightarrow> heap \<Rightarrow> bool" where
  \<comment> \<open>some nodes are gone; the others have their locks, and outside \<open>A\<close> their place in the tree\<close>
  "thinned A h h' \<longleftrightarrow> (\<forall>q n'. h' q = Some n' \<longrightarrow> (\<exists>n. h q = Some n \<and> n_nodeid n' = n_nodeid n \<and>
     n_treelock n' = n_treelock n \<and> (q \<notin> A \<longrightarrow> n_name n' = n_name n \<and> n_parent n' = n_parent n)))"

lemma thinned_refl [simp]: "thinned A h h"
  by (simp add: thinned_def)

lemma thinned_trans:
  assumes "thinned A h g" "thinned B g k" "A \<subseteq> C" "B \<subseteq> C"
  shows "thinned C h k"
  unfolding thinned_def
proof (intro allI impI)
  fix q n' assume "k q = Some n'"
  then obtain n1 where n1: "g q = Some n1" "n_nodeid n' = n_nodeid n1" "n_treelock n' = n_treelock n1"
    "q \<notin> B \<longrightarrow> n_name n' = n_name n1 \<and> n_parent n' = n_parent n1" using assms(2) unfolding thinned_def by blast
  moreover obtain n where "h q = Some n" "n_nodeid n1 = n_nodeid n" "n_treelock n1 = n_treelock n"
    "q \<notin> A \<longrightarrow> n_name n1 = n_name n \<and> n_parent n1 = n_parent n" using assms(1) n1(1) unfolding thinned_def by blast
  ultimately show "\<exists>n. h q = Some n \<and> n_nodeid n' = n_nodeid n \<and> n_treelock n' = n_treelock n \<and>
      (q \<notin> C \<longrightarrow> n_name n' = n_name n \<and> n_parent n' = n_parent n)" using assms(3,4) by auto
qed

lemma thinned_upd:
  assumes "\<And>n. n_nodeid (g n) = n_nodeid n" "\<And>n. n_treelock (g n) = n_treelock n"
    "\<And>n. p \<notin> A \<Longrightarrow> n_name (g n) = n_name n \<and> n_parent (g n) = n_parent n"
  shows "thinned A (f_nodes f) (f_nodes (upd p g f))"
  using assms by (auto simp: thinned_def upd_def)

lemma remerge_name_nodes [simp]: "f_nodes (remerge_name f) = f_nodes f" "f_conf (remerge_name f) = f_conf f"
  by (simp_all add: remerge_name_def split_beta)

lemma unhash_id_nodes [simp]: "f_nodes (unhash_id f p) = f_nodes f" "f_conf (unhash_id f p) = f_conf f"
  by (simp_all add: unhash_id_def split_beta)

lemma remove_node_lru_nodes [simp]: "f_nodes (remove_node_lru f p) = f_nodes f" "f_conf (remove_node_lru f p) = f_conf f"
  by (simp_all add: remove_node_lru_def)

lemma free_node_thinned: "free_node f p = Some f' \<Longrightarrow> f_nodes f' = (f_nodes f)(p := None)"
  by (auto simp: free_node_def bind_eq_Some_conv)

lemma delete_frame:
  shows "unhash_name f p = Some f' \<Longrightarrow> thinned {p} (f_nodes f) (f_nodes f')"
    and "unref_node f p = Some f' \<Longrightarrow> thinned {} (f_nodes f) (f_nodes f')"
    and "delete_node f p = Some f' \<Longrightarrow> thinned {} (f_nodes f) (f_nodes f')"
proof (induction f p and f p and f p arbitrary: f' and f' and f' rule: unhash_name_unref_node_delete_node.induct)
  case (1 f p)
  from "1.prems" obtain n where n: "f_nodes f p = Some n" by (subst (asm) unhash_name.simps) (auto simp: bind_eq_Some_conv)
  show ?case
  proof (cases "n_name n")
    case None
    then show ?thesis using "1.prems" n by (subst (asm) unhash_name.simps) simp
  next
    case (Some name)
    from "1.prems" n Some obtain q m where q: "n_parent n = Some q" "f_nodes f q = Some m"
      by (subst (asm) unhash_name.simps) (auto simp: bind_eq_Some_conv)
    let ?h = "name_hash (f_name_table f) (n_nodeid m) name"
    have c: "?h < length (nt_array (f_name_table f)) \<and> p \<in> set (nt_array (f_name_table f) ! ?h)"
      using "1.prems" n Some q by (subst (asm) unhash_name.simps) (auto simp: Let_def split: if_splits)
    from "1.prems" n Some q c obtain g where
      g: "unref_node (f\<lparr>f_name_table := table_unlink ?h p (f_name_table f)\<rparr>) q = Some g"
      and f': "f_nodes f' = f_nodes (upd p (\<lambda>n. n\<lparr>n_name := None, n_parent := None\<rparr>) g)"
      by (subst (asm) unhash_name.simps) (auto simp: Let_def bind_eq_Some_conv split: if_splits)
    from "1.IH"[OF n Some q _ c g] have "thinned {} (f_nodes f) (f_nodes g)" by simp
    moreover have "thinned {p} (f_nodes g) (f_nodes f')" unfolding f' by (rule thinned_upd) simp_all
    ultimately show ?thesis by (rule thinned_trans) simp_all
  qed
next
  case (2 f p)
  from "2.prems" obtain n where n: "f_nodes f p = Some n" "n_refctr n > 0"
    by (subst (asm) unref_node.simps) (auto simp: bind_eq_Some_conv split: if_splits)
  let ?f = "upd p (\<lambda>n. n\<lparr>n_refctr := n_refctr n - 1\<rparr>) f"
  have "thinned {} (f_nodes f) (f_nodes ?f)" by (rule thinned_upd) simp_all
  moreover have "thinned {} (f_nodes ?f) (f_nodes f')"
  proof (cases "n_refctr n - 1 = 0")
    case True
    then have "delete_node ?f p = Some f'" using "2.prems" n by (subst (asm) unref_node.simps) (simp add: Let_def)
    from "2.IH"[OF n _ True this] show ?thesis by simp
  next
    case False
    then show ?thesis using "2.prems" n by (subst (asm) unref_node.simps) (simp add: Let_def)
  qed
  ultimately show ?case by (rule thinned_trans) simp_all
next
  case (3 f p)
  from "3.prems" obtain n g where n: "f_nodes f p = Some n" "n_treelock n = 0" "unhash_name f p = Some g"
    and f': "f_nodes f' = (f_nodes g)(p := None)"
    by (subst (asm) delete_node.simps) (auto simp: bind_eq_Some_conv Let_def dest!: free_node_thinned split: if_splits)
  from "3.IH"[OF n] show ?case unfolding f' thinned_def by auto
qed

section \<open>Unlocking a path after the tree has changed\<close>

definition settled :: "addr set \<Rightarrow> heap \<Rightarrow> heap \<Rightarrow> bool" where
  \<comment> \<open>the old nodes that are left have their locks, and outside \<open>A\<close> their place; new ones are not locked\<close>
  "settled A h h' \<longleftrightarrow> (\<forall>q n'. h' q = Some n' \<longrightarrow>
     (case h q of
        Some n \<Rightarrow> n_nodeid n' = n_nodeid n \<and> n_treelock n' = n_treelock n \<and>
          (q \<notin> A \<longrightarrow> n_name n' = n_name n \<and> n_parent n' = n_parent n)
      | None \<Rightarrow> n_treelock n' = 0))"

lemma thinned_settled: "thinned A h h' \<Longrightarrow> settled A h h'"
  by (force simp: thinned_def settled_def)

definition looked_at :: "heap \<Rightarrow> addr \<Rightarrow> bool" where
  "looked_at h p \<longleftrightarrow> (\<exists>n. h p = Some n \<and> n_nlookup n \<noteq> 0)"

lemma looked_at_relocked: "relocked h h' \<Longrightarrow> looked_at h' p \<longleftrightarrow> looked_at h p"
  unfolding looked_at_def using relocked_at(1,2)[of h h' p] node_eqI(4) by metis

lemma looked_at_kept: "kept f g \<Longrightarrow> looked_at (f_nodes f) p \<Longrightarrow> looked_at (f_nodes g) p"
  unfolding looked_at_def using keptD by blast

lemma relocked_acquire: "relocked h (acquire nl c w h)"
  by (auto simp: relocked_def acquire_def locked_by_def set_lock_def option.map_comp o_def fun_eq_iff split: option.splits)

lemma relocked_release: "relocked h (release A (set_lock v w h))"
  by (auto simp: relocked_def release_def set_lock_def option.map_comp o_def fun_eq_iff split: option.splits)

lemma chain_settled:
  assumes "chain h p c" and "settled A h h'"
    and "\<And>a. a \<in> on_chain c \<Longrightarrow> a \<notin> A \<and> h' a \<noteq> None" and "\<And>a n. h a = Some n \<Longrightarrow> n_nodeid n = FUSE_ROOT_ID \<Longrightarrow> h' a \<noteq> None"
  shows "chain h' p c"
  using assms(1,3)
proof (induction rule: chain.induct)
  case (chain_root p n)
  from assms(4)[OF chain_root.hyps] obtain n' where n': "h' p = Some n'" by auto
  then have "n_nodeid n' = FUSE_ROOT_ID" using assms(2) chain_root.hyps unfolding settled_def by fastforce
  with n' show ?case by (rule chain.chain_root)
next
  case (chain_step p n s q c)
  have a: "p \<notin> A" "h' p \<noteq> None" using chain_step.prems[of p] by auto
  then obtain n' where n': "h' p = Some n'" by auto
  have "n_nodeid n' = n_nodeid n \<and> n_name n' = n_name n \<and> n_parent n' = n_parent n"
    using assms(2)[unfolded settled_def, THEN spec, THEN spec, THEN mp, OF n'] chain_step.hyps(1) a(1) by simp
  moreover have "chain h' q c" using chain_step.IH chain_step.prems by auto
  ultimately show ?case using chain_step.hyps(2-4) n' by (intro chain.chain_step[of h' p n']) auto
qed

lemma tl_settled:
  assumes "settled A h h'" "h' q \<noteq> None"
  shows "tl_at h' q = tl_at h q"
proof -
  from assms(2) obtain n' where n': "h' q = Some n'" by auto
  from assms(1)[unfolded settled_def, THEN spec, THEN spec, THEN mp, OF this] n' show ?thesis
    by (cases "h q") (simp_all add: tl_at_def)
qed

lemma unlock_after:
  fixes f g :: fuse and c :: "(addr \<times> string) list" and w :: "addr option" and m :: mem
  defines "f1 \<equiv> f\<lparr>f_nodes := acquire True c w (f_nodes f), f_mem := m\<rparr>"
  assumes ok: "tree_ok f" "tree_ok g" and p: "get_node f i = Some p" "chain (f_nodes f) p c"
    and free: "free_for c w (f_nodes f)"
    and pin: "\<And>a. a \<in> on_chain c \<or> w = Some a \<Longrightarrow> looked_at (f_nodes f) a"
    and st: "settled A (f_nodes f1) (f_nodes g)" "\<And>a. looked_at (f_nodes f1) a \<Longrightarrow> looked_at (f_nodes g) a" and A: "A \<subseteq> set_option w"
  shows "\<exists>h. unlock_path g i w None = Some (g\<lparr>f_nodes := h\<rparr>) \<and> relocked (f_nodes g) h \<and>
    tree_ok (g\<lparr>f_nodes := h\<rparr>) \<and> (\<forall>q. h q \<noteq> None \<longrightarrow> tl_at h q = tl_at (f_nodes f) q)"
proof -
  let ?h = "f_nodes f" and ?h1 = "f_nodes f1" and ?g = "f_nodes g"
  let ?r = "release (on_chain c) (set_lock 0 w ?g)"
  have inv: "tree_inv (\<lambda>_. 0) {} {} f" "tree_inv (\<lambda>_. 0) {} {} g" using ok by (simp_all add: tree_ok_def)
  have h1: "?h1 = acquire True c w ?h" by (simp add: f1_def)
  have rl: "relocked ?h ?h1" unfolding h1 by (rule relocked_acquire)
  have look: "looked_at ?g a" if "looked_at ?h a" for a
    using st(2) looked_at_relocked[OF rl] that by blast
  have wc: "w \<noteq> Some a" if "a \<in> on_chain c" for a using free that by (auto simp: free_for_def)
  have root: "looked_at ?h a" if "?h a = Some n" "n_nodeid n = FUSE_ROOT_ID" for a n
    using node_okD(5)[OF heap_okD(4)[OF tree_invD(1)[OF inv(1)] that(1)]] that by (auto simp: looked_at_def)
  have tl: "tl_at ?g a = (if a \<in> on_chain c then tl_at ?h a + 1 else if w = Some a then TREELOCK_WRITE else tl_at ?h a)"
    if "?g a \<noteq> None" "looked_at ?h a \<or> a \<notin> on_chain c \<and> w \<noteq> Some a" for a
  proof -
    have "tl_at ?h1 a = (if a \<in> on_chain c then tl_at ?h a + 1 else if w = Some a then TREELOCK_WRITE else tl_at ?h a)"
      using that(2) wc by (auto simp: h1 acquire_def locked_by_def set_lock_def tl_at_def looked_at_def split: option.splits)
    then show ?thesis using tl_settled[OF st(1) that(1)] by simp
  qed
  have live: "?g a \<noteq> None" if "looked_at ?h a" for a using look[OF that] by (auto simp: looked_at_def)
  have "chain ?h1 p c" by (rule chain_shape[OF p(2)]) (use relocked_same(7)[OF rl] in simp)
  then have ch: "chain ?g p c"
  proof (rule chain_settled[OF _ st(1)])
    fix a assume "a \<in> on_chain c"
    then show "a \<notin> A \<and> ?g a \<noteq> None" using A wc[of a] live pin by auto
  next
    fix a n assume a: "?h1 a = Some n" "n_nodeid n = FUSE_ROOT_ID"
    from relocked_at(2)[OF rl a(1)] obtain n0 where "?h a = Some n0" "strip n0 = strip n" by blast
    with root[of a n0] node_eqI(1)[of n0 n] a(2) show "?g a \<noteq> None" using live by simp
  qed
  obtain x where x: "?h p = Some x" "n_nodeid x = i" using p(1) get_node_iff[OF inv(1)] by blast
  have "looked_at ?h p"
    using p(2) by (cases rule: chain.cases) (use root pin in auto)
  from live[OF this] obtain x' where x': "?g p = Some x'" by auto
  have "n_nodeid x' = i"
  proof -
    from relocked_at(1)[OF rl x(1)] obtain x1 where "?h1 p = Some x1" "strip x = strip x1" by blast
    with st(1) x' show ?thesis using node_eqI(1)[of x x1] x(2) by (force simp: settled_def)
  qed
  with x' have get: "get_node g i = Some p" using get_node_iff[OF inv(2)] by blast
  have un: "unlock_path g i w None = Some (g\<lparr>f_nodes := ?r\<rparr>)"
  proof (rule unlock_path_chain[OF get, of c "[]"])
    show "chain ?g p (c @ [])" using ch by simp
    show "tl_at ?g a = TREELOCK_WRITE" if "w = Some a" for a using tl[of a] live pin wc that by auto
    show "tl_at ?g a \<notin> {0, TREELOCK_WAIT_OFFSET, TREELOCK_WRITE}" if "a \<in> on_chain c" for a
      using tl[of a] live pin[of a] that free by (auto simp: free_for_def list_all_iff)
  qed simp
  have tlr: "tl_at ?r q = tl_at ?h q" if "?r q \<noteq> None" for q
  proof -
    have q: "?g q \<noteq> None" using that relocked_at(3)[OF relocked_release[of ?g "on_chain c" 0 w], of q] by simp
    have w0: "tl_at ?h a = 0" if "w = Some a" for a using free that by (auto simp: free_for_def)
    have c0: "0 \<le> tl_at ?h a" if "a \<in> on_chain c" for a using free that by (auto simp: free_for_def list_all_iff)
    have "tl_at ?r q = (if q \<in> on_chain c then (if tl_at ?g q - 1 = TREELOCK_WAIT_OFFSET then 0 else tl_at ?g q - 1)
        else if w = Some q then 0 else tl_at ?g q)"
      using q wc[of q] by (auto simp: release_def set_lock_def tl_at_def split: option.splits)
    then show ?thesis using tl[OF q] pin[of q] wc[of q] w0[of q] c0[of q] by (auto split: if_splits)
  qed
  have "tree_ok (g\<lparr>f_nodes := ?r, f_mem := f_mem g\<rparr>)"
  proof (rule relocked_tree_ok[OF ok(2) relocked_release])
    fix q n assume q: "?r q = Some n" "n_treelock n \<noteq> 0"
    then have "tl_at ?h q \<noteq> 0" using tlr[of q] by (simp add: tl_at_def)
    then obtain n0 where n0: "?h q = Some n0" "n_treelock n0 \<noteq> 0" by (auto simp: tl_at_def split: option.splits)
    then have "looked_at ?h q"
      using node_okD(3)[OF heap_okD(4)[OF tree_invD(1)[OF inv(1)] n0(1)]] by (simp add: looked_at_def pinned_def)
    then have "looked_at ?r q" using look looked_at_relocked[OF relocked_release[of ?g "on_chain c" 0 w]] by blast
    with q(1) show "n_nlookup n \<noteq> 0" by (simp add: looked_at_def)
  qed
  then show ?thesis using un tlr relocked_release[of ?g "on_chain c" 0 w] by (intro exI[of _ ?r]) simp
qed

section \<open>Removing an entry under its lock\<close>

lemma unlink_node_thinned: "unlink_node f p = Some g \<Longrightarrow> thinned {p} (f_nodes f) (f_nodes g)"
proof -
  assume u: "unlink_node f p = Some g"
  show ?thesis
  proof (cases "c_remember (f_conf f) = 0")
    case True
    then show ?thesis using u delete_frame(1) by (simp add: unlink_node_def)
  next
    case False
    let ?f = "upd p (\<lambda>n. n\<lparr>n_nlookup := n_nlookup n - 1\<rparr>) f"
    have "unhash_name ?f p = Some g" using u False by (auto simp: unlink_node_def bind_eq_Some_conv split: if_splits)
    then have "thinned {p} (f_nodes ?f) (f_nodes g)" by (rule delete_frame(1))
    moreover have "thinned {} (f_nodes f) (f_nodes ?f)" by (rule thinned_upd) simp_all
    ultimately show ?thesis using thinned_trans by blast
  qed
qed

lemma remove_node_thinned:
  "remove_node f d s = Some g \<Longrightarrow> thinned (set_option (lookup_node f d s)) (f_nodes f) (f_nodes g)"
  by (cases "lookup_node f d s") (auto simp: remove_node_def intro: unlink_node_thinned)

lemma lookup_relocked:
  assumes "tree_ok f" "tree_ok (f\<lparr>f_nodes := h, f_mem := m\<rparr>)" "relocked (f_nodes f) h"
  shows "lookup_node (f\<lparr>f_nodes := h, f_mem := m\<rparr>) d s = lookup_node f d s"
  using lookup_entries(1)[OF assms(1), of d s] lookup_entries(1)[OF assms(2), of d s] relocked_names(1)[OF assms(3), of m]
  by (metis not_None_eq)

lemma acquired_tree_ok:
  assumes ok: "tree_ok f" and pin: "\<And>a. a \<in> on_chain c \<or> w = Some a \<Longrightarrow> looked_at (f_nodes f) a"
  shows "tree_ok (f\<lparr>f_nodes := acquire True c w (f_nodes f), f_mem := m\<rparr>)"
proof (rule relocked_tree_ok[OF ok relocked_acquire])
  fix p n assume p: "acquire True c w (f_nodes f) p = Some n" "n_treelock n \<noteq> 0"
  have inv: "tree_inv (\<lambda>_. 0) {} {} f" using ok by (simp add: tree_ok_def)
  have "looked_at (f_nodes f) p"
  proof (cases "p \<in> on_chain c \<or> w = Some p")
    case False
    then have "f_nodes f p = Some n" using p(1) by (auto simp: acquire_def locked_by_def set_lock_def split: option.splits)
    then show ?thesis using node_okD(3)[OF heap_okD(4)[OF tree_invD(1)[OF inv]]] p(2) by (auto simp: looked_at_def pinned_def)
  qed (use pin in blast)
  then have "looked_at (acquire True c w (f_nodes f)) p" using looked_at_relocked[OF relocked_acquire] by blast
  with p(1) show "n_nlookup n \<noteq> 0" by (simp add: looked_at_def)
qed

lemma looked_up_entry:
  assumes "tree_ok f" "looked_up f d s" "lookup_node f d s = Some a"
  shows "looked_at (f_nodes f) a"
  using assms lookup_entries(1)[OF assms(1), of d s a] lookup_node_some[OF assms(3)] by (auto simp: looked_up_def looked_at_def)

lemma remove_locked:
  fixes f :: fuse and c and d s m
  defines "w \<equiv> lookup_node f d s"
  defines "f1 \<equiv> f\<lparr>f_nodes := acquire True c w (f_nodes f), f_mem := m\<rparr>"
  assumes ok: "tree_ok f" and p: "get_node f d = Some p" "chain (f_nodes f) p c" and free: "free_for c w (f_nodes f)"
    and dirs: "\<And>a. a \<in> on_chain c \<Longrightarrow> looked_at (f_nodes f) a" and up: "looked_up f d s" and q: "f_lockq f = []"
  shows "\<exists>g h. remove_node f1 d s = Some g \<and> free_path_wrlock g d w = Some (g\<lparr>f_nodes := h\<rparr>) \<and> f_conf g = f_conf f \<and>
    f_lockq g = [] \<and> tree_ok (g\<lparr>f_nodes := h\<rparr>) \<and> namespace (g\<lparr>f_nodes := h\<rparr>) = {(d', s', i) \<in> namespace f. (d', s') \<noteq> (d, s)} \<and>
    (\<forall>a. h a \<noteq> None \<longrightarrow> tl_at h a = tl_at (f_nodes f) a) \<and> (\<forall>i. known f i \<longrightarrow> known (g\<lparr>f_nodes := h\<rparr>) i)"
proof -
  have pin: "looked_at (f_nodes f) a" if "a \<in> on_chain c \<or> w = Some a" for a
    using that dirs looked_up_entry[OF ok up] unfolding w_def by blast
  have ok1: "tree_ok f1" unfolding f1_def by (rule acquired_tree_ok[OF ok]) (use pin in blast)
  note N = relocked_names[OF relocked_acquire[of "f_nodes f" True c w], of m, folded f1_def]
  have w1: "lookup_node f1 d s = w" unfolding w_def f1_def
    by (rule lookup_relocked[OF ok _ relocked_acquire]) (use ok1 f1_def w_def in simp)
  obtain g where g: "remove_node f1 d s = Some g" "tree_ok g" "kept f1 g"
    "namespace g = {(d', s', i) \<in> namespace f1. (d', s') \<noteq> (d, s)}"
    using remove_node_ok[OF ok1] N(3) up by blast
  have env: "f_conf g = f_conf f" "f_lockq g = []" using g(3) q by (simp_all add: kept_def same_env_def f1_def)
  have "settled (set_option w) (f_nodes f1) (f_nodes g)" using thinned_settled[OF remove_node_thinned[OF g(1)]] w1 by simp
  from unlock_after[OF ok g(2) p free pin this[unfolded f1_def] looked_at_kept[OF g(3)[unfolded f1_def]]] obtain h where
    h: "unlock_path g d w None = Some (g\<lparr>f_nodes := h\<rparr>)" "relocked (f_nodes g) h" "tree_ok (g\<lparr>f_nodes := h\<rparr>)"
      "\<forall>a. h a \<noteq> None \<longrightarrow> tl_at h a = tl_at (f_nodes f) a" by auto
  note G = relocked_names[OF h(2), of "f_mem g"]
  have "namespace (g\<lparr>f_nodes := h\<rparr>) = {(d', s', i) \<in> namespace f. (d', s') \<noteq> (d, s)}" using G(2) g(4) N(2) by simp
  moreover have "known (g\<lparr>f_nodes := h\<rparr>) i" if "known f i" for i
    using G(4)[of i] kept_known[OF g(3)] N(4) that by simp
  moreover have "free_path_wrlock g d w = Some (g\<lparr>f_nodes := h\<rparr>)" using h(1) env by (simp add: free_path_wrlock_def)
  ultimately show ?thesis using g(1) h env by blast
qed

section \<open>Adding an entry under the lock\<close>

definition uncounted :: "node \<Rightarrow> node" where
  "uncounted n = n\<lparr>n_refctr := 0\<rparr>"

lemma uncounted_ref [simp]: "uncounted (n\<lparr>n_refctr := k\<rparr>) = uncounted n"
  by (simp add: uncounted_def)

lemma uncountedD:
  assumes "uncounted n = uncounted n'"
  shows "n_nodeid n = n_nodeid n'" "n_parent n = n_parent n'" "n_name n = n_name n'" "n_nlookup n = n_nlookup n'"
    "n_treelock n = n_treelock n'"
  using assms unfolding uncounted_def by (metis node.ext_inject node.surjective node.update_convs(3))+

definition only_at :: "addr \<Rightarrow> heap \<Rightarrow> heap \<Rightarrow> bool" where
  \<comment> \<open>apart from reference counts only the node at \<open>p\<close> changes, and not its lock\<close>
  "only_at p h h' \<longleftrightarrow> map_option n_treelock (h' p) = map_option n_treelock (h p) \<and>
     (\<forall>q. q \<noteq> p \<longrightarrow> map_option uncounted (h' q) = map_option uncounted (h q))"

lemma only_at_refl [simp]: "only_at p h h"
  by (simp add: only_at_def)

lemma only_at_trans: "only_at p h g \<Longrightarrow> only_at p g k \<Longrightarrow> only_at p h k"
  by (simp add: only_at_def)

lemma only_at_upd: "(\<And>n. n_treelock (g n) = n_treelock n) \<Longrightarrow> only_at p (f_nodes f) (f_nodes (upd p g f))"
  by (auto simp: only_at_def upd_def option.map_comp o_def)

lemma only_at_ref: "only_at p (f_nodes f) (f_nodes (upd q (\<lambda>n. n\<lparr>n_refctr := r n\<rparr>) f))"
  by (auto simp: only_at_def upd_def option.map_comp o_def)

lemma only_at_new:
  assumes "only_at p (h(p \<mapsto> n)) h'" "h p = None" "n_treelock n = 0"
  shows "settled {} h h'" "looked_at h a \<Longrightarrow> looked_at h' a"
proof -
  have at: "map_option uncounted (h' q) = map_option uncounted (h q)" if "q \<noteq> p" for q
    using assms(1) that by (simp add: only_at_def)
  show "settled {} h h'"
    unfolding settled_def
  proof (intro allI impI)
    fix q n' assume q: "h' q = Some n'"
    show "case h q of None \<Rightarrow> n_treelock n' = 0
        | Some n \<Rightarrow> n_nodeid n' = n_nodeid n \<and> n_treelock n' = n_treelock n \<and>
            (q \<notin> {} \<longrightarrow> n_name n' = n_name n \<and> n_parent n' = n_parent n)"
    proof (cases "q = p")
      case True
      then show ?thesis using assms q by (auto simp: only_at_def)
    next
      case False
      from at[OF this] q obtain n1 where "h q = Some n1" "uncounted n1 = uncounted n'" by (cases "h q") auto
      then show ?thesis using uncountedD[of n1 n'] by simp
    qed
  qed
  show "looked_at h' a" if "looked_at h a"
  proof -
    from that obtain n1 where n1: "h a = Some n1" "n_nlookup n1 \<noteq> 0" by (auto simp: looked_at_def)
    with assms(2) have "a \<noteq> p" by auto
    from at[OF this] n1(1) obtain n2 where "h' a = Some n2" "uncounted n1 = uncounted n2" by (cases "h' a") auto
    then show ?thesis using uncountedD(4)[of n1 n2] n1(2) by (simp add: looked_at_def)
  qed
qed

lemma next_id_nodes:
  assumes "next_id f = Some r"
  shows "f_nodes (snd r) = f_nodes f \<and> f_lockq (snd r) = f_lockq f \<and> f_conf (snd r) = f_conf f"
proof (rule next_id.raw_induct[of "\<lambda>f r. f_nodes (snd r) = f_nodes f \<and> f_lockq (snd r) = f_lockq f \<and> f_conf (snd r) = f_conf f", OF _ assms])
  fix nid :: "fuse \<Rightarrow> (fuse_ino_t \<times> fuse) option" and f r
  assume "\<And>f r. nid f = Some r \<Longrightarrow>
      f_nodes (snd r) = f_nodes f \<and> f_lockq (snd r) = f_lockq f \<and> f_conf (snd r) = f_conf f"
    and "(let ctr = (f_ctr f + 1) AND 0xffffffff;
            f = f\<lparr>f_ctr := ctr, f_generation := f_generation f + (if ctr = 0 then 1 else 0)\<rparr>
          in if ctr = 0 \<or> ctr = FUSE_UNKNOWN_INO \<or> get_node_nocheck f ctr \<noteq> None then nid f else Some (ctr, f)) = Some r"
  then show "f_nodes (snd r) = f_nodes f \<and> f_lockq (snd r) = f_lockq f \<and> f_conf (snd r) = f_conf f"
    by (auto simp: Let_def split: if_splits)
qed

lemma rehash_name_fields [simp]:
  "f_nodes (rehash_name f) = f_nodes f" "f_lockq (rehash_name f) = f_lockq f" "f_conf (rehash_name f) = f_conf f"
  by (simp_all add: rehash_name_def split_beta)

lemma hash_id_fields [simp]:
  "f_nodes (hash_id f p) = f_nodes f" "f_lockq (hash_id f p) = f_lockq f" "f_conf (hash_id f p) = f_conf f"
  by (simp_all add: hash_id_def split_beta)

lemma upd_fields [simp]: "f_lockq (upd p g f) = f_lockq f" "f_conf (upd p g f) = f_conf f" "f_slabs (upd p g f) = f_slabs f"
  by (simp_all add: upd_def)

lemma inc_nlookup_at:
  "only_at p (f_nodes f) (f_nodes (inc_nlookup f p))" "f_lockq (inc_nlookup f p) = f_lockq f" "f_conf (inc_nlookup f p) = f_conf f"
  unfolding inc_nlookup_def by (rule only_at_upd) simp_all

lemma hash_name_at:
  assumes "hash_name f p d s = Some (res, g)"
  shows "only_at p (f_nodes f) (f_nodes g)" "f_lockq g = f_lockq f" "f_conf g = f_conf f"
proof -
  from assms obtain q where q: "get_node f d = Some q" by (auto simp: hash_name_def Let_def bind_eq_Some_conv)
  obtain ok m where m: "(if length s < 32 then (True, f_mem f) else malloc (f_mem f)) = (ok, m)" by fastforce
  let ?f1 = "upd p (\<lambda>n. n\<lparr>n_name := if ok then Some s else None\<rparr>) (f\<lparr>f_mem := m\<rparr>)"
  let ?f2 = "upd q (\<lambda>n. n\<lparr>n_refctr := n_refctr n + 1\<rparr>) ?f1"
  let ?f3 = "upd p (\<lambda>n. n\<lparr>n_parent := Some q\<rparr>) ?f2"
  have 1: "only_at p (f_nodes f) (f_nodes ?f1)"
    using only_at_upd[of "\<lambda>n. n\<lparr>n_name := if ok then Some s else None\<rparr>" p "f\<lparr>f_mem := m\<rparr>"] by simp
  have "only_at p (f_nodes ?f1) (f_nodes ?f2)" by (rule only_at_ref)
  moreover have "only_at p (f_nodes ?f2) (f_nodes ?f3)" by (rule only_at_upd) simp
  ultimately have 3: "only_at p (f_nodes f) (f_nodes ?f3)" using 1 only_at_trans by blast
  have g: "f_nodes g = (if ok then f_nodes ?f3 else f_nodes ?f1) \<and> f_lockq g = f_lockq f \<and> f_conf g = f_conf f"
    using assms q m by (cases ok) (auto simp: hash_name_def Let_def split: if_splits)
  then show "f_lockq g = f_lockq f" "f_conf g = f_conf f" by simp_all
  show "only_at p (f_nodes f) (f_nodes g)" using g 1 3 by (cases ok) simp_all
qed

lemma find_node_known:
  assumes "lookup_node f d s = Some p" "find_node f d (Some s) = Some (r, g)"
    and more: "\<And>n. f_nodes f p = Some n \<Longrightarrow> n_nlookup n + 1 \<noteq> 0"
  shows "settled {} (f_nodes f) (f_nodes g)" "looked_at (f_nodes f) a \<Longrightarrow> looked_at (f_nodes g) a" "f_lockq g = f_lockq f"
proof -
  from assms(1,2) obtain n where n: "f_nodes f p = Some n"
    and g: "g = inc_nlookup (if lru_enabled f \<and> n_nlookup n = 1 then remove_node_lru f p else f) p"
    by (auto simp: find_node_def Let_def bind_eq_Some_conv)
  have N: "f_nodes g = (f_nodes f)(p \<mapsto> n\<lparr>n_refctr := n_refctr n + (if n_nlookup n = 0 then 1 else 0), n_nlookup := n_nlookup n + 1\<rparr>)"
    using n by (auto simp: g inc_nlookup_def upd_def remove_node_lru_def)
  show "f_lockq g = f_lockq f" by (simp add: g inc_nlookup_at remove_node_lru_def)
  show "settled {} (f_nodes f) (f_nodes g)" using n by (auto simp: settled_def N split: option.split)
  show "looked_at (f_nodes f) a \<Longrightarrow> looked_at (f_nodes g) a" using more[OF n] by (auto simp: looked_at_def N)
qed

lemma find_node_added:
  assumes ok: "tree_ok f" and page: "fresh_page (f_slabs f)" and none: "lookup_node f d s = None"
    and r: "find_node f d (Some s) = Some (r, g)"
  shows "settled {} (f_nodes f) (f_nodes g)" "looked_at (f_nodes f) a \<Longrightarrow> looked_at (f_nodes g) a" "f_lockq g = f_lockq f"
proof -
  have inv: "tree_inv (\<lambda>_. 0) {} {} f" using ok by (simp add: tree_ok_def)
  note T = tree_invD[OF inv]
  obtain o' sb where a: "slab_alloc (f_slabs f) = Some (o', sb)" using slaballoc.alloc_defined[OF T(2) page] by blast
  have "settled {} (f_nodes f) (f_nodes g) \<and> (looked_at (f_nodes f) a \<longrightarrow> looked_at (f_nodes g) a) \<and> f_lockq g = f_lockq f"
  proof (cases o')
    case None
    then have "g = f\<lparr>f_slabs := sb\<rparr>" using r a none by (simp add: find_node_def)
    then show ?thesis by (auto simp: settled_def split: option.split)
  next
    case (Some p)
    then have p: "f_nodes f p = None" using slaballoc.alloc_node[OF T(2) page, of p sb] a T(3) by auto
    let ?f1 = "f\<lparr>f_slabs := sb, f_nodes := (f_nodes f)(p \<mapsto> zero_node)\<rparr>"
    from r a none Some obtain ino f2 where f2: "next_id ?f1 = Some (ino, f2)"
      by (auto simp: find_node_def bind_eq_Some_conv)
    let ?f3 = "upd p (\<lambda>n. n\<lparr>n_nodeid := ino, n_generation := f_generation f2\<rparr>) f2"
    let ?f4 = "if c_remember (f_conf ?f3) \<noteq> 0 then inc_nlookup ?f3 p else ?f3"
    from r a none Some f2 obtain res f5 where h: "hash_name ?f4 p d s = Some (res, f5)"
      and g: "if res = -1 then \<exists>f6. free_node f5 p = Some f6 \<and> g = f6 else g = inc_nlookup (hash_id f5 p) p"
      by (auto simp: find_node_def Let_def bind_eq_Some_conv split: if_splits)
    have 2: "f_nodes f2 = (f_nodes f)(p \<mapsto> zero_node)" "f_lockq f2 = f_lockq f" using next_id_nodes[OF f2] by simp_all
    have 3: "only_at p (f_nodes f2) (f_nodes ?f3)" by (rule only_at_upd) simp
    have 4: "only_at p (f_nodes ?f3) (f_nodes ?f4)" by (simp add: inc_nlookup_at)
    note 5 = only_at_trans[OF only_at_trans[OF 3 4] hash_name_at(1)[OF h], unfolded 2(1)]
    have q: "f_lockq f5 = f_lockq f" using hash_name_at(2)[OF h] 2(2) by (simp add: inc_nlookup_at split: if_splits)
    have z: "n_treelock zero_node = 0" by (simp add: zero_node_def)
    show ?thesis
    proof (cases "res = -1")
      case True
      with g have N: "f_nodes g = (f_nodes f5)(p := None)" "f_lockq g = f_lockq f5"
        by (auto simp: free_node_def bind_eq_Some_conv)
      have "settled {} (f_nodes f) (f_nodes g)" using only_at_new(1)[OF 5 p z] by (auto simp: settled_def N(1))
      moreover have "looked_at (f_nodes f) a \<longrightarrow> looked_at (f_nodes g) a"
        using only_at_new(2)[OF 5 p z, of a] p by (auto simp: looked_at_def N(1))
      ultimately show ?thesis using N q by simp
    next
      case False
      with g have "only_at p (f_nodes f5) (f_nodes g)" "f_lockq g = f_lockq f5"
        using inc_nlookup_at(1)[of p "hash_id f5 p"] by (simp_all add: inc_nlookup_at)
      with 5 have 6: "only_at p ((f_nodes f)(p \<mapsto> zero_node)) (f_nodes g)" using only_at_trans by blast
      show ?thesis using only_at_new[OF 6 p z] q \<open>f_lockq g = f_lockq f5\<close> by simp
    qed
  qed
  then show "settled {} (f_nodes f) (f_nodes g)" "looked_at (f_nodes f) a \<Longrightarrow> looked_at (f_nodes g) a" "f_lockq g = f_lockq f"
    by blast+
qed

definition room :: "fuse \<Rightarrow> fuse_ino_t \<Rightarrow> fuse_ino_t \<Rightarrow> string \<Rightarrow> bool" where
  \<comment> \<open>what \<open>find_node\<close> needs: the page \<open>mmap\<close> gives next is unused, the id \<open>t\<close> is free, the lookup count
      of an existing entry does not wrap around\<close>
  "room f t d s \<longleftrightarrow> fresh_page (f_slabs f) \<and> unat (f_ctr f) < 2 ^ 32 \<and> id_free f t \<and>
     (case Option.bind (lookup_node f d s) (f_nodes f) of Some n \<Rightarrow> n_nlookup n + 1 \<noteq> 0 | None \<Rightarrow> True)"

lemma room_relocked:
  assumes ok: "tree_ok f" "tree_ok (f\<lparr>f_nodes := h, f_mem := m\<rparr>)" and r: "relocked (f_nodes f) h" and room: "room f t d s"
  shows "room (f\<lparr>f_nodes := h, f_mem := m\<rparr>) t d s"
proof -
  have "map_option n_nodeid (h p) = map_option n_nodeid (f_nodes f p)" for p
  proof (cases "f_nodes f p")
    case None
    then show ?thesis using relocked_at(3)[OF r, of p] by simp
  next
    case (Some n)
    then obtain n' where "h p = Some n'" "strip n = strip n'" using relocked_at(1)[OF r] by blast
    then show ?thesis using Some node_eqI(1)[of n n'] by simp
  qed
  then have "get_node_nocheck (f\<lparr>f_nodes := h, f_mem := m\<rparr>) = get_node_nocheck f"
    by (simp add: fun_eq_iff get_node_nocheck_def)
  moreover have "n_nlookup n + 1 \<noteq> 0" if "lookup_node f d s = Some p" "h p = Some n" for p n
  proof -
    from relocked_at(2)[OF r that(2)] obtain n0 where "f_nodes f p = Some n0" "strip n0 = strip n" by blast
    then show ?thesis using room that(1) node_eqI(4)[of n0 n] by (auto simp: room_def)
  qed
  ultimately show ?thesis using room lookup_relocked[OF ok r, of d s]
    by (auto simp: room_def id_free_def bind_eq_Some_conv split: option.split)
qed

lemma find_locked:
  fixes f :: fuse and c m
  defines "f1 \<equiv> f\<lparr>f_nodes := acquire True c None (f_nodes f), f_mem := m\<rparr>"
  assumes ok: "tree_ok f" and p: "get_node f d = Some p" "chain (f_nodes f) p c" and free: "free_for c None (f_nodes f)"
    and dirs: "\<And>a. a \<in> on_chain c \<Longrightarrow> looked_at (f_nodes f) a" and dir: "known f d" and q: "f_lockq f = []" and room: "room f t d s"
  shows "\<exists>r g h. find_node f1 d (Some s) = Some (r, g) \<and> f_conf g = f_conf f \<and> f_lockq g = [] \<and>
    unlock_path g d None None = Some (g\<lparr>f_nodes := h\<rparr>) \<and> tree_ok (g\<lparr>f_nodes := h\<rparr>) \<and>
    (\<forall>a. h a \<noteq> None \<longrightarrow> tl_at h a = tl_at (f_nodes f) a) \<and> (\<forall>i. known f i \<longrightarrow> known (g\<lparr>f_nodes := h\<rparr>) i) \<and>
    (case r of
       None \<Rightarrow> namespace (g\<lparr>f_nodes := h\<rparr>) = namespace f \<and> (sb_partial (f_slabs f) = [] \<or> 32 \<le> length s)
     | Some a \<Rightarrow> \<exists>n. f_nodes g a = Some n \<and> namespace (g\<lparr>f_nodes := h\<rparr>) = insert (d, s, n_nodeid n) (namespace f))"
proof -
  note rl = relocked_acquire[of "f_nodes f" True c None]
  have ok1: "tree_ok f1" unfolding f1_def by (rule acquired_tree_ok[OF ok]) (use dirs in auto)
  note N = relocked_names[OF rl, of m, folded f1_def]
  have room1: "room f1 t d s" unfolding f1_def by (rule room_relocked[OF ok ok1[unfolded f1_def] rl room])
  have more: "n_nlookup n + 1 \<noteq> 0" if "(d, s, a) \<in> entries f1" "f_nodes f1 a = Some n" for a n
    using room1 that lookup_entries(1)[OF ok1, of d s a] by (simp add: room_def)
  have kn1: "known f1 d" using dir N(4) by blast
  have R: "fresh_page (f_slabs f1)" "unat (f_ctr f1) < 2 ^ 32" "id_free f1 t" using room1 by (simp_all add: room_def)
  obtain r g where
    g: "find_node f1 d (Some s) = Some (r, g)" "tree_ok g" "f_conf g = f_conf f1" "\<forall>i. known f1 i \<longrightarrow> known g i"
      "case r of None \<Rightarrow> namespace g = namespace f1 \<and> (sb_partial (f_slabs f1) = [] \<or> 32 \<le> length s \<and> \<not> fst (malloc (f_mem f1)))
       | Some a \<Rightarrow> \<exists>n. f_nodes g a = Some n \<and> n_nlookup n \<noteq> 0 \<and>
           (if (d, s, a) \<in> entries f1 then map_option n_nodeid (f_nodes f1 a) = Some (n_nodeid n) else id_free f1 (n_nodeid n)) \<and>
           namespace g = insert (d, s, n_nodeid n) (namespace f1)"
    by (rule exE[OF find_node_ok[OF ok1 R(1) kn1 R(2,3), of s]]) (use more in blast)+
  have F: "settled {} (f_nodes f1) (f_nodes g) \<and> (\<forall>a. looked_at (f_nodes f1) a \<longrightarrow> looked_at (f_nodes g) a) \<and> f_lockq g = f_lockq f1"
  proof (cases "lookup_node f1 d s")
    case None
    show ?thesis using find_node_added[OF ok1 _ None g(1)] room1 unfolding room_def by blast
  next
    case (Some a)
    have "n_nlookup n + 1 \<noteq> 0" if "f_nodes f1 a = Some n" for n using more that lookup_entries(1)[OF ok1] Some by blast
    from find_node_known[OF Some g(1) this] show ?thesis by blast
  qed
  have pin: "looked_at (f_nodes f) a" if "a \<in> on_chain c \<or> None = Some a" for a using that dirs by auto
  from unlock_after[OF ok g(2) p free pin] F obtain h where
    h: "unlock_path g d None None = Some (g\<lparr>f_nodes := h\<rparr>)" "relocked (f_nodes g) h" "tree_ok (g\<lparr>f_nodes := h\<rparr>)"
      "\<forall>a. h a \<noteq> None \<longrightarrow> tl_at h a = tl_at (f_nodes f) a" unfolding f1_def by blast
  note G = relocked_names[OF h(2), of "f_mem g"]
  have env: "f_conf g = f_conf f" "f_lockq g = []" using g(3) F q by (simp_all add: f1_def)
  have kn: "\<forall>i. known f i \<longrightarrow> known (g\<lparr>f_nodes := h\<rparr>) i" using G(4) g(4) N(4) by simp
  have "case r of
       None \<Rightarrow> namespace (g\<lparr>f_nodes := h\<rparr>) = namespace f \<and> (sb_partial (f_slabs f) = [] \<or> 32 \<le> length s)
     | Some a \<Rightarrow> \<exists>n. f_nodes g a = Some n \<and> namespace (g\<lparr>f_nodes := h\<rparr>) = insert (d, s, n_nodeid n) (namespace f)"
    using g(5) G(2) N(2) by (cases r) (auto simp: f1_def)
  then show ?thesis using g(1) env h kn by blast
qed

end
