(* ===== verification/Handlers_Props.thy ===== *)
theory Handlers_Props
  imports Handlers_Frame Handlers_IO Fs_Ops_Props
begin

text \<open>
  What the request handlers promise when no lock is in their way: the file system is called once
  with the full path, in the context of the request; the answer is its result; the tree keeps its
  invariant, changes as the request says and nowhere else, and every lock is back where it was.
\<close>

section \<open>A path that is free\<close>

definition way_free :: "fuse \<Rightarrow> fuse_ino_t \<Rightarrow> (addr \<times> string) list \<Rightarrow> string option \<Rightarrow> bool \<Rightarrow> bool" where
  \<comment> \<open>the node exists below the root, no lock is in the way, nobody waits, memory does not run out\<close>
  "way_free f i c name wr \<longleftrightarrow> (\<exists>p. get_node f i = Some p \<and> chain (f_nodes f) p c) \<and>
     free_for c (entry f i name wr) (f_nodes f) \<and> no_oom (f_mem f) \<and> f_lockq f = [] \<and>
     length (path_str c) + length (case name of None \<Rightarrow> [] | Some t \<Rightarrow> t) + 300 \<le> 0xffffffff"

definition prepared :: "'w request \<Rightarrow> 'w thread \<Rightarrow> 'w thread" where
  "prepared e th = th\<lparr>t_private := 0, t_context := n_ctx e\<rparr>"

definition same_locks :: "fuse \<Rightarrow> fuse \<Rightarrow> bool" where
  "same_locks f f' \<longleftrightarrow> (\<forall>p. f_nodes f' p \<noteq> None \<longrightarrow> tl_at (f_nodes f') p = tl_at (f_nodes f) p) \<and> f_lockq f' = f_lockq f"

lemma get_path_free:
  assumes "way_free f i c name wr" and "wr \<Longrightarrow> name \<noteq> None"
  shows "\<exists>m. get_path_common env t f i name wr = Some (0, Some (full_path c name), entry f i name wr,
    f\<lparr>f_nodes := acquire True c (entry f i name wr) (f_nodes f), f_mem := m\<rparr>)"
proof -
  from assms(1) obtain p where p: "get_node f i = Some p" "chain (f_nodes f) p c"
    "free_for c (entry f i name wr) (f_nodes f)" "no_oom (f_mem f)"
    "length (path_str c) + length (case name of None \<Rightarrow> [] | Some t \<Rightarrow> t) + 300 \<le> 0xffffffff"
    unfolding way_free_def by blast
  have "\<exists>r. try_get_path f i name wr True = Some r \<and> got_path f i name wr True c r"
    by (rule try_get_path_outcome[OF p(1,2) _ p(5)]) (use assms(2) in simp)
  then obtain err path w f' where
    r: "try_get_path f i name wr True = Some (err, path, w, f')" "got_path f i name wr True c (err, path, w, f')" by auto
  from r(2) p(3,4) have "err = 0" by (auto simp: got_path_def split: if_splits)
  with r show ?thesis by (auto simp: get_path_common_def got_path_def)
qed

lemma prepare_free:
  assumes "l_context x"
  shows "req_fuse_prepare e x = Some (x\<lparr>l_thread := prepared e (l_thread x)\<rparr>)"
  using assms by (simp add: req_fuse_prepare_def fuse_create_context_def prepared_def Let_def)

lemma interrupt_keeps [simp]:
  "l_fuse (fuse_prepare_interrupt x) = l_fuse x" "l_thread (fuse_prepare_interrupt x) = l_thread x"
  "l_fs (fuse_prepare_interrupt y) = l_fs y"
  "l_fuse (fuse_finish_interrupt x) = l_fuse x" "l_thread (fuse_finish_interrupt x) = l_thread x"
  "l_fs (fuse_finish_interrupt y) = l_fs y"
  by (simp_all add: fuse_prepare_interrupt_def fuse_finish_interrupt_def)

lemma waited_fields [simp]: "l_fuse (waited x f) = f" "l_thread (waited x f) = l_thread x" "l_fs (waited y f) = l_fs y"
  by (simp_all add: waited_def)

lemma reply_fields [simp]: "l_fuse (reply_err e err x) = l_fuse x" "l_fuse (snd (reply e a x)) = l_fuse x"
  "l_thread (reply_err e err x) = snd (n_reply e (Reply_err (- err)) (l_thread x))"
  "l_thread (snd (reply e a x)) = snd (n_reply e a (l_thread x))"
  "fst (reply e a x) = fst (n_reply e a (l_thread x))"
  by (simp_all add: reply_err_def reply_def split_beta)

text \<open>The lock is given back when the tree was left alone.\<close>

lemma unlock_free:
  fixes f :: fuse and i c name wr m
  defines "w \<equiv> entry f i name wr"
  assumes "way_free f i c name wr" and "wr \<Longrightarrow> name \<noteq> None"
  shows "unlock_path (f\<lparr>f_nodes := acquire True c w (f_nodes f), f_mem := m\<rparr>) i w None = Some (f\<lparr>f_mem := m\<rparr>)"
proof -
  from assms(2) obtain p where p: "get_node f i = Some p" "chain (f_nodes f) p c" "free_for c w (f_nodes f)"
    unfolding way_free_def w_def by blast
  let ?f = "f\<lparr>f_nodes := acquire True c w (f_nodes f), f_mem := m\<rparr>"
  have "got_path f i name wr True c (0, Some (full_path c name), w, ?f)"
    using p(3) unfolding got_path_def w_def by (intro case_prodI exI conjI) auto
  from unlock_acquired[OF p(1,2) this] show ?thesis by (simp add: mem_nodes_swap)
qed

section \<open>Requests that leave the tree alone\<close>

definition leaves_tree :: "(string option \<Rightarrow> ('w, 'b) lib \<Rightarrow> (int \<times> 'r \<times> ('w, 'b) lib) option) \<Rightarrow> ('w, 'b) fuse_fs \<Rightarrow> bool" where
  "leaves_tree body fs \<longleftrightarrow> (\<forall>path x. l_fs x = Some fs \<and> path \<noteq> None \<longrightarrow>
     (\<exists>err r x'. body path x = Some (err, r, x') \<and> l_fuse x' = l_fuse x))"

lemma leaves_doing:
  "leaves_tree (\<lambda>path. doing (\<lambda>fs. g fs path)) fs"
  "leaves_tree (\<lambda>path x. do { p \<leftarrow> path; doing (\<lambda>fs. h fs p) x }) fs"
  "leaves_tree (\<lambda>path. fs_get (\<lambda>fs. k fs path)) fs"
  "leaves_tree (\<lambda>path x. do { p \<leftarrow> path; fs_get (\<lambda>fs. l fs p) x }) fs"
  by (auto simp: leaves_tree_def doing_def fs_act_def fs_get_def split: prod.splits)

lemma on_path_free:
  assumes w: "way_free (l_fuse x) i c name False" and fs: "l_fs x = Some fs"
    and get: "\<And>e x. get e i x = do { (err, path, f) \<leftarrow> get_path_name (n_wait e (l_waits x)) (n_ticket e) (l_fuse x) i name;
      Some (err, path, waited x f) }"
    and body: "leaves_tree body fs"
  shows "\<exists>err r' x'. on_path get e i r body x = Some (err, r', x') \<and> (\<exists>m. l_fuse x' = (l_fuse x)\<lparr>f_mem := m\<rparr>)"
proof -
  let ?f = "l_fuse x"
  have en: "entry ?f i name False = None" by (simp add: entry_def)
  obtain m where m: "get_path_common (n_wait e (l_waits x)) (n_ticket e) ?f i name False =
      Some (0, Some (full_path c name), None, ?f\<lparr>f_nodes := acquire True c None (f_nodes ?f), f_mem := m\<rparr>)"
    using get_path_free[OF w, of "n_wait e (l_waits x)" "n_ticket e"] en by auto
  let ?g = "?f\<lparr>f_nodes := acquire True c None (f_nodes ?f), f_mem := m\<rparr>"
  have g: "get e i x = Some (0, Some (full_path c name), waited x ?g)" by (simp add: get get_path_name_def m)
  obtain err r' x1 where b: "body (Some (full_path c name)) (fuse_prepare_interrupt (waited x ?g)) = Some (err, r', x1)"
    "l_fuse x1 = ?g" using body fs unfolding leaves_tree_def
    by (metis interrupt_keeps(1,3) waited_fields(1,3) option.distinct(1))
  have "unlock_path ?g i None None = Some (?f\<lparr>f_mem := m\<rparr>)" using unlock_free[OF w, of m] en by simp
  moreover have "f_lockq ?g = []" using w by (simp add: way_free_def)
  ultimately have "drop_path i (Some (full_path c name)) (fuse_finish_interrupt x1) =
      Some ((fuse_finish_interrupt x1)\<lparr>l_fuse := ?f\<lparr>f_mem := m\<rparr>\<rparr>)"
    using b(2) by (simp add: drop_path_def free_path_def free_path_wrlock_def w[unfolded way_free_def])
  then show ?thesis using g b(1) by (auto simp: on_path_def)
qed

lemma with_path_free: "with_path e i x = do { (err, path, f) \<leftarrow> get_path_name (n_wait e (l_waits x)) (n_ticket e) (l_fuse x) i None;
      Some (err, path, waited x f) }"
  by (simp add: with_path_def get_path_def get_path_name_def)

definition query :: "'w request \<Rightarrow> (('w, 'b) lib \<Rightarrow> ('w, 'b) lib option) \<Rightarrow> ('w, 'b) lib \<Rightarrow> bool" where
  \<comment> \<open>the handler returns, having answered last of all, and leaves the inode tree as it was; only the
      allocation script moves on\<close>
  "query e h x \<longleftrightarrow> (\<exists>x' m a th. h x = Some x' \<and> l_fuse x' = (l_fuse x)\<lparr>f_mem := m\<rparr> \<and> l_thread x' = snd (n_reply e a th))"

lemma queryI:
  assumes x: "l_context x" "l_fs x = Some fs" "way_free (l_fuse x) i c None False" and body: "leaves_tree body fs"
    and h: "h x = do { x \<leftarrow> req_fuse_prepare e x; (err, v, x) \<leftarrow> on_path with_path e i r body x; Some (k err v x) }"
    and k: "\<And>err v x. l_fuse (k err v x) = l_fuse x \<and> (\<exists>a th. l_thread (k err v x) = snd (n_reply e a th))"
  shows "query e h x"
proof -
  let ?x = "x\<lparr>l_thread := prepared e (l_thread x)\<rparr>"
  have w: "way_free (l_fuse ?x) i c None False" "l_fs ?x = Some fs" using x by simp_all
  from on_path_free[where get = with_path, OF w with_path_free body, of e r] obtain err v x' m where
    o: "on_path with_path e i r body ?x = Some (err, v, x')" "l_fuse x' = (l_fuse x)\<lparr>f_mem := m\<rparr>" by auto
  then have "h x = Some (k err v x')" using prepare_free[OF x(1), of e] by (simp add: h)
  then show ?thesis using o(2) k[of err v x'] unfolding query_def by auto
qed

text \<open>
  Property C21. The requests that only ask the file system something on a path - access, readlink,
  statfs, setting and removing extended attributes, their sizes, bmap - return when no lock is in
  their way, whatever the file system answers, end with an answer, and leave every node, index and
  lock of the tree exactly as it was.
\<close>

theorem queries_leave_tree:
  assumes "l_context x" and "l_fs x = Some fs" and "way_free (l_fuse x) ino c None False" and "ino \<noteq> 0"
  shows "query e (fuse_lib_access e ino amode) x \<and> query e (fuse_lib_readlink e ino) x \<and>
    query e (fuse_lib_statfs e ino) x \<and> query e (fuse_lib_setxattr e ino name v flags) x \<and>
    query e (fuse_lib_removexattr e ino name) x \<and> query e (fuse_lib_getxattr e ino name 0) x \<and>
    query e (fuse_lib_listxattr e ino 0) x \<and> query e (fuse_lib_bmap e ino blocksize idx) x"
proof (intro conjI)
  note Q = queryI[OF assms(1-3), where e = e]
  note E = Q[where k = "\<lambda>err _ x. reply_err e err x"] and S = Q[where k = "\<lambda>res _ x. if res \<ge> 0 then snd (reply e (Reply_xattr res) x) else reply_err e res x"]
  note L = leaves_doing
  have a: "\<exists>a th. snd (n_reply e b t) = snd (n_reply e a th)" for b t by blast
  show "query e (fuse_lib_access e ino amode) x"
    by (rule E[OF L(2)[where h = "\<lambda>fs p. fuse_fs_access fs p amode"]]) (simp_all add: fuse_lib_access_def a)
  show "query e (fuse_lib_setxattr e ino name v flags) x"
    by (rule E[OF L(2)[where h = "\<lambda>fs p. fuse_fs_setxattr fs p name v flags"]]) (simp_all add: fuse_lib_setxattr_def a)
  show "query e (fuse_lib_removexattr e ino name) x"
    by (rule E[OF L(2)[where h = "\<lambda>fs p. fuse_fs_removexattr fs p name"]]) (simp_all add: fuse_lib_removexattr_def a)
  show "query e (fuse_lib_readlink e ino) x"
    by (rule Q[OF L(4)[where l = "\<lambda>fs p. fuse_fs_readlink fs p (replicate 4097 0)"],
        where k = "\<lambda>err v x. reply_or_err e err (Reply_readlink (takeWhile (\<lambda>b. b \<noteq> 0) (v[4096 := 0]))) x"])
      (simp_all add: fuse_lib_readlink_def reply_or_err_def a)
  show "query e (fuse_lib_statfs e ino) x"
    by (rule Q[OF L(3)[where k = "\<lambda>fs path. fuse_fs_statfs fs (case path of Some p \<Rightarrow> p | None \<Rightarrow> ''/'') zero_statvfs"],
        where k = "\<lambda>err v x. reply_or_err e err (Reply_statfs v) x"])
      (simp_all add: fuse_lib_statfs_def reply_or_err_def assms(4) a)
  show "query e (fuse_lib_bmap e ino blocksize idx) x"
    by (rule Q[OF L(4)[where l = "\<lambda>fs p. fuse_fs_bmap fs p blocksize idx"],
        where k = "\<lambda>err v x. reply_or_err e err (Reply_bmap v) x"])
      (simp_all add: fuse_lib_bmap_def reply_or_err_def a)
  show "query e (fuse_lib_getxattr e ino name 0) x"
    by (rule S[OF L(4)[where l = "\<lambda>fs p. fuse_fs_getxattr fs p name []"]])
      (simp_all add: fuse_lib_getxattr_def xattr_reply_def common_getxattr_def a)
  show "query e (fuse_lib_listxattr e ino 0) x"
    by (rule S[OF L(4)[where l = "\<lambda>fs p. fuse_fs_listxattr fs p []"]])
      (simp_all add: fuse_lib_listxattr_def xattr_reply_def common_listxattr_def a)
qed

section \<open>Removing a directory entry\<close>

lemma wrlock_free:
  assumes "way_free (l_fuse y) d c (Some s) True"
  shows "\<exists>m. with_wrlock e d s y = Some (0, Some (full_path c (Some s)), lookup_node (l_fuse y) d s,
    waited y ((l_fuse y)\<lparr>f_nodes := acquire True c (lookup_node (l_fuse y) d s) (f_nodes (l_fuse y)), f_mem := m\<rparr>))"
  using get_path_free[OF assms, of "n_wait e (l_waits y)" "n_ticket e"]
  by (auto simp: with_wrlock_def get_path_wrlock_def entry_def)

definition removed :: "fuse_ino_t \<Rightarrow> string \<Rightarrow> fuse \<Rightarrow> fuse \<Rightarrow> bool" where
  \<comment> \<open>the entry is gone and nothing else\<close>
  "removed d s f f' \<longleftrightarrow> tree_ok f' \<and> namespace f' = {(d', s', i) \<in> namespace f. (d', s') \<noteq> (d, s)} \<and>
     same_locks f f' \<and> (\<forall>i. known f i \<longrightarrow> known f' i)"

definition unchanged :: "fuse \<Rightarrow> fuse \<Rightarrow> bool" where
  \<comment> \<open>only the allocation script has moved on\<close>
  "unchanged f f' \<longleftrightarrow> (\<exists>m. f' = f\<lparr>f_mem := m\<rparr>)"

text \<open>
  What \<open>fuse_lib_rmdir\<close> and \<open>fuse_lib_unlink\<close> do once they hold the lock and the file system has
  answered: on success the node is removed; in both cases the lock is given back.
\<close>

lemma finish_removal:
  fixes f :: fuse and c and d s m
  defines "w \<equiv> lookup_node f d s"
  defines "f1 \<equiv> f\<lparr>f_nodes := acquire True c w (f_nodes f), f_mem := m\<rparr>"
  assumes ok: "tree_ok f" and w: "way_free f d c (Some s) True"
    and dirs: "list_all (\<lambda>(a, t). looked_at (f_nodes f) a) c" and up: "looked_up f d s"
  shows "\<exists>g. remove_node f1 d s = Some g \<and> (\<exists>f'. free_path_wrlock g d w = Some f' \<and> removed d s f f')"
    and "\<exists>f'. free_path_wrlock f1 d w = Some f' \<and> unchanged f f'"
proof -
  from w obtain p where p: "get_node f d = Some p" "chain (f_nodes f) p c" "free_for c w (f_nodes f)" "f_lockq f = []"
    unfolding way_free_def w_def by (auto simp: entry_def)
  have "looked_at (f_nodes f) a" if "a \<in> on_chain c" for a using dirs that by (auto simp: list_all_iff)
  from remove_locked[OF ok p(1,2) p(3)[unfolded w_def] this up p(4), of m] p(4)
  show "\<exists>g. remove_node f1 d s = Some g \<and> (\<exists>f'. free_path_wrlock g d w = Some f' \<and> removed d s f f')"
    unfolding w_def f1_def removed_def same_locks_def by fastforce
  have "entry f d (Some s) True = w" by (simp add: entry_def w_def)
  then have "unlock_path f1 d w None = Some (f\<lparr>f_mem := m\<rparr>)"
    using unlock_free[OF w, of m] by (simp add: f1_def)
  then show "\<exists>f'. free_path_wrlock f1 d w = Some f' \<and> unchanged f f'"
    using p(4) by (auto simp: free_path_wrlock_def unchanged_def)
qed

lemma rmdir_library:
  fixes x :: "('w, 'b) lib"
  assumes "l_context x" and "l_fs x = Some fs" and "tree_ok (l_fuse x)"
    and "way_free (l_fuse x) d c (Some s) True" and "looked_up (l_fuse x) d s"
    and "list_all (\<lambda>(a, t). looked_at (f_nodes (l_fuse x)) a) c"
    and "fuse_fs_rmdir fs (full_path c (Some s)) (prepared e (l_thread x)) = (err, th)"
  shows "\<exists>x'. fuse_lib_rmdir e d s x = Some x' \<and> l_thread x' = snd (n_reply e (Reply_err (- err)) th) \<and>
    (if err = 0 then removed d s (l_fuse x) (l_fuse x') else unchanged (l_fuse x) (l_fuse x'))"
proof -
  let ?x = "x\<lparr>l_thread := prepared e (l_thread x)\<rparr>"
  let ?w = "lookup_node (l_fuse x) d s"
  obtain m where g: "with_wrlock e d s ?x = Some (0, Some (full_path c (Some s)), ?w,
      waited ?x ((l_fuse x)\<lparr>f_nodes := acquire True c ?w (f_nodes (l_fuse x)), f_mem := m\<rparr>))"
    using wrlock_free[of ?x d c s e] assms(4) by auto
  note F = finish_removal[OF assms(3,4,6,5), of m]
  show ?thesis
  proof (cases "err = 0")
    case True
    with F(1) g prepare_free[OF assms(1), of e] show ?thesis
      by (auto simp: fuse_lib_rmdir_def fs_act_def assms(2,7) Let_def)
  next
    case False
    with F(2) g prepare_free[OF assms(1), of e] show ?thesis
      by (auto simp: fuse_lib_rmdir_def fs_act_def assms(2,7) Let_def)
  qed
qed

text \<open>
  \<open>rmdir\<close> of an entry nobody holds a lock on: the file system is asked once, with the
  full path and in the context of the request, and its result is the answer. On success exactly
  that entry leaves the tree, otherwise the tree is unchanged; the tree invariant holds, every
  lock is given back, and no assertion fails.
\<close>

theorem rmdir_correct:
  fixes x :: "('w, 'b) lib"
  assumes "l_context x" and "l_fs x = Some fs" and "tree_ok (l_fuse x)"
    and "way_free (l_fuse x) d c (Some s) True" and "looked_up (l_fuse x) d s"
    and "list_all (\<lambda>(a, t). looked_at (f_nodes (l_fuse x)) a) c"
    and "fuse_fs_rmdir fs (full_path c (Some s)) (prepared e (l_thread x)) = (err, th)"
  shows "\<exists>x'. fuse_lib_rmdir e d s x = Some x' \<and> l_thread x' = snd (n_reply e (Reply_err (- err)) th) \<and>
    (if err = 0 then removed d s (l_fuse x) (l_fuse x') else unchanged (l_fuse x) (l_fuse x'))"
  using assms by (rule rmdir_library)

section \<open>Making a directory entry\<close>

definition added :: "fuse_ino_t \<Rightarrow> string \<Rightarrow> fuse_ino_t \<Rightarrow> fuse \<Rightarrow> fuse \<Rightarrow> bool" where
  \<comment> \<open>the entry names the node \<open>i\<close>, and nothing else has changed\<close>
  "added d s i f f' \<longleftrightarrow> tree_ok f' \<and> namespace f' = insert (d, s, i) (namespace f) \<and> same_locks f f' \<and>
     (\<forall>i. known f i \<longrightarrow> known f' i)"

definition no_room :: "string \<Rightarrow> fuse \<Rightarrow> fuse \<Rightarrow> bool" where
  \<comment> \<open>no memory for the node or for a long name: the entries are what they were\<close>
  "no_room s f f' \<longleftrightarrow> (sb_partial (f_slabs f) = [] \<or> 32 \<le> length s) \<and> tree_ok f' \<and> namespace f' = namespace f \<and>
     same_locks f f' \<and> (\<forall>i. known f i \<longrightarrow> known f' i)"

definition entry_of :: "fuse \<Rightarrow> stat \<Rightarrow> fuse_ino_t \<Rightarrow> 64 word \<Rightarrow> fuse_entry_param" where
  \<comment> \<open>the entry for the node \<open>i\<close> with the attributes the file system gave\<close>
  "entry_of f st i g = \<lparr>e_ino = i, e_generation = g, e_attr = set_stat f i st,
     e_attr_timeout = c_attr_timeout (f_conf f), e_entry_timeout = c_entry_timeout (f_conf f)\<rparr>"

lemma set_stat_conf: "f_conf f = f_conf g \<Longrightarrow> set_stat f = set_stat g"
  by (simp add: fun_eq_iff set_stat_def)

lemma on_path_result:
  fixes x :: "('w, 'b) lib" and c i name m
  defines "f1 \<equiv> (l_fuse x)\<lparr>f_nodes := acquire True c None (f_nodes (l_fuse x)), f_mem := m\<rparr>"
  assumes "get e i x = Some (0, Some p, waited x f1)"
    and "body (Some p) (fuse_prepare_interrupt (waited x f1)) = Some (err, r', x1)"
    and "unlock_path (l_fuse x1) i None None = Some f'" and "f_lockq f' = []"
  shows "on_path get e i r body x = Some (err, r', (fuse_finish_interrupt x1)\<lparr>l_fuse := f'\<rparr>)"
  using assms by (simp add: on_path_def drop_path_def free_path_def free_path_wrlock_def)

lemma do_lookup_found:
  assumes "find_node (l_fuse x) d (Some s) = Some (r, g)" and "\<not> c_auto_cache (f_conf g)"
    and "\<And>a. r = Some a \<Longrightarrow> f_nodes g a = Some (n a)"
  shows "do_lookup e d (Some s) (zero_entry\<lparr>e_attr := st\<rparr>) x = Some (case r of
      None \<Rightarrow> (- ENOMEM, zero_entry\<lparr>e_attr := st\<rparr>, x\<lparr>l_fuse := g\<rparr>)
    | Some a \<Rightarrow> (0, entry_of g st (n_nodeid (n a)) (ucast (n_generation (n a))), x\<lparr>l_fuse := g\<rparr>))"
  using assms by (cases r) (simp_all add: do_lookup_def entry_of_def zero_entry_def Let_def)

lemma making:
  fixes x :: "('w, 'b) lib" and d s c e
  defines "p \<equiv> full_path c (Some s)" and "f \<equiv> l_fuse x"
  assumes x: "l_context x" "l_fs x = Some fs" and ok: "tree_ok f" and w: "way_free f d c (Some s) False" and room: "room f t d s"
    and dirs: "list_all (\<lambda>(a, t). looked_at (f_nodes f) a) c" and dir: "known f d" and ac: "\<not> c_auto_cache (f_conf f)"
    and g: "g p fs (prepared e (l_thread x)) = (err, th1)" "fuse_fs_getattr fs p zero_stat th1 = (res, st, th2)"
    and reply: "\<And>en. fst (n_reply e (Reply_entry en) th2) \<noteq> - ENOENT"
    and h: "h x = do { x \<leftarrow> req_fuse_prepare e x; (err, ent, x) \<leftarrow> on_path (with_path_name (Some s)) e d zero_entry
      (\<lambda>path x. do { p \<leftarrow> path; made e d s p (g p) x }) x; reply_entry e ent err x }"
  shows "\<exists>x'. h x = Some x' \<and>
    (if err \<noteq> 0 then unchanged f (l_fuse x') \<and> l_thread x' = snd (n_reply e (Reply_err (- err)) th1)
     else if res \<noteq> 0 then unchanged f (l_fuse x') \<and> l_thread x' = snd (n_reply e (Reply_err (- res)) th2)
     else (\<exists>i k. added d s i f (l_fuse x') \<and> l_thread x' = snd (n_reply e (Reply_entry (entry_of f st i k)) th2)) \<or>
       no_room s f (l_fuse x') \<and> l_thread x' = snd (n_reply e (Reply_err ENOMEM) th2))"
proof -
  let ?x = "x\<lparr>l_thread := prepared e (l_thread x)\<rparr>"
  have en: "entry f d (Some s) False = None" by (simp add: entry_def)
  have prep: "req_fuse_prepare e x = Some ?x" by (rule prepare_free[OF x(1)])
  obtain m where m: "get_path_common (n_wait e (l_waits x)) (n_ticket e) f d (Some s) False =
      Some (0, Some p, None, f\<lparr>f_nodes := acquire True c None (f_nodes f), f_mem := m\<rparr>)"
    using get_path_free[OF w, of "n_wait e (l_waits x)" "n_ticket e"] en unfolding p_def by auto
  let ?f1 = "f\<lparr>f_nodes := acquire True c None (f_nodes f), f_mem := m\<rparr>"
  let ?y = "fuse_prepare_interrupt (waited ?x ?f1)"
  have get: "with_path_name (Some s) e d ?x = Some (0, Some p, waited ?x ?f1)"
    using m by (simp add: with_path_name_def get_path_name_def f_def)
  have y: "l_fuse ?y = ?f1" "l_thread ?y = prepared e (l_thread x)" "l_fs ?y = Some fs" using x(2) by simp_all
  have un: "unlock_path ?f1 d None None = Some (f\<lparr>f_mem := m\<rparr>)" using unlock_free[OF w, of m] en by simp
  have q: "f_lockq f = []" using w by (simp add: way_free_def)
  let ?body = "\<lambda>path x. do { p \<leftarrow> path; made e d s p (g p) x }"
  have run: "h x = reply_entry e r' err' ((fuse_finish_interrupt x1)\<lparr>l_fuse := f'\<rparr>)"
    if "?body (Some p) ?y = Some (err', r', x1)" "unlock_path (l_fuse x1) d None None = Some f'" "f_lockq f' = []" for err' r' x1 f'
  proof -
    have "on_path (with_path_name (Some s)) e d zero_entry ?body ?x = Some (err', r', (fuse_finish_interrupt x1)\<lparr>l_fuse := f'\<rparr>)"
      by (rule on_path_result[where x = ?x, OF _ _ that(2,3)]) (use get that(1) in \<open>simp_all add: f_def\<close>)
    then show ?thesis using prep by (simp add: h)
  qed
  have act: "fs_act (g p) ?y = Some (err, ?y\<lparr>l_thread := th1\<rparr>)" using y g(1) by (simp add: fs_act_def)
  have attr: "fs_get (\<lambda>fs. fuse_fs_getattr fs p zero_stat) (?y\<lparr>l_thread := th1\<rparr>) = Some (res, st, ?y\<lparr>l_thread := th2\<rparr>)"
    using y g(2) by (simp add: fs_get_def)
  consider "err \<noteq> 0" | "err = 0" "res \<noteq> 0" | "err = 0" "res = 0" by blast
  then show ?thesis
  proof cases
    case 1
    have "?body (Some p) ?y = Some (err, zero_entry, ?y\<lparr>l_thread := th1\<rparr>)" using 1 act by (simp add: made_def)
    from run[OF this, of "f\<lparr>f_mem := m\<rparr>"] un q 1 show ?thesis by (auto simp: reply_entry_def unchanged_def)
  next
    case 2
    have "?body (Some p) ?y = Some (res, zero_entry\<lparr>e_attr := st\<rparr>, ?y\<lparr>l_thread := th2\<rparr>)"
      using 2 act attr by (simp add: made_def lookup_path_def)
    from run[OF this, of "f\<lparr>f_mem := m\<rparr>"] un q 2 show ?thesis by (auto simp: reply_entry_def unchanged_def)
  next
    case 3
    from w obtain a where a: "get_node f d = Some a" "chain (f_nodes f) a c" "free_for c None (f_nodes f)"
      unfolding way_free_def by (auto simp: en)
    have "looked_at (f_nodes f) b" if "b \<in> on_chain c" for b using dirs that by (auto simp: list_all_iff)
    from find_locked[OF ok a this dir q room, of m] obtain r g' hh where
      F: "find_node ?f1 d (Some s) = Some (r, g')" "f_conf g' = f_conf f" "f_lockq g' = []"
        "unlock_path g' d None None = Some (g'\<lparr>f_nodes := hh\<rparr>)" "tree_ok (g'\<lparr>f_nodes := hh\<rparr>)"
        "\<forall>a. hh a \<noteq> None \<longrightarrow> tl_at hh a = tl_at (f_nodes f) a" "\<forall>i. known f i \<longrightarrow> known (g'\<lparr>f_nodes := hh\<rparr>) i"
        "case r of
           None \<Rightarrow> namespace (g'\<lparr>f_nodes := hh\<rparr>) = namespace f \<and> (sb_partial (f_slabs f) = [] \<or> 32 \<le> length s)
         | Some a \<Rightarrow> \<exists>n. f_nodes g' a = Some n \<and> namespace (g'\<lparr>f_nodes := hh\<rparr>) = insert (d, s, n_nodeid n) (namespace f)"
      by blast
    show ?thesis
    proof (cases r)
      case None
      have "do_lookup e d (Some s) (zero_entry\<lparr>e_attr := st\<rparr>) (?y\<lparr>l_thread := th2\<rparr>) =
          Some (- ENOMEM, zero_entry\<lparr>e_attr := st\<rparr>, ?y\<lparr>l_thread := th2, l_fuse := g'\<rparr>)"
        using do_lookup_found[of "?y\<lparr>l_thread := th2\<rparr>" d s r g'] F(1,2) y(1) None ac by simp
      then have "?body (Some p) ?y = Some (- ENOMEM, zero_entry\<lparr>e_attr := st\<rparr>, ?y\<lparr>l_thread := th2, l_fuse := g'\<rparr>)"
        using 3 act attr by (simp add: made_def lookup_path_def)
      note P = run[OF this, of "g'\<lparr>f_nodes := hh\<rparr>"]
      have "no_room s f (g'\<lparr>f_nodes := hh\<rparr>)" using F(3,5-8) None q by (simp add: no_room_def same_locks_def)
      with P F(3,4) 3 show ?thesis by (simp add: reply_entry_def)
    next
      case (Some b)
      then obtain n where n: "f_nodes g' b = Some n" "namespace (g'\<lparr>f_nodes := hh\<rparr>) = insert (d, s, n_nodeid n) (namespace f)"
        using F(8) by auto
      let ?en = "entry_of f st (n_nodeid n) (ucast (n_generation n))"
      have "entry_of g' = entry_of f" using F(2) set_stat_conf[OF F(2)] by (simp add: fun_eq_iff entry_of_def)
      then have "do_lookup e d (Some s) (zero_entry\<lparr>e_attr := st\<rparr>) (?y\<lparr>l_thread := th2\<rparr>) =
          Some (0, ?en, ?y\<lparr>l_thread := th2, l_fuse := g'\<rparr>)"
        using do_lookup_found[of "?y\<lparr>l_thread := th2\<rparr>" d s r g' "\<lambda>_. n"] F(1,2) n(1) y(1) Some ac by simp
      then have "?body (Some p) ?y = Some (0, ?en, ?y\<lparr>l_thread := th2, l_fuse := g'\<rparr>)"
        using 3 act attr by (simp add: made_def lookup_path_def)
      note P = run[OF this, of "g'\<lparr>f_nodes := hh\<rparr>"]
      have "added d s (n_nodeid n) f (g'\<lparr>f_nodes := hh\<rparr>)" using F(3,5-7) n(2) q by (simp add: added_def same_locks_def)
      moreover from P F(3,4) reply[of ?en] obtain x' where x': "h x = Some x'" "l_fuse x' = g'\<lparr>f_nodes := hh\<rparr>"
          "l_thread x' = snd (n_reply e (Reply_entry ?en) th2)"
        by (simp add: reply_entry_def reply_def split_beta)
      ultimately have "\<exists>i k. added d s i f (l_fuse x') \<and> l_thread x' = snd (n_reply e (Reply_entry (entry_of f st i k)) th2)"
        by (intro exI[of _ "n_nodeid n"] exI[of _ "ucast (n_generation n)"]) simp
      then show ?thesis using 3 x'(1) by (intro exI[of _ x']) simp
    qed
  qed
qed

text \<open>
  Property C11. \<open>mkdir\<close> below a directory the kernel knows, with no lock in the way: the file system
  is asked to make it and then for its attributes, both with the full path. If one refuses, its
  error is the answer and the tree is unchanged. Otherwise the tree has exactly that entry more,
  for a node whose id and attributes the answer carries - or memory for the node is short, then the
  entries are unchanged and the answer is ENOMEM. The tree invariant holds, every lock is given back.
\<close>

theorem mkdir_correct:
  fixes x :: "('w, 'b) lib"
  assumes "l_context x" and "l_fs x = Some fs" and "tree_ok (l_fuse x)"
    and "way_free (l_fuse x) d c (Some s) False" and "room (l_fuse x) t d s" and "known (l_fuse x) d"
    and "list_all (\<lambda>(a, t). looked_at (f_nodes (l_fuse x)) a) c" and "\<not> c_auto_cache (f_conf (l_fuse x))"
    and "fuse_fs_mkdir fs (full_path c (Some s)) m (prepared e (l_thread x)) = (err, th1)"
    and "fuse_fs_getattr fs (full_path c (Some s)) zero_stat th1 = (res, st, th2)"
    and "\<And>en. fst (n_reply e (Reply_entry en) th2) \<noteq> - ENOENT"
  shows "\<exists>x'. fuse_lib_mkdir e d s m x = Some x' \<and>
    (if err \<noteq> 0 then unchanged (l_fuse x) (l_fuse x') \<and> l_thread x' = snd (n_reply e (Reply_err (- err)) th1)
     else if res \<noteq> 0 then unchanged (l_fuse x) (l_fuse x') \<and> l_thread x' = snd (n_reply e (Reply_err (- res)) th2)
     else (\<exists>i k. added d s i (l_fuse x) (l_fuse x') \<and>
            l_thread x' = snd (n_reply e (Reply_entry (entry_of (l_fuse x) st i k)) th2)) \<or>
       no_room s (l_fuse x) (l_fuse x') \<and> l_thread x' = snd (n_reply e (Reply_err ENOMEM) th2))"
  by (rule making[where g = "\<lambda>p fs. fuse_fs_mkdir fs p m" and h = "fuse_lib_mkdir e d s m", OF assms(1-5,7,6,8-11)])
    (rule fuse_lib_mkdir_def)

section \<open>Witnesses\<close>

definition willing_fs :: "('w, 'b) fuse_fs" where
  \<comment> \<open>its \<open>mkdir\<close>, \<open>rmdir\<close> and \<open>getattr\<close> always succeed\<close>
  "willing_fs = \<lparr>fs_op = no_ops\<lparr>op_mkdir := Some (\<lambda>path m st. (0, st)), op_rmdir := Some (\<lambda>path st. (0, st)),
     op_getattr := Some (\<lambda>path buf st. (0, buf, st))\<rparr>, fs_m = None, fs_user_data = 0, fs_debug = False\<rparr>"

definition quiet_request :: "unit request" where
  \<comment> \<open>every reply is sent; the reply's error shows in \<open>errno\<close>\<close>
  "quiet_request = \<lparr>n_kernel = short_kernel, n_wait = (\<lambda>_ _ f. f), n_ticket = 0, n_stack = 0,
     n_ctx = \<lparr>cx_uid = 0, cx_gid = 0, cx_pid = 0, cx_umask = 0\<rparr>,
     n_reply = (\<lambda>a th. (0, th\<lparr>p_errno := (case a of Reply_err n \<Rightarrow> n | _ \<Rightarrow> - 1)\<rparr>))\<rparr>"

definition running :: "fuse \<Rightarrow> (unit, unit) lib" where
  "running f = \<lparr>l_fuse = f, l_dhs = (\<lambda>_. None), l_thread = idle_thread, l_clockid = 1, l_context = True, l_intr = False,
     l_waits = 0, l_fs = Some willing_fs\<rparr>"

lemma quiet_reply [simp]:
  "n_reply quiet_request a th = (0, th\<lparr>p_errno := (case a of Reply_err n \<Rightarrow> n | _ \<Rightarrow> - 1)\<rparr>)"
  by (simp add: quiet_request_def)

lemma running_fields [simp]: "l_fuse (running f) = f" "l_thread (running f) = idle_thread" "l_context (running f)"
  "l_fs (running f) = Some willing_fs"
  by (simp_all add: running_def)

lemma root_way:
  assumes "tree_ok f" "known f 1" "f_lockq f = []" "no_oom (f_mem f)" "length s < 32"
  shows "way_free f 1 [] None False" "way_free f 1 [] (Some s) False"
    "(\<And>a. lookup_node f 1 s = Some a \<Longrightarrow> tl_at (f_nodes f) a = 0) \<Longrightarrow> way_free f 1 [] (Some s) True"
proof -
  have inv: "tree_inv (\<lambda>_. 0) {} {} f" using assms(1) by (simp add: tree_ok_def)
  obtain p n where p: "f_nodes f p = Some n" "n_nodeid n = 1" using assms(2) by (auto simp: known_def)
  have g: "\<exists>p. get_node f 1 = Some p \<and> chain (f_nodes f) p []"
    using get_node_iff[OF inv] p chain.chain_root by blast
  show "way_free f 1 [] None False" "way_free f 1 [] (Some s) False"
    using assms g by (simp_all add: way_free_def entry_def free_for_def path_str_def)
  show "way_free f 1 [] (Some s) True" if "\<And>a. lookup_node f 1 s = Some a \<Longrightarrow> tl_at (f_nodes f) a = 0"
    using assms g that by (simp add: way_free_def entry_def free_for_def path_str_def)
qed

lemma empty_tree:
  "\<exists>f t. tree_ok f \<and> known f 1 \<and> f_lockq f = [] \<and> no_oom (f_mem f) \<and> namespace f = {} \<and>
    \<not> c_auto_cache (f_conf f) \<and> room f t 1 ''a'' \<and> sb_partial (f_slabs f) \<noteq> []"
proof -
  obtain f where f: "new_tree boot_conf boot_slabs [] = Some (Some f)" "f_slabs f = boot_after 1"
    using boot_tree by blast
  have env: "f_lockq f = []" "f_mem f = []" "f_conf f = boot_conf" using f(1)
    by (auto simp: new_tree_def node_table_init_def boot_alloc(1) hash_id_def inc_nlookup_def upd_def
      table_add_def table_insert_def Let_def NODE_TABLE_MIN_SIZE_def split: prod.splits)
  note N = new_tree_ok[OF boot_slabs_ok f(1)]
  obtain t where t: "id_free f t" using boot_id_free[OF _ f(2)] N by blast
  have "lookup_node f 1 ''a'' = None" using N lookup_entries(2) by blast
  moreover have "fresh_page (f_slabs f)" "sb_partial (f_slabs f) \<noteq> []"
    by (simp_all add: f(2) fresh_page_def boot_after_def)
  ultimately have "room f t 1 ''a''" using N t by (simp add: room_def)
  then show ?thesis using N env by (intro exI[of _ f] exI[of _ t]) (simp add: boot_conf_def f(2) boot_after_def)
qed

lemma queries_leave_tree_witness:
  "\<exists>f. query quiet_request (fuse_lib_access quiet_request 1 4) (running f)"
proof -
  obtain f where f: "tree_ok f" "known f 1" "f_lockq f = []" "no_oom (f_mem f)" using empty_tree by blast
  have "query quiet_request (fuse_lib_access quiet_request 1 4) (running f)"
    using queries_leave_tree[OF running_fields(3,4), of f 1 "[]" quiet_request 4] root_way(1)[OF f, of "''a''"] by simp
  then show ?thesis ..
qed

lemma mkdir_correct_witness:
  "\<exists>f x' i. namespace f = {} \<and> fuse_lib_mkdir quiet_request 1 ''a'' 493 (running f) = Some x' \<and>
    tree_ok (l_fuse x') \<and> namespace (l_fuse x') = {(1, ''a'', i)} \<and> p_errno (l_thread x') = - 1"
proof -
  obtain f t where f: "tree_ok f" "known f 1" "f_lockq f = []" "no_oom (f_mem f)" "namespace f = {}"
    "\<not> c_auto_cache (f_conf f)" "room f t 1 ''a''" "sb_partial (f_slabs f) \<noteq> []" using empty_tree by blast
  have w: "way_free (l_fuse (running f)) 1 [] (Some ''a'') False" using root_way(2)[OF f(1-4)] by simp
  have ops: "fuse_fs_mkdir willing_fs (full_path [] (Some ''a'')) 493 (prepared quiet_request idle_thread) =
      (0, prepared quiet_request idle_thread)"
    "fuse_fs_getattr willing_fs (full_path [] (Some ''a'')) zero_stat (prepared quiet_request idle_thread) =
      (0, zero_stat, prepared quiet_request idle_thread)"
    by (simp_all add: willing_fs_def fuse_fs_mkdir_def fuse_fs_getattr_def fs_call_def no_ops_def prepared_def)
  obtain x' where x': "fuse_lib_mkdir quiet_request 1 ''a'' 493 (running f) = Some x'"
    "(\<exists>i k. added 1 ''a'' i f (l_fuse x') \<and>
        l_thread x' = snd (n_reply quiet_request (Reply_entry (entry_of f zero_stat i k)) (prepared quiet_request idle_thread))) \<or>
     no_room ''a'' f (l_fuse x')"
    using mkdir_correct[where e = quiet_request and t = t and err = 0 and m = 493, OF running_fields(3,4) _ w _ _ _ _ _ ops(2)] f ops(1)
    by auto
  have "\<not> no_room ''a'' f (l_fuse x')" using f(8) by (simp add: no_room_def)
  with x' f(5) show ?thesis by (auto simp: added_def)
qed

lemma tree_of_one:
  "\<exists>f i. tree_ok f \<and> namespace f = {(1, ''a'', i)} \<and> way_free f 1 [] (Some ''a'') True \<and> looked_up f 1 ''a''"
proof -
  obtain f0 p i where f0: "tree_ok f0" "known f0 1" "namespace f0 = {(1, ''a'', i)}" "c_remember (f_conf f0) = 0"
    "entries f0 = {(1, ''a'', p)}" using boot_one by blast
  then obtain n where n: "f_nodes f0 p = Some n" by (auto simp: namespace_def)
  let ?g = "upd p (\<lambda>n. n\<lparr>n_treelock := 0\<rparr>) f0"
  let ?f = "?g\<lparr>f_mem := [], f_lockq := []\<rparr>"
  note U = unlocked_ok[OF f0(1) n]
  have f: "tree_ok ?f" "namespace ?f = {(1, ''a'', i)}" using U f0(3)
    by (simp_all add: tree_ok_def tree_inv_def namespace_def entries_def)
  obtain q m where q: "f_nodes f0 q = Some m" "n_nodeid m = 1" "n_nlookup m \<noteq> 0" using f0(2) by (auto simp: known_def)
  have kn: "known ?f 1" unfolding known_def
    by (rule exI[of _ q], cases "q = p") (use q in \<open>simp_all add: upd_def\<close>)
  have look: "a = p" if "lookup_node ?f 1 ''a'' = Some a" for a
  proof -
    have "(1, ''a'', a) \<in> entries ?f" using that lookup_entries(1)[OF f(1)] by simp
    then have "(1, ''a'', a) \<in> entries f0" using n by (auto simp: entries_def is_entry_def upd_def split: if_splits)
    then show ?thesis using f0(5) by simp
  qed
  have "way_free ?f 1 [] (Some ''a'') True"
    using root_way(3)[OF f(1) kn, of "''a''"] look n by (auto simp: tl_at_def upd_def no_oom_def)
  moreover have "looked_up ?f 1 ''a''" using entries_looked_up[OF f(1)] f(2) f0(4) by (simp add: upd_def)
  ultimately show ?thesis using f by blast
qed

lemma willing_rmdir [simp]: "fuse_fs_rmdir willing_fs p (prepared e st) = (0, prepared e st)"
  by (simp add: willing_fs_def fuse_fs_rmdir_def fs_call_def no_ops_def prepared_def)

lemma removed_one:
  assumes "namespace f = {(1, ''a'', i)}" and "removed 1 ''a'' f f'"
  shows "tree_ok f'" "namespace f' = {}"
proof -
  have none: "{(d', s', j) \<in> {(1, ''a'', i)}. (d', s') \<noteq> (1, ''a'')} = {}" by auto
  show "tree_ok f'" "namespace f' = {}" using assms(2) unfolding removed_def assms(1) none by blast+
qed

lemma rmdir_correct_witness:
  "\<exists>f i x'. namespace f = {(1, ''a'', i)} \<and> fuse_lib_rmdir quiet_request 1 ''a'' (running f) = Some x' \<and>
    tree_ok (l_fuse x') \<and> namespace (l_fuse x') = {} \<and> p_errno (l_thread x') = 0"
proof -
  obtain f i where f: "tree_ok f" "namespace f = {(1, ''a'', i)}" "way_free f 1 [] (Some ''a'') True" "looked_up f 1 ''a''"
    using tree_of_one by blast
  obtain x' where x': "fuse_lib_rmdir quiet_request 1 ''a'' (running f) = Some x'" "removed 1 ''a'' f (l_fuse x')"
    "p_errno (l_thread x') = 0"
    using rmdir_correct[where x = "running f" and c = "[]" and d = 1 and s = "''a''" and e = quiet_request, OF running_fields(3,4)] f by auto
  with removed_one[OF f(2) x'(2)] f(2) show ?thesis by blast
qed

end
