(* ===== verification/Mount_Util.thy ===== *)
theory Mount_Util
  imports Fs_Ops
begin

text \<open>
  src/lib/mount_util.c: the table of mounted file systems (/etc/mtab) kept with the help of mount(8)
  and umount(8), the canonical form of a mount point, and the checks made before mounting. Messages to
  the terminal are left out. A child process that cannot run its program does not come back here.
\<close>

section \<open>The table of mounts\<close>

definition S_ISLNK :: "32 word \<Rightarrow> bool" where "S_ISLNK m \<longleftrightarrow> m AND S_IFMT = 0xA000"

abbreviation (input) EROFS :: int where "EROFS \<equiv> 30"

definition PATH_MOUNTED :: string where "PATH_MOUNTED = ''/etc/mtab''"

definition W_OK :: int where "W_OK = 2"

definition mtab_needs_update :: "'w kernel \<Rightarrow> string \<Rightarrow> 'w thread \<Rightarrow> bool \<times> 'w thread" where
  "mtab_needs_update k mnt st =
     (if take (length mnt) PATH_MOUNTED = mnt \<and> cchar PATH_MOUNTED (length mnt) = CHR ''/'' then (False, st)
      else let (r, st) = sys k (SysLstat PATH_MOUNTED) st
        in if r_ret r = - 1 then (p_errno st \<noteq> ENOENT, st)
           else if (case r_data r of StatData b \<Rightarrow> S_ISLNK (st_mode b) | _ \<Rightarrow> False) then (False, st)
           else let
             (u, st) = sys k SysGetuid st;
             st = (if r_ret u \<noteq> 0 then snd (sys k (SysSetreuid 0 (- 1)) st) else st);
             (a, st) = sys k (SysAccess PATH_MOUNTED W_OK) st;
             err = (if r_ret a = - 1 then p_errno st else 0);
             st = (if r_ret u \<noteq> 0 then snd (sys k (SysSetreuid (r_ret u) (- 1)) st) else st)
           in (err \<noteq> EROFS, st))"

definition run_program :: "'w kernel \<Rightarrow> string list \<Rightarrow> 'w thread \<Rightarrow> int \<times> 'w thread" where
  \<comment> \<open>the common body of \<open>add_mount\<close>, \<open>exec_umount\<close> and \<open>remove_mount\<close>: with SIGCHLD blocked, run a
      program and wait for it\<close>
  "run_program k argv st =
     (let (r, st) = sys k SysSigprocmask st
      in if r_ret r = - 1 then (- 1, st)
         else let (f, st) = sys k (SysFork (Ch_program argv)) st
           in if r_ret f = - 1 then (- 1, snd (sys k SysSigprocmask st))
              else let
                (w, st) = sys k (SysWaitpid (r_ret f)) st;
                res = (case r_data w of IntData status \<Rightarrow> if status \<noteq> 0 then - 1 else r_ret w | _ \<Rightarrow> - 1)
              in (res, snd (sys k SysSigprocmask st)))"

definition add_mount :: "'w kernel \<Rightarrow> string \<Rightarrow> string \<Rightarrow> string \<Rightarrow> string \<Rightarrow> 'w thread \<Rightarrow> int \<times> 'w thread" where
  "add_mount k fsname mnt ty opts st =
     run_program k [''/bin/mount'', ''--no-canonicalize'', ''-i'', ''-f'', ''-t'', ty, ''-o'', opts, fsname, mnt] st"

definition fuse_mnt_add_mount :: "'w kernel \<Rightarrow> string \<Rightarrow> string \<Rightarrow> string \<Rightarrow> string \<Rightarrow> 'w thread \<Rightarrow> int \<times> 'w thread" where
  "fuse_mnt_add_mount k fsname mnt ty opts st =
     (let (b, st) = mtab_needs_update k mnt st in if \<not> b then (0, st) else add_mount k fsname mnt ty opts st)"

definition exec_umount :: "'w kernel \<Rightarrow> string \<Rightarrow> bool \<Rightarrow> 'w thread \<Rightarrow> int \<times> 'w thread" where
  "exec_umount k rel_mnt lazy st = run_program k ([''/bin/umount'', ''-i'', rel_mnt] @ (if lazy then [''-l''] else [])) st"

definition fuse_mnt_umount :: "'w kernel \<Rightarrow> string \<Rightarrow> string \<Rightarrow> bool \<Rightarrow> 'w thread \<Rightarrow> int \<times> 'w thread" where
  "fuse_mnt_umount k abs_mnt rel_mnt lazy st =
     (let (b, st) = mtab_needs_update k abs_mnt st
      in if \<not> b then let (r, st) = sys k (SysUmount2 rel_mnt (if lazy then 2 else 0)) st in (r_ret r, st)
         else exec_umount k rel_mnt lazy st)"

definition remove_mount :: "'w kernel \<Rightarrow> string \<Rightarrow> 'w thread \<Rightarrow> int \<times> 'w thread" where
  "remove_mount k mnt st = run_program k [''/bin/umount'', ''--no-canonicalize'', ''-i'', ''--fake'', mnt] st"

definition fuse_mnt_remove_mount :: "'w kernel \<Rightarrow> string \<Rightarrow> 'w thread \<Rightarrow> int \<times> 'w thread" where
  "fuse_mnt_remove_mount k mnt st = (let (b, st) = mtab_needs_update k mnt st in if \<not> b then (0, st) else remove_mount k mnt st)"

section \<open>The canonical mount point\<close>

definition t_malloc :: "'w thread \<Rightarrow> bool \<times> 'w thread" where
  "t_malloc st = (let (ok, m) = malloc (t_mem st) in (ok, st\<lparr>t_mem := m\<rparr>))"

fun strip_slashes :: "string \<Rightarrow> string" where
  \<comment> \<open>the string up to \<open>end\<close>: slashes at its end are skipped, but not its first character; on the
      reversed string\<close>
  "strip_slashes (c # d # s) = (if c = CHR ''/'' then strip_slashes (d # s) else c # d # s)"
| "strip_slashes s = s"

definition strrchr :: "string \<Rightarrow> char \<Rightarrow> nat option" where
  "strrchr s c = map_option (\<lambda>i. length s - 1 - i) (strchr (rev s) c)"

definition split_mount :: "string \<Rightarrow> string \<times> string option" where
  \<comment> \<open>\<open>toresolv\<close> and \<open>lastcomp\<close>, for a string that is not empty\<close>
  "split_mount orig =
     (let s = rev (strip_slashes (rev orig))
      in if last s = CHR ''/'' then (orig, None)
         else let
           t = strrchr s (CHR ''/'');
           lastcomp = (case t of None \<Rightarrow> s | Some i \<Rightarrow> drop (i + 1) s)
         in if lastcomp = ''.'' \<or> lastcomp = ''..'' then (s, None)
            else (case t of None \<Rightarrow> ''.'' | Some i \<Rightarrow> if i = 0 then ''/'' else take i s, Some lastcomp))"

definition fuse_mnt_resolve_path :: "'w kernel \<Rightarrow> string \<Rightarrow> 'w thread \<Rightarrow> string option \<times> 'w thread" where
  "fuse_mnt_resolve_path k orig st =
     (if orig = [] then (None, st)
      else let (ok, st) = t_malloc st
        in if \<not> ok then (None, st)
           else let
             (toresolv, lastcomp) = split_mount orig;
             (r, st) = sys k (SysRealpath toresolv) st
           in if r_ret r < 0 then (None, st)
              else let
                buf = (case r_data r of StringData b \<Rightarrow> b | _ \<Rightarrow> []);
                (ok, st) = t_malloc st
              in (if \<not> ok then None
                  else Some (case lastcomp of
                      None \<Rightarrow> buf
                    | Some c \<Rightarrow> if buf \<noteq> [] \<and> last buf = CHR ''/'' then buf @ c else buf @ ''/'' @ c), st))"

section \<open>Checks\<close>

partial_function (option) only_dots :: "'w kernel \<Rightarrow> int \<Rightarrow> 'w thread \<Rightarrow> (bool \<times> 'w thread) option" where
  \<comment> \<open>the loop over the entries of the directory\<close>
  "only_dots k dp st =
     (let (r, st) = sys k (SysReaddir dp) st
      in case r_data r of
           DirentData de \<Rightarrow>
             (if d_name de \<noteq> ''.'' \<and> d_name de \<noteq> ''..'' then Some (False, st) else only_dots k dp st)
         | _ \<Rightarrow> Some (True, st))"

definition fuse_mnt_check_empty :: "'w kernel \<Rightarrow> string \<Rightarrow> 32 word \<Rightarrow> int \<Rightarrow> 'w thread \<Rightarrow> (int \<times> 'w thread) option" where
  "fuse_mnt_check_empty k mnt rootmode rootsize st =
     (if S_ISDIR rootmode then
        let (r, st) = sys k (SysOpendir mnt) st
        in if r_ret r < 0 then Some (- 1, st)
           else do {
             (isempty, st) \<leftarrow> only_dots k (r_ret r) st;
             Some (if isempty then 0 else - 1, snd (sys k (SysClosedir (r_ret r)) st))
           }
      else Some (if rootsize \<noteq> 0 then - 1 else 0, st))"

fun strstr :: "string \<Rightarrow> string \<Rightarrow> nat option" where
  "strstr s p = (if take (length p) s = p then Some 0 else (case s of [] \<Rightarrow> None | _ # t \<Rightarrow> map_option Suc (strstr t p)))"

declare strstr.simps [simp del]

partial_function (option) find_fuseblk :: "'w kernel \<Rightarrow> int \<Rightarrow> 'w thread \<Rightarrow> (bool \<times> 'w thread) option" where
  "find_fuseblk k f st =
     (let (r, st) = sys k (SysFgets f 256) st
      in case r_data r of
           StringData buf \<Rightarrow> if strstr buf (''fuseblk'' @ [CHR 0x0A]) \<noteq> None then Some (True, st) else find_fuseblk k f st
         | _ \<Rightarrow> Some (False, st))"

definition fuse_mnt_check_fuseblk :: "'w kernel \<Rightarrow> 'w thread \<Rightarrow> (int \<times> 'w thread) option" where
  "fuse_mnt_check_fuseblk k st =
     (let (r, st) = sys k (SysFopen ''/proc/filesystems'' ''r'') st
      in if r_ret r < 0 then Some (1, st)
         else do {
           (found, st) \<leftarrow> find_fuseblk k (r_ret r) st;
           Some (if found then 1 else 0, snd (sys k (SysClose (r_ret r)) st))
         })"

end
