(* ===== verification/Mount.thy ===== *)
theory Mount
  imports Mount_Util Fuse_Opt
begin

text \<open>
  Mounting on Linux, src/lib/mount.c: the mount options and their parser, mounting with mount(2) or
  with the help of the program \<open>fusermount\<close>, which passes the descriptor of the device over a socket,
  and unmounting. An option flag of the record is set by any value that is not zero.
\<close>

section \<open>Options\<close>

record mount_opts =
  mo_allow_other :: bool
  mo_allow_root :: bool
  mo_flags :: "32 word"
  mo_nonempty :: bool
  mo_auto_unmount :: bool
  mo_blkdev :: bool
  mo_fsname :: "string option"
  mo_subtype :: "string option"
  mo_subtype_opt :: "string option"
  mo_mtab_opts :: "string option"
  mo_fusermount_opts :: "string option"
  mo_kernel_opts :: "string option"

abbreviation (input) KEY_KERN_FLAG :: int where "KEY_KERN_FLAG \<equiv> 0"
abbreviation (input) KEY_KERN_OPT :: int where "KEY_KERN_OPT \<equiv> 1"
abbreviation (input) KEY_FUSERMOUNT_OPT :: int where "KEY_FUSERMOUNT_OPT \<equiv> 2"
abbreviation (input) KEY_SUBTYPE_OPT :: int where "KEY_SUBTYPE_OPT \<equiv> 3"
abbreviation (input) KEY_MTAB_OPT :: int where "KEY_MTAB_OPT \<equiv> 4"
abbreviation (input) KEY_ALLOW_ROOT :: int where "KEY_ALLOW_ROOT \<equiv> 5"
abbreviation (input) KEY_RO :: int where "KEY_RO \<equiv> 6"

definition int_opt :: "string \<Rightarrow> (int \<Rightarrow> 'd \<Rightarrow> 'd) \<Rightarrow> int \<Rightarrow> 'd fuse_opt" where
  \<comment> \<open>\<open>{ t, offsetof(struct d, p), v }\<close> for an integer member \<open>p\<close>, given by its setter\<close>
  "int_opt t g v = \<lparr>templ = t, offset = Some (\<lambda>x. case x of VInt i \<Rightarrow> g i | _ \<Rightarrow> id), opt_value = v\<rparr>"

definition flag_opt :: "string \<Rightarrow> (bool \<Rightarrow> 'd \<Rightarrow> 'd) \<Rightarrow> 'd fuse_opt" where
  "flag_opt t g = int_opt t (\<lambda>i. g (i \<noteq> 0)) 1"

definition str_opt :: "string \<Rightarrow> (string \<Rightarrow> 'd \<Rightarrow> 'd) \<Rightarrow> 'd fuse_opt" where
  "str_opt t g = \<lparr>templ = t, offset = Some (\<lambda>x. case x of VStr s \<Rightarrow> g s | _ \<Rightarrow> id), opt_value = 1\<rparr>"

definition fuse_mount_opts :: "mount_opts fuse_opt list" where
  "fuse_mount_opts = [
     flag_opt ''allow_other'' (\<lambda>b m. m\<lparr>mo_allow_other := b\<rparr>),
     flag_opt ''allow_root'' (\<lambda>b m. m\<lparr>mo_allow_root := b\<rparr>),
     flag_opt ''nonempty'' (\<lambda>b m. m\<lparr>mo_nonempty := b\<rparr>),
     flag_opt ''blkdev'' (\<lambda>b m. m\<lparr>mo_blkdev := b\<rparr>),
     flag_opt ''auto_unmount'' (\<lambda>b m. m\<lparr>mo_auto_unmount := b\<rparr>),
     str_opt ''fsname=%s'' (\<lambda>s m. m\<lparr>mo_fsname := Some s\<rparr>),
     str_opt ''subtype=%s'' (\<lambda>s m. m\<lparr>mo_subtype := Some s\<rparr>)] @
   map (\<lambda>(t, key). fuse_opt_key t key) [
     (''allow_other'', KEY_KERN_OPT), (''allow_root'', KEY_ALLOW_ROOT), (''nonempty'', KEY_FUSERMOUNT_OPT),
     (''auto_unmount'', KEY_FUSERMOUNT_OPT), (''blkdev'', KEY_FUSERMOUNT_OPT), (''fsname='', KEY_FUSERMOUNT_OPT),
     (''subtype='', KEY_SUBTYPE_OPT), (''large_read'', KEY_KERN_OPT), (''blksize='', KEY_KERN_OPT),
     (''default_permissions'', KEY_KERN_OPT), (''context='', KEY_KERN_OPT), (''fscontext='', KEY_KERN_OPT),
     (''defcontext='', KEY_KERN_OPT), (''rootcontext='', KEY_KERN_OPT), (''max_read='', KEY_KERN_OPT),
     (''user='', KEY_MTAB_OPT), (''-r'', KEY_RO), (''ro'', KEY_KERN_FLAG), (''rw'', KEY_KERN_FLAG),
     (''suid'', KEY_KERN_FLAG), (''nosuid'', KEY_KERN_FLAG), (''dev'', KEY_KERN_FLAG), (''nodev'', KEY_KERN_FLAG),
     (''exec'', KEY_KERN_FLAG), (''noexec'', KEY_KERN_FLAG), (''async'', KEY_KERN_FLAG), (''sync'', KEY_KERN_FLAG),
     (''dirsync'', KEY_KERN_FLAG), (''atime'', KEY_KERN_FLAG), (''noatime'', KEY_KERN_FLAG)]"

definition MS_RDONLY :: "32 word" where "MS_RDONLY = 1"
definition MS_NOSUID :: "32 word" where "MS_NOSUID = 2"
definition MS_NODEV :: "32 word" where "MS_NODEV = 4"
definition MS_NOEXEC :: "32 word" where "MS_NOEXEC = 8"
definition MS_SYNCHRONOUS :: "32 word" where "MS_SYNCHRONOUS = 16"
definition MS_DIRSYNC :: "32 word" where "MS_DIRSYNC = 128"
definition MS_NOATIME :: "32 word" where "MS_NOATIME = 1024"

lemmas ms_flags = MS_RDONLY_def MS_NOSUID_def MS_NODEV_def MS_NOEXEC_def MS_SYNCHRONOUS_def MS_DIRSYNC_def MS_NOATIME_def

definition mount_flags :: "(string \<times> 32 word \<times> bool) list" where
  "mount_flags = [
     (''rw'', MS_RDONLY, False), (''ro'', MS_RDONLY, True), (''suid'', MS_NOSUID, False), (''nosuid'', MS_NOSUID, True),
     (''dev'', MS_NODEV, False), (''nodev'', MS_NODEV, True), (''exec'', MS_NOEXEC, False), (''noexec'', MS_NOEXEC, True),
     (''async'', MS_SYNCHRONOUS, False), (''sync'', MS_SYNCHRONOUS, True), (''atime'', MS_NOATIME, False),
     (''noatime'', MS_NOATIME, True), (''dirsync'', MS_DIRSYNC, True)]"

definition set_mount_flag :: "string \<Rightarrow> 32 word \<Rightarrow> 32 word option" where
  \<comment> \<open>\<open>None\<close>: no such flag, \<open>abort()\<close>\<close>
  "set_mount_flag s flags = map_option (\<lambda>(flag, set). if set then flags OR flag else flags AND (NOT flag)) (map_of mount_flags s)"

definition fuse_mount_opt_proc :: "mount_opts opt_proc" where
  "fuse_mount_opt_proc mo arg key outargs m =
     (if key = KEY_ALLOW_ROOT then
        let (r, ko, m) = fuse_opt_add_opt (mo_kernel_opts mo) ''allow_other'' m; mo = mo\<lparr>mo_kernel_opts := ko\<rparr>
        in if r = - 1 then Some (- 1, mo, outargs, m)
           else do {
             (r, outargs, m) \<leftarrow> fuse_opt_add_arg outargs ''-oallow_root'' m;
             Some (if r = - 1 then - 1 else 0, mo, outargs, m)
           }
      else if key = KEY_RO \<or> key = KEY_KERN_FLAG then do {
        flags \<leftarrow> set_mount_flag (if key = KEY_RO then ''ro'' else arg) (mo_flags mo);
        Some (0, mo\<lparr>mo_flags := flags\<rparr>, outargs, m)
      }
      else if key = KEY_KERN_OPT then
        let (r, o', m) = fuse_opt_add_opt (mo_kernel_opts mo) arg m in Some (r, mo\<lparr>mo_kernel_opts := o'\<rparr>, outargs, m)
      else if key = KEY_FUSERMOUNT_OPT then
        let (r, o', m) = fuse_opt_add_opt_escaped (mo_fusermount_opts mo) arg m
        in Some (r, mo\<lparr>mo_fusermount_opts := o'\<rparr>, outargs, m)
      else if key = KEY_SUBTYPE_OPT then
        let (r, o', m) = fuse_opt_add_opt (mo_subtype_opt mo) arg m in Some (r, mo\<lparr>mo_subtype_opt := o'\<rparr>, outargs, m)
      else if key = KEY_MTAB_OPT then
        let (r, o', m) = fuse_opt_add_opt (mo_mtab_opts mo) arg m in Some (r, mo\<lparr>mo_mtab_opts := o'\<rparr>, outargs, m)
      else Some (1, mo, outargs, m))"

definition zero_mount_opts :: mount_opts where
  "zero_mount_opts = \<lparr>mo_allow_other = False, mo_allow_root = False, mo_flags = 0, mo_nonempty = False,
     mo_auto_unmount = False, mo_blkdev = False, mo_fsname = None, mo_subtype = None, mo_subtype_opt = None,
     mo_mtab_opts = None, mo_fusermount_opts = None, mo_kernel_opts = None\<rparr>"

definition parse_mount_opts :: "fuse_args option \<Rightarrow> mem \<Rightarrow> (mount_opts option \<times> fuse_args option \<times> mem) option" where
  "parse_mount_opts args m =
     (let (ok, m) = malloc m
      in if \<not> ok then Some (None, args, m)
         else do {
           let mo = zero_mount_opts\<lparr>mo_flags := MS_NOSUID OR MS_NODEV\<rparr>;
           (r, args, mo, m) \<leftarrow> (case args of
               None \<Rightarrow> Some (0, None, mo, m)
             | Some a \<Rightarrow> do {
                 (r, a, mo, m) \<leftarrow> fuse_opt_parse a mo fuse_mount_opts (Some fuse_mount_opt_proc) m;
                 Some (r, Some a, mo, m)
               });
           Some (if r = - 1 \<or> mo_allow_other mo \<and> mo_allow_root mo then None else Some mo, args, m)
         })"

definition flag_names :: "32 word \<Rightarrow> string list" where
  \<comment> \<open>the options \<open>get_mnt_flag_opts\<close> adds, in its order\<close>
  "flag_names flags = (if flags AND MS_RDONLY = 0 then [''rw''] else []) @
     map fst (filter (\<lambda>(opt, flag, set). set \<and> flags AND flag \<noteq> 0) mount_flags)"

fun add_opts :: "string option \<Rightarrow> string list \<Rightarrow> mem \<Rightarrow> int \<times> string option \<times> mem" where
  \<comment> \<open>\<open>fuse_opt_add_opt\<close> one after the other, until one fails\<close>
  "add_opts os [] m = (0, os, m)"
| "add_opts os (x # xs) m = (let (r, os, m) = fuse_opt_add_opt os x m in if r = - 1 then (- 1, os, m) else add_opts os xs m)"

definition get_mnt_flag_opts :: "string option \<Rightarrow> 32 word \<Rightarrow> mem \<Rightarrow> int \<times> string option \<times> mem" where
  "get_mnt_flag_opts mnt_opts flags m = add_opts mnt_opts (flag_names flags) m"

section \<open>fusermount\<close>

definition FUSERMOUNT_PROG :: string where "FUSERMOUNT_PROG = ''fusermount''"

definition fuse_mount_version :: "'w kernel \<Rightarrow> 'w thread \<Rightarrow> 'w thread" where
  "fuse_mount_version k st =
     (let (f, st) = sys k (SysFork (Ch_version [FUSERMOUNT_PROG, ''--version''])) st
      in if r_ret f \<noteq> - 1 then snd (sys k (SysWaitpid (r_ret f)) st) else st)"

partial_function (option) recvmsg_loop :: "'w kernel \<Rightarrow> int \<Rightarrow> 'w thread \<Rightarrow> (reply \<times> 'w thread) option" where
  "recvmsg_loop k fd st =
     (let (r, st) = sys k (SysRecvmsg fd) st
      in if r_ret r = - 1 \<and> p_errno st = EINTR then recvmsg_loop k fd st else Some (r, st))"

definition receive_fd :: "'w kernel \<Rightarrow> int \<Rightarrow> 'w thread \<Rightarrow> (int \<times> 'w thread) option" where
  \<comment> \<open>the control message: its type, \<open>SCM_RIGHTS\<close> is 1, and the descriptor\<close>
  "receive_fd k fd st = do {
     (r, st) \<leftarrow> recvmsg_loop k fd st;
     Some (if r_ret r = - 1 \<or> r_ret r = 0 then - 1
           else (case r_data r of PipeData ty n \<Rightarrow> if ty \<noteq> 1 then - 1 else n | _ \<Rightarrow> - 1), st)
   }"

definition fuse_mount_fusermount ::
  "'w kernel \<Rightarrow> string option \<Rightarrow> mount_opts \<Rightarrow> string option \<Rightarrow> bool \<Rightarrow> 'w thread \<Rightarrow> (int \<times> 'w thread) option" where
  "fuse_mount_fusermount k mountpoint mo opts quiet st = (case mountpoint of
      None \<Rightarrow> Some (- 1, st)
    | Some mnt \<Rightarrow>
        (let (r, st) = sys k SysSocketpair st; (fd0, fd1) = (case r_data r of PipeData a b \<Rightarrow> (a, b) | _ \<Rightarrow> (0, 0))
         in if r_ret r = - 1 then Some (- 1, st)
            else
              let argv = [FUSERMOUNT_PROG] @ (case opts of None \<Rightarrow> [] | Some x \<Rightarrow> [''-o'', x]) @ [''--'', mnt];
                  (f, st) = sys k (SysFork (Ch_fusermount argv quiet fd0 fd1)) st
              in if r_ret f = - 1 then Some (- 1, snd (sys k (SysClose fd1) (snd (sys k (SysClose fd0) st))))
                 else do {
                   let st = snd (sys k (SysClose fd0) st);
                   (rv, st) \<leftarrow> receive_fd k fd1 st;
                   let st = (if \<not> mo_auto_unmount mo then snd (sys k (SysWaitpid (r_ret f)) (snd (sys k (SysClose fd1) st))) else st);
                   Some (rv, if rv \<ge> 0 then snd (sys k (SysSetfd rv 1) st) else st)
                 }))"

section \<open>Mounting\<close>

definition opt_cat :: "string \<Rightarrow> string option \<Rightarrow> string" where
  "opt_cat s x = (case x of None \<Rightarrow> s | Some y \<Rightarrow> s @ y)"

definition mount_source :: "mount_opts \<Rightarrow> string" where
  "mount_source mo = (case mo_fsname mo of Some n \<Rightarrow> n | None \<Rightarrow> (case mo_subtype mo of Some t \<Rightarrow> t | None \<Rightarrow> ''/dev/fuse''))"

definition base_type :: "mount_opts \<Rightarrow> string" where
  "base_type mo = (if mo_blkdev mo then ''fuseblk'' else ''fuse'')"

definition mount_type :: "mount_opts \<Rightarrow> string" where
  "mount_type mo = (case mo_subtype mo of None \<Rightarrow> base_type mo | Some t \<Rightarrow> base_type mo @ ''.'' @ t)"

definition old_source :: "mount_opts \<Rightarrow> string" where
  \<comment> \<open>for a kernel that does not know subtypes\<close>
  "old_source mo = (case mo_fsname mo of
      Some n \<Rightarrow> if \<not> mo_blkdev mo then opt_cat [] (mo_subtype mo) @ ''#'' @ n else mount_source mo
    | None \<Rightarrow> base_type mo)"

definition try_mount :: "'w kernel \<Rightarrow> string \<Rightarrow> mount_opts \<Rightarrow> 'w thread \<Rightarrow> (int \<times> string \<times> string) \<times> 'w thread" where
  \<comment> \<open>the result, and source and type as they are then\<close>
  "try_mount k mnt mo st =
     (let (r, st) = sys k (SysMount (mount_source mo) mnt (mount_type mo) (mo_flags mo) (mo_kernel_opts mo)) st
      in if r_ret r = - 1 \<and> p_errno st = ENODEV \<and> mo_subtype mo \<noteq> None then
           let (r, st) = sys k (SysMount (old_source mo) mnt (base_type mo) (mo_flags mo) (mo_kernel_opts mo)) st
           in ((r_ret r, old_source mo, base_type mo), st)
         else ((r_ret r, mount_source mo, mount_type mo), st))"

definition update_mtab :: "'w kernel \<Rightarrow> string \<Rightarrow> string \<Rightarrow> string \<Rightarrow> string \<Rightarrow> 'w thread \<Rightarrow> bool \<times> 'w thread" where
  \<comment> \<open>with the rights of root the mount is entered in /etc/mtab; \<open>False\<close>: that failed\<close>
  "update_mtab k source mnt ty mnt_opts st =
     (let (e, st) = sys k SysGeteuid st
      in if r_ret e \<noteq> 0 then (True, st)
         else let (newmnt, st) = fuse_mnt_resolve_path k mnt st
           in case newmnt of
                None \<Rightarrow> (False, st)
              | Some newmnt \<Rightarrow> (let (r, st) = fuse_mnt_add_mount k source newmnt ty mnt_opts st in (r \<noteq> - 1, st)))"

definition mount_tmp :: "int \<Rightarrow> 32 word \<Rightarrow> int \<Rightarrow> int \<Rightarrow> string" where
  "mount_tmp fd mode uid gid = ''fd='' @ dec fd @ '',rootmode='' @ digits 8 (unat (mode AND S_IFMT)) @
     '',user_id='' @ dec uid @ '',group_id='' @ dec gid"

definition mount_device :: "'w kernel \<Rightarrow> string \<Rightarrow> int \<Rightarrow> mount_opts \<Rightarrow> string \<Rightarrow> 'w thread \<Rightarrow> (int \<times> 'w thread) option" where
  \<comment> \<open>\<open>fuse_mount_sys\<close> from the two allocations on\<close>
  "mount_device k mnt fd mo mnt_opts st =
     (let (ok1, st) = t_malloc st; (ok2, st) = t_malloc st
      in if \<not> ok1 \<or> \<not> ok2 then Some (0, snd (sys k (SysClose fd) st))
         else
           let ((res, source, ty), st) = try_mount k mnt mo st
           in if res = - 1 then
                if p_errno st = EPERM then Some (- 2, snd (sys k (SysClose fd) st))
                else if mo_blkdev mo \<and> p_errno st = ENODEV then do {
                  (_, st) \<leftarrow> fuse_mnt_check_fuseblk k st;
                  Some (- 1, snd (sys k (SysClose fd) st))
                }
                else Some (- 1, snd (sys k (SysClose fd) st))
              else let (ok, st) = update_mtab k source mnt ty mnt_opts st
                in if ok then Some (fd, st)
                   else Some (- 1, snd (sys k (SysClose fd) (snd (sys k (SysUmount2 mnt 2) st)))))"

definition fuse_mount_sys ::
  "'w kernel \<Rightarrow> string option \<Rightarrow> mount_opts \<Rightarrow> string \<Rightarrow> 'w thread \<Rightarrow> (int \<times> mount_opts \<times> 'w thread) option" where
  \<comment> \<open>\<open>O_RDWR | O_CLOEXEC\<close> is 524290; a result of -2 asks for \<open>fusermount\<close>\<close>
  "fuse_mount_sys k mnt mo mnt_opts st = (case mnt of
      None \<Rightarrow> Some (- 1, mo, st)
    | Some mnt \<Rightarrow>
        (let (r, st) = sys k (SysStat mnt) st; b = (case r_data r of StatData b \<Rightarrow> b | _ \<Rightarrow> zero_stat)
         in if r_ret r = - 1 then Some (- 1, mo, st)
            else do {
              (e, st) \<leftarrow> (if mo_nonempty mo then Some (0, st) else fuse_mnt_check_empty k mnt (st_mode b) (st_size b) st);
              if e = - 1 then Some (- 1, mo, st)
              else if mo_auto_unmount mo then Some (- 2, mo, st)
              else
                let (f, st) = sys k (SysOpen ''/dev/fuse'' 524290 0) st
                in if r_ret f = - 1 then Some (- 1, mo, st)
                   else
                     let (u, st) = sys k SysGetuid st; (g, st) = sys k SysGetgid st;
                         (a, ko, m) = fuse_opt_add_opt (mo_kernel_opts mo) (mount_tmp (r_ret f) (st_mode b) (r_ret u) (r_ret g)) (t_mem st);
                         st = st\<lparr>t_mem := m\<rparr>; mo = mo\<lparr>mo_kernel_opts := ko\<rparr>
                     in if a = - 1 then Some (- 1, mo, snd (sys k (SysClose (r_ret f)) st))
                        else do { (res, st) \<leftarrow> mount_device k mnt (r_ret f) mo mnt_opts st; Some (res, mo, st) }
            }))"

definition mnt_opts_list :: "mount_opts \<Rightarrow> string list" where
  "mnt_opts_list mo = (case mo_kernel_opts mo of None \<Rightarrow> [] | Some s \<Rightarrow> [s]) @ (case mo_mtab_opts mo of None \<Rightarrow> [] | Some s \<Rightarrow> [s])"

definition fuse_kern_mount :: "'w kernel \<Rightarrow> string option \<Rightarrow> mount_opts \<Rightarrow> 'w thread \<Rightarrow> (int \<times> mount_opts \<times> 'w thread) option" where
  "fuse_kern_mount k mountpoint mo st =
     (let (r, mnt_opts, m) = get_mnt_flag_opts None (mo_flags mo) (t_mem st);
          (r, mnt_opts, m) = (if r = - 1 then (- 1, mnt_opts, m) else add_opts mnt_opts (mnt_opts_list mo) m);
          st = st\<lparr>t_mem := m\<rparr>
      in if r = - 1 then Some (- 1, mo, st)
         else do {
           (res, mo, st) \<leftarrow> fuse_mount_sys k mountpoint mo (opt_cat [] mnt_opts) st;
           if res \<noteq> - 2 then Some (res, mo, st)
           else
             let (r, mnt_opts, m) = (case mo_fusermount_opts mo of
                     None \<Rightarrow> (0, mnt_opts, t_mem st) | Some s \<Rightarrow> fuse_opt_add_opt mnt_opts s (t_mem st));
                 st = st\<lparr>t_mem := m\<rparr>
             in if r = - 1 then Some (- 2, mo, st)
                else (case mo_subtype mo of
                    None \<Rightarrow> do { (res, st) \<leftarrow> fuse_mount_fusermount k mountpoint mo mnt_opts False st; Some (res, mo, st) }
                  | Some _ \<Rightarrow>
                      (let (r, tmp_opts, m) = add_opts None [opt_cat [] mnt_opts, opt_cat [] (mo_subtype_opt mo)] (t_mem st);
                           st = st\<lparr>t_mem := m\<rparr>
                       in if r = - 1 then Some (- 1, mo, st)
                          else do {
                            (res, st) \<leftarrow> fuse_mount_fusermount k mountpoint mo tmp_opts True st;
                            (res, st) \<leftarrow> (if res = - 1 then fuse_mount_fusermount k mountpoint mo mnt_opts False st else Some (res, st));
                            Some (res, mo, st)
                          }))
         })"

section \<open>Unmounting\<close>

definition fuse_kern_unmount :: "'w kernel \<Rightarrow> string \<Rightarrow> int \<Rightarrow> 'w thread \<Rightarrow> 'w thread" where
  \<comment> \<open>\<open>POLLERR\<close> (8) on the device: it is unmounted already\<close>
  "fuse_kern_unmount k mountpoint fd st =
     (let (gone, st) = (if fd \<noteq> - 1 then
            let (r, st) = sys k (SysPoll fd) st; st = snd (sys k (SysClose fd) st)
            in (r_ret r = 1 \<and> (case r_data r of IntData ev \<Rightarrow> (of_int ev :: 16 word) AND 8 \<noteq> 0 | _ \<Rightarrow> False), st)
          else (False, st))
      in if gone then st
         else let (e, st) = sys k SysGeteuid st
           in if r_ret e = 0 then snd (fuse_mnt_umount k mountpoint mountpoint True st)
              else let (u, st) = sys k (SysUmount2 mountpoint 2) st
                in if r_ret u = 0 then st
                   else let
                     (f, st) = sys k (SysFork (Ch_program [FUSERMOUNT_PROG, ''-u'', ''-q'', ''-z'', ''--'', mountpoint])) st
                   in if r_ret f = - 1 then st else snd (sys k (SysWaitpid (r_ret f)) st))"

end
