(* ===== verification/Ll_State.thy ===== *)
theory Ll_State
  imports Wire Mount
begin

text \<open>
  The state of a session, src/lib/fuse_i.h and src/lib/fuse_lowlevel.c: the options and the
  connection (\<open>struct fuse_ll\<close>), the requests being processed and the interrupts that came too
  early, the reference-counted channels, and the pipe of the thread. Requests and channels are
  allocated objects with an address; a list through \<open>next\<close> and \<open>prev\<close> is the list of the
  addresses in its order, from the head's \<open>next\<close> on. The model is of one thread at a time: locking a
  mutex has no effect. A function of the code that touches an object that is not there, or whose
  assertion fails, is \<open>None\<close>.
\<close>

section \<open>Objects\<close>

record fuse_req =
  \<comment> \<open>\<open>rq_intr_unique\<close> and \<open>rq_func\<close> are the two members of the union \<open>u\<close>: the first of a request that
      is an interrupt, the second (interrupt function and data) of all others\<close>
  rq_unique :: "64 word"
  rq_ctr :: int
  rq_ctx :: fuse_context
  rq_ch :: "nat option"
  rq_interrupted :: bool
  rq_intr_unique :: "64 word"
  rq_func :: "nat option"

record fuse_chan =
  ch_assigned :: bool
  ch_ctr :: int
  ch_fd :: int

record fuse_ll_pipe =
  lp_size :: nat
  lp_can_grow :: bool
  lp_in :: int
  lp_out :: int

record fuse_pollhandle =
  ph_kh :: "64 word"
  ph_ch :: "nat option"

record fuse_notify_req =
  nq_unique :: "64 word"
  nq_cookie :: nat

datatype (plugins only:) llop =
    Op_init | Op_destroy | Op_lookup | Op_forget | Op_getattr | Op_setattr | Op_readlink | Op_mknod | Op_mkdir
  | Op_unlink | Op_rmdir | Op_symlink | Op_rename | Op_link | Op_open | Op_read | Op_write | Op_flush | Op_release
  | Op_fsync | Op_opendir | Op_readdir | Op_releasedir | Op_fsyncdir | Op_statfs | Op_setxattr | Op_getxattr
  | Op_listxattr | Op_removexattr | Op_access | Op_create | Op_getlk | Op_setlk | Op_bmap | Op_ioctl | Op_poll
  | Op_write_buf | Op_retrieve_reply | Op_forget_multi | Op_flock | Op_fallocate | Op_readdirplus

record cuse_data =
  \<comment> \<open>of \<open>struct cuse_lowlevel_ops\<close>: which operations are not NULL\<close>
  cd_clop :: "llop \<Rightarrow> bool"
  cd_init_done :: bool
  cd_max_read :: "32 word"
  cd_dev_major :: "32 word"
  cd_dev_minor :: "32 word"
  cd_flags :: "32 word"
  cd_dev_info :: bytes

record fuse_ll =
  ll_debug :: bool
  ll_allow_root :: bool
  ll_atomic_o_trunc :: bool
  ll_no_remote_posix_lock :: bool
  ll_no_remote_flock :: bool
  ll_big_writes :: bool
  ll_splice_write :: bool
  ll_splice_move :: bool
  ll_splice_read :: bool
  ll_no_splice_write :: bool
  ll_no_splice_move :: bool
  ll_no_splice_read :: bool
  ll_auto_inval_data :: bool
  ll_no_auto_inval_data :: bool
  ll_no_readdirplus :: bool
  ll_no_readdirplus_auto :: bool
  ll_async_dio :: bool
  ll_no_async_dio :: bool
  ll_writeback_cache :: bool
  ll_no_writeback_cache :: bool
  ll_clone_fd :: bool
  ll_op :: "llop \<Rightarrow> bool" \<comment> \<open>which operations are not NULL\<close>
  ll_got_init :: bool
  ll_cuse_data :: "cuse_data option"
  ll_owner :: "32 word"
  ll_conn :: fuse_conn_info
  ll_list :: "nat list"
  ll_interrupts :: "nat list"
  ll_got_destroy :: bool
  ll_pipe :: "fuse_ll_pipe option"
  ll_broken_splice_nonblock :: bool
  ll_notify_ctr :: "64 word"
  ll_notify_list :: "fuse_notify_req list"
  ll_bufsize :: nat

record 'w session =
  se_f :: fuse_ll
  se_mountpoint :: "string option"
  se_exited :: bool
  se_ch :: "nat option"
  se_mo :: mount_opts
  se_reqs :: "nat \<Rightarrow> fuse_req option"
  se_chans :: "nat \<Rightarrow> fuse_chan option"
  se_polls :: "nat \<Rightarrow> fuse_pollhandle option"
  se_next :: nat
  se_thread :: "'w thread"

abbreviation proto_minor :: "('w, 'm) session_scheme \<Rightarrow> 32 word" where
  "proto_minor s \<equiv> cn_proto_minor (ll_conn (se_f s))"

definition llsys :: "'w kernel \<Rightarrow> syscall \<Rightarrow> ('w, 'm) session_scheme \<Rightarrow> reply \<times> ('w, 'm) session_scheme" where
  "llsys k c s = (let (r, th) = sys k c (se_thread s) in (r, s\<lparr>se_thread := th\<rparr>))"

definition llmalloc :: "('w, 'm) session_scheme \<Rightarrow> bool \<times> ('w, 'm) session_scheme" where
  "llmalloc s = (let (ok, m) = malloc (t_mem (se_thread s)) in (ok, s\<lparr>se_thread := (se_thread s)\<lparr>t_mem := m\<rparr>\<rparr>))"

section \<open>Channels\<close>

definition fuse_chan_new :: "int \<Rightarrow> ('w, 'm) session_scheme \<Rightarrow> nat option \<times> ('w, 'm) session_scheme" where
  "fuse_chan_new fd s =
     (let (ok, s) = llmalloc s
      in if ok then (Some (se_next s), s\<lparr>se_chans := (se_chans s)(se_next s \<mapsto> \<lparr>ch_assigned = False, ch_ctr = 1, ch_fd = fd\<rparr>),
                                        se_next := se_next s + 1\<rparr>)
         else (None, s))"

definition upd_chan :: "nat \<Rightarrow> (fuse_chan \<Rightarrow> fuse_chan) \<Rightarrow> ('w, 'm) session_scheme \<Rightarrow> ('w, 'm) session_scheme" where
  "upd_chan c g s = s\<lparr>se_chans := (se_chans s)(c := map_option g (se_chans s c))\<rparr>"

definition fuse_session_add_chan :: "nat \<Rightarrow> ('w, 'm) session_scheme \<Rightarrow> ('w, 'm) session_scheme option" where
  "fuse_session_add_chan c s = do {
     ch \<leftarrow> se_chans s c;
     if se_ch s = None \<and> \<not> ch_assigned ch then Some (upd_chan c (\<lambda>ch. ch\<lparr>ch_assigned := True\<rparr>) (s\<lparr>se_ch := Some c\<rparr>))
     else None
   }"

definition fuse_session_remove_chan :: "nat option \<Rightarrow> ('w, 'm) session_scheme \<Rightarrow> ('w, 'm) session_scheme option" where
  "fuse_session_remove_chan c s = do {
     c \<leftarrow> c;
     ch \<leftarrow> se_chans s c;
     if ch_assigned ch then
       if se_ch s = Some c then Some (upd_chan c (\<lambda>ch. ch\<lparr>ch_assigned := False\<rparr>) (s\<lparr>se_ch := None\<rparr>)) else None
     else Some s
   }"

definition fuse_chan_clearfd :: "nat \<Rightarrow> ('w, 'm) session_scheme \<Rightarrow> (int \<times> ('w, 'm) session_scheme) option" where
  "fuse_chan_clearfd c s = do { ch \<leftarrow> se_chans s c; Some (ch_fd ch, upd_chan c (\<lambda>ch. ch\<lparr>ch_fd := - 1\<rparr>) s) }"

definition fuse_chan_close :: "'w kernel \<Rightarrow> fuse_chan \<Rightarrow> ('w, 'm) session_scheme \<Rightarrow> ('w, 'm) session_scheme" where
  "fuse_chan_close k ch s = (if ch_fd ch \<noteq> - 1 then snd (llsys k (SysClose (ch_fd ch)) s) else s)"

definition fuse_chan_get :: "nat \<Rightarrow> ('w, 'm) session_scheme \<Rightarrow> ('w, 'm) session_scheme option" where
  "fuse_chan_get c s = do {
     ch \<leftarrow> se_chans s c;
     if ch_ctr ch > 0 then Some (upd_chan c (\<lambda>ch. ch\<lparr>ch_ctr := ch_ctr ch + 1\<rparr>) s) else None
   }"

definition fuse_chan_put :: "'w kernel \<Rightarrow> nat option \<Rightarrow> ('w, 'm) session_scheme \<Rightarrow> ('w, 'm) session_scheme option" where
  \<comment> \<open>a NULL channel is left alone\<close>
  "fuse_chan_put k c s = (case c of
      None \<Rightarrow> Some s
    | Some c \<Rightarrow> do {
        ch \<leftarrow> se_chans s c;
        let s = upd_chan c (\<lambda>ch. ch\<lparr>ch_ctr := ch_ctr ch - 1\<rparr>) s;
        if ch_ctr ch - 1 = 0 then do {
          s \<leftarrow> fuse_session_remove_chan (Some c) s;
          let s = fuse_chan_close k ch s;
          Some (s\<lparr>se_chans := (se_chans s)(c := None)\<rparr>)
        } else Some s
      })"

section \<open>Requests\<close>

definition upd_ll :: "(fuse_ll \<Rightarrow> fuse_ll) \<Rightarrow> ('w, 'm) session_scheme \<Rightarrow> ('w, 'm) session_scheme" where
  "upd_ll g s = s\<lparr>se_f := g (se_f s)\<rparr>"

definition upd_conn :: "(fuse_conn_info \<Rightarrow> fuse_conn_info) \<Rightarrow> ('w, 'm) session_scheme \<Rightarrow> ('w, 'm) session_scheme" where
  "upd_conn g = upd_ll (\<lambda>f. f\<lparr>ll_conn := g (ll_conn f)\<rparr>)"

definition upd_req :: "nat \<Rightarrow> (fuse_req \<Rightarrow> fuse_req) \<Rightarrow> ('w, 'm) session_scheme \<Rightarrow> ('w, 'm) session_scheme" where
  "upd_req r g s = s\<lparr>se_reqs := (se_reqs s)(r := map_option g (se_reqs s r))\<rparr>"

definition list_del_req :: "nat \<Rightarrow> ('w, 'm) session_scheme \<Rightarrow> ('w, 'm) session_scheme" where
  \<comment> \<open>a request is in one list at most; one that is in none is linked to itself\<close>
  "list_del_req r = upd_ll (\<lambda>f. f\<lparr>ll_list := removeAll r (ll_list f), ll_interrupts := removeAll r (ll_interrupts f)\<rparr>)"

definition destroy_req :: "nat \<Rightarrow> ('w, 'm) session_scheme \<Rightarrow> ('w, 'm) session_scheme" where
  "destroy_req r s = s\<lparr>se_reqs := (se_reqs s)(r := None)\<rparr>"

definition fuse_free_req :: "'w kernel \<Rightarrow> nat \<Rightarrow> ('w, 'm) session_scheme \<Rightarrow> ('w, 'm) session_scheme option" where
  "fuse_free_req k r s = do {
     req \<leftarrow> se_reqs s r;
     let s = list_del_req r s;
     s \<leftarrow> fuse_chan_put k (rq_ch req) s;
     let s = upd_req r (\<lambda>q. q\<lparr>rq_func := None, rq_ctr := rq_ctr q - 1, rq_ch := None\<rparr>) s;
     Some (if rq_ctr req - 1 = 0 then destroy_req r s else s)
   }"

definition fuse_ll_alloc_req :: "('w, 'm) session_scheme \<Rightarrow> nat option \<times> ('w, 'm) session_scheme" where
  "fuse_ll_alloc_req s =
     (let (ok, s) = llmalloc s
      in if ok then (Some (se_next s),
             s\<lparr>se_reqs := (se_reqs s)(se_next s \<mapsto> \<lparr>rq_unique = 0, rq_ctr = 1,
                  rq_ctx = \<lparr>cx_uid = 0, cx_gid = 0, cx_pid = 0, cx_umask = 0\<rparr>, rq_ch = None, rq_interrupted = False,
                  rq_intr_unique = 0, rq_func = None\<rparr>),
               se_next := se_next s + 1\<rparr>)
         else (None, s))"

section \<open>The thread's pipe\<close>

definition fuse_ll_pipe_free :: "'w kernel \<Rightarrow> fuse_ll_pipe \<Rightarrow> ('w, 'm) session_scheme \<Rightarrow> ('w, 'm) session_scheme" where
  "fuse_ll_pipe_free k llp s = snd (llsys k (SysClose (lp_out llp)) (snd (llsys k (SysClose (lp_in llp)) s)))"

definition fuse_ll_get_pipe :: "'w kernel \<Rightarrow> ('w, 'm) session_scheme \<Rightarrow> fuse_ll_pipe option \<times> ('w, 'm) session_scheme" where
  \<comment> \<open>\<open>lp_in\<close> is \<open>pipe[0]\<close>, the end that is read; a page has 4096 bytes\<close>
  "fuse_ll_get_pipe k s = (case ll_pipe (se_f s) of
      Some llp \<Rightarrow> (Some llp, s)
    | None \<Rightarrow>
        (let (ok, s) = llmalloc s
         in if \<not> ok then (None, s)
            else let (r, s) = llsys k SysPipe2 s
              in if r_ret r = - 1 then (None, s)
                 else let llp = (case r_data r of
                          PipeData p0 p1 \<Rightarrow> \<lparr>lp_size = 4096 * 16, lp_can_grow = True, lp_in = p0, lp_out = p1\<rparr>
                        | _ \<Rightarrow> \<lparr>lp_size = 4096 * 16, lp_can_grow = True, lp_in = 0, lp_out = 0\<rparr>)
                   in (Some llp, upd_ll (\<lambda>f. f\<lparr>ll_pipe := Some llp\<rparr>) s)))"

definition fuse_ll_clear_pipe :: "'w kernel \<Rightarrow> ('w, 'm) session_scheme \<Rightarrow> ('w, 'm) session_scheme" where
  "fuse_ll_clear_pipe k s = (case ll_pipe (se_f s) of
      None \<Rightarrow> s
    | Some llp \<Rightarrow> fuse_ll_pipe_free k llp (upd_ll (\<lambda>f. f\<lparr>ll_pipe := None\<rparr>) s))"

definition grow_pipe :: "'w kernel \<Rightarrow> fuse_ll_pipe \<Rightarrow> nat \<Rightarrow> ('w, 'm) session_scheme \<Rightarrow> bool \<times> ('w, 'm) session_scheme" where
  \<comment> \<open>make sure that the pipe holds \<open>sz\<close> bytes; \<open>False\<close>: it cannot\<close>
  "grow_pipe k llp sz s =
     (if lp_size llp < sz then
        if lp_can_grow llp then
          let (r, s) = llsys k (SysSetPipeSize (lp_in llp) sz) s
          in if r_ret r = - 1 then (False, upd_ll (\<lambda>f. f\<lparr>ll_pipe := Some (llp\<lparr>lp_can_grow := False\<rparr>)\<rparr>) s)
             else (sz \<le> nat (r_ret r), upd_ll (\<lambda>f. f\<lparr>ll_pipe := Some (llp\<lparr>lp_size := nat (r_ret r)\<rparr>)\<rparr>) s)
        else (False, s)
      else (True, s))"

end
