(* ===== verification/Ll_Reply.thy ===== *)
theory Ll_Reply
  imports Ll_State
begin

text \<open>
  Messages to the kernel, src/lib/fuse_lowlevel.c: \<open>fuse_send_msg\<close> with its header, the replies to a
  request, each in the layout of src/include/fuse_kernel.h for the protocol version that was
  negotiated, and file data, which goes through a pipe with \<open>splice\<close> or is copied to memory. A reply
  frees its request. A message is a header and a list of pieces, each given by its bytes.
\<close>

section \<open>Sending a message\<close>

definition iov_length :: "bytes list \<Rightarrow> nat" where
  "iov_length iov = foldl (\<lambda>ret b. (ret + length b) mod 2 ^ 64) 0 iov"

definition out_header :: "nat \<Rightarrow> int \<Rightarrow> 64 word \<Rightarrow> bytes" where
  \<comment> \<open>\<open>struct fuse_out_header\<close>: len, error, unique\<close>
  "out_header len error unique = le 4 (of_nat len :: 32 word) @ le 4 (of_int error :: 32 word) @ le 8 unique"

definition fuse_send_msg :: "'w kernel \<Rightarrow> nat option \<Rightarrow> int \<Rightarrow> 64 word \<Rightarrow> bytes list \<Rightarrow> ('w, 'm) session_scheme \<Rightarrow> (int \<times> ('w, 'm) session_scheme) option" where
  \<comment> \<open>a request that came without a channel cannot be answered; a failing write asserts that the
      channel belongs to a session\<close>
  "fuse_send_msg k ch error unique iov s = do {
     c \<leftarrow> ch;
     chan \<leftarrow> se_chans s c;
     let msg = out_header (iov_length (replicate 16 0 # iov)) error unique @ concat iov;
     let (r, s) = llsys k (SysWritev (ch_fd chan) msg) s;
     if r_ret r = - 1 then if ch_assigned chan then Some (- p_errno (se_thread s), s) else None
     else Some (0, s)
   }"

definition fuse_send_reply_iov_nofree :: "'w kernel \<Rightarrow> nat \<Rightarrow> int \<Rightarrow> bytes list \<Rightarrow> ('w, 'm) session_scheme \<Rightarrow> (int \<times> ('w, 'm) session_scheme) option" where
  "fuse_send_reply_iov_nofree k r error iov s = do {
     req \<leftarrow> se_reqs s r;
     let error = (if error \<le> - 1000 \<or> error > 0 then - ERANGE else error);
     fuse_send_msg k (rq_ch req) error (rq_unique req) iov s
   }"

definition send_reply_iov :: "'w kernel \<Rightarrow> nat \<Rightarrow> int \<Rightarrow> bytes list \<Rightarrow> ('w, 'm) session_scheme \<Rightarrow> (int \<times> ('w, 'm) session_scheme) option" where
  "send_reply_iov k r error iov s = do {
     (res, s) \<leftarrow> fuse_send_reply_iov_nofree k r error iov s;
     s \<leftarrow> fuse_free_req k r s;
     Some (res, s)
   }"

definition send_reply :: "'w kernel \<Rightarrow> nat \<Rightarrow> int \<Rightarrow> bytes \<Rightarrow> ('w, 'm) session_scheme \<Rightarrow> (int \<times> ('w, 'm) session_scheme) option" where
  "send_reply k r error arg s = send_reply_iov k r error (if arg = [] then [] else [arg]) s"

definition send_reply_ok :: "'w kernel \<Rightarrow> nat \<Rightarrow> bytes \<Rightarrow> ('w, 'm) session_scheme \<Rightarrow> (int \<times> ('w, 'm) session_scheme) option" where
  "send_reply_ok k r arg s = send_reply k r 0 arg s"

definition fuse_reply_err :: "'w kernel \<Rightarrow> nat \<Rightarrow> int \<Rightarrow> ('w, 'm) session_scheme \<Rightarrow> (int \<times> ('w, 'm) session_scheme) option" where
  "fuse_reply_err k r err s = send_reply k r (- err) [] s"

definition fuse_reply_none :: "'w kernel \<Rightarrow> nat \<Rightarrow> ('w, 'm) session_scheme \<Rightarrow> ('w, 'm) session_scheme option" where
  "fuse_reply_none k r s = fuse_free_req k r s"

definition fuse_reply_iov :: "'w kernel \<Rightarrow> nat \<Rightarrow> (nat \<times> nat) list \<Rightarrow> ('w, 'm) session_scheme \<Rightarrow> (int \<times> ('w, 'm) session_scheme) option" where
  \<comment> \<open>the pieces are given by address and length\<close>
  "fuse_reply_iov k r iov s =
     (let (ok, s) = llmalloc s
      in if \<not> ok then fuse_reply_err k r ENOMEM s
         else send_reply_iov k r 0 (map (\<lambda>(a, n). load (se_thread s) a n) iov) s)"

section \<open>Replies with a structure\<close>

definition FUSE_COMPAT_ENTRY_OUT_SIZE :: nat where "FUSE_COMPAT_ENTRY_OUT_SIZE = 120"
definition FUSE_COMPAT_ATTR_OUT_SIZE :: nat where "FUSE_COMPAT_ATTR_OUT_SIZE = 96"
definition FUSE_COMPAT_STATFS_SIZE :: nat where "FUSE_COMPAT_STATFS_SIZE = 48"

definition fill_open :: "fuse_file_info \<Rightarrow> bytes" where
  \<comment> \<open>\<open>struct fuse_open_out\<close>: fh, open_flags, padding\<close>
  "fill_open fi = le 8 (fi_fh fi) @
     le 4 (of_bool (fi_direct_io fi) + 2 * of_bool (fi_keep_cache fi) + 4 * of_bool (fi_nonseekable fi) :: 32 word) @ replicate 4 0"

definition fuse_reply_entry :: "'w kernel \<Rightarrow> nat \<Rightarrow> fuse_entry_param \<Rightarrow> ('w, 'm) session_scheme \<Rightarrow> (int \<times> ('w, 'm) session_scheme) option" where
  "fuse_reply_entry k r e s =
     (let sz = (if proto_minor s < 9 then FUSE_COMPAT_ENTRY_OUT_SIZE else 128)
      in if e_ino e = 0 \<and> proto_minor s < 4 then fuse_reply_err k r ENOENT s
         else send_reply_ok k r (take sz (entry_bytes (fill_entry e))) s)"

definition fuse_reply_create ::
  "'w kernel \<Rightarrow> nat \<Rightarrow> fuse_entry_param \<Rightarrow> fuse_file_info \<Rightarrow> ('w, 'm) session_scheme \<Rightarrow> (int \<times> ('w, 'm) session_scheme) option" where
  \<comment> \<open>the open reply starts after the entry of the protocol's size\<close>
  "fuse_reply_create k r e fi s =
     (let entrysize = (if proto_minor s < 9 then FUSE_COMPAT_ENTRY_OUT_SIZE else 128)
      in send_reply_ok k r (take entrysize (entry_bytes (fill_entry e)) @ fill_open fi) s)"

definition fuse_reply_attr :: "'w kernel \<Rightarrow> nat \<Rightarrow> stat \<Rightarrow> real \<Rightarrow> ('w, 'm) session_scheme \<Rightarrow> (int \<times> ('w, 'm) session_scheme) option" where
  \<comment> \<open>\<open>struct fuse_attr_out\<close>: attr_valid, attr_valid_nsec, dummy, attr\<close>
  "fuse_reply_attr k r attr attr_timeout s =
     (let arg = le 8 (calc_timeout_sec attr_timeout) @ le 4 (calc_timeout_nsec attr_timeout) @ replicate 4 0 @
            attr_bytes (convert_stat attr);
          sz = (if proto_minor s < 9 then FUSE_COMPAT_ATTR_OUT_SIZE else length arg)
      in send_reply_ok k r (take sz arg) s)"

definition fuse_reply_readlink :: "'w kernel \<Rightarrow> nat \<Rightarrow> bytes \<Rightarrow> ('w, 'm) session_scheme \<Rightarrow> (int \<times> ('w, 'm) session_scheme) option" where
  "fuse_reply_readlink k r linkname s = send_reply_ok k r linkname s"

definition fuse_reply_open :: "'w kernel \<Rightarrow> nat \<Rightarrow> fuse_file_info \<Rightarrow> ('w, 'm) session_scheme \<Rightarrow> (int \<times> ('w, 'm) session_scheme) option" where
  "fuse_reply_open k r fi s = send_reply_ok k r (fill_open fi) s"

definition fuse_reply_write :: "'w kernel \<Rightarrow> nat \<Rightarrow> int \<Rightarrow> ('w, 'm) session_scheme \<Rightarrow> (int \<times> ('w, 'm) session_scheme) option" where
  "fuse_reply_write k r n s = send_reply_ok k r (le 4 (of_int n :: 32 word) @ replicate 4 0) s"

definition fuse_reply_buf :: "'w kernel \<Rightarrow> nat \<Rightarrow> bytes \<Rightarrow> ('w, 'm) session_scheme \<Rightarrow> (int \<times> ('w, 'm) session_scheme) option" where
  "fuse_reply_buf k r buf s = send_reply_ok k r buf s"

definition convert_statfs :: "statvfs \<Rightarrow> bytes" where
  \<comment> \<open>\<open>struct fuse_kstatfs\<close>\<close>
  "convert_statfs st = le 8 (of_int (f_blocks st) :: 64 word) @ le 8 (of_int (f_bfree st) :: 64 word) @
     le 8 (of_int (f_bavail st) :: 64 word) @ le 8 (of_int (f_files st) :: 64 word) @ le 8 (of_int (f_ffree st) :: 64 word) @
     le 4 (of_int (f_bsize st) :: 32 word) @ le 4 (of_int (f_namemax st) :: 32 word) @ le 4 (of_int (f_frsize st) :: 32 word) @
     replicate 28 0"

definition fuse_reply_statfs :: "'w kernel \<Rightarrow> nat \<Rightarrow> statvfs \<Rightarrow> ('w, 'm) session_scheme \<Rightarrow> (int \<times> ('w, 'm) session_scheme) option" where
  "fuse_reply_statfs k r st s =
     (let arg = convert_statfs st; sz = (if proto_minor s < 4 then FUSE_COMPAT_STATFS_SIZE else length arg)
      in send_reply_ok k r (take sz arg) s)"

definition fuse_reply_xattr :: "'w kernel \<Rightarrow> nat \<Rightarrow> int \<Rightarrow> ('w, 'm) session_scheme \<Rightarrow> (int \<times> ('w, 'm) session_scheme) option" where
  "fuse_reply_xattr k r n s = send_reply_ok k r (le 4 (of_int n :: 32 word) @ replicate 4 0) s"

definition file_lock_bytes :: "flock \<Rightarrow> bytes" where
  \<comment> \<open>\<open>struct fuse_file_lock\<close>: start, end, type, pid; \<open>F_UNLCK\<close> is 2\<close>
  "file_lock_bytes lk =
     (if l_type lk \<noteq> 2 then le 8 (of_int (l_start lk) :: 64 word) @
        le 8 (if l_len lk = 0 then 0x7fffffffffffffff else of_int (l_start lk + l_len lk - 1) :: 64 word)
      else replicate 16 0) @
     le 4 (of_int (l_type lk) :: 32 word) @ le 4 (of_int (l_pid lk) :: 32 word)"

definition fuse_reply_lock :: "'w kernel \<Rightarrow> nat \<Rightarrow> flock \<Rightarrow> ('w, 'm) session_scheme \<Rightarrow> (int \<times> ('w, 'm) session_scheme) option" where
  "fuse_reply_lock k r lk s = send_reply_ok k r (file_lock_bytes lk) s"

definition fuse_reply_bmap :: "'w kernel \<Rightarrow> nat \<Rightarrow> 64 word \<Rightarrow> ('w, 'm) session_scheme \<Rightarrow> (int \<times> ('w, 'm) session_scheme) option" where
  "fuse_reply_bmap k r idx s = send_reply_ok k r (le 8 idx) s"

definition fuse_reply_poll :: "'w kernel \<Rightarrow> nat \<Rightarrow> 32 word \<Rightarrow> ('w, 'm) session_scheme \<Rightarrow> (int \<times> ('w, 'm) session_scheme) option" where
  "fuse_reply_poll k r revents s = send_reply_ok k r (le 4 revents @ replicate 4 0) s"

section \<open>Replies to ioctl\<close>

definition ioctl_out :: "int \<Rightarrow> 32 word \<Rightarrow> nat \<Rightarrow> nat \<Rightarrow> bytes" where
  \<comment> \<open>\<open>struct fuse_ioctl_out\<close>\<close>
  "ioctl_out result flags in_iovs out_iovs = le 4 (of_int result :: 32 word) @ le 4 flags @
     le 4 (of_nat in_iovs :: 32 word) @ le 4 (of_nat out_iovs :: 32 word)"

definition iovec_bytes :: "(nat \<times> nat) list \<Rightarrow> bytes" where
  \<comment> \<open>an array of \<open>struct iovec\<close> or of \<open>struct fuse_ioctl_iovec\<close>: on a 64-bit machine the same bytes\<close>
  "iovec_bytes iov = concat (map (\<lambda>(a, n). le 8 (of_nat a :: 64 word) @ le 8 (of_nat n :: 64 word)) iov)"

definition fuse_ioctl_iovec_copy :: "(nat \<times> nat) list \<Rightarrow> ('w, 'm) session_scheme \<Rightarrow> bytes option \<times> ('w, 'm) session_scheme" where
  "fuse_ioctl_iovec_copy iov s = (let (ok, s) = llmalloc s in (if ok then Some (iovec_bytes iov) else None, s))"

definition ioctl_iovecs :: "(nat \<times> nat) list \<Rightarrow> ('w, 'm) session_scheme \<Rightarrow> bytes list option \<times> ('w, 'm) session_scheme" where
  \<comment> \<open>one of the two vectors of \<open>fuse_reply_ioctl_retry\<close> as a piece of the message\<close>
  "ioctl_iovecs iov s =
     (if iov = [] then (Some [], s)
      else if proto_minor s < 16 then (Some [iovec_bytes iov], s)
      else let (b, s) = fuse_ioctl_iovec_copy iov s in (map_option (\<lambda>b. [b]) b, s))"

definition fuse_reply_ioctl_retry ::
  "'w kernel \<Rightarrow> nat \<Rightarrow> (nat \<times> nat) list \<Rightarrow> (nat \<times> nat) list \<Rightarrow> ('w, 'm) session_scheme \<Rightarrow> (int \<times> ('w, 'm) session_scheme) option" where
  \<comment> \<open>\<open>FUSE_IOCTL_RETRY\<close> is 4; \<open>sizeof(void *) == 4\<close> does not hold\<close>
  "fuse_reply_ioctl_retry k r in_iov out_iov s =
     (let arg = ioctl_out 0 4 (length in_iov) (length out_iov); (i, s) = ioctl_iovecs in_iov s
      in case i of
           None \<Rightarrow> fuse_reply_err k r ENOMEM s
         | Some i \<Rightarrow>
             (let (u, s) = ioctl_iovecs out_iov s
              in case u of
                   None \<Rightarrow> fuse_reply_err k r ENOMEM s
                 | Some u \<Rightarrow> send_reply_iov k r 0 (arg # i @ u) s))"

definition fuse_reply_ioctl :: "'w kernel \<Rightarrow> nat \<Rightarrow> int \<Rightarrow> bytes \<Rightarrow> ('w, 'm) session_scheme \<Rightarrow> (int \<times> ('w, 'm) session_scheme) option" where
  "fuse_reply_ioctl k r result buf s = send_reply_iov k r 0 (ioctl_out result 0 0 0 # (if buf = [] then [] else [buf])) s"

definition fuse_reply_ioctl_iov :: "'w kernel \<Rightarrow> nat \<Rightarrow> int \<Rightarrow> (nat \<times> nat) list \<Rightarrow> ('w, 'm) session_scheme \<Rightarrow> (int \<times> ('w, 'm) session_scheme) option" where
  "fuse_reply_ioctl_iov k r result iov s =
     (let (ok, s) = llmalloc s
      in if \<not> ok then fuse_reply_err k r ENOMEM s
         else send_reply_iov k r 0 (ioctl_out result 0 0 0 # map (\<lambda>(a, n). load (se_thread s) a n) iov) s)"

section \<open>Replies with file data\<close>

definition on_thread :: "('w thread \<Rightarrow> ('v \<times> 'w thread) option) \<Rightarrow> ('w, 'm) session_scheme \<Rightarrow> ('v \<times> ('w, 'm) session_scheme) option" where
  "on_thread g s = do { (v, th) \<leftarrow> g (se_thread s); Some (v, s\<lparr>se_thread := th\<rparr>) }"

definition copy_buf :: "'w kernel \<Rightarrow> nat \<Rightarrow> fuse_bufvec \<Rightarrow> fuse_bufvec \<Rightarrow> 32 word \<Rightarrow> ('w, 'm) session_scheme \<Rightarrow> (int \<times> fuse_bufvec \<times> ('w, 'm) session_scheme) option" where
  \<comment> \<open>\<open>fuse_buf_copy(dst, src, flags)\<close>: the result, \<open>src\<close> as it is left, the state; \<open>a\<close> as there\<close>
  "copy_buf k a dst src flags s = do {
     (res, dst, src, th) \<leftarrow> fuse_buf_copy k a False dst src flags (se_thread s); Some (res, src, s\<lparr>se_thread := th\<rparr>) }"

definition posix_memalign :: "nat \<Rightarrow> ('w, 'm) session_scheme \<Rightarrow> nat option \<times> ('w, 'm) session_scheme" where
  "posix_memalign n s = (let (p, th) = alloc n (se_thread s) in (p, s\<lparr>se_thread := th\<rparr>))"

definition fuse_send_data_iov_fallback ::
  "'w kernel \<Rightarrow> nat \<Rightarrow> nat option \<Rightarrow> int \<Rightarrow> 64 word \<Rightarrow> bytes list \<Rightarrow> fuse_bufvec \<Rightarrow> nat \<Rightarrow> ('w, 'm) session_scheme \<Rightarrow> (int \<times> ('w, 'm) session_scheme) option" where
  \<comment> \<open>a positive result is an error of this side\<close>
  "fuse_send_data_iov_fallback k a ch error unique iov buf len s =
     (if bv_count buf = 1 \<and> bv_idx buf = 0 \<and> bv_off buf = 0 \<and> \<not> has (buf_flags (bv_buf buf ! 0)) FUSE_BUF_IS_FD then
        fuse_send_msg k ch error unique (iov @ [load (se_thread s) (buf_mem (bv_buf buf ! 0)) len]) s
      else
        let (p, s) = posix_memalign len s
        in case p of
             None \<Rightarrow> Some (ENOMEM, s)
           | Some mbuf \<Rightarrow> do {
               (res, _, s) \<leftarrow> copy_buf k a (mem_bufvec mbuf len) buf 0 s;
               let res = to_int32 res;
               if res < 0 then Some (to_int32 (- res), s)
               else fuse_send_msg k ch error unique (iov @ [load (se_thread s) mbuf (nat res)]) s
             })"

definition read_back :: "'w kernel \<Rightarrow> int \<Rightarrow> nat \<Rightarrow> nat \<Rightarrow> ('w, 'm) session_scheme \<Rightarrow> int \<times> ('w, 'm) session_scheme" where
  "read_back k fd buf len s =
     (let (r, s) = llsys k (SysRead fd len) s;
          s = (case r_data r of ByteData b \<Rightarrow> s\<lparr>se_thread := store buf (take (nat (r_ret r)) b) (se_thread s)\<rparr> | _ \<Rightarrow> s)
      in if to_int32 (r_ret r) = - 1 \<or> to_int32 (r_ret r) mod 2 ^ 64 \<noteq> int len then (- EIO, s) else (0, s))"

fun fd_size_loop :: "nat \<Rightarrow> fuse_bufvec \<Rightarrow> nat \<Rightarrow> fuse_buf list \<Rightarrow> nat \<Rightarrow> nat" where
  \<comment> \<open>the loop over the buffers that computes \<open>total_fd_size\<close>: each descriptor overwrites it\<close>
  "fd_size_loop sz buf i [] idx = sz"
| "fd_size_loop sz buf i (b # bs) idx =
     fd_size_loop (if has (buf_flags b) FUSE_BUF_IS_FD
                   then if i = idx then sub64 (buf_size b) (bv_off buf) else buf_size b
                   else sz) buf (i + 1) bs idx"

definition total_fd_size :: "fuse_bufvec \<Rightarrow> nat" where
  "total_fd_size buf = fd_size_loop 0 buf (bv_idx buf) (drop (bv_idx buf) (take (bv_count buf) (bv_buf buf))) (bv_idx buf)"

definition FUSE_CAP_SPLICE_WRITE :: "32 word" where "FUSE_CAP_SPLICE_WRITE = push_bit 7 1"
definition FUSE_CAP_SPLICE_MOVE :: "32 word" where "FUSE_CAP_SPLICE_MOVE = push_bit 8 1"

definition wants :: "('w, 'm) session_scheme \<Rightarrow> 32 word \<Rightarrow> bool" where
  "wants s c \<longleftrightarrow> has (cn_want (ll_conn (se_f s))) c"

definition splice_out ::
  "'w kernel \<Rightarrow> fuse_ll_pipe \<Rightarrow> int \<Rightarrow> 64 word \<Rightarrow> bytes list \<Rightarrow> nat option \<Rightarrow> nat \<Rightarrow> 32 word \<Rightarrow> ('w, 'm) session_scheme \<Rightarrow> (int \<times> ('w, 'm) session_scheme) option" where
  \<comment> \<open>the end of \<open>fuse_send_data_iov\<close>: the header gets its final length, and the pipe goes to the device\<close>
  "splice_out k llp error unique iov ch len flags s = do {
     c \<leftarrow> ch;
     chan \<leftarrow> se_chans s c;
     let total = (iov_length (replicate 16 0 # iov) + len) mod 2 ^ 32;
     let move = (if has flags FUSE_BUF_SPLICE_MOVE \<and> wants s FUSE_CAP_SPLICE_MOVE then 1 else 0);
     let (r, s) = llsys k (SysSpliceOut (lp_in llp) (ch_fd chan) (out_header total error unique @ concat iov) total move) s;
     if to_int32 (r_ret r) = - 1 then Some (- p_errno (se_thread s), fuse_ll_clear_pipe k s)
     else if r_ret r mod 2 ^ 32 \<noteq> int total then Some (- EIO, fuse_ll_clear_pipe k s)
     else Some (0, s)
   }"

definition splice_short ::
  "'w kernel \<Rightarrow> nat \<Rightarrow> fuse_ll_pipe \<Rightarrow> nat option \<Rightarrow> int \<Rightarrow> 64 word \<Rightarrow> bytes list \<Rightarrow> fuse_bufvec \<Rightarrow> nat \<Rightarrow> nat \<Rightarrow> 32 word \<Rightarrow>
   ('w, 'm) session_scheme \<Rightarrow> (int \<times> ('w, 'm) session_scheme) option" where
  \<comment> \<open>only \<open>now_len\<close> of \<open>len\<close> bytes went into the pipe: is there more?\<close>
  "splice_short k a llp ch error unique iov buf len now_len flags s =
     (let headerlen = iov_length (replicate 16 0 # iov); (p, s) = posix_memalign len s
      in case p of
           None \<Rightarrow> Some (ENOMEM, fuse_ll_clear_pipe k s)
         | Some mbuf \<Rightarrow> do {
             (res, _, s) \<leftarrow> copy_buf k a ((mem_bufvec mbuf len)\<lparr>bv_off := now_len\<rparr>) buf 0 s;
             let res = to_int32 res;
             if res > 0 then
               let (q, s) = posix_memalign headerlen s
               in case q of
                    None \<Rightarrow> Some (ENOMEM, fuse_ll_clear_pipe k s)
                  | Some tmpbuf \<Rightarrow>
                      (let (e, s) = read_back k (lp_in llp) tmpbuf headerlen s
                       in if e \<noteq> 0 then Some (e, fuse_ll_clear_pipe k s)
                          else let (e, s) = read_back k (lp_in llp) mbuf now_len s
                            in if e \<noteq> 0 then Some (e, fuse_ll_clear_pipe k s)
                               else fuse_send_msg k ch error unique (iov @ [load (se_thread s) mbuf (now_len + nat res)]) s)
             else splice_out k llp error unique iov ch now_len flags s
           })"

definition fuse_send_data_iov ::
  "'w kernel \<Rightarrow> nat \<Rightarrow> nat option \<Rightarrow> int \<Rightarrow> 64 word \<Rightarrow> bytes list \<Rightarrow> fuse_bufvec \<Rightarrow> 32 word \<Rightarrow> ('w, 'm) session_scheme \<Rightarrow> (int \<times> ('w, 'm) session_scheme) option" where
  \<comment> \<open>\<open>SPLICE_F_NONBLOCK\<close> is 2\<close>
  "fuse_send_data_iov k a ch error unique iov buf flags s =
     (let len = fuse_buf_size buf; fallback = (\<lambda>buf s. fuse_send_data_iov_fallback k a ch error unique iov buf len s)
      in if ll_broken_splice_nonblock (se_f s) \<or> has flags FUSE_BUF_NO_SPLICE \<or> total_fd_size buf < 2 * 4096 \<or>
            proto_minor s < 14 \<or> \<not> wants s FUSE_CAP_SPLICE_WRITE then fallback buf s
         else
           let (p, s) = fuse_ll_get_pipe k s
           in case p of
                None \<Rightarrow> fallback buf s
              | Some llp \<Rightarrow>
                  (let headerlen = iov_length (replicate 16 0 # iov);
                       out_len = (headerlen + len) mod 2 ^ 32;
                       pipesize = (4096 * (1 + length iov + bv_count buf + 1) + out_len) mod 2 ^ 64;
                       (ok, s) = grow_pipe k llp pipesize s
                   in if \<not> ok then fallback buf s
                      else
                        let (r, s) = llsys k (SysVmsplice (lp_out llp) (out_header out_len error unique @ concat iov)) s
                        in if to_int32 (r_ret r) = - 1 then fallback buf s
                           else if to_int32 (r_ret r) mod 2 ^ 64 \<noteq> int headerlen then Some (- EIO, fuse_ll_clear_pipe k s)
                           else do {
                             let pipe_buf = (FUSE_BUFVEC_INIT len)\<lparr>bv_buf := [(hd (bv_buf (FUSE_BUFVEC_INIT len)))
                               \<lparr>buf_flags := FUSE_BUF_IS_FD, buf_fd := lp_out llp\<rparr>]\<rparr>;
                             (res, buf, s) \<leftarrow> copy_buf k a pipe_buf buf (FUSE_BUF_FORCE_SPLICE OR FUSE_BUF_SPLICE_NONBLOCK) s;
                             let res = to_int32 res;
                             if res < 0 then
                               if res = - EAGAIN \<or> res = - EINVAL then
                                 let s = (if res = - EAGAIN then upd_ll (\<lambda>f. f\<lparr>ll_broken_splice_nonblock := True\<rparr>) s else s)
                                 in fallback buf (fuse_ll_clear_pipe k s)
                               else Some (to_int32 (- res), fuse_ll_clear_pipe k s)
                             else if res \<noteq> 0 \<and> nat res < len then splice_short k a llp ch error unique iov buf len (nat res) flags s
                             else splice_out k llp error unique iov ch (nat res) flags s
                           }))"

definition fuse_reply_data :: "'w kernel \<Rightarrow> nat \<Rightarrow> nat \<Rightarrow> fuse_bufvec \<Rightarrow> 32 word \<Rightarrow> ('w, 'm) session_scheme \<Rightarrow> (int \<times> ('w, 'm) session_scheme) option" where
  "fuse_reply_data k a r bufv flags s = do {
     req \<leftarrow> se_reqs s r;
     (res, s) \<leftarrow> fuse_send_data_iov k a (rq_ch req) 0 (rq_unique req) [] bufv flags s;
     if res \<le> 0 then do { s \<leftarrow> fuse_free_req k r s; Some (res, s) }
     else fuse_reply_err k r res s
   }"

end
