(* ===== verification/Ll_Dispatch.thy ===== *)
theory Ll_Dispatch
  imports Ll_Reply Handlers_IO
begin

text \<open>
  From a request of the kernel to a call of the client, the functions \<open>do_*\<close> of
  src/lib/fuse_lowlevel.c. The bytes behind the header are read as the structure of
  src/include/fuse_kernel.h for the operation and the negotiated protocol version; reading beyond the
  bytes of the buffer is \<open>None\<close>. The operations of the client (\<open>struct fuse_lowlevel_ops\<close>) are
  parameters: \<open>ll_op\<close> says which are there, \<open>run\<close> performs a call. A missing one is answered ENOSYS, or
  by the default the code has for it.
\<close>

section \<open>Reading structures\<close>

definition u32 :: "bytes \<Rightarrow> nat \<Rightarrow> 32 word option" where
  "u32 b i = (if i + 4 \<le> length b then Some (of_nat (un_le (take 4 (drop i b)))) else None)"

definition u64 :: "bytes \<Rightarrow> nat \<Rightarrow> 64 word option" where
  "u64 b i = (if i + 8 \<le> length b then Some (of_nat (un_le (take 8 (drop i b)))) else None)"

definition str_at :: "bytes \<Rightarrow> nat \<Rightarrow> string option" where
  \<comment> \<open>the C string at an offset\<close>
  "str_at b i = (if 0 \<in> set (drop i b) then Some (map (\<lambda>x. char_of (unat x)) (takeWhile (\<lambda>x. x \<noteq> 0) (drop i b))) else None)"

definition bytes_at :: "bytes \<Rightarrow> nat \<Rightarrow> nat \<Rightarrow> bytes option" where
  "bytes_at b i n = (if i + n \<le> length b then Some (take n (drop i b)) else None)"

section \<open>Calls\<close>

datatype (plugins only:) call =
    C_lookup fuse_ino_t string | C_forget fuse_ino_t "64 word" | C_forget_multi "(fuse_ino_t \<times> 64 word) list"
  | C_getattr fuse_ino_t "fi option" | C_setattr fuse_ino_t stat "32 word" "fi option" | C_access fuse_ino_t int
  | C_readlink fuse_ino_t | C_mknod fuse_ino_t string "32 word" "64 word" | C_mkdir fuse_ino_t string "32 word"
  | C_unlink fuse_ino_t string | C_rmdir fuse_ino_t string | C_symlink string fuse_ino_t string
  | C_rename fuse_ino_t string fuse_ino_t string "32 word" | C_link fuse_ino_t fuse_ino_t string
  | C_create fuse_ino_t string "32 word" fi | C_open fuse_ino_t fi | C_read fuse_ino_t nat int fi
  | C_write fuse_ino_t nat nat int fi | C_flush fuse_ino_t fi | C_release fuse_ino_t fi | C_fsync fuse_ino_t int fi
  | C_opendir fuse_ino_t fi | C_readdir fuse_ino_t nat int fi | C_readdirplus fuse_ino_t nat int fi
  | C_releasedir fuse_ino_t fi | C_fsyncdir fuse_ino_t int fi | C_statfs fuse_ino_t
  | C_setxattr fuse_ino_t string bytes int | C_getxattr fuse_ino_t string nat | C_listxattr fuse_ino_t nat
  | C_removexattr fuse_ino_t string | C_getlk fuse_ino_t fi flock | C_setlk fuse_ino_t fi flock bool
  | C_flock fuse_ino_t fi int | C_bmap fuse_ino_t nat "64 word" | C_ioctl fuse_ino_t int nat fi "32 word" bytes nat
  | C_poll fuse_ino_t fi "nat option" | C_fallocate fuse_ino_t int int int fi

datatype bufcall = B_write fuse_ino_t int fi | B_retrieve_reply nat fuse_ino_t int

record ('w, 'm) client =
  \<comment> \<open>the calls get the request's address; \<open>run_buf\<close> gives the buffer vector back as it leaves it;
      \<open>run_intr\<close> calls an interrupt function\<close>
  run :: "nat \<Rightarrow> call \<Rightarrow> ('w, 'm) session_scheme \<Rightarrow> ('w, 'm) session_scheme option"
  run_buf :: "nat \<Rightarrow> bufcall \<Rightarrow> fuse_bufvec \<Rightarrow> ('w, 'm) session_scheme \<Rightarrow> (fuse_bufvec \<times> ('w, 'm) session_scheme) option"
  run_init :: "fuse_conn_info \<Rightarrow> ('w, 'm) session_scheme \<Rightarrow> (fuse_conn_info \<times> ('w, 'm) session_scheme) option"
  run_destroy :: "('w, 'm) session_scheme \<Rightarrow> ('w, 'm) session_scheme option"
  run_init_done :: "('w, 'm) session_scheme \<Rightarrow> ('w, 'm) session_scheme option"
  run_intr :: "nat \<Rightarrow> nat \<Rightarrow> ('w, 'm) session_scheme \<Rightarrow> ('w, 'm) session_scheme option"

definition reply_errno :: "'w kernel \<Rightarrow> nat \<Rightarrow> int \<Rightarrow> ('w, 'm) session_scheme \<Rightarrow> ('w, 'm) session_scheme option" where
  "reply_errno k r err s = map_option snd (fuse_reply_err k r err s)"

definition call_op :: "'w kernel \<Rightarrow> ('w, 'm) client \<Rightarrow> nat \<Rightarrow> llop \<Rightarrow> call option \<Rightarrow> ('w, 'm) session_scheme \<Rightarrow> ('w, 'm) session_scheme option" where
  \<comment> \<open>\<open>if (req->f->op.x) req->f->op.x(req, ...); else fuse_reply_err(req, ENOSYS);\<close> the arguments are only
      read for the call\<close>
  "call_op k c r op a s = (if ll_op (se_f s) op then do { a \<leftarrow> a; run c r a s } else reply_errno k r ENOSYS s)"

type_synonym ('w, 'm) handler = "'w kernel \<Rightarrow> ('w, 'm) client \<Rightarrow> nat \<Rightarrow> fuse_ino_t \<Rightarrow> bytes \<Rightarrow> ('w, 'm) session_scheme \<Rightarrow> ('w, 'm) session_scheme option"

definition with_fh :: "64 word \<Rightarrow> fi" where
  \<comment> \<open>\<open>memset(&fi, 0, sizeof(fi)); fi.fh = arg->fh;\<close>\<close>
  "with_fh fh = zero_fi\<lparr>fi_fh := fh\<rparr>"

section \<open>Names and nodes\<close>

definition ll_lookup :: "('w, 'm) handler" where
  "ll_lookup k c r nodeid b s = call_op k c r Op_lookup (do { name \<leftarrow> str_at b 0; Some (C_lookup nodeid name) }) s"

definition ll_forget :: "('w, 'm) handler" where
  "ll_forget k c r nodeid b s = do {
     if ll_op (se_f s) Op_forget then do { n \<leftarrow> u64 b 0; run c r (C_forget nodeid n) s }
     else fuse_reply_none k r s
   }"

fun forget_list :: "bytes \<Rightarrow> nat \<Rightarrow> nat \<Rightarrow> (fuse_ino_t \<times> 64 word) list option" where
  \<comment> \<open>\<open>n\<close> structures \<open>fuse_forget_one\<close> from an offset on\<close>
  "forget_list b i 0 = Some []"
| "forget_list b i (Suc n) = do { ino \<leftarrow> u64 b i; k \<leftarrow> u64 b (i + 8); l \<leftarrow> forget_list b (i + 16) n; Some ((ino, k) # l) }"

fun forget_each :: "('w, 'm) client \<Rightarrow> nat \<Rightarrow> (fuse_ino_t \<times> 64 word) list \<Rightarrow> ('w, 'm) session_scheme \<Rightarrow> ('w, 'm) session_scheme option" where
  \<comment> \<open>each with a request of its own that has no channel\<close>
  "forget_each c r [] s = Some s"
| "forget_each c r ((ino, n) # l) s =
     (let (d, s) = fuse_ll_alloc_req s
      in case d of
           None \<Rightarrow> Some s
         | Some d \<Rightarrow> do {
             req \<leftarrow> se_reqs s r;
             s \<leftarrow> run c d (C_forget ino n) (upd_req d (\<lambda>q. q\<lparr>rq_unique := rq_unique req, rq_ctx := rq_ctx req, rq_ch := None\<rparr>) s);
             forget_each c r l s
           })"

definition ll_batch_forget :: "('w, 'm) handler" where
  "ll_batch_forget k c r nodeid b s = do {
     n \<leftarrow> u32 b 0;
     if ll_op (se_f s) Op_forget_multi then do { l \<leftarrow> forget_list b 8 (unat n); run c r (C_forget_multi l) s }
     else if ll_op (se_f s) Op_forget then do {
       l \<leftarrow> forget_list b 8 (unat n);
       s \<leftarrow> forget_each c r l s;
       fuse_reply_none k r s
     } else fuse_reply_none k r s
   }"

definition FUSE_GETATTR_FH :: "32 word" where "FUSE_GETATTR_FH = push_bit 0 1"

definition ll_getattr :: "('w, 'm) handler" where
  "ll_getattr k c r nodeid b s = do {
     fip \<leftarrow> (if proto_minor s \<ge> 9 then do {
          flags \<leftarrow> u32 b 0;
          if has flags FUSE_GETATTR_FH then do { fh \<leftarrow> u64 b 8; Some (Some (with_fh fh)) } else Some None
        } else Some None);
     call_op k c r Op_getattr (Some (C_getattr nodeid fip)) s
   }"

definition FATTR_FH :: "32 word" where "FATTR_FH = push_bit 6 1"
definition FUSE_SET_ATTR_CTIME :: "32 word" where "FUSE_SET_ATTR_CTIME = push_bit 10 1"

definition convert_attr :: "bytes \<Rightarrow> stat option" where
  \<comment> \<open>from the fields of \<open>struct fuse_setattr_in\<close>\<close>
  "convert_attr b = do {
     sz \<leftarrow> u64 b 16; atime \<leftarrow> u64 b 32; mtime \<leftarrow> u64 b 40; ctime \<leftarrow> u64 b 48;
     atimensec \<leftarrow> u32 b 56; mtimensec \<leftarrow> u32 b 60; ctimensec \<leftarrow> u32 b 64;
     mode \<leftarrow> u32 b 68; uid \<leftarrow> u32 b 76; gid \<leftarrow> u32 b 80;
     Some (zero_stat\<lparr>st_mode := mode, st_uid := uid, st_gid := gid, st_size := sint sz,
       st_atim := \<lparr>tv_sec = sint atime, tv_nsec = uint atimensec\<rparr>,
       st_mtim := \<lparr>tv_sec = sint mtime, tv_nsec = uint mtimensec\<rparr>,
       st_ctim := \<lparr>tv_sec = sint ctime, tv_nsec = uint ctimensec\<rparr>\<rparr>)
   }"

definition ll_setattr :: "('w, 'm) handler" where
  "ll_setattr k c r nodeid b s =
     (if ll_op (se_f s) Op_setattr then do {
        valid \<leftarrow> u32 b 0;
        st \<leftarrow> convert_attr b;
        (valid, fi) \<leftarrow> (if has valid FATTR_FH then do { fh \<leftarrow> u64 b 8; Some (valid AND (NOT FATTR_FH), Some (with_fh fh)) }
                        else Some (valid, None));
        let valid = valid AND (FUSE_SET_ATTR_MODE OR FUSE_SET_ATTR_UID OR FUSE_SET_ATTR_GID OR FUSE_SET_ATTR_SIZE OR
          FUSE_SET_ATTR_ATIME OR FUSE_SET_ATTR_MTIME OR FUSE_SET_ATTR_ATIME_NOW OR FUSE_SET_ATTR_MTIME_NOW OR FUSE_SET_ATTR_CTIME);
        run c r (C_setattr nodeid st valid fi) s
      } else reply_errno k r ENOSYS s)"

definition ll_access :: "('w, 'm) handler" where
  "ll_access k c r nodeid b s = call_op k c r Op_access (do { m \<leftarrow> u32 b 0; Some (C_access nodeid (sint m)) }) s"

definition ll_readlink :: "('w, 'm) handler" where
  "ll_readlink k c r nodeid b s = call_op k c r Op_readlink (Some (C_readlink nodeid)) s"

definition set_umask :: "nat \<Rightarrow> 32 word \<Rightarrow> ('w, 'm) session_scheme \<Rightarrow> ('w, 'm) session_scheme" where
  "set_umask r m s = upd_req r (\<lambda>q. q\<lparr>rq_ctx := (rq_ctx q)\<lparr>cx_umask := m\<rparr>\<rparr>) s"

definition ll_mknod :: "('w, 'm) handler" where
  "ll_mknod k c r nodeid b s = do {
     (i, s) \<leftarrow> (if proto_minor s \<ge> 12 then do { umask \<leftarrow> u32 b 8; Some (16, set_umask r umask s) } else Some (8, s));
     call_op k c r Op_mknod
       (do { name \<leftarrow> str_at b i; mode \<leftarrow> u32 b 0; rdev \<leftarrow> u32 b 4; Some (C_mknod nodeid name mode (ucast rdev)) }) s
   }"

definition ll_mkdir :: "('w, 'm) handler" where
  "ll_mkdir k c r nodeid b s = do {
     s \<leftarrow> (if proto_minor s \<ge> 12 then do { umask \<leftarrow> u32 b 4; Some (set_umask r umask s) } else Some s);
     call_op k c r Op_mkdir (do { name \<leftarrow> str_at b 8; mode \<leftarrow> u32 b 0; Some (C_mkdir nodeid name mode) }) s
   }"

definition ll_unlink :: "('w, 'm) handler" where
  "ll_unlink k c r nodeid b s = call_op k c r Op_unlink (do { name \<leftarrow> str_at b 0; Some (C_unlink nodeid name) }) s"

definition ll_rmdir :: "('w, 'm) handler" where
  "ll_rmdir k c r nodeid b s = call_op k c r Op_rmdir (do { name \<leftarrow> str_at b 0; Some (C_rmdir nodeid name) }) s"

definition ll_symlink :: "('w, 'm) handler" where
  "ll_symlink k c r nodeid b s = do {
     name \<leftarrow> str_at b 0;
     call_op k c r Op_symlink (do { linkname \<leftarrow> str_at b (length name + 1); Some (C_symlink linkname nodeid name) }) s
   }"

definition ll_rename :: "('w, 'm) handler" where
  "ll_rename k c r nodeid b s = do {
     oldname \<leftarrow> str_at b 8;
     call_op k c r Op_rename
       (do { newdir \<leftarrow> u64 b 0; newname \<leftarrow> str_at b (8 + length oldname + 1); Some (C_rename nodeid oldname newdir newname 0) }) s
   }"

definition ll_rename2 :: "('w, 'm) handler" where
  "ll_rename2 k c r nodeid b s = do {
     oldname \<leftarrow> str_at b 16;
     call_op k c r Op_rename (do {
       newdir \<leftarrow> u64 b 0;
       newname \<leftarrow> str_at b (16 + length oldname + 1);
       flags \<leftarrow> u32 b 8;
       Some (C_rename nodeid oldname newdir newname flags)
     }) s
   }"

definition ll_link :: "('w, 'm) handler" where
  "ll_link k c r nodeid b s =
     call_op k c r Op_link (do { old \<leftarrow> u64 b 0; name \<leftarrow> str_at b 8; Some (C_link old nodeid name) }) s"

section \<open>Open files\<close>

definition ll_create :: "('w, 'm) handler" where
  "ll_create k c r nodeid b s =
     (if ll_op (se_f s) Op_create then do {
        flags \<leftarrow> u32 b 0;
        mode \<leftarrow> u32 b 4;
        (name, s) \<leftarrow> (if proto_minor s \<ge> 12 then do { umask \<leftarrow> u32 b 8; name \<leftarrow> str_at b 16; Some (name, set_umask r umask s) }
                       else do { name \<leftarrow> str_at b 8; Some (name, s) });
        run c r (C_create nodeid name mode (zero_fi\<lparr>fi_flags := sint flags\<rparr>)) s
      } else reply_errno k r ENOSYS s)"

definition ll_open :: "('w, 'm) handler" where
  "ll_open k c r nodeid b s = do {
     flags \<leftarrow> u32 b 0;
     let fi = zero_fi\<lparr>fi_flags := sint flags\<rparr>;
     if ll_op (se_f s) Op_open then run c r (C_open nodeid fi) s else map_option snd (fuse_reply_open k r fi s)
   }"

definition ll_read :: "('w, 'm) handler" where
  "ll_read k c r nodeid b s =
     (if ll_op (se_f s) Op_read then do {
        fh \<leftarrow> u64 b 0;
        ofs \<leftarrow> u64 b 8;
        sz \<leftarrow> u32 b 16;
        fi \<leftarrow> (if proto_minor s \<ge> 9 then do {
             lo \<leftarrow> u64 b 24; flags \<leftarrow> u32 b 32; Some ((with_fh fh)\<lparr>fi_lock_owner := lo, fi_flags := sint flags\<rparr>)
           } else Some (with_fh fh));
        run c r (C_read nodeid (unat sz) (sint ofs) fi) s
      } else reply_errno k r ENOSYS s)"

definition FUSE_COMPAT_WRITE_IN_SIZE :: nat where "FUSE_COMPAT_WRITE_IN_SIZE = 24"

definition write_fi :: "bytes \<Rightarrow> ('w, 'm) session_scheme \<Rightarrow> fi option" where
  \<comment> \<open>the file info both write functions build\<close>
  "write_fi b s = do {
     fh \<leftarrow> u64 b 0;
     wflags \<leftarrow> u32 b 20;
     let fi = (with_fh fh)\<lparr>fi_writepage := has wflags 1\<rparr>;
     if proto_minor s < 9 then Some fi
     else do { lo \<leftarrow> u64 b 24; flags \<leftarrow> u32 b 32; Some (fi\<lparr>fi_lock_owner := lo, fi_flags := sint flags\<rparr>) }
   }"

definition ll_write :: "'w kernel \<Rightarrow> ('w, 'm) client \<Rightarrow> nat \<Rightarrow> fuse_ino_t \<Rightarrow> bytes \<Rightarrow> nat \<Rightarrow> ('w, 'm) session_scheme \<Rightarrow> ('w, 'm) session_scheme option" where
  \<comment> \<open>\<open>p\<close>: the address of the bytes; the data is passed on by address and size\<close>
  "ll_write k c r nodeid b p s = do {
     fi \<leftarrow> write_fi b s;
     call_op k c r Op_write (do {
       sz \<leftarrow> u32 b 16;
       ofs \<leftarrow> u64 b 8;
       Some (C_write nodeid (p + (if proto_minor s < 9 then FUSE_COMPAT_WRITE_IN_SIZE else 40)) (unat sz) (sint ofs) fi)
     }) s
   }"

definition ll_write_buf ::
  "'w kernel \<Rightarrow> ('w, 'm) client \<Rightarrow> nat \<Rightarrow> fuse_ino_t \<Rightarrow> bytes \<Rightarrow> nat \<Rightarrow> fuse_buf \<Rightarrow> ('w, 'm) session_scheme \<Rightarrow> ('w, 'm) session_scheme option" where
  \<comment> \<open>the sizes of \<open>fuse_in_header\<close> and \<open>fuse_write_in\<close> are 40 and 40\<close>
  "ll_write_buf k c r nodeid b p ibuf s = do {
     fi \<leftarrow> write_fi b s;
     sz \<leftarrow> u32 b 16;
     buf \<leftarrow> (if proto_minor s < 9 then
          if has (buf_flags ibuf) FUSE_BUF_IS_FD then None
          else Some (ibuf\<lparr>buf_mem := p + FUSE_COMPAT_WRITE_IN_SIZE, buf_size := sub64 (buf_size ibuf) (40 + FUSE_COMPAT_WRITE_IN_SIZE)\<rparr>)
        else Some (ibuf\<lparr>buf_mem := (if has (buf_flags ibuf) FUSE_BUF_IS_FD then buf_mem ibuf else p + 40),
               buf_size := sub64 (buf_size ibuf) 80\<rparr>));
     let bufv = \<lparr>bv_count = 1, bv_idx = 0, bv_off = 0, bv_buf = [buf\<lparr>buf_size := unat sz\<rparr>]\<rparr>;
     (bufv, s) \<leftarrow> (if buf_size buf < unat sz then do { s \<leftarrow> reply_errno k r EIO s; Some (bufv, s) }
                    else do { ofs \<leftarrow> u64 b 8; run_buf c r (B_write nodeid (sint ofs) fi) bufv s });
     Some (if has (buf_flags ibuf) FUSE_BUF_IS_FD \<and> bv_idx bufv < bv_count bufv then fuse_ll_clear_pipe k s else s)
   }"

definition ll_flush :: "('w, 'm) handler" where
  "ll_flush k c r nodeid b s = do {
     fh \<leftarrow> u64 b 0;
     fi \<leftarrow> (if proto_minor s \<ge> 7 then do { lo \<leftarrow> u64 b 16; Some ((with_fh fh)\<lparr>fi_flush := True, fi_lock_owner := lo\<rparr>) }
            else Some ((with_fh fh)\<lparr>fi_flush := True\<rparr>));
     call_op k c r Op_flush (Some (C_flush nodeid fi)) s
   }"

definition FUSE_RELEASE_FLUSH :: "32 word" where "FUSE_RELEASE_FLUSH = push_bit 0 1"
definition FUSE_RELEASE_FLOCK_UNLOCK :: "32 word" where "FUSE_RELEASE_FLOCK_UNLOCK = push_bit 1 1"

definition ll_release :: "('w, 'm) handler" where
  "ll_release k c r nodeid b s = do {
     fh \<leftarrow> u64 b 0;
     flags \<leftarrow> u32 b 8;
     rflags \<leftarrow> u32 b 12;
     let fi = (with_fh fh)\<lparr>fi_flags := sint flags\<rparr>;
     fi \<leftarrow> (if proto_minor s \<ge> 8 then do {
          lo \<leftarrow> u64 b 16; Some (fi\<lparr>fi_flush := has rflags FUSE_RELEASE_FLUSH, fi_lock_owner := lo\<rparr>)
        } else Some fi);
     fi \<leftarrow> (if has rflags FUSE_RELEASE_FLOCK_UNLOCK then do {
          lo \<leftarrow> u64 b 16; Some (fi\<lparr>fi_flock_release := True, fi_lock_owner := lo\<rparr>)
        } else Some fi);
     if ll_op (se_f s) Op_release then run c r (C_release nodeid fi) s else reply_errno k r 0 s
   }"

definition ll_fsync :: "('w, 'm) handler" where
  "ll_fsync k c r nodeid b s = do {
     fh \<leftarrow> u64 b 0;
     call_op k c r Op_fsync (do { flags \<leftarrow> u32 b 8; Some (C_fsync nodeid (uint (flags AND 1)) (with_fh fh)) }) s
   }"

section \<open>Directories\<close>

definition ll_opendir :: "('w, 'm) handler" where
  "ll_opendir k c r nodeid b s = do {
     flags \<leftarrow> u32 b 0;
     let fi = zero_fi\<lparr>fi_flags := sint flags\<rparr>;
     if ll_op (se_f s) Op_opendir then run c r (C_opendir nodeid fi) s else map_option snd (fuse_reply_open k r fi s)
   }"

definition ll_readdir :: "('w, 'm) handler" where
  "ll_readdir k c r nodeid b s = do {
     fh \<leftarrow> u64 b 0;
     call_op k c r Op_readdir
       (do { sz \<leftarrow> u32 b 16; ofs \<leftarrow> u64 b 8; Some (C_readdir nodeid (unat sz) (sint ofs) (with_fh fh)) }) s
   }"

definition ll_readdirplus :: "('w, 'm) handler" where
  "ll_readdirplus k c r nodeid b s = do {
     fh \<leftarrow> u64 b 0;
     call_op k c r Op_readdirplus
       (do { sz \<leftarrow> u32 b 16; ofs \<leftarrow> u64 b 8; Some (C_readdirplus nodeid (unat sz) (sint ofs) (with_fh fh)) }) s
   }"

definition ll_releasedir :: "('w, 'm) handler" where
  "ll_releasedir k c r nodeid b s = do {
     fh \<leftarrow> u64 b 0;
     flags \<leftarrow> u32 b 8;
     let fi = (with_fh fh)\<lparr>fi_flags := sint flags\<rparr>;
     if ll_op (se_f s) Op_releasedir then run c r (C_releasedir nodeid fi) s else reply_errno k r 0 s
   }"

definition ll_fsyncdir :: "('w, 'm) handler" where
  "ll_fsyncdir k c r nodeid b s = do {
     fh \<leftarrow> u64 b 0;
     call_op k c r Op_fsyncdir (do { flags \<leftarrow> u32 b 8; Some (C_fsyncdir nodeid (uint (flags AND 1)) (with_fh fh)) }) s
   }"

definition ll_statfs :: "('w, 'm) handler" where
  "ll_statfs k c r nodeid b s =
     (if ll_op (se_f s) Op_statfs then run c r (C_statfs nodeid) s
      else map_option snd (fuse_reply_statfs k r \<lparr>f_bsize = 512, f_frsize = 0, f_blocks = 0, f_bfree = 0, f_bavail = 0,
        f_files = 0, f_ffree = 0, f_namemax = 255\<rparr> s))"

section \<open>Extended attributes\<close>

definition ll_setxattr :: "('w, 'm) handler" where
  "ll_setxattr k c r nodeid b s = do {
     name \<leftarrow> str_at b 8;
     call_op k c r Op_setxattr (do {
       sz \<leftarrow> u32 b 0;
       v \<leftarrow> bytes_at b (8 + length name + 1) (unat sz);
       flags \<leftarrow> u32 b 4;
       Some (C_setxattr nodeid name v (sint flags))
     }) s
   }"

definition ll_getxattr :: "('w, 'm) handler" where
  "ll_getxattr k c r nodeid b s =
     call_op k c r Op_getxattr (do { name \<leftarrow> str_at b 8; sz \<leftarrow> u32 b 0; Some (C_getxattr nodeid name (unat sz)) }) s"

definition ll_listxattr :: "('w, 'm) handler" where
  "ll_listxattr k c r nodeid b s = call_op k c r Op_listxattr (do { sz \<leftarrow> u32 b 0; Some (C_listxattr nodeid (unat sz)) }) s"

definition ll_removexattr :: "('w, 'm) handler" where
  "ll_removexattr k c r nodeid b s = call_op k c r Op_removexattr (do { name \<leftarrow> str_at b 0; Some (C_removexattr nodeid name) }) s"

section \<open>Locks\<close>

definition convert_fuse_file_lock :: "bytes \<Rightarrow> nat \<Rightarrow> flock option" where
  \<comment> \<open>\<open>struct fuse_file_lock\<close> at an offset; \<open>SEEK_SET\<close> is 0, \<open>OFFSET_MAX\<close> the largest \<open>off_t\<close>\<close>
  "convert_fuse_file_lock b i = do {
     start \<leftarrow> u64 b i;
     end' \<leftarrow> u64 b (i + 8);
     ty \<leftarrow> u32 b (i + 16);
     pid \<leftarrow> u32 b (i + 20);
     Some \<lparr>l_type = sint (ucast ty :: 16 word), l_whence = 0, l_start = sint start,
       l_len = (if end' = 0x7fffffffffffffff then 0 else sint (end' - start + 1)), l_pid = sint pid\<rparr>
   }"

definition lk_fi :: "bytes \<Rightarrow> fi option" where
  "lk_fi b = do { fh \<leftarrow> u64 b 0; owner \<leftarrow> u64 b 8; Some ((with_fh fh)\<lparr>fi_lock_owner := owner\<rparr>) }"

definition ll_getlk :: "('w, 'm) handler" where
  "ll_getlk k c r nodeid b s = do {
     fi \<leftarrow> lk_fi b;
     lk \<leftarrow> convert_fuse_file_lock b 16;
     call_op k c r Op_getlk (Some (C_getlk nodeid fi lk)) s
   }"

definition FUSE_LK_FLOCK :: "32 word" where "FUSE_LK_FLOCK = push_bit 0 1"

definition do_setlk_common ::
  "'w kernel \<Rightarrow> ('w, 'm) client \<Rightarrow> nat \<Rightarrow> fuse_ino_t \<Rightarrow> bytes \<Rightarrow> bool \<Rightarrow> ('w, 'm) session_scheme \<Rightarrow> ('w, 'm) session_scheme option" where
  \<comment> \<open>\<open>F_RDLCK\<close>, \<open>F_WRLCK\<close>, \<open>F_UNLCK\<close> are 0, 1, 2; \<open>LOCK_SH\<close>, \<open>LOCK_EX\<close>, \<open>LOCK_NB\<close>, \<open>LOCK_UN\<close> are 1, 2, 4, 8\<close>
  "do_setlk_common k c r nodeid b sleep s = do {
     fi \<leftarrow> lk_fi b;
     lk_flags \<leftarrow> u32 b 40;
     if has lk_flags FUSE_LK_FLOCK then do {
       ty \<leftarrow> u32 b 32;
       let op = (if ty = 0 then 1 else if ty = 1 then 2 else if ty = 2 then 8 else (0::int));
       call_op k c r Op_flock (Some (C_flock nodeid fi (if sleep then op else op + 4))) s
     } else do {
       lk \<leftarrow> convert_fuse_file_lock b 16;
       call_op k c r Op_setlk (Some (C_setlk nodeid fi lk sleep)) s
     }
   }"

definition ll_setlk :: "('w, 'm) handler" where
  "ll_setlk k c r nodeid b s = do_setlk_common k c r nodeid b False s"

definition ll_setlkw :: "('w, 'm) handler" where
  "ll_setlkw k c r nodeid b s = do_setlk_common k c r nodeid b True s"

section \<open>The rest\<close>

definition ll_bmap :: "('w, 'm) handler" where
  "ll_bmap k c r nodeid b s =
     call_op k c r Op_bmap (do { bs \<leftarrow> u32 b 8; block \<leftarrow> u64 b 0; Some (C_bmap nodeid (unat bs) block) }) s"

definition FUSE_CAP_IOCTL_DIR :: "32 word" where "FUSE_CAP_IOCTL_DIR = push_bit 11 1"

definition ll_ioctl :: "('w, 'm) handler" where
  "ll_ioctl k c r nodeid b s = do {
     flags \<leftarrow> u32 b 8;
     isz \<leftarrow> u32 b 24;
     if has flags FUSE_IOCTL_DIR \<and> \<not> wants s FUSE_CAP_IOCTL_DIR then reply_errno k r ENOTTY s
     else do {
       fh \<leftarrow> u64 b 0;
       call_op k c r Op_ioctl (do {
         cmd \<leftarrow> u32 b 12;
         arg \<leftarrow> u64 b 16;
         in_buf \<leftarrow> bytes_at b 32 (unat isz);
         osz \<leftarrow> u32 b 28;
         Some (C_ioctl nodeid (sint cmd) (unat arg) (with_fh fh) flags in_buf (unat osz))
       }) s
     }
   }"

definition FUSE_POLL_SCHEDULE_NOTIFY :: "32 word" where "FUSE_POLL_SCHEDULE_NOTIFY = push_bit 0 1"

definition ll_poll :: "('w, 'm) handler" where
  "ll_poll k c r nodeid b s = do {
     fh \<leftarrow> u64 b 0;
     events \<leftarrow> u32 b 20;
     let fi = (with_fh fh)\<lparr>fi_poll_events := events\<rparr>;
     if \<not> ll_op (se_f s) Op_poll then reply_errno k r ENOSYS s
     else do {
       flags \<leftarrow> u32 b 16;
       if has flags FUSE_POLL_SCHEDULE_NOTIFY then
         let (ok, s) = llmalloc s
         in if \<not> ok then reply_errno k r ENOMEM s
            else do {
              kh \<leftarrow> u64 b 8;
              req \<leftarrow> se_reqs s r;
              run c r (C_poll nodeid fi (Some (se_next s)))
                (s\<lparr>se_polls := (se_polls s)(se_next s \<mapsto> \<lparr>ph_kh = kh, ph_ch = rq_ch req\<rparr>), se_next := se_next s + 1\<rparr>)
            }
       else run c r (C_poll nodeid fi None) s
     }
   }"

definition fuse_pollhandle_destroy :: "nat \<Rightarrow> ('w, 'm) session_scheme \<Rightarrow> ('w, 'm) session_scheme" where
  "fuse_pollhandle_destroy ph s = s\<lparr>se_polls := (se_polls s)(ph := None)\<rparr>"

definition ll_fallocate :: "('w, 'm) handler" where
  "ll_fallocate k c r nodeid b s = do {
     fh \<leftarrow> u64 b 0;
     call_op k c r Op_fallocate (do {
       mode \<leftarrow> u32 b 24;
       ofs \<leftarrow> u64 b 8;
       len \<leftarrow> u64 b 16;
       Some (C_fallocate nodeid (sint mode) (sint ofs) (sint len) (with_fh fh))
     }) s
   }"

section \<open>Interrupts\<close>

definition find_interrupted :: "('w, 'm) client \<Rightarrow> nat \<Rightarrow> ('w, 'm) session_scheme \<Rightarrow> (bool \<times> ('w, 'm) session_scheme) option" where
  "find_interrupted c r s = do {
     req \<leftarrow> se_reqs s r;
     case List.find (\<lambda>q. map_option rq_unique (se_reqs s q) = Some (rq_intr_unique req)) (ll_list (se_f s)) of
       Some q \<Rightarrow> do {
         let s = upd_req q (\<lambda>q. q\<lparr>rq_ctr := rq_ctr q + 1, rq_interrupted := True\<rparr>) s;
         curr \<leftarrow> se_reqs s q;
         s \<leftarrow> (case rq_func curr of None \<Rightarrow> Some s | Some g \<Rightarrow> run_intr c g q s);
         curr \<leftarrow> se_reqs s q;
         let s = upd_req q (\<lambda>q. q\<lparr>rq_ctr := rq_ctr q - 1\<rparr>) s;
         Some (True, if rq_ctr curr - 1 = 0 then destroy_req q s else s)
       }
     | None \<Rightarrow>
         Some (list_ex (\<lambda>q. map_option rq_intr_unique (se_reqs s q) = Some (rq_intr_unique req)) (ll_interrupts (se_f s)), s)
   }"

definition ll_interrupt :: "('w, 'm) handler" where
  "ll_interrupt k c r nodeid b s = do {
     u \<leftarrow> u64 b 0;
     (found, s) \<leftarrow> find_interrupted c r (upd_req r (\<lambda>q. q\<lparr>rq_intr_unique := u\<rparr>) s);
     Some (if found then destroy_req r s else upd_ll (\<lambda>f. f\<lparr>ll_interrupts := ll_interrupts f @ [r]\<rparr>) s)
   }"

definition check_interrupt :: "nat \<Rightarrow> ('w, 'm) session_scheme \<Rightarrow> (nat option \<times> ('w, 'm) session_scheme) option" where
  "check_interrupt r s = do {
     req \<leftarrow> se_reqs s r;
     case List.find (\<lambda>q. map_option rq_intr_unique (se_reqs s q) = Some (rq_unique req)) (ll_interrupts (se_f s)) of
       Some q \<Rightarrow> Some (None, destroy_req q (list_del_req q (upd_req r (\<lambda>q. q\<lparr>rq_interrupted := True\<rparr>) s)))
     | None \<Rightarrow>
         (case ll_interrupts (se_f s) of
            [] \<Rightarrow> Some (None, s)
          | q # qs \<Rightarrow> Some (Some q, list_del_req q s))
   }"

definition fuse_req_interrupt_func :: "('w, 'm) client \<Rightarrow> nat \<Rightarrow> nat option \<Rightarrow> ('w, 'm) session_scheme \<Rightarrow> ('w, 'm) session_scheme option" where
  "fuse_req_interrupt_func c r func s = do {
     let s = upd_req r (\<lambda>q. q\<lparr>rq_func := func\<rparr>) s;
     req \<leftarrow> se_reqs s r;
     case func of Some g \<Rightarrow> if rq_interrupted req then run_intr c g r s else Some s | None \<Rightarrow> Some s
   }"

definition fuse_req_interrupted :: "nat \<Rightarrow> ('w, 'm) session_scheme \<Rightarrow> bool option" where
  "fuse_req_interrupted r s = map_option rq_interrupted (se_reqs s r)"

end
