(* ===== verification/Ll_Session.thy ===== *)
theory Ll_Session
  imports Ll_Dispatch
begin

text \<open>
  The session of src/lib/fuse_lowlevel.c: the negotiation of protocol version and capabilities at
  INIT (for a character device, src/lib/cuse_lowlevel.c), the messages the server sends on its own,
  receiving a request from the device - into memory or into the pipe - and processing it: who may
  ask what, pending interrupts, and the table of operations.
\<close>

section \<open>INIT\<close>

definition add_if :: "bool \<Rightarrow> nat \<Rightarrow> 32 word \<Rightarrow> 32 word" where
  \<comment> \<open>\<open>if (c) x |= 1 << i;\<close>\<close>
  "add_if c i x = (if c then x OR push_bit i 1 else x)"

definition drop_if :: "bool \<Rightarrow> nat \<Rightarrow> 32 word \<Rightarrow> 32 word" where
  "drop_if c i x = (if c then x AND (NOT (push_bit i 1)) else x)"

definition shared_bits :: "nat list \<Rightarrow> 32 word \<Rightarrow> 32 word \<Rightarrow> 32 word" where
  \<comment> \<open>a line \<open>if (from & FUSE_X) to |= FUSE_CAP_X;\<close> (or the other way round) for every bit: the flags of
      src/include/fuse_kernel.h and the capabilities of src/include/fuse_common.h have the same bits\<close>
  "shared_bits is from to = fold (\<lambda>i. add_if (bit from i) i) is to"

definition capability_bits :: "nat list" where
  \<comment> \<open>ASYNC_READ, POSIX_LOCKS, ATOMIC_O_TRUNC, EXPORT_SUPPORT, BIG_WRITES, DONT_MASK, FLOCK_LOCKS,
      AUTO_INVAL_DATA, READDIRPLUS, READDIRPLUS_AUTO, ASYNC_DIO, WRITEBACK_CACHE, NO_OPEN_SUPPORT\<close>
  "capability_bits = [0, 1, 3, 4, 5, 6, 10, 12, 13, 14, 15, 16, 17]"

definition wanted_bits :: "nat list" where
  \<comment> \<open>the same without NO_OPEN_SUPPORT\<close>
  "wanted_bits = [0, 1, 3, 4, 5, 6, 10, 12, 13, 14, 15, 16]"

definition init_capable :: "32 word \<Rightarrow> 32 word \<Rightarrow> 32 word \<Rightarrow> fuse_conn_info \<Rightarrow> fuse_conn_info" where
  \<comment> \<open>what the kernel can do; splicing and ioctl on directories by the protocol version\<close>
  "init_capable minor flags ra conn =
     (let conn = (if minor \<ge> 6 then
            conn\<lparr>cn_async_read := (if cn_async_read conn \<noteq> 0 then flags AND 1 else cn_async_read conn),
              cn_max_readahead := (if ra < cn_max_readahead conn then ra else cn_max_readahead conn),
              cn_capable := shared_bits capability_bits flags (cn_capable conn)\<rparr>
          else conn\<lparr>cn_async_read := 0, cn_max_readahead := 0\<rparr>);
          conn = (if minor \<ge> 14 then conn\<lparr>cn_capable := add_if True 9 (add_if True 8 (add_if True 7 (cn_capable conn)))\<rparr> else conn)
      in if minor \<ge> 18 then conn\<lparr>cn_capable := add_if True 11 (cn_capable conn)\<rparr> else conn)"

definition init_want :: "fuse_ll \<Rightarrow> 32 word \<Rightarrow> 32 word" where
  \<comment> \<open>what is asked for before the client's \<open>init\<close>\<close>
  "init_want f minor =
     (let w = (if minor \<ge> 14 then add_if (ll_splice_read f) 9 (add_if (ll_splice_move f) 8 (add_if (ll_splice_write f) 7 0)) else 0);
          w = add_if (ll_atomic_o_trunc f) 3 w;
          w = add_if (ll_op f Op_getlk \<and> ll_op f Op_setlk \<and> \<not> ll_no_remote_posix_lock f) 1 w;
          w = add_if (ll_op f Op_flock \<and> \<not> ll_no_remote_flock f) 10 w;
          w = add_if (ll_big_writes f) 5 w;
          w = add_if (ll_auto_inval_data f) 12 w;
          w = (if ll_op f Op_readdirplus \<and> \<not> ll_no_readdirplus f
               then add_if (\<not> ll_no_readdirplus_auto f) 14 (add_if True 13 w) else w);
          w = add_if (ll_async_dio f) 15 w
      in add_if (ll_writeback_cache f) 16 w)"

definition init_refuse :: "fuse_ll \<Rightarrow> 32 word \<Rightarrow> 32 word" where
  \<comment> \<open>what the options take away after it\<close>
  "init_refuse f w = drop_if (ll_no_writeback_cache f) 16 (drop_if (ll_no_async_dio f) 15 (drop_if (ll_no_readdirplus_auto f) 14
     (drop_if (ll_no_readdirplus f) 13 (drop_if (ll_no_auto_inval_data f) 12 (drop_if (ll_no_splice_move f) 8
       (drop_if (ll_no_splice_write f) 7 (drop_if (ll_no_splice_read f) 9 w)))))))"

definition init_flags :: "fuse_conn_info \<Rightarrow> 32 word" where
  "init_flags conn = shared_bits wanted_bits (cn_want conn) (add_if (cn_async_read conn \<noteq> 0) 0 0)"

definition init_background :: "fuse_conn_info \<Rightarrow> fuse_conn_info" where
  "init_background conn =
     (if cn_proto_minor conn \<ge> 13 then
        let mb = (if cn_max_background conn \<ge> 65536 then 65535 else cn_max_background conn);
            ct = (if cn_congestion_threshold conn > mb then mb else cn_congestion_threshold conn);
            ct = (if ct = 0 then mb * 3 div 4 else ct)
        in conn\<lparr>cn_max_background := mb, cn_congestion_threshold := ct\<rparr>
      else conn)"

definition init_out :: "32 word \<Rightarrow> 32 word \<Rightarrow> 16 word \<Rightarrow> 16 word \<Rightarrow> 32 word \<Rightarrow> 32 word \<Rightarrow> bytes" where
  \<comment> \<open>\<open>struct fuse_init_out\<close>, version 7.23\<close>
  "init_out ra flags mb ct mw tg = le 4 (7 :: 32 word) @ le 4 (23 :: 32 word) @ le 4 ra @ le 4 flags @ le 2 mb @ le 2 ct @
     le 4 mw @ le 4 tg @ replicate 36 0"

definition init_size :: "32 word \<Rightarrow> nat" where
  "init_size minor = (if minor < 5 then 8 else if minor < 23 then 24 else 64)"

definition FUSE_MIN_READ_BUFFER :: nat where "FUSE_MIN_READ_BUFFER = 8192"

definition init_max_write :: "nat \<Rightarrow> fuse_conn_info \<Rightarrow> fuse_conn_info" where
  "init_max_write bufsize conn =
     (let bufsize = (if bufsize < FUSE_MIN_READ_BUFFER then FUSE_MIN_READ_BUFFER else bufsize) - 4096
      in if bufsize < unat (cn_max_write conn) then conn\<lparr>cn_max_write := of_nat bufsize\<rparr> else conn)"

definition init_reply :: "fuse_conn_info \<Rightarrow> bytes" where
  "init_reply conn =
     init_out (cn_max_readahead conn) (init_flags conn)
       (if cn_proto_minor conn \<ge> 13 then ucast (cn_max_background conn) else 0)
       (if cn_proto_minor conn \<ge> 13 then ucast (cn_congestion_threshold conn) else 0)
       (cn_max_write conn) (if cn_proto_minor conn \<ge> 23 then cn_time_gran conn else 0)"

definition client_init :: "('w, 'm) client \<Rightarrow> ('w, 'm) session_scheme \<Rightarrow> ('w, 'm) session_scheme option" where
  \<comment> \<open>\<open>f->got_init = 1; if (f->op.init) f->op.init(f->userdata, &f->conn);\<close>\<close>
  "client_init c s =
     (let s = upd_ll (\<lambda>f. f\<lparr>ll_got_init := True\<rparr>) s
      in if ll_op (se_f s) Op_init then do { (conn, s) \<leftarrow> run_init c (ll_conn (se_f s)) s; Some (upd_conn (\<lambda>_. conn) s) } else Some s)"

definition ll_init :: "('w, 'm) handler" where
  "ll_init k c r nodeid b s = do {
     major \<leftarrow> u32 b 0;
     minor \<leftarrow> u32 b 4;
     let s = upd_conn (\<lambda>conn. conn\<lparr>cn_proto_major := major, cn_proto_minor := minor, cn_capable := 0, cn_want := 0\<rparr>) s;
     if major < 7 then reply_errno k r EPROTO s
     else if major > 7 then map_option snd (send_reply_ok k r (init_out 0 0 0 0 0 0) s)
     else do {
       (ra, flags) \<leftarrow> (if minor \<ge> 6 then do { ra \<leftarrow> u32 b 8; flags \<leftarrow> u32 b 12; Some (ra, flags) } else Some (0, 0));
       let s = upd_conn (init_capable minor flags ra) s;
       let s = upd_conn (\<lambda>conn. conn\<lparr>cn_want := init_want (se_f s) minor\<rparr>) s;
       let s = upd_conn (init_max_write (ll_bufsize (se_f s))) s;
       s \<leftarrow> client_init c s;
       let s = upd_conn (\<lambda>conn. conn\<lparr>cn_want := init_refuse (se_f s) (cn_want conn)\<rparr>) s;
       let s = upd_conn init_background s;
       map_option snd (send_reply_ok k r (take (init_size minor) (init_reply (ll_conn (se_f s)))) s)
     }
   }"

definition cuse_init_out :: "cuse_data \<Rightarrow> 32 word \<Rightarrow> bytes" where
  \<comment> \<open>\<open>struct cuse_init_out\<close>\<close>
  "cuse_init_out cd mw = le 4 (7 :: 32 word) @ le 4 (23 :: 32 word) @ replicate 4 0 @ le 4 (cd_flags cd) @
     le 4 (cd_max_read cd) @ le 4 mw @ le 4 (cd_dev_major cd) @ le 4 (cd_dev_minor cd) @ replicate 40 0"

definition cuse_reply_init :: "'w kernel \<Rightarrow> nat \<Rightarrow> bytes \<Rightarrow> bytes \<Rightarrow> ('w, 'm) session_scheme \<Rightarrow> (int \<times> ('w, 'm) session_scheme) option" where
  "cuse_reply_init k r arg dev_info s = fuse_send_reply_iov_nofree k r 0 [arg, dev_info] s"

definition cuse_lowlevel_init :: "('w, 'm) handler" where
  "cuse_lowlevel_init k c r nodeid b s = do {
     cd \<leftarrow> ll_cuse_data (se_f s);
     major \<leftarrow> u32 b 0;
     minor \<leftarrow> u32 b 4;
     let s = upd_conn (\<lambda>conn. conn\<lparr>cn_proto_major := major, cn_proto_minor := minor, cn_capable := 0, cn_want := 0\<rparr>) s;
     if major < 7 then reply_errno k r EPROTO s
     else do {
       let s = upd_conn (init_max_write (ll_bufsize (se_f s))) s;
       s \<leftarrow> client_init c s;
       (_, s) \<leftarrow> cuse_reply_init k r (cuse_init_out cd (cn_max_write (ll_conn (se_f s)))) (cd_dev_info cd) s;
       s \<leftarrow> (if cd_init_done cd then run_init_done c s else Some s);
       fuse_free_req k r s
     }
   }"

definition ll_destroy :: "('w, 'm) handler" where
  "ll_destroy k c r nodeid b s = do {
     let s = upd_ll (\<lambda>f. f\<lparr>ll_got_destroy := True\<rparr>) s;
     s \<leftarrow> (if ll_op (se_f s) Op_destroy then run_destroy c s else Some s);
     map_option snd (send_reply_ok k r [] s)
   }"

section \<open>Notifications\<close>

definition send_notify_iov :: "'w kernel \<Rightarrow> nat option \<Rightarrow> int \<Rightarrow> bytes list \<Rightarrow> ('w, 'm) session_scheme \<Rightarrow> (int \<times> ('w, 'm) session_scheme) option" where
  "send_notify_iov k ch notify_code iov s =
     (if \<not> ll_got_init (se_f s) then Some (- ENOTCONN, s) else fuse_send_msg k ch notify_code 0 iov s)"

definition fuse_lowlevel_notify_poll :: "'w kernel \<Rightarrow> nat option \<Rightarrow> ('w, 'm) session_scheme \<Rightarrow> (int \<times> ('w, 'm) session_scheme) option" where
  "fuse_lowlevel_notify_poll k ph s = (case ph of
      None \<Rightarrow> Some (0, s)
    | Some p \<Rightarrow> do { h \<leftarrow> se_polls s p; send_notify_iov k (ph_ch h) 1 [le 8 (ph_kh h)] s })"

definition fuse_lowlevel_notify_inval_inode ::
  "'w kernel \<Rightarrow> fuse_ino_t \<Rightarrow> int \<Rightarrow> int \<Rightarrow> ('w, 'm) session_scheme \<Rightarrow> (int \<times> ('w, 'm) session_scheme) option" where
  \<comment> \<open>a session that is NULL (-EINVAL) and one without its \<open>fuse_ll\<close> (-ENODEV) do not occur here\<close>
  "fuse_lowlevel_notify_inval_inode k ino off len s =
     send_notify_iov k (se_ch s) 2 [le 8 ino @ le 8 (of_int off :: 64 word) @ le 8 (of_int len :: 64 word)] s"

definition fuse_lowlevel_notify_inval_entry ::
  "'w kernel \<Rightarrow> fuse_ino_t \<Rightarrow> string \<Rightarrow> ('w, 'm) session_scheme \<Rightarrow> (int \<times> ('w, 'm) session_scheme) option" where
  \<comment> \<open>the name has its terminator on the wire\<close>
  "fuse_lowlevel_notify_inval_entry k parent name s =
     send_notify_iov k (se_ch s) 3
       [le 8 parent @ le 4 (of_nat (length name) :: 32 word) @ replicate 4 0, map byte_of name @ [0]] s"

definition fuse_lowlevel_notify_delete ::
  "'w kernel \<Rightarrow> fuse_ino_t \<Rightarrow> fuse_ino_t \<Rightarrow> string \<Rightarrow> ('w, 'm) session_scheme \<Rightarrow> (int \<times> ('w, 'm) session_scheme) option" where
  "fuse_lowlevel_notify_delete k parent child name s =
     (if proto_minor s < 18 then Some (- ENOSYS, s)
      else send_notify_iov k (se_ch s) 6
        [le 8 parent @ le 8 child @ le 4 (of_nat (length name) :: 32 word) @ replicate 4 0, map byte_of name @ [0]] s)"

definition fuse_lowlevel_notify_store ::
  "'w kernel \<Rightarrow> nat \<Rightarrow> fuse_ino_t \<Rightarrow> int \<Rightarrow> fuse_bufvec \<Rightarrow> 32 word \<Rightarrow> ('w, 'm) session_scheme \<Rightarrow> (int \<times> ('w, 'm) session_scheme) option" where
  "fuse_lowlevel_notify_store k a ino ofs bufv flags s =
     (if proto_minor s < 15 then Some (- ENOSYS, s)
      else do {
        (res, s) \<leftarrow> fuse_send_data_iov k a (se_ch s) 4 0
          [le 8 ino @ le 8 (of_int ofs :: 64 word) @ le 4 (of_nat (fuse_buf_size bufv) :: 32 word) @ replicate 4 0] bufv flags s;
        Some (if res > 0 then - res else res, s)
      })"

definition list_del_nreq :: "64 word \<Rightarrow> ('w, 'm) session_scheme \<Rightarrow> ('w, 'm) session_scheme" where
  \<comment> \<open>a notification is told from the others by its number\<close>
  "list_del_nreq u = upd_ll (\<lambda>f. f\<lparr>ll_notify_list := filter (\<lambda>n. nq_unique n \<noteq> u) (ll_notify_list f)\<rparr>)"

definition fuse_lowlevel_notify_retrieve ::
  "'w kernel \<Rightarrow> fuse_ino_t \<Rightarrow> nat \<Rightarrow> int \<Rightarrow> nat \<Rightarrow> ('w, 'm) session_scheme \<Rightarrow> (int \<times> ('w, 'm) session_scheme) option" where
  "fuse_lowlevel_notify_retrieve k ino sz ofs cookie s =
     (if proto_minor s < 15 then Some (- ENOSYS, s)
      else let (ok, s) = llmalloc s
        in if \<not> ok then Some (- ENOMEM, s)
           else do {
             let u = ll_notify_ctr (se_f s);
             let s = upd_ll (\<lambda>f. f\<lparr>ll_notify_ctr := u + 1,
               ll_notify_list := ll_notify_list f @ [\<lparr>nq_unique = u, nq_cookie = cookie\<rparr>]\<rparr>) s;
             (err, s) \<leftarrow> send_notify_iov k (se_ch s) 5
               [le 8 u @ le 8 ino @ le 8 (of_int ofs :: 64 word) @ le 4 (of_nat sz :: 32 word) @ replicate 4 0] s;
             Some (err, if err \<noteq> 0 then list_del_nreq u s else s)
           })"

definition fuse_ll_retrieve_reply ::
  "'w kernel \<Rightarrow> ('w, 'm) client \<Rightarrow> fuse_notify_req \<Rightarrow> nat \<Rightarrow> fuse_ino_t \<Rightarrow> bytes \<Rightarrow> nat \<Rightarrow> fuse_buf \<Rightarrow> ('w, 'm) session_scheme \<Rightarrow> ('w, 'm) session_scheme option" where
  \<comment> \<open>\<open>p\<close>: the address of the argument; the sizes of \<open>fuse_in_header\<close> and \<open>fuse_notify_retrieve_in\<close> are 40\<close>
  "fuse_ll_retrieve_reply k c nreq r ino b p ibuf s = do {
     let buf = ibuf\<lparr>buf_mem := (if has (buf_flags ibuf) FUSE_BUF_IS_FD then buf_mem ibuf else p + 40),
       buf_size := sub64 (buf_size ibuf) 80\<rparr>;
     sz \<leftarrow> u32 b 16;
     let bufv = \<lparr>bv_count = 1, bv_idx = 0, bv_off = 0, bv_buf = [buf\<lparr>buf_size := unat sz\<rparr>]\<rparr>;
     (bufv, s) \<leftarrow> (if buf_size buf < unat sz then do { s \<leftarrow> fuse_reply_none k r s; Some (bufv, s) }
       else if ll_op (se_f s) Op_retrieve_reply then do {
         ofs \<leftarrow> u64 b 8;
         run_buf c r (B_retrieve_reply (nq_cookie nreq) ino (sint ofs)) bufv s
       } else do { s \<leftarrow> fuse_reply_none k r s; Some (bufv, s) });
     Some (if has (buf_flags ibuf) FUSE_BUF_IS_FD \<and> bv_idx bufv < bv_count bufv then fuse_ll_clear_pipe k s else s)
   }"

definition do_notify_reply ::
  "'w kernel \<Rightarrow> ('w, 'm) client \<Rightarrow> nat \<Rightarrow> fuse_ino_t \<Rightarrow> bytes \<Rightarrow> nat \<Rightarrow> fuse_buf \<Rightarrow> ('w, 'm) session_scheme \<Rightarrow> ('w, 'm) session_scheme option" where
  "do_notify_reply k c r nodeid b p buf s = do {
     req \<leftarrow> se_reqs s r;
     case List.find (\<lambda>n. nq_unique n = rq_unique req) (ll_notify_list (se_f s)) of
       None \<Rightarrow> Some s
     | Some n \<Rightarrow> fuse_ll_retrieve_reply k c n r nodeid b p buf (list_del_nreq (nq_unique n) s)
   }"

section \<open>Processing a request\<close>

abbreviation (input) FUSE_INIT :: nat where "FUSE_INIT \<equiv> 26"
abbreviation (input) CUSE_INIT :: nat where "CUSE_INIT \<equiv> 4096"
abbreviation (input) FUSE_WRITE :: nat where "FUSE_WRITE \<equiv> 16"
abbreviation (input) FUSE_INTERRUPT :: nat where "FUSE_INTERRUPT \<equiv> 36"
abbreviation (input) FUSE_NOTIFY_REPLY :: nat where "FUSE_NOTIFY_REPLY \<equiv> 41"

definition fuse_ll_ops :: "nat \<Rightarrow> (bytes \<Rightarrow> nat \<Rightarrow> ('w, 'm) handler) option" where
  \<comment> \<open>the table of functions by opcode; the first two arguments are for WRITE only, which also passes the
      address of its data. NOTIFY_REPLY has an entry that is never called\<close>
  "fuse_ll_ops op = map_of (map (\<lambda>(i, h). (i, \<lambda>_ _. h)) [
     (1, ll_lookup), (2, ll_forget), (3, ll_getattr), (4, ll_setattr), (5, ll_readlink), (6, ll_symlink),
     (8, ll_mknod), (9, ll_mkdir), (10, ll_unlink), (11, ll_rmdir), (12, ll_rename), (13, ll_link), (14, ll_open),
     (15, ll_read), (17, ll_statfs), (18, ll_release), (20, ll_fsync), (21, ll_setxattr), (22, ll_getxattr),
     (23, ll_listxattr), (24, ll_removexattr), (25, ll_flush), (26, ll_init), (27, ll_opendir), (28, ll_readdir),
     (29, ll_releasedir), (30, ll_fsyncdir), (31, ll_getlk), (32, ll_setlk), (33, ll_setlkw), (34, ll_access),
     (35, ll_create), (36, ll_interrupt), (37, ll_bmap), (38, ll_destroy), (39, ll_ioctl), (40, ll_poll),
     (42, ll_batch_forget), (43, ll_fallocate), (44, ll_readdirplus), (45, ll_rename2), (4096, cuse_lowlevel_init)] @
     [(16, \<lambda>b p k c r ino _ s. ll_write k c r ino b p s), (41, \<lambda>_ _ _ _ _ _ _ _. None)]) op"

definition refused :: "fuse_ll \<Rightarrow> nat \<Rightarrow> 32 word \<Rightarrow> int option" where
  \<comment> \<open>the error a request is refused with before it is looked at\<close>
  "refused f op uid =
     (if \<not> ll_got_init f \<and> op \<noteq> (if ll_cuse_data f \<noteq> None then CUSE_INIT else FUSE_INIT) then Some EIO
      else if ll_got_init f \<and> (op = FUSE_INIT \<or> op = CUSE_INIT) then Some EIO
      else if ll_allow_root f \<and> uid \<noteq> ll_owner f \<and> uid \<noteq> 0 \<and> op \<notin> {26, 15, 16, 20, 18, 28, 30, 29, 41, 44} then Some 13
      else if (fuse_ll_ops op :: (bytes \<Rightarrow> nat \<Rightarrow> (unit, unit) handler) option) = None then Some ENOSYS
      else None)"

definition fuse_ll_copy_from_pipe ::
  "'w kernel \<Rightarrow> nat \<Rightarrow> fuse_bufvec \<Rightarrow> fuse_bufvec \<Rightarrow> ('w, 'm) session_scheme \<Rightarrow> (int \<times> fuse_bufvec \<times> ('w, 'm) session_scheme) option" where
  "fuse_ll_copy_from_pipe k a dst src s = do {
     (res, dst', src, th) \<leftarrow> fuse_buf_copy k a False dst src 0 (se_thread s);
     let s = s\<lparr>se_thread := th\<rparr>;
     let res = to_int32 res;
     Some (if res < 0 then res else if nat res < fuse_buf_size dst' then - 1 else 0, src, s)
   }"

definition get_header ::
  "'w kernel \<Rightarrow> nat \<Rightarrow> fuse_buf \<Rightarrow> ('w, 'm) session_scheme \<Rightarrow> (((nat \<times> nat) option \<times> fuse_bufvec) \<times> ('w, 'm) session_scheme) option" where
  \<comment> \<open>where the header of the request is, and how many bytes there are: the message itself, or a copy
      of its first 80 bytes from the pipe\<close>
  "get_header k a buf s =
     (let bufv = \<lparr>bv_count = 1, bv_idx = 0, bv_off = 0, bv_buf = [buf]\<rparr>
      in if has (buf_flags buf) FUSE_BUF_IS_FD then
           let n = min (buf_size buf) 80; (p, s) = posix_memalign n s
           in case p of
                None \<Rightarrow> Some ((None, bufv), s)
              | Some p \<Rightarrow> do {
                  (res, bufv, s) \<leftarrow> fuse_ll_copy_from_pipe k a (mem_bufvec p n) bufv s;
                  Some ((if res < 0 then None else Some (p, n), bufv), s)
                }
         else Some ((Some (buf_mem buf, buf_size buf), bufv), s))"

definition get_rest ::
  "'w kernel \<Rightarrow> nat \<Rightarrow> fuse_buf \<Rightarrow> bool \<Rightarrow> nat \<times> nat \<Rightarrow> fuse_bufvec \<Rightarrow> ('w, 'm) session_scheme \<Rightarrow> ((int + nat \<times> nat) \<times> ('w, 'm) session_scheme) option" where
  \<comment> \<open>the rest of a message in the pipe, unless it is the data of a write for \<open>write_buf\<close>\<close>
  "get_rest k a buf keep loc bufv s =
     (if has (buf_flags buf) FUSE_BUF_IS_FD \<and> 80 < buf_size buf \<and> \<not> keep then
        let (q, s) = posix_memalign (buf_size buf) s
        in case q of
             None \<Rightarrow> Some (Inl ENOMEM, s)
           | Some q \<Rightarrow> do {
               let s = s\<lparr>se_thread := store q (load (se_thread s) (fst loc) (snd loc)) (se_thread s)\<rparr>;
               (res, _, s) \<leftarrow> fuse_ll_copy_from_pipe k a (mem_bufvec (q + 80) (buf_size buf - 80)) bufv s;
               Some (if res < 0 then Inl (- res) else Inr (q, buf_size buf), s)
             }
      else Some (Inr loc, s))"

definition clear_if_fd :: "'w kernel \<Rightarrow> fuse_buf \<Rightarrow> ('w, 'm) session_scheme \<Rightarrow> ('w, 'm) session_scheme" where
  "clear_if_fd k buf s = (if has (buf_flags buf) FUSE_BUF_IS_FD then fuse_ll_clear_pipe k s else s)"

definition take_interrupt :: "'w kernel \<Rightarrow> nat \<Rightarrow> nat \<Rightarrow> ('w, 'm) session_scheme \<Rightarrow> ('w, 'm) session_scheme option" where
  \<comment> \<open>unless it is an interrupt itself, the request joins the list, and an interrupt that waits for an
      earlier one is sent back\<close>
  "take_interrupt k r op s =
     (if op = FUSE_INTERRUPT then Some s
      else do {
        (intr, s) \<leftarrow> check_interrupt r s;
        let s = upd_ll (\<lambda>f. f\<lparr>ll_list := ll_list f @ [r]\<rparr>) s;
        case intr of None \<Rightarrow> Some s | Some q \<Rightarrow> reply_errno k q EAGAIN s
      })"

definition fuse_session_process_buf_int ::
  "'w kernel \<Rightarrow> ('w, 'm) client \<Rightarrow> nat \<Rightarrow> fuse_buf \<Rightarrow> nat \<Rightarrow> ('w, 'm) session_scheme \<Rightarrow> ('w, 'm) session_scheme option" where
  \<comment> \<open>\<open>ch\<close>: the channel; the message is the bytes that were received\<close>
  "fuse_session_process_buf_int k c a buf ch s = do {
     ((loc, bufv), s) \<leftarrow> get_header k a buf s;
     case loc of
       None \<Rightarrow> Some (clear_if_fd k buf s)
     | Some loc \<Rightarrow> do {
         let m = load (se_thread s) (fst loc) (snd loc);
         op \<leftarrow> u32 m 4; unique \<leftarrow> u64 m 8; nodeid \<leftarrow> u64 m 16; uid \<leftarrow> u32 m 24; gid \<leftarrow> u32 m 28; pid \<leftarrow> u32 m 32;
         let op = unat op;
         (case fuse_ll_alloc_req s of
            (None, s) \<Rightarrow> do { (_, s) \<leftarrow> fuse_send_msg k (Some ch) (- ENOMEM) unique [] s; Some (clear_if_fd k buf s) }
          | (Some r, s) \<Rightarrow> do {
              s \<leftarrow> fuse_chan_get ch s;
              let s = upd_req r (\<lambda>q. q\<lparr>rq_unique := unique, rq_ch := Some ch,
                rq_ctx := \<lparr>cx_uid = uid, cx_gid = gid, cx_pid = sint pid, cx_umask = 0\<rparr>\<rparr>) s;
              (case refused (se_f s) op uid of
                 Some err \<Rightarrow> do { s \<leftarrow> reply_errno k r err s; Some (clear_if_fd k buf s) }
               | None \<Rightarrow> do {
                   s \<leftarrow> take_interrupt k r op s;
                   (res, s) \<leftarrow> get_rest k a buf (op = FUSE_WRITE \<and> ll_op (se_f s) Op_write_buf \<or> op = FUSE_NOTIFY_REPLY) loc bufv s;
                   (case res of
                      Inl err \<Rightarrow> do { s \<leftarrow> reply_errno k r err s; Some (clear_if_fd k buf s) }
                    | Inr loc \<Rightarrow> do {
                        let b = drop 40 (load (se_thread s) (fst loc) (snd loc));
                        if op = FUSE_WRITE \<and> ll_op (se_f s) Op_write_buf then ll_write_buf k c r nodeid b (fst loc + 40) buf s
                        else if op = FUSE_NOTIFY_REPLY then do_notify_reply k c r nodeid b (fst loc + 40) buf s
                        else do { h \<leftarrow> fuse_ll_ops op; h b (fst loc + 40) k c r nodeid b s }
                      })
                 })
            })
       }
   }"

section \<open>Receiving a request\<close>

partial_function (option) receive_loop :: "'w kernel \<Rightarrow> int \<Rightarrow> nat \<Rightarrow> ('w, 'm) session_scheme \<Rightarrow> ((reply \<times> int) \<times> ('w, 'm) session_scheme) option" where
  \<comment> \<open>read until the error is not ENOENT: that request was interrupted; \<open>None\<close>: this never ends\<close>
  "receive_loop k fd mem s =
     (let (r, s) = llsys k (SysRead fd (ll_bufsize (se_f s))) s;
          s = (case r_data r of ByteData b \<Rightarrow> s\<lparr>se_thread := store mem (take (nat (r_ret r)) b) (se_thread s)\<rparr> | _ \<Rightarrow> s);
          err = p_errno (se_thread s)
      in if \<not> se_exited s \<and> r_ret r = - 1 \<and> err = ENOENT then receive_loop k fd mem s else Some ((r, err), s))"

definition received :: "int \<Rightarrow> int \<Rightarrow> ('w, 'm) session_scheme \<Rightarrow> (int \<times> ('w, 'm) session_scheme) option" where
  \<comment> \<open>what follows both ways to receive when it is already clear that there is no request;
      \<open>None\<close>: there is one\<close>
  "received res err s =
     (if se_exited s then Some (0, s)
      else if res = - 1 then Some (if err = ENODEV then (0, s\<lparr>se_exited := True\<rparr>) else (- err, s))
      else if res < 40 then Some (- EIO, s)
      else None)"

definition need_memory :: "fuse_buf \<Rightarrow> bool \<Rightarrow> ('w, 'm) session_scheme \<Rightarrow> (nat option \<times> bool) \<times> ('w, 'm) session_scheme" where
  \<comment> \<open>\<open>if (!buf->mem) buf->mem = malloc(f->bufsize);\<close> the flag says whether the buffer has memory\<close>
  "need_memory buf hasmem s =
     (if hasmem then ((Some (buf_mem buf), True), s)
      else let (p, s) = posix_memalign (ll_bufsize (se_f s)) s in ((p, p \<noteq> None), s))"

definition receive_read :: "'w kernel \<Rightarrow> fuse_buf \<Rightarrow> bool \<Rightarrow> nat \<Rightarrow> ('w, 'm) session_scheme \<Rightarrow> (int \<times> fuse_buf \<times> bool \<times> ('w, 'm) session_scheme) option" where
  \<comment> \<open>from the label \<open>fallback\<close> on\<close>
  "receive_read k buf hasmem ch s = do {
     chan \<leftarrow> se_chans s ch;
     let ((p, hasmem), s) = need_memory buf hasmem s;
     case p of
       None \<Rightarrow> Some (- ENOMEM, buf, hasmem, s)
     | Some p \<Rightarrow> do {
         let buf = buf\<lparr>buf_mem := p\<rparr>;
         ((r, err), s) \<leftarrow> receive_loop k (ch_fd chan) p s;
         (case received (r_ret r) err s of
            Some (res, s) \<Rightarrow> Some (res, buf, hasmem, s)
          | None \<Rightarrow> Some (to_int32 (r_ret r), buf\<lparr>buf_size := nat (r_ret r)\<rparr>, hasmem, s))
       }
   }"

definition unsplice ::
  "'w kernel \<Rightarrow> nat \<Rightarrow> fuse_buf \<Rightarrow> bool \<Rightarrow> fuse_buf \<Rightarrow> ('w, 'm) session_scheme \<Rightarrow> (int \<times> fuse_buf \<times> bool \<times> ('w, 'm) session_scheme) option" where
  \<comment> \<open>a small request is copied out of the pipe\<close>
  "unsplice k a buf hasmem tmpbuf s = do {
     let ((p, hasmem), s) = need_memory buf hasmem s;
     case p of
       None \<Rightarrow> Some (- ENOMEM, buf, hasmem, s)
     | Some p \<Rightarrow> do {
         let buf = buf\<lparr>buf_mem := p, buf_size := ll_bufsize (se_f s), buf_flags := 0\<rparr>;
         (res, _, s) \<leftarrow> copy_buf k a \<lparr>bv_count = 1, bv_idx = 0, bv_off = 0, bv_buf = [buf]\<rparr>
           \<lparr>bv_count = 1, bv_idx = 0, bv_off = 0, bv_buf = [tmpbuf]\<rparr> 0 s;
         if res < 0 then Some (to_int32 res, buf, hasmem, fuse_ll_clear_pipe k s)
         else if nat res < buf_size tmpbuf then Some (- EIO, buf, hasmem, fuse_ll_clear_pipe k s)
         else if nat res = buf_size tmpbuf then Some (to_int32 res, buf\<lparr>buf_size := buf_size tmpbuf\<rparr>, hasmem, s)
         else None
       }
   }"

definition fuse_session_receive_buf_int ::
  "'w kernel \<Rightarrow> nat \<Rightarrow> fuse_buf \<Rightarrow> bool \<Rightarrow> nat \<Rightarrow> ('w, 'm) session_scheme \<Rightarrow> (int \<times> fuse_buf \<times> bool \<times> ('w, 'm) session_scheme) option" where
  \<comment> \<open>the flag: whether \<open>buf->mem\<close> is set\<close>
  "fuse_session_receive_buf_int k a buf hasmem ch s =
     (if proto_minor s < 14 \<or> \<not> wants s FUSE_CAP_SPLICE_READ then receive_read k buf hasmem ch s
      else let (p, s) = fuse_ll_get_pipe k s
        in case p of
             None \<Rightarrow> receive_read k buf hasmem ch s
           | Some llp \<Rightarrow>
               (let (ok, s) = grow_pipe k llp (ll_bufsize (se_f s)) s
                in if \<not> ok then receive_read k buf hasmem ch s
                   else do {
                     chan \<leftarrow> se_chans s ch;
                     let (r, s) = llsys k (SysSplice (ch_fd chan) None (lp_out llp) None (ll_bufsize (se_f s)) 0) s;
                     (case received (r_ret r) (p_errno (se_thread s)) s of
                        Some (res, s) \<Rightarrow> Some (res, buf, hasmem, s)
                      | None \<Rightarrow>
                          (let tmpbuf = \<lparr>buf_size = nat (r_ret r), buf_flags = FUSE_BUF_IS_FD, buf_mem = 0, buf_fd = lp_in llp, buf_pos = 0\<rparr>
                           in if nat (r_ret r) < 40 + 40 + 4096 then unsplice k a buf hasmem tmpbuf s
                              else Some (to_int32 (r_ret r), buf\<lparr>buf_fd := buf_fd tmpbuf, buf_flags := buf_flags tmpbuf, buf_size := buf_size tmpbuf\<rparr>,
                                hasmem, s)))
                   }))"

definition fuse_session_process_buf :: "'w kernel \<Rightarrow> ('w, 'm) client \<Rightarrow> nat \<Rightarrow> fuse_buf \<Rightarrow> ('w, 'm) session_scheme \<Rightarrow> ('w, 'm) session_scheme option" where
  "fuse_session_process_buf k c a buf s = do { ch \<leftarrow> se_ch s; fuse_session_process_buf_int k c a buf ch s }"

definition fuse_session_receive_buf ::
  "'w kernel \<Rightarrow> nat \<Rightarrow> fuse_buf \<Rightarrow> bool \<Rightarrow> ('w, 'm) session_scheme \<Rightarrow> (int \<times> fuse_buf \<times> bool \<times> ('w, 'm) session_scheme) option" where
  "fuse_session_receive_buf k a buf hasmem s = do { ch \<leftarrow> se_ch s; fuse_session_receive_buf_int k a buf hasmem ch s }"

end
