(* ===== verification/Serve.thy ===== *)
theory Serve
  imports Ll_Session Dirents
begin

text \<open>
  The two layers together: the answers of the handlers of src/lib/fuse.c are the replies of
  src/lib/fuse_lowlevel.c, and the client of the session is the table \<open>fuse_path_ops\<close>. For the
  handlers the session is part of the world the thread acts on (\<open>to_thread\<close>), so that a reply, which
  writes a message and frees the request, is an action of the thread.
\<close>

section \<open>Answers\<close>

definition ll_answer ::
  "'w kernel \<Rightarrow> nat \<Rightarrow> nat \<Rightarrow> answer \<Rightarrow> ('w, 'm) session_scheme \<Rightarrow> (int \<times> ('w, 'm) session_scheme) option" where
  "ll_answer k a r ans s = (case ans of
      Reply_err err \<Rightarrow> fuse_reply_err k r err s
    | Reply_none \<Rightarrow> map_option (Pair 0) (fuse_reply_none k r s)
    | Reply_entry e \<Rightarrow> fuse_reply_entry k r e s
    | Reply_create e fi \<Rightarrow> fuse_reply_create k r e fi s
    | Reply_attr st t \<Rightarrow> fuse_reply_attr k r st t s
    | Reply_readlink b \<Rightarrow> fuse_reply_readlink k r b s
    | Reply_open fi \<Rightarrow> fuse_reply_open k r fi s
    | Reply_write n \<Rightarrow> fuse_reply_write k r n s
    | Reply_buf b \<Rightarrow> fuse_reply_buf k r b s
    | Reply_data v flags \<Rightarrow> fuse_reply_data k a r v flags s
    | Reply_statfs st \<Rightarrow> fuse_reply_statfs k r st s
    | Reply_xattr n \<Rightarrow> fuse_reply_xattr k r n s
    | Reply_lock lk \<Rightarrow> fuse_reply_lock k r lk s
    | Reply_bmap i \<Rightarrow> fuse_reply_bmap k r i s
    | Reply_ioctl res b \<Rightarrow> fuse_reply_ioctl k r res b s
    | Reply_poll ev \<Rightarrow> fuse_reply_poll k r ev s)"

section \<open>The session as a part of the world\<close>

type_synonym 'w world = "'w \<times> 'w session"

definition to_thread :: "'w session \<Rightarrow> 'w world thread" where
  "to_thread s = (let th = se_thread s in
     \<lparr>p_world = (p_world th, s), p_errno = p_errno th, b_mem = b_mem th, t_context = t_context th,
      t_private = t_private th, t_brk = t_brk th, t_mem = t_mem th\<rparr>)"

definition of_thread :: "'w world thread \<Rightarrow> 'w session" where
  "of_thread th = (snd (p_world th))\<lparr>se_thread :=
     \<lparr>p_world = fst (p_world th), p_errno = p_errno th, b_mem = b_mem th, t_context = t_context th,
      t_private = t_private th, t_brk = t_brk th, t_mem = t_mem th\<rparr>\<rparr>"

lemma of_to_thread [simp]: "of_thread (to_thread s) = s"
  by (simp add: of_thread_def to_thread_def Let_def)

definition world_kernel :: "'w kernel \<Rightarrow> 'w world kernel" where
  "world_kernel k c w = (let (r, v) = k c (fst w) in (r, (v, snd w)))"

definition send_answer :: "'w kernel \<Rightarrow> nat \<Rightarrow> nat \<Rightarrow> answer \<Rightarrow> 'w world thread \<Rightarrow> int \<times> 'w world thread" where
  \<comment> \<open>when the reply fails an assertion the process ends; the thread is then left as it was\<close>
  "send_answer k a r ans th = (case ll_answer k a r ans (of_thread th) of
      Some (res, s) \<Rightarrow> (res, to_thread s) | None \<Rightarrow> (0, th))"

definition ll_request ::
  "'w kernel \<Rightarrow> (nat \<Rightarrow> env) \<Rightarrow> nat \<Rightarrow> nat \<Rightarrow> nat \<Rightarrow> fuse_context \<Rightarrow> 'w world request" where
  "ll_request k w t a r ctx = \<lparr>n_kernel = world_kernel k, n_wait = w, n_ticket = t, n_stack = a, n_ctx = ctx,
     n_reply = send_answer k a r\<rparr>"

section \<open>The client of the session\<close>

record 'w fsession = "'w session" +
  \<comment> \<open>\<open>f->userdata\<close>: the library; its \<open>l_thread\<close> is the session's thread\<close>
  se_lib :: "'w world dlib"

definition fuse_path_ops :: "llop \<Rightarrow> bool" where
  "fuse_path_ops op \<longleftrightarrow> op \<noteq> Op_write \<and> op \<noteq> Op_retrieve_reply"

fun fuse_lib_call :: "'w request \<Rightarrow> call \<Rightarrow> 'w dlib \<Rightarrow> 'w dlib option" where
  "fuse_lib_call e (C_lookup i n) x = fuse_lib_lookup e i n x"
| "fuse_lib_call e (C_forget i k) x = fuse_lib_forget e i k x"
| "fuse_lib_call e (C_forget_multi l) x = fuse_lib_forget_multi e l x"
| "fuse_lib_call e (C_getattr i fi) x = fuse_lib_getattr e i fi x"
| "fuse_lib_call e (C_setattr i st v fi) x = fuse_lib_setattr e i st v fi x"
| "fuse_lib_call e (C_access i m) x = fuse_lib_access e i m x"
| "fuse_lib_call e (C_readlink i) x = fuse_lib_readlink e i x"
| "fuse_lib_call e (C_mknod i n m rdev) x = fuse_lib_mknod e i n m rdev x"
| "fuse_lib_call e (C_mkdir i n m) x = fuse_lib_mkdir e i n m x"
| "fuse_lib_call e (C_unlink i n) x = fuse_lib_unlink e i n x"
| "fuse_lib_call e (C_rmdir i n) x = fuse_lib_rmdir e i n x"
| "fuse_lib_call e (C_symlink l i n) x = fuse_lib_symlink e l i n x"
| "fuse_lib_call e (C_rename i n j m fl) x = fuse_lib_rename e i n j m fl x"
| "fuse_lib_call e (C_link i j n) x = fuse_lib_link e i j n x"
| "fuse_lib_call e (C_create i n m fi) x = fuse_lib_create e i n m fi x"
| "fuse_lib_call e (C_open i fi) x = fuse_lib_open e i fi x"
| "fuse_lib_call e (C_read i sz off fi) x = fuse_lib_read e i sz off fi x"
| "fuse_lib_call e (C_write i p sz off fi) x = None"
| "fuse_lib_call e (C_flush i fi) x = fuse_lib_flush e i fi x"
| "fuse_lib_call e (C_release i fi) x = fuse_lib_release e i fi x"
| "fuse_lib_call e (C_fsync i d fi) x = fuse_lib_fsync e i d fi x"
| "fuse_lib_call e (C_opendir i fi) x = fuse_lib_opendir e i fi x"
| "fuse_lib_call e (C_readdir i sz off fi) x = fuse_lib_readdir e i sz off fi x"
| "fuse_lib_call e (C_readdirplus i sz off fi) x = fuse_lib_readdirplus e i sz off fi x"
| "fuse_lib_call e (C_releasedir i fi) x = fuse_lib_releasedir e i fi x"
| "fuse_lib_call e (C_fsyncdir i d fi) x = fuse_lib_fsyncdir e i d fi x"
| "fuse_lib_call e (C_statfs i) x = fuse_lib_statfs e i x"
| "fuse_lib_call e (C_setxattr i n v fl) x = fuse_lib_setxattr e i n v fl x"
| "fuse_lib_call e (C_getxattr i n sz) x = fuse_lib_getxattr e i n sz x"
| "fuse_lib_call e (C_listxattr i sz) x = fuse_lib_listxattr e i sz x"
| "fuse_lib_call e (C_removexattr i n) x = fuse_lib_removexattr e i n x"
| "fuse_lib_call e (C_getlk i fi lk) x = fuse_lib_getlk e i fi lk x"
| "fuse_lib_call e (C_setlk i fi lk sl) x = fuse_lib_setlk e i fi lk sl x"
| "fuse_lib_call e (C_flock i fi op) x = fuse_lib_flock e i fi op x"
| "fuse_lib_call e (C_bmap i bs idx) x = fuse_lib_bmap e i bs idx x"
| "fuse_lib_call e (C_ioctl i cmd arg fi fl b osz) x = fuse_lib_ioctl e i cmd arg fi fl b osz x"
| "fuse_lib_call e (C_poll i fi ph) x = fuse_lib_poll e i fi ph x"
| "fuse_lib_call e (C_fallocate i m off len fi) x = fuse_lib_fallocate e i m off len fi x"

definition lib_of :: "('w, 'm) fsession_scheme \<Rightarrow> 'w world dlib" where
  "lib_of s = (se_lib s)\<lparr>l_thread := to_thread (session.truncate s)\<rparr>"

definition with_lib :: "'w world dlib \<Rightarrow> 'w fsession \<Rightarrow> 'w fsession" where
  "with_lib x s = (session.extend (of_thread (l_thread x)) (session.more s))\<lparr>se_lib := x\<rparr>"

definition fuse_client :: "'w kernel \<Rightarrow> (nat \<Rightarrow> env) \<Rightarrow> nat \<Rightarrow> nat \<Rightarrow> (fuse_bufvec \<Rightarrow> fuse_bufvec) \<Rightarrow> ('w, \<lparr>se_lib :: 'w world dlib\<rparr>) client" where
  \<comment> \<open>\<open>rest\<close>: what \<open>write_buf\<close> leaves of the vector, which the model of the callbacks does not tell; the
      handlers' interrupt function sends a signal to the thread that serves the request: not modelled\<close>
  "fuse_client k w t a rest = \<lparr>
     run = (\<lambda>r c s. do {
       req \<leftarrow> se_reqs s r;
       x \<leftarrow> fuse_lib_call (ll_request k w t a r (rq_ctx req)) c (lib_of s);
       Some (with_lib x s)
     }),
     run_buf = (\<lambda>r c v s. case c of
         B_write i off fi \<Rightarrow> do {
           req \<leftarrow> se_reqs s r;
           x \<leftarrow> fuse_lib_write_buf (ll_request k w t a r (rq_ctx req)) i v off fi (lib_of s);
           Some (rest v, with_lib x s)
         }
       | B_retrieve_reply _ _ _ \<Rightarrow> None),
     run_init = (\<lambda>conn s. do { (conn, x) \<leftarrow> fuse_lib_init conn (lib_of s); Some (conn, with_lib x s) }),
     run_destroy = (\<lambda>s. do { x \<leftarrow> fuse_lib_destroy (lib_of s); Some (with_lib x s) }),
     run_init_done = (\<lambda>s. Some s),
     run_intr = (\<lambda>g r s. Some s)\<rparr>"

end
