(* ===== verification/Ll_New.thy ===== *)
theory Ll_New
  imports Ll_Session
begin

text \<open>
  The life of a session, src/lib/fuse_lowlevel.c: its options and creation, mounting and unmounting,
  its end; the groups of the process that sent a request; and the session loop of one thread,
  src/lib/fuse_loop.c.
\<close>

section \<open>Options\<close>

definition ll_flag :: "string \<Rightarrow> (bool \<Rightarrow> fuse_ll \<Rightarrow> fuse_ll) \<Rightarrow> int \<Rightarrow> fuse_ll fuse_opt" where
  "ll_flag t g v = int_opt t (\<lambda>i. g (i \<noteq> 0)) v"

definition ll_conn_opt :: "string \<Rightarrow> (32 word \<Rightarrow> fuse_conn_info \<Rightarrow> fuse_conn_info) \<Rightarrow> int \<Rightarrow> fuse_ll fuse_opt" where
  "ll_conn_opt t g v = int_opt t (\<lambda>i f. f\<lparr>ll_conn := g (of_int i) (ll_conn f)\<rparr>) v"

definition fuse_ll_opts :: "fuse_ll fuse_opt list" where
  "fuse_ll_opts = [
     ll_flag ''debug'' (\<lambda>b f. f\<lparr>ll_debug := b\<rparr>) 1,
     ll_flag ''-d'' (\<lambda>b f. f\<lparr>ll_debug := b\<rparr>) 1,
     ll_flag ''allow_root'' (\<lambda>b f. f\<lparr>ll_allow_root := b\<rparr>) 1,
     ll_conn_opt ''max_write=%u'' (\<lambda>n c. c\<lparr>cn_max_write := n\<rparr>) 0,
     ll_conn_opt ''max_readahead=%u'' (\<lambda>n c. c\<lparr>cn_max_readahead := n\<rparr>) 0,
     ll_conn_opt ''max_background=%u'' (\<lambda>n c. c\<lparr>cn_max_background := n\<rparr>) 0,
     ll_conn_opt ''congestion_threshold=%u'' (\<lambda>n c. c\<lparr>cn_congestion_threshold := n\<rparr>) 0,
     ll_conn_opt ''async_read'' (\<lambda>n c. c\<lparr>cn_async_read := n\<rparr>) 1,
     ll_conn_opt ''sync_read'' (\<lambda>n c. c\<lparr>cn_async_read := n\<rparr>) 0,
     ll_flag ''atomic_o_trunc'' (\<lambda>b f. f\<lparr>ll_atomic_o_trunc := b\<rparr>) 1,
     ll_flag ''no_remote_lock'' (\<lambda>b f. f\<lparr>ll_no_remote_posix_lock := b\<rparr>) 1,
     ll_flag ''no_remote_lock'' (\<lambda>b f. f\<lparr>ll_no_remote_flock := b\<rparr>) 1,
     ll_flag ''no_remote_flock'' (\<lambda>b f. f\<lparr>ll_no_remote_flock := b\<rparr>) 1,
     ll_flag ''no_remote_posix_lock'' (\<lambda>b f. f\<lparr>ll_no_remote_posix_lock := b\<rparr>) 1,
     ll_flag ''big_writes'' (\<lambda>b f. f\<lparr>ll_big_writes := b\<rparr>) 1,
     ll_flag ''splice_write'' (\<lambda>b f. f\<lparr>ll_splice_write := b\<rparr>) 1,
     ll_flag ''no_splice_write'' (\<lambda>b f. f\<lparr>ll_no_splice_write := b\<rparr>) 1,
     ll_flag ''splice_move'' (\<lambda>b f. f\<lparr>ll_splice_move := b\<rparr>) 1,
     ll_flag ''no_splice_move'' (\<lambda>b f. f\<lparr>ll_no_splice_move := b\<rparr>) 1,
     ll_flag ''splice_read'' (\<lambda>b f. f\<lparr>ll_splice_read := b\<rparr>) 1,
     ll_flag ''no_splice_read'' (\<lambda>b f. f\<lparr>ll_no_splice_read := b\<rparr>) 1,
     ll_flag ''auto_inval_data'' (\<lambda>b f. f\<lparr>ll_auto_inval_data := b\<rparr>) 1,
     ll_flag ''no_auto_inval_data'' (\<lambda>b f. f\<lparr>ll_no_auto_inval_data := b\<rparr>) 1,
     ll_flag ''readdirplus=no'' (\<lambda>b f. f\<lparr>ll_no_readdirplus := b\<rparr>) 1,
     ll_flag ''readdirplus=yes'' (\<lambda>b f. f\<lparr>ll_no_readdirplus := b\<rparr>) 0,
     ll_flag ''readdirplus=yes'' (\<lambda>b f. f\<lparr>ll_no_readdirplus_auto := b\<rparr>) 1,
     ll_flag ''readdirplus=auto'' (\<lambda>b f. f\<lparr>ll_no_readdirplus := b\<rparr>) 0,
     ll_flag ''readdirplus=auto'' (\<lambda>b f. f\<lparr>ll_no_readdirplus_auto := b\<rparr>) 0,
     ll_flag ''async_dio'' (\<lambda>b f. f\<lparr>ll_async_dio := b\<rparr>) 1,
     ll_flag ''no_async_dio'' (\<lambda>b f. f\<lparr>ll_no_async_dio := b\<rparr>) 1,
     ll_flag ''writeback_cache'' (\<lambda>b f. f\<lparr>ll_writeback_cache := b\<rparr>) 1,
     ll_flag ''no_writeback_cache'' (\<lambda>b f. f\<lparr>ll_no_writeback_cache := b\<rparr>) 1,
     ll_conn_opt ''time_gran=%u'' (\<lambda>n c. c\<lparr>cn_time_gran := n\<rparr>) 0,
     ll_flag ''clone_fd'' (\<lambda>b f. f\<lparr>ll_clone_fd := b\<rparr>) 1]"

definition fuse_ll_opt_proc :: "fuse_ll opt_proc" where
  "fuse_ll_opt_proc d arg key outargs m = Some (1, d, outargs, m)"

section \<open>Creation\<close>

definition zero_conn :: fuse_conn_info where
  "zero_conn = \<lparr>cn_proto_major = 0, cn_proto_minor = 0, cn_async_read = 0, cn_max_write = 0, cn_max_readahead = 0,
     cn_capable = 0, cn_want = 0, cn_max_background = 0, cn_congestion_threshold = 0, cn_time_gran = 0\<rparr>"

definition zero_ll :: fuse_ll where
  \<comment> \<open>\<open>calloc(1, sizeof(struct fuse_ll))\<close>\<close>
  "zero_ll = \<lparr>ll_debug = False, ll_allow_root = False, ll_atomic_o_trunc = False, ll_no_remote_posix_lock = False,
     ll_no_remote_flock = False, ll_big_writes = False, ll_splice_write = False, ll_splice_move = False,
     ll_splice_read = False, ll_no_splice_write = False, ll_no_splice_move = False, ll_no_splice_read = False,
     ll_auto_inval_data = False, ll_no_auto_inval_data = False, ll_no_readdirplus = False,
     ll_no_readdirplus_auto = False, ll_async_dio = False, ll_no_async_dio = False, ll_writeback_cache = False,
     ll_no_writeback_cache = False, ll_clone_fd = False, ll_op = (\<lambda>_. False), ll_got_init = False,
     ll_cuse_data = None, ll_owner = 0, ll_conn = zero_conn, ll_list = [], ll_interrupts = [],
     ll_got_destroy = False, ll_pipe = None, ll_broken_splice_nonblock = False, ll_notify_ctr = 0,
     ll_notify_list = [], ll_bufsize = 0\<rparr>"

definition MIN_BUFSIZE :: nat where "MIN_BUFSIZE = 135168"

definition ll_defaults :: "fuse_ll \<Rightarrow> fuse_ll" where
  \<comment> \<open>what is set once the options are parsed; a page has 4096 bytes\<close>
  "ll_defaults f = f\<lparr>ll_conn := (ll_conn f)\<lparr>cn_async_read := 1, cn_max_write := - 1, cn_max_readahead := - 1\<rparr>,
     ll_atomic_o_trunc := False, ll_bufsize := (if 4096 + 4096 < MIN_BUFSIZE then MIN_BUFSIZE else 4096 + 4096),
     ll_list := [], ll_interrupts := [], ll_notify_list := [], ll_notify_ctr := 1\<rparr>"

definition fuse_session_new ::
  "'w kernel \<Rightarrow> fuse_args \<Rightarrow> (llop \<Rightarrow> bool) \<Rightarrow> 'w thread \<Rightarrow> (('w session + 'w thread) \<times> fuse_args) option" where
  \<comment> \<open>\<open>Inr\<close>: NULL; \<open>op\<close> says which operations there are; that the key for the pipe cannot be created
      is one of the failures of the allocation script\<close>
  "fuse_session_new k args op th =
     (let (ok, m) = malloc (t_mem th)
      in if \<not> ok then Some (Inr (th\<lparr>t_mem := m\<rparr>), args)
         else do {
           (mo, args', m) \<leftarrow> parse_mount_opts (Some args) m;
           let args = (case args' of None \<Rightarrow> args | Some a \<Rightarrow> a);
           case mo of
             None \<Rightarrow> Some (Inr (th\<lparr>t_mem := m\<rparr>), args)
           | Some mo \<Rightarrow> do {
               (r, args, f, m) \<leftarrow> fuse_opt_parse args zero_ll fuse_ll_opts (Some fuse_ll_opt_proc) m;
               if r = - 1 then Some (Inr (th\<lparr>t_mem := m\<rparr>), args)
               else if fa_argc args \<noteq> 1 then Some (Inr (th\<lparr>t_mem := m\<rparr>), fuse_opt_free_args args)
               else
                 let (ok, m) = malloc m; th = th\<lparr>t_mem := m\<rparr>
                 in if \<not> ok then Some (Inr th, fuse_opt_free_args args)
                    else
                      let (u, th) = sys k SysGetuid th;
                          (ok, m) = malloc (t_mem th); th = th\<lparr>t_mem := m\<rparr>
                      in if \<not> ok then Some (Inr th, fuse_opt_free_args args)
                         else Some (Inl \<lparr>se_f = (ll_defaults f)\<lparr>ll_op := op, ll_owner := of_int (r_ret u)\<rparr>,
                             se_mountpoint = None, se_exited = False, se_ch = None, se_mo = mo, se_reqs = (\<lambda>_. None),
                             se_chans = (\<lambda>_. None), se_polls = (\<lambda>_. None), se_next = 1, se_thread = th\<rparr>, args)
             }
         })"

section \<open>Mounting\<close>

partial_function (option) open_std :: "'w kernel \<Rightarrow> ('w, 'm) session_scheme \<Rightarrow> ('w, 'm) session_scheme option" where
  \<comment> \<open>make sure that the descriptors 0, 1 and 2 are open\<close>
  "open_std k s =
     (let (r, s) = llsys k (SysOpen ''/dev/null'' O_RDWR 0) s;
          s = (if r_ret r > 2 then snd (llsys k (SysClose (r_ret r)) s) else s)
      in if 0 \<le> r_ret r \<and> r_ret r \<le> 2 then open_std k s else Some s)"

definition on_mount :: "'w kernel \<Rightarrow> string option \<Rightarrow> int \<Rightarrow> ('w, 'm) session_scheme \<Rightarrow> ('w, 'm) session_scheme" where
  "on_mount k mountpoint fd s = (case mountpoint of None \<Rightarrow> s | Some mp \<Rightarrow> s\<lparr>se_thread := fuse_kern_unmount k mp fd (se_thread s)\<rparr>)"

definition fuse_session_mount :: "'w kernel \<Rightarrow> string option \<Rightarrow> ('w, 'm) session_scheme \<Rightarrow> (int \<times> ('w, 'm) session_scheme) option" where
  "fuse_session_mount k mountpoint s = do {
     s \<leftarrow> open_std k s;
     (fd, mo, th) \<leftarrow> fuse_kern_mount k mountpoint (se_mo s) (se_thread s);
     let s = s\<lparr>se_mo := mo, se_thread := th\<rparr>;
     if fd = - 1 then Some (- 1, s)
     else
       let (ch, s) = fuse_chan_new fd s
       in case ch of
            None \<Rightarrow> Some (- 1, on_mount k mountpoint fd s)
          | Some ch \<Rightarrow> do {
              s \<leftarrow> fuse_session_add_chan ch s;
              mp \<leftarrow> mountpoint;
              let (ok, s) = llmalloc s;
              Some (if ok then (0, s\<lparr>se_mountpoint := Some mp\<rparr>) else (- 1, on_mount k mountpoint fd (s\<lparr>se_mountpoint := None\<rparr>)))
            }
   }"

definition fuse_session_fd :: "('w, 'm) session_scheme \<Rightarrow> int option" where
  "fuse_session_fd s = do { c \<leftarrow> se_ch s; ch \<leftarrow> se_chans s c; Some (ch_fd ch) }"

definition fuse_session_unmount :: "'w kernel \<Rightarrow> ('w, 'm) session_scheme \<Rightarrow> ('w, 'm) session_scheme option" where
  \<comment> \<open>in this order: the channel is taken from the session before it is asked for its descriptor\<close>
  "fuse_session_unmount k s = do {
     s \<leftarrow> fuse_session_remove_chan (se_ch s) s;
     case se_mountpoint s of
       None \<Rightarrow> Some s
     | Some mp \<Rightarrow> do {
         (fd, s) \<leftarrow> (case se_ch s of None \<Rightarrow> Some (- 1, s) | Some c \<Rightarrow> fuse_chan_clearfd c s);
         let s = s\<lparr>se_thread := fuse_kern_unmount k mp fd (se_thread s)\<rparr>;
         s \<leftarrow> fuse_chan_put k (se_ch s) s;
         Some (s\<lparr>se_mountpoint := None\<rparr>)
       }
   }"

section \<open>The end\<close>

definition fuse_ll_destroy :: "'w kernel \<Rightarrow> ('w, 'm) client \<Rightarrow> ('w, 'm) session_scheme \<Rightarrow> ('w, 'm) session_scheme option" where
  "fuse_ll_destroy k c s = do {
     s \<leftarrow> (if ll_got_init (se_f s) \<and> \<not> ll_got_destroy (se_f s) \<and> ll_op (se_f s) Op_destroy then run_destroy c s else Some s);
     Some (case ll_pipe (se_f s) of None \<Rightarrow> s | Some llp \<Rightarrow> fuse_ll_pipe_free k llp s)
   }"

definition fuse_session_destroy :: "'w kernel \<Rightarrow> ('w, 'm) client \<Rightarrow> ('w, 'm) session_scheme \<Rightarrow> ('w, 'm) session_scheme option" where
  "fuse_session_destroy k c s = do { s \<leftarrow> fuse_ll_destroy k c s; fuse_chan_put k (se_ch s) s }"

definition fuse_session_exit :: "('w, 'm) session_scheme \<Rightarrow> ('w, 'm) session_scheme" where
  "fuse_session_exit s = s\<lparr>se_exited := True\<rparr>"

definition fuse_session_reset :: "('w, 'm) session_scheme \<Rightarrow> ('w, 'm) session_scheme" where
  "fuse_session_reset s = s\<lparr>se_exited := False\<rparr>"

section \<open>The groups of a process\<close>

definition hex_val :: "char \<Rightarrow> nat" where
  "hex_val c = (let n = of_char c in if 48 \<le> n \<and> n \<le> 57 then n - 48
     else if 97 \<le> n \<and> n \<le> 122 then n - 87 else if 65 \<le> n \<and> n \<le> 90 then n - 55 else 99)"

definition strtoul :: "string \<Rightarrow> (64 word \<times> string) option" where
  \<comment> \<open>with base 0; \<open>None\<close>: there is no number, \<open>end\<close> is the start\<close>
  "strtoul s =
     (let (neg, r) = scan_sign (dropWhile is_space s);
          hex = (cchar r 0 = CHR ''0'' \<and> (cchar r 1 = CHR ''x'' \<or> cchar r 1 = CHR ''X'') \<and> hex_val (cchar r 2) < 16);
          base = (if hex then 16 else if cchar r 0 = CHR ''0'' then 8 else 10);
          r = (if hex then drop 2 r else r);
          ds = takeWhile (\<lambda>c. hex_val c < base) r;
          n = foldl (\<lambda>n c. base * n + hex_val c) 0 ds
      in if ds = [] then None
         else Some (if n \<ge> 2 ^ 64 then - 1 else if neg then - of_nat n else of_nat n, drop (length ds) r))"

lemma strtoul_shorter: "strtoul s = Some (v, r) \<Longrightarrow> length r < length s"
proof -
  have sign: "length (snd (scan_sign t)) \<le> length t" for t by (simp add: scan_sign_def split: list.splits)
  have space: "length (dropWhile is_space s) \<le> length s" by (rule length_dropWhile_le)
  let ?r = "snd (scan_sign (dropWhile is_space s))"
  have r: "length ?r \<le> length s" using sign[of "dropWhile is_space s"] space by linarith
  have *: "length (drop (length (takeWhile P t)) t) < length t" if "takeWhile P t \<noteq> []" for P :: "char \<Rightarrow> bool" and t
    using that by (cases t) auto
  assume "strtoul s = Some (v, r)"
  then obtain P t where "takeWhile P t \<noteq> []" "r = drop (length (takeWhile P t)) t" "length t \<le> length ?r"
    by (fastforce simp: strtoul_def Let_def split_beta split: if_splits)
  with * r show ?thesis by (metis (no_types, lifting) order_less_le_trans)
qed

function groups_loop :: "string \<Rightarrow> nat \<Rightarrow> nat \<Rightarrow> 32 word list \<Rightarrow> nat \<times> 32 word list" where
  \<comment> \<open>the numbers behind \<open>Groups:\<close>; those that have room are stored\<close>
  "groups_loop s sz ret l = (case strtoul s of
      None \<Rightarrow> (ret, l)
    | Some (val, s) \<Rightarrow> groups_loop s sz (ret + 1) (if ret < sz then l @ [ucast val] else l))"
  by pat_completeness auto
termination
  by (relation "measure (\<lambda>(s, _). length s)") (auto dest: strtoul_shorter)

declare groups_loop.simps [simp del]

definition status_path :: "int \<Rightarrow> string" where
  "status_path pid = (let n = dec (pid mod 2 ^ 64) in ''/proc/'' @ n @ ''/task/'' @ n @ ''/status'')"

definition groups_of :: "bytes \<Rightarrow> string \<Rightarrow> nat \<Rightarrow> int \<times> 32 word list" where
  \<comment> \<open>\<open>junk\<close>: what the memory holds behind the bytes that were read\<close>
  "groups_of b junk sz =
     (let buf = cstr (map (\<lambda>x. char_of (unat x)) b @ junk)
      in case strstr buf (CHR 0x0A # ''Groups:'') of
           None \<Rightarrow> (- EIO, [])
         | Some i \<Rightarrow> (let (n, l) = groups_loop (drop (i + 8) buf) sz 0 [] in (int n, l)))"

partial_function (option) read_groups ::
  "'w kernel \<Rightarrow> (nat \<Rightarrow> string) \<Rightarrow> string \<Rightarrow> nat \<Rightarrow> nat \<Rightarrow> ('w, 'm) session_scheme \<Rightarrow> ((int \<times> 32 word list) \<times> ('w, 'm) session_scheme) option" where
  \<comment> \<open>from the label \<open>retry\<close> on; \<open>None\<close>: the file is always longer than the buffer\<close>
  "read_groups k junk path bufsize sz s =
     (let (ok, s) = llmalloc s
      in if \<not> ok then Some ((- ENOMEM, []), s)
         else let (f, s) = llsys k (SysOpen path O_RDONLY 0) s
           in if r_ret f = - 1 then Some ((- EIO, []), s)
              else let
                (r, s) = llsys k (SysRead (r_ret f) bufsize) s;
                s = snd (llsys k (SysClose (r_ret f)) s)
              in if r_ret r = - 1 then Some ((- EIO, []), s)
                 else if r_ret r = int bufsize then read_groups k junk path (bufsize * 4) sz s
                 else Some (groups_of (case r_data r of ByteData b \<Rightarrow> take (nat (r_ret r)) b | _ \<Rightarrow> []) (junk bufsize) sz, s))"

definition fuse_req_getgroups ::
  "'w kernel \<Rightarrow> (nat \<Rightarrow> string) \<Rightarrow> nat \<Rightarrow> nat \<Rightarrow> ('w, 'm) session_scheme \<Rightarrow> ((int \<times> 32 word list) \<times> ('w, 'm) session_scheme) option" where
  "fuse_req_getgroups k junk r sz s = do {
     req \<leftarrow> se_reqs s r;
     read_groups k junk (status_path (cx_pid (rq_ctx req))) 1024 sz s
   }"

section \<open>The session loop\<close>

partial_function (option) session_rounds ::
  "'w kernel \<Rightarrow> ('w, 'm) client \<Rightarrow> nat \<Rightarrow> nat \<Rightarrow> fuse_buf \<Rightarrow> bool \<Rightarrow> int \<Rightarrow> ('w, 'm) session_scheme \<Rightarrow> (int \<times> ('w, 'm) session_scheme) option" where
  "session_rounds k c a ch fbuf hasmem res s =
     (if se_exited s then Some (res, s)
      else do {
        (res, fbuf, hasmem, s) \<leftarrow> fuse_session_receive_buf_int k a fbuf hasmem ch s;
        if res = - EINTR then session_rounds k c a ch fbuf hasmem res s
        else if res \<le> 0 then Some (res, s)
        else do { s \<leftarrow> fuse_session_process_buf_int k c a fbuf ch s; session_rounds k c a ch fbuf hasmem res s }
      })"

definition fuse_session_loop :: "'w kernel \<Rightarrow> ('w, 'm) client \<Rightarrow> nat \<Rightarrow> ('w, 'm) session_scheme \<Rightarrow> (int \<times> ('w, 'm) session_scheme) option" where
  "fuse_session_loop k c a s = do {
     ch \<leftarrow> se_ch s;
     (res, s) \<leftarrow> session_rounds k c a ch \<lparr>buf_size = 0, buf_flags = 0, buf_mem = 0, buf_fd = 0, buf_pos = 0\<rparr> False 0 s;
     Some (if res < 0 then - 1 else 0, fuse_session_reset s)
   }"

end
