(* ===== verification/Ll_Props.thy ===== *)
theory Ll_Props
  imports Serve Ll_New Fs_Ops_Props
begin

text \<open>
  What the message layer promises. Every answer is one message whose header carries its length, the
  number of the request and an error the kernel accepts, followed by the structure of the size that
  src/include/fuse_kernel.h prescribes for the negotiated version; afterwards the request is gone and
  its channel has one reference less.
\<close>

section \<open>Reading a message\<close>

record message =
  m_len :: nat
  m_error :: int
  m_unique :: "64 word"
  m_body :: bytes

definition parse_message :: "bytes \<Rightarrow> message option" where
  \<comment> \<open>how the kernel reads what is written to the device\<close>
  "parse_message b =
     (if length b < 16 then None
      else Some \<lparr>m_len = un_le (take 4 b), m_error = sint (of_nat (un_le (take 4 (drop 4 b))) :: 32 word),
        m_unique = of_nat (un_le (take 8 (drop 8 b))), m_body = drop 16 b\<rparr>)"

lemma sint_small: "- (2 ^ 31) \<le> e \<Longrightarrow> e < 2 ^ 31 \<Longrightarrow> sint (of_int e :: 32 word) = e"
  by (simp add: sint_sbintrunc' signed_take_bit_int_eq_self)

lemma parse_out_header:
  assumes "n < 2 ^ 32" and "- (2 ^ 31) \<le> e" "e < 2 ^ 31"
  shows "parse_message (out_header n e u @ b) = Some \<lparr>m_len = n, m_error = e, m_unique = u, m_body = b\<rparr>"
proof -
  let ?m = "out_header n e u @ b"
  have f: "take 4 ?m = le 4 (of_nat n :: 32 word)" "take 4 (drop 4 ?m) = le 4 (of_int e :: 32 word)"
    "take 8 (drop 8 ?m) = le 8 u" "drop 16 ?m = b"
    by (simp_all add: out_header_def)
  have n: "unat (of_nat n :: 32 word) = n" using assms(1) by (simp add: unat_of_nat)
  show ?thesis unfolding parse_message_def f un_le_full n using sint_small[OF assms(2,3)] by (simp add: out_header_def)
qed

lemma out_header_length [simp]: "length (out_header n e u) = 16"
  by (simp add: out_header_def)

lemma iov_length_sum:
  assumes "sum_list (map length iov) < 2 ^ 64"
  shows "iov_length iov = sum_list (map length iov)"
proof -
  have "foldl (\<lambda>ret b. (ret + length b) mod 2 ^ 64) n iov = (n + sum_list (map length iov)) mod 2 ^ 64" if "n < 2 ^ 64" for n
    using that
  proof (induction iov arbitrary: n)
    case (Cons x xs)
    have "(n + length x) mod 2 ^ 64 < 2 ^ 64" by simp
    from Cons.IH[OF this] show ?case by (simp add: mod_simps add.assoc)
  qed simp
  from this[of 0] assms show ?thesis by (simp add: iov_length_def)
qed

section \<open>One reply\<close>

definition can_reply :: "('w, 'm) session_scheme \<Rightarrow> nat \<Rightarrow> nat \<Rightarrow> fuse_req \<Rightarrow> fuse_chan \<Rightarrow> bool" where
  \<comment> \<open>the request is being processed, and its channel stays with the session when it is freed\<close>
  "can_reply s r c req chan \<longleftrightarrow> se_reqs s r = Some req \<and> rq_ctr req = 1 \<and> rq_ch req = Some c \<and>
     se_chans s c = Some chan \<and> ch_assigned chan \<and> 1 < ch_ctr chan"

definition freed :: "nat \<Rightarrow> nat \<Rightarrow> ('w, 'm) session_scheme \<Rightarrow> ('w, 'm) session_scheme" where
  "freed r c s = s\<lparr>se_f := (se_f s)\<lparr>ll_list := removeAll r (ll_list (se_f s)), ll_interrupts := removeAll r (ll_interrupts (se_f s))\<rparr>,
     se_reqs := (se_reqs s)(r := None), se_chans := (se_chans s)(c := map_option (\<lambda>ch. ch\<lparr>ch_ctr := ch_ctr ch - 1\<rparr>) (se_chans s c))\<rparr>"

lemma free_req_freed:
  assumes "can_reply s r c req chan"
  shows "fuse_free_req k r s = Some (freed r c s)"
  using assms by (auto simp: can_reply_def fuse_free_req_def list_del_req_def upd_ll_def fuse_chan_put_def upd_chan_def Let_def
      destroy_req_def upd_req_def freed_def)

definition on_wire :: "int \<Rightarrow> int" where
  \<comment> \<open>the error as it is sent\<close>
  "on_wire e = (if e \<le> - 1000 \<or> e > 0 then - ERANGE else e)"

definition message_of :: "fuse_req \<Rightarrow> int \<Rightarrow> bytes \<Rightarrow> bytes" where
  "message_of req e body = out_header (16 + length body) (on_wire e) (rq_unique req) @ body"

definition wrote :: "'w kernel \<Rightarrow> int \<Rightarrow> bytes \<Rightarrow> ('w, 'm) session_scheme \<Rightarrow> ('w, 'm) session_scheme" where
  "wrote k fd msg s = s\<lparr>se_thread := snd (sys k (SysWritev fd msg) (se_thread s))\<rparr>"

definition write_result :: "'w kernel \<Rightarrow> int \<Rightarrow> bytes \<Rightarrow> ('w, 'm) session_scheme \<Rightarrow> int" where
  "write_result k fd msg s = (let (r, th) = sys k (SysWritev fd msg) (se_thread s) in if r_ret r = - 1 then - p_errno th else 0)"

lemma reply_nofree_wrote:
  assumes c: "can_reply s r c req chan" and len: "16 + length (concat iov) < 2 ^ 32"
  shows "fuse_send_reply_iov_nofree k r e iov s = Some (write_result k (ch_fd chan) (message_of req e (concat iov)) s,
    wrote k (ch_fd chan) (message_of req e (concat iov)) s)"
proof -
  have sum: "sum_list (map length (replicate 16 0 # iov)) = 16 + length (concat iov)" by (simp add: length_concat)
  have "iov_length (replicate 16 0 # iov) = 16 + length (concat iov)"
    by (subst iov_length_sum) (use len sum in simp_all)
  then show ?thesis using c
    by (auto simp: fuse_send_reply_iov_nofree_def fuse_send_msg_def can_reply_def message_of_def on_wire_def[symmetric]
        llsys_def wrote_def write_result_def split_beta Let_def)
qed

lemma can_reply_wrote [simp]: "can_reply (wrote k fd m s) r c req chan = can_reply s r c req chan"
  by (simp add: can_reply_def wrote_def)

lemma reply_iov_wrote:
  assumes "can_reply s r c req chan" and "16 + length (concat iov) < 2 ^ 32"
  shows "send_reply_iov k r e iov s = Some (write_result k (ch_fd chan) (message_of req e (concat iov)) s,
    freed r c (wrote k (ch_fd chan) (message_of req e (concat iov)) s))"
  using reply_nofree_wrote[OF assms, of k e] assms(1) free_req_freed[of "wrote k (ch_fd chan) (message_of req e (concat iov)) s" r c req chan k]
  by (simp add: send_reply_iov_def)

lemma reply_wrote:
  assumes "can_reply s r c req chan" and "16 + length body < 2 ^ 32"
  shows "send_reply k r e body s = Some (write_result k (ch_fd chan) (message_of req e body) s,
    freed r c (wrote k (ch_fd chan) (message_of req e body) s))"
  using reply_iov_wrote[OF assms(1), of "if body = [] then [] else [body]" k e] assms(2) by (cases "body = []") (simp_all add: send_reply_def)

lemma parse_message_of:
  assumes "16 + length body < 2 ^ 32"
  shows "parse_message (message_of req e body) = Some \<lparr>m_len = length (message_of req e body), m_error = on_wire e,
    m_unique = rq_unique req, m_body = body\<rparr>" and "- 1000 < on_wire e" "on_wire e \<le> 0"
proof -
  show b: "- 1000 < on_wire e" "on_wire e \<le> 0" by (auto simp: on_wire_def)
  then show "parse_message (message_of req e body) = Some \<lparr>m_len = length (message_of req e body), m_error = on_wire e,
    m_unique = rq_unique req, m_body = body\<rparr>"
    using parse_out_header[of "16 + length body" "on_wire e" "rq_unique req" body] assms by (simp add: message_of_def)
qed

section \<open>Every answer\<close>

definition prescribed_size :: "32 word \<Rightarrow> answer \<Rightarrow> nat option" where
  \<comment> \<open>the size of what follows the header of a successful answer in src/include/fuse_kernel.h,
      by minor version; \<open>None\<close>: no message of its own\<close>
  "prescribed_size minor ans = (case ans of
      Reply_err _ \<Rightarrow> Some 0
    | Reply_none \<Rightarrow> None
    | Reply_entry _ \<Rightarrow> Some (if minor < 9 then 120 else 128)
    | Reply_create _ _ \<Rightarrow> Some (if minor < 9 then 136 else 144)
    | Reply_attr _ _ \<Rightarrow> Some (if minor < 9 then 96 else 104)
    | Reply_readlink b \<Rightarrow> Some (length b)
    | Reply_open _ \<Rightarrow> Some 16
    | Reply_write _ \<Rightarrow> Some 8
    | Reply_buf b \<Rightarrow> Some (length b)
    | Reply_data _ _ \<Rightarrow> None
    | Reply_statfs _ \<Rightarrow> Some (if minor < 4 then 48 else 80)
    | Reply_xattr _ \<Rightarrow> Some 8
    | Reply_lock _ \<Rightarrow> Some 24
    | Reply_bmap _ \<Rightarrow> Some 8
    | Reply_ioctl _ b \<Rightarrow> Some (16 + length b)
    | Reply_poll _ \<Rightarrow> Some 8)"

definition refused_entry :: "32 word \<Rightarrow> answer \<Rightarrow> bool" where
  \<comment> \<open>before version 7.4 a negative entry is an error\<close>
  "refused_entry minor ans \<longleftrightarrow> minor < 4 \<and> (case ans of Reply_entry e \<Rightarrow> e_ino e = 0 | _ \<Rightarrow> False)"

definition answer_error :: "32 word \<Rightarrow> answer \<Rightarrow> int" where
  "answer_error minor ans = (case ans of Reply_err err \<Rightarrow> - err | _ \<Rightarrow> if refused_entry minor ans then - ENOENT else 0)"

lemma answer_body:
  assumes c: "can_reply s r c req chan" and sz: "prescribed_size (proto_minor s) ans = Some n" and len: "16 + n < 2 ^ 32"
  shows "\<exists>body. ll_answer k a r ans s = Some (write_result k (ch_fd chan) (message_of req (answer_error (proto_minor s) ans) body) s,
      freed r c (wrote k (ch_fd chan) (message_of req (answer_error (proto_minor s) ans) body) s)) \<and>
    length body = (if refused_entry (proto_minor s) ans then 0 else n)"
proof -
  let ?e = "answer_error (proto_minor s) ans"
  have *: ?thesis if "ll_answer k a r ans s = send_reply k r ?e body s" "length body = (if refused_entry (proto_minor s) ans then 0 else n)" for body
    using reply_wrote[OF c, of body k ?e] that len by (intro exI[of _ body]) (auto split: if_splits)
  note D = ll_answer_def prescribed_size_def answer_error_def refused_entry_def send_reply_ok_def
  show ?thesis
  proof (cases ans)
    case (Reply_err err)
    then show ?thesis using sz by (intro *[of "[]"]) (simp_all add: D fuse_reply_err_def)
  next
    case (Reply_entry e)
    then show ?thesis using sz
      by (intro *[of "if refused_entry (proto_minor s) ans then [] else take (if proto_minor s < 9 then FUSE_COMPAT_ENTRY_OUT_SIZE else 128) (entry_bytes (fill_entry e))"])
        (auto simp: D fuse_reply_entry_def fuse_reply_err_def FUSE_COMPAT_ENTRY_OUT_SIZE_def split: if_splits)
  next
    case (Reply_ioctl res b)
    have "length (ioctl_out res 0 0 0) = 16" by (simp add: ioctl_out_def)
    then show ?thesis using reply_iov_wrote[OF c, of "ioctl_out res 0 0 0 # (if b = [] then [] else [b])" k ?e] sz len Reply_ioctl
      by (intro exI[of _ "ioctl_out res 0 0 0 @ b"]) (auto simp: D fuse_reply_ioctl_def)
  next
    case (Reply_lock lk)
    then show ?thesis using sz by (intro *[of "file_lock_bytes lk"]) (simp_all add: D fuse_reply_lock_def file_lock_bytes_def)
  next
    case (Reply_create e fi)
    then show ?thesis using sz
      by (intro *[of "take (if proto_minor s < 9 then FUSE_COMPAT_ENTRY_OUT_SIZE else 128) (entry_bytes (fill_entry e)) @ fill_open fi"])
        (auto simp: D fuse_reply_create_def FUSE_COMPAT_ENTRY_OUT_SIZE_def fill_open_def split: if_splits)
  next
    case (Reply_attr st t)
    let ?b = "le 8 (calc_timeout_sec t) @ le 4 (calc_timeout_nsec t) @ replicate 4 0 @ attr_bytes (convert_stat st)"
    show ?thesis using sz Reply_attr
      by (intro *[of "take (if proto_minor s < 9 then FUSE_COMPAT_ATTR_OUT_SIZE else length ?b) ?b"])
        (auto simp: D fuse_reply_attr_def FUSE_COMPAT_ATTR_OUT_SIZE_def split: if_splits)
  next
    case (Reply_statfs st)
    then show ?thesis using sz
      by (intro *[of "take (if proto_minor s < 4 then FUSE_COMPAT_STATFS_SIZE else length (convert_statfs st)) (convert_statfs st)"])
        (auto simp: D fuse_reply_statfs_def FUSE_COMPAT_STATFS_SIZE_def convert_statfs_def split: if_splits)
  next
    case (Reply_readlink b)
    then show ?thesis using sz by (intro *[of b]) (simp_all add: D fuse_reply_readlink_def)
  next
    case (Reply_open fi)
    then show ?thesis using sz by (intro *[of "fill_open fi"]) (simp_all add: D fuse_reply_open_def fill_open_def)
  next
    case (Reply_write w)
    then show ?thesis using sz
      by (intro *[of "le 4 (of_int w :: 32 word) @ replicate 4 0"]) (simp_all add: D fuse_reply_write_def)
  next
    case (Reply_buf b)
    then show ?thesis using sz by (intro *[of b]) (simp_all add: D fuse_reply_buf_def)
  next
    case (Reply_xattr w)
    then show ?thesis using sz
      by (intro *[of "le 4 (of_int w :: 32 word) @ replicate 4 0"]) (simp_all add: D fuse_reply_xattr_def)
  next
    case (Reply_bmap i)
    then show ?thesis using sz by (intro *[of "le 8 i"]) (simp_all add: D fuse_reply_bmap_def)
  next
    case (Reply_poll ev)
    then show ?thesis using sz by (intro *[of "le 4 ev @ replicate 4 0"]) (simp_all add: D fuse_reply_poll_def)
  next
    case Reply_none
    then show ?thesis using sz by (simp add: prescribed_size_def)
  next
    case (Reply_data v flags)
    then show ?thesis using sz by (simp add: prescribed_size_def)
  qed
qed

text \<open>
  Property C3. Every answer of a handler other than none and spliced file data is one message,
  written with one call: for a request whose channel stays with its session, the result is zero or
  minus the errno of the write, the bytes written parse as a message whose length field is the number
  of bytes, whose unique field is the request's, whose error is in the range the kernel accepts, and
  whose body has the size that src/include/fuse_kernel.h prescribes for this answer in the negotiated
  minor version; and the request is freed, with one reference to its channel.
\<close>

theorem answers_are_messages:
  assumes "can_reply s r c req chan" and "prescribed_size (proto_minor s) ans = Some n" and "16 + n < 2 ^ 32"
  shows "\<exists>msg m. ll_answer k a r ans s = Some (write_result k (ch_fd chan) msg s, freed r c (wrote k (ch_fd chan) msg s)) \<and>
    parse_message msg = Some m \<and> m_len m = length msg \<and> m_unique m = rq_unique req \<and>
    m_error m = on_wire (answer_error (proto_minor s) ans) \<and> - 1000 < m_error m \<and> m_error m \<le> 0 \<and>
    length (m_body m) = (if refused_entry (proto_minor s) ans then 0 else n)"
proof -
  let ?e = "answer_error (proto_minor s) ans"
  obtain body where b: "ll_answer k a r ans s = Some (write_result k (ch_fd chan) (message_of req ?e body) s,
      freed r c (wrote k (ch_fd chan) (message_of req ?e body) s))"
    "length body = (if refused_entry (proto_minor s) ans then 0 else n)"
    using answer_body[OF assms] by blast
  have "16 + length body < 2 ^ 32" using b(2) assms(3) by simp
  note p = parse_message_of(1)[OF this, of req ?e] parse_message_of(2,3)[OF this, of ?e]
  show ?thesis by (rule exI[of _ "message_of req ?e body"], rule exI, intro conjI, rule b(1), rule p(1)) (use b(2) p(2,3) in simp_all)
qed

section \<open>A session with a request\<close>

definition waiting_req :: fuse_req where
  "waiting_req = \<lparr>rq_unique = 77, rq_ctr = 1, rq_ctx = \<lparr>cx_uid = 0, cx_gid = 0, cx_pid = 1, cx_umask = 0\<rparr>, rq_ch = Some 3,
     rq_interrupted = False, rq_intr_unique = 0, rq_func = None\<rparr>"

definition waiting_chan :: fuse_chan where
  "waiting_chan = \<lparr>ch_assigned = True, ch_ctr = 2, ch_fd = 5\<rparr>"

definition waiting :: "32 word \<Rightarrow> unit session" where
  \<comment> \<open>request 7 came over channel 3\<close>
  "waiting minor = \<lparr>se_f = zero_ll\<lparr>ll_conn := zero_conn\<lparr>cn_proto_minor := minor, cn_max_write := - 1, cn_max_readahead := - 1\<rparr>,
       ll_list := [7], ll_bufsize := 135168\<rparr>,
     se_mountpoint = None, se_exited = False, se_ch = Some 3, se_mo = zero_mount_opts, se_reqs = [7 \<mapsto> waiting_req],
     se_chans = [3 \<mapsto> waiting_chan], se_polls = (\<lambda>_. None), se_next = 8, se_thread = idle_thread\<rparr>"

definition device :: "unit kernel" where
  \<comment> \<open>takes every message\<close>
  "device c w = ((case c of SysWritev fd b \<Rightarrow> \<lparr>r_ret = int (length b), r_errno = 0, r_data = NoData\<rparr>
     | _ \<Rightarrow> \<lparr>r_ret = -1, r_errno = EINVAL, r_data = NoData\<rparr>), w)"

definition quiet_client :: "('w, 'm) client" where
  "quiet_client = \<lparr>run = (\<lambda>r c s. Some s), run_buf = (\<lambda>r c v s. Some (v, s)), run_init = (\<lambda>conn s. Some (conn, s)),
     run_destroy = (\<lambda>s. Some s), run_init_done = (\<lambda>s. Some s), run_intr = (\<lambda>g r s. Some s)\<rparr>"

lemma answers_are_messages_witness:
  "\<exists>msg m s'. ll_answer device 0 7 (Reply_open zero_fi) (waiting 23) = Some (0, s') \<and> se_reqs s' 7 = None \<and>
    parse_message msg = Some m \<and> m_unique m = 77 \<and> m_error m = 0 \<and> length (m_body m) = 16"
proof -
  have c: "can_reply (waiting 23) 7 3 waiting_req waiting_chan"
    by (simp add: can_reply_def waiting_def waiting_req_def waiting_chan_def)
  have r: "write_result device fd msg (waiting 23) = 0" for fd msg
    by (simp add: write_result_def split_beta sys_def device_def)
  have e: "on_wire (answer_error m (Reply_open zero_fi)) = 0" "prescribed_size m (Reply_open zero_fi) = Some 16" "\<not> refused_entry m (Reply_open zero_fi)" for m
    by (simp_all add: answer_error_def refused_entry_def on_wire_def prescribed_size_def)
  obtain msg m where *: "ll_answer device 0 7 (Reply_open zero_fi) (waiting 23) =
      Some (0, freed 7 3 (wrote device (ch_fd waiting_chan) msg (waiting 23)))"
    "parse_message msg = Some m" "m_unique m = 77" "m_error m = 0" "length (m_body m) = 16"
    using answers_are_messages[OF c e(2), of device 0] by (auto simp: r e(1,3) waiting_req_def)
  moreover have "se_reqs (freed 7 3 s) 7 = None" for s :: "unit session" by (simp add: freed_def)
  ultimately show ?thesis by blast
qed

end
