(* ===== verification/Ll_Init.thy ===== *)
theory Ll_Init
  imports Ll_Props
begin

text \<open>
  What INIT negotiates: the message that answers it, read back as \<open>struct fuse_init_out\<close>, and what
  the agreed values respect - the receive buffer, the kernel's limits, the options that refuse a
  capability.
\<close>

section \<open>Bits\<close>

lemma bit_add_if [simp]: "bit (add_if c i x) j \<longleftrightarrow> bit x j \<or> c \<and> j = i \<and> i < 32"
  by (auto simp: add_if_def bit_simps)

lemma bit_drop_if [simp]: "bit (drop_if c i x) j \<longleftrightarrow> bit x j \<and> \<not> (c \<and> j = i)"
  using bit_imp_le_length[of x j] by (auto simp: drop_if_def bit_simps)

lemma bit_shared [simp]: "bit (shared_bits is v w) j \<longleftrightarrow> bit w j \<or> j \<in> set is \<and> bit v j"
proof -
  have "bit (fold (\<lambda>i. add_if (bit v i) i) is w) j \<longleftrightarrow> bit w j \<or> j \<in> set is \<and> bit v j" for w
    using bit_imp_le_length[of v j] by (induction "is" arbitrary: w) auto
  then show ?thesis by (simp add: shared_bits_def)
qed

definition vetoed :: "fuse_ll \<Rightarrow> nat \<Rightarrow> bool" where
  \<comment> \<open>the capabilities the options refuse\<close>
  "vetoed f j \<longleftrightarrow> (ll_no_splice_write f \<and> j = 7) \<or> (ll_no_splice_move f \<and> j = 8) \<or> (ll_no_splice_read f \<and> j = 9) \<or>
     (ll_no_auto_inval_data f \<and> j = 12) \<or> (ll_no_readdirplus f \<and> j = 13) \<or> (ll_no_readdirplus_auto f \<and> j = 14) \<or>
     (ll_no_async_dio f \<and> j = 15) \<or> (ll_no_writeback_cache f \<and> j = 16)"

lemma bit_refuse [simp]: "bit (init_refuse f w) j \<longleftrightarrow> bit w j \<and> \<not> vetoed f j"
  by (auto simp: init_refuse_def vetoed_def)

lemma bit_flags: "bit (init_flags conn) j \<longleftrightarrow> j = 0 \<and> cn_async_read conn \<noteq> 0 \<or> j \<in> set wanted_bits \<and> bit (cn_want conn) j"
  by (auto simp: init_flags_def)

section \<open>The reply\<close>

record init_fields =
  if_major :: nat
  if_readahead :: nat
  if_flags :: "32 word"
  if_background :: nat
  if_threshold :: nat
  if_max_write :: nat

definition parse_init :: "bytes \<Rightarrow> init_fields" where
  "parse_init b = \<lparr>if_major = un_le (take 4 b), if_readahead = un_le (take 4 (drop 8 b)),
     if_flags = of_nat (un_le (take 4 (drop 12 b))), if_background = un_le (take 2 (drop 16 b)),
     if_threshold = un_le (take 2 (drop 18 b)), if_max_write = un_le (take 4 (drop 20 b))\<rparr>"

lemma un_le_16 [simp]: "un_le (le 2 (w :: 16 word)) = unat w"
  using unsigned_less[of w, where 'a = nat] by (simp add: un_le_le)

lemma parse_init_out:
  assumes "24 \<le> n"
  shows "parse_init (take n (init_out ra fl mb ct mw tg)) =
    \<lparr>if_major = 7, if_readahead = unat ra, if_flags = fl, if_background = unat mb, if_threshold = unat ct, if_max_write = unat mw\<rparr>"
proof -
  let ?b = "take n (init_out ra fl mb ct mw tg)"
  have f: "take 4 ?b = le 4 (7 :: 32 word)" "take 4 (drop 8 ?b) = le 4 ra" "take 4 (drop 12 ?b) = le 4 fl"
    "take 2 (drop 16 ?b) = le 2 mb" "take 2 (drop 18 ?b) = le 2 ct" "take 4 (drop 20 ?b) = le 4 mw"
    using assms by (simp_all add: init_out_def min_def drop_take)
  show ?thesis unfolding parse_init_def f by simp
qed

lemma init_out_length: "length (init_out ra fl mb ct mw tg) = 64"
  by (simp add: init_out_def)

lemma background_bounds:
  assumes "cn_proto_minor c \<ge> 13"
  shows "unat (ucast (cn_max_background (init_background c)) :: 16 word) = min (unat (cn_max_background c)) 65535"
    "unat (ucast (cn_congestion_threshold (init_background c)) :: 16 word) \<le> min (unat (cn_max_background c)) 65535"
proof -
  let ?mb = "cn_max_background (init_background c)" and ?ct = "cn_congestion_threshold (init_background c)"
  have mb: "?mb = (if cn_max_background c \<ge> 65536 then 65535 else cn_max_background c)"
    using assms by (simp add: init_background_def Let_def)
  then have n: "unat ?mb = min (unat (cn_max_background c)) 65535" by (auto simp: word_le_nat_alt min_def)
  have small: "unat (ucast w :: 16 word) = unat w" if "unat w \<le> 65535" for w :: "32 word"
    using that by (simp add: unsigned_ucast_eq take_bit_nat_eq_self)
  have le: "x * 3 div 4 \<le> x" if "unat x \<le> 65535" for x :: "32 word"
    using that by (simp add: word_le_nat_alt unat_div unat_word_ariths)
  have ct: "?ct \<le> ?mb" using assms le[of ?mb] n unfolding mb by (auto simp: init_background_def Let_def)
  show "unat (ucast ?mb :: 16 word) = min (unat (cn_max_background c)) 65535" using small[of ?mb] n by simp
  show "unat (ucast ?ct :: 16 word) \<le> min (unat (cn_max_background c)) 65535"
    using small[of ?ct] ct n by (simp add: word_le_nat_alt)
qed

section \<open>The negotiation\<close>

definition offer :: "32 word \<Rightarrow> 32 word \<Rightarrow> 32 word \<Rightarrow> ('w, 'm) session_scheme \<Rightarrow> ('w, 'm) session_scheme" where
  \<comment> \<open>the session as the client's \<open>init\<close> finds it\<close>
  "offer minor ra flags s =
     (let s = upd_conn (\<lambda>conn. conn\<lparr>cn_proto_major := 7, cn_proto_minor := minor, cn_capable := 0, cn_want := 0\<rparr>) s;
          s = upd_conn (init_capable minor flags ra) s;
          s = upd_conn (\<lambda>conn. conn\<lparr>cn_want := init_want (se_f s) minor\<rparr>) s
      in upd_conn (init_max_write (ll_bufsize (se_f s))) s)"

lemma ll_init_offer:
  assumes "u32 b 0 = Some 7" "u32 b 4 = Some minor" "u32 b 8 = Some ra" "u32 b 12 = Some flags" "minor \<ge> 6"
  shows "ll_init k cl r nodeid b s = do {
     s \<leftarrow> client_init cl (offer minor ra flags s);
     let s = upd_conn (\<lambda>conn. conn\<lparr>cn_want := init_refuse (se_f s) (cn_want conn)\<rparr>) s;
     let s = upd_conn init_background s;
     map_option snd (send_reply_ok k r (take (init_size minor) (init_reply (ll_conn (se_f s)))) s)
   }"
  using assms by (simp add: ll_init_def offer_def Let_def)

lemma max_write_bound: "unat (cn_max_write (init_max_write n c)) \<le> max n 8192 - 4096"
proof (cases "n - 4096 < 2 ^ 32")
  case True
  have nat32: "m < 2 ^ 32 \<Longrightarrow> unat (of_nat m :: 32 word) = m" for m by (simp add: unat_of_nat)
  define m where "m = max n 8192 - 4096"
  have m: "m < 2 ^ 32" "(if n < FUSE_MIN_READ_BUFFER then FUSE_MIN_READ_BUFFER else n) - 4096 = m"
    using True by (auto simp: m_def max_def FUSE_MIN_READ_BUFFER_def)
  show ?thesis unfolding m_def[symmetric] init_max_write_def m(2) Let_def using nat32[OF m(1)] by simp
next
  case False
  then show ?thesis using unsigned_less[of "cn_max_write (init_max_write n c)", where 'a = nat] by simp
qed

lemma offer_bounds:
  assumes "minor \<ge> 6"
  shows "unat (cn_max_write (ll_conn (se_f (offer minor ra flags s)))) \<le> max (ll_bufsize (se_f s)) 8192 - 4096"
    "cn_max_readahead (ll_conn (se_f (offer minor ra flags s))) \<le> ra"
proof -
  show "unat (cn_max_write (ll_conn (se_f (offer minor ra flags s)))) \<le> max (ll_bufsize (se_f s)) 8192 - 4096"
    using max_write_bound by (simp add: offer_def Let_def upd_conn_def upd_ll_def)
  show "cn_max_readahead (ll_conn (se_f (offer minor ra flags s))) \<le> ra"
    using assms by (auto simp: offer_def Let_def upd_conn_def upd_ll_def init_max_write_def init_capable_def)
qed

text \<open>
  Property C4. INIT: for a kernel that speaks version 7 and sent an INIT of at least minor version 6,
  and a client whose \<open>init\<close> does not raise the limits it was offered, the session answers with one
  message without error, of the size of that version; the largest write it announces, with the header, fits the
  receive buffer, the readahead is not above the kernel's, the congestion threshold not above the
  number of background requests, which is cut to 16 bits; and every flag it sets is the asynchronous
  read or a capability that is asked for and that no option refused.
\<close>

theorem init_negotiates:
  assumes "u32 b 0 = Some 7" and "u32 b 4 = Some minor" and "u32 b 8 = Some ra" and "u32 b 12 = Some flags" and "minor \<ge> 6"
    and "client_init cl (offer minor ra flags s) = Some s1" and "can_reply s1 r c req chan"
    and "cn_proto_minor (ll_conn (se_f s1)) = minor"
    and "cn_max_write (ll_conn (se_f s1)) \<le> cn_max_write (ll_conn (se_f (offer minor ra flags s)))"
    and "cn_max_readahead (ll_conn (se_f s1)) \<le> cn_max_readahead (ll_conn (se_f (offer minor ra flags s)))"
  shows "\<exists>s2 msg m. ll_init k cl r nodeid b s = Some (freed r c (wrote k (ch_fd chan) msg s2)) \<and> se_thread s2 = se_thread s1 \<and>
    parse_message msg = Some m \<and> m_error m = 0 \<and> m_unique m = rq_unique req \<and> length (m_body m) = init_size minor \<and>
    if_major (parse_init (m_body m)) = 7 \<and>
    if_max_write (parse_init (m_body m)) + 4096 \<le> max (ll_bufsize (se_f s)) 8192 \<and>
    if_readahead (parse_init (m_body m)) \<le> unat ra \<and>
    if_background (parse_init (m_body m)) = (if minor \<ge> 13 then min (unat (cn_max_background (ll_conn (se_f s1)))) 65535 else 0) \<and>
    if_threshold (parse_init (m_body m)) \<le> if_background (parse_init (m_body m)) \<and>
    (\<forall>j. bit (if_flags (parse_init (m_body m))) j \<longrightarrow>
       j = 0 \<or> j \<in> set wanted_bits \<and> bit (cn_want (ll_conn (se_f s1))) j \<and> \<not> vetoed (se_f s1) j)"
proof -
  define s2 where "s2 = upd_conn init_background (upd_conn (\<lambda>conn. conn\<lparr>cn_want := init_refuse (se_f s1) (cn_want conn)\<rparr>) s1)"
  define conn where "conn = ll_conn (se_f s2)"
  define body where "body = take (init_size minor) (init_reply conn)"
  have conn: "conn = init_background ((ll_conn (se_f s1))\<lparr>cn_want := init_refuse (se_f s1) (cn_want (ll_conn (se_f s1)))\<rparr>)"
    by (simp add: conn_def s2_def upd_conn_def upd_ll_def)
  have fields: "cn_proto_minor conn = minor" "cn_max_write conn = cn_max_write (ll_conn (se_f s1))"
    "cn_max_readahead conn = cn_max_readahead (ll_conn (se_f s1))" "cn_want conn = init_refuse (se_f s1) (cn_want (ll_conn (se_f s1)))"
    using assms(8) by (simp_all add: conn init_background_def Let_def)
  have cr: "can_reply s2 r c req chan" using assms(7) by (simp add: can_reply_def s2_def upd_conn_def upd_ll_def)
  have size: "24 \<le> init_size minor" "init_size minor \<le> 64" using assms(5) by (auto simp: init_size_def word_le_nat_alt word_less_nat_alt)
  then have len: "length body = init_size minor" by (simp add: body_def init_reply_def init_out_length)
  have small: "16 + length body < 2 ^ 32" using len size by simp
  let ?m = "\<lparr>m_len = length (message_of req 0 body), m_error = on_wire 0, m_unique = rq_unique req, m_body = body\<rparr>"
  have run: "ll_init k cl r nodeid b s = Some (freed r c (wrote k (ch_fd chan) (message_of req 0 body) s2))"
    using ll_init_offer[OF assms(1-5), of k cl r nodeid s] assms(6) reply_wrote[OF cr small, of k 0]
    by (simp add: Let_def s2_def[symmetric] conn_def[symmetric] body_def[symmetric] send_reply_ok_def)
  have init: "parse_init body = \<lparr>if_major = 7, if_readahead = unat (cn_max_readahead conn), if_flags = init_flags conn,
      if_background = unat (if minor \<ge> 13 then ucast (cn_max_background conn) else 0 :: 16 word),
      if_threshold = unat (if minor \<ge> 13 then ucast (cn_congestion_threshold conn) else 0 :: 16 word),
      if_max_write = unat (cn_max_write conn)\<rparr>"
    using parse_init_out[OF size(1)] by (simp add: body_def init_reply_def fields(1))
  note ob = offer_bounds[OF assms(5), where ra = ra and flags = flags and s = s]
  have "if_max_write (parse_init body) + 4096 \<le> max (ll_bufsize (se_f s)) 8192"
    using ob(1) assms(9) by (simp add: init fields(2) word_le_nat_alt)
  moreover have "if_readahead (parse_init body) \<le> unat ra"
    using ob(2) assms(10) by (simp add: init fields(3) word_le_nat_alt)
  moreover have "if_background (parse_init body) = (if minor \<ge> 13 then min (unat (cn_max_background (ll_conn (se_f s1)))) 65535 else 0)"
    "if_threshold (parse_init body) \<le> if_background (parse_init body)"
    using background_bounds[of "(ll_conn (se_f s1))\<lparr>cn_want := init_refuse (se_f s1) (cn_want (ll_conn (se_f s1)))\<rparr>"] assms(8)
    by (simp_all add: init conn)
  moreover have "\<forall>j. bit (if_flags (parse_init body)) j \<longrightarrow>
       j = 0 \<or> j \<in> set wanted_bits \<and> bit (cn_want (ll_conn (se_f s1))) j \<and> \<not> vetoed (se_f s1) j"
    by (auto simp: init bit_flags fields(4))
  ultimately show ?thesis using parse_message_of(1)[OF small, of req 0] len init
    by (intro exI[of _ s2] exI[of _ "message_of req 0 body"] exI[of _ ?m])
      (simp add: run on_wire_def s2_def upd_conn_def upd_ll_def)
qed

definition init_body :: bytes where
  \<comment> \<open>version 7.23, 128 kB of readahead, every flag\<close>
  "init_body = le 4 (7 :: 32 word) @ le 4 (23 :: 32 word) @ le 4 (131072 :: 32 word) @ le 4 (- 1 :: 32 word)"

lemma init_negotiates_witness:
  "\<exists>s2 msg m. ll_init device quiet_client 7 0 init_body (waiting 0) = Some (freed 7 3 (wrote device 5 msg s2)) \<and>
    parse_message msg = Some m \<and> m_error m = 0 \<and> length (m_body m) = 64 \<and> if_max_write (parse_init (m_body m)) \<le> 131072"
proof -
  have b: "take 4 init_body = le 4 (7 :: 32 word)" "take 4 (drop 4 init_body) = le 4 (23 :: 32 word)"
    "take 4 (drop 8 init_body) = le 4 (131072 :: 32 word)" "take 4 (drop 12 init_body) = le 4 (- 1 :: 32 word)"
    "length init_body = 16"
    by (simp_all add: init_body_def)
  have u: "u32 init_body 0 = Some 7" "u32 init_body 4 = Some 23" "u32 init_body 8 = Some 131072" "u32 init_body 12 = Some (- 1)"
    unfolding u32_def using b by (simp_all del: take_append drop_append)
  let ?s1 = "upd_ll (\<lambda>f. f\<lparr>ll_got_init := True\<rparr>) (offer 23 131072 (- 1) (waiting 0))"
  have cl: "client_init quiet_client (offer 23 131072 (- 1) (waiting 0)) = Some ?s1"
    by (simp add: client_init_def Let_def offer_def upd_conn_def upd_ll_def waiting_def zero_ll_def)
  have cr: "can_reply ?s1 7 3 waiting_req waiting_chan"
    by (simp add: can_reply_def offer_def upd_conn_def upd_ll_def Let_def waiting_def waiting_req_def waiting_chan_def)
  have f: "cn_proto_minor (ll_conn (se_f ?s1)) = 23" "ll_bufsize (se_f (waiting 0)) = 135168"
    by (simp_all add: offer_def upd_conn_def upd_ll_def Let_def init_max_write_def init_capable_def waiting_def)
  have "ch_fd waiting_chan = 5" by (simp add: waiting_chan_def)
  then show ?thesis
    using init_negotiates[OF u, where cl = quiet_client and s = "waiting 0" and k = device and nodeid = 0, OF _ cl cr f(1)] f(2)
    by (auto simp: upd_ll_def init_size_def)
qed

end
