(* ===== verification/Workers.thy ===== *)
theory Workers
  imports Ll_New
begin

text \<open>
  The pool of threads of src/lib/fuse_loop_mt.c as a state machine. A worker is a thread with its own
  buffer, channel and pipe; its program counter is the place between two critical sections, and a step is one
  critical section, one call that receives or processes a request, or a step of the thread that
  called \<open>fuse_session_loop_mt\<close>. The calls of the session are atomic here: what they share is
  protected by the mutexes of src/lib/fuse_lowlevel.c. That a thread cannot be created is one of the failures
  of the allocation script; the signal mask and the stack size of a new thread are left out.
\<close>

section \<open>State\<close>

datatype wpc =
    W_top \<comment> \<open>at the condition of the loop\<close>
  | W_got \<comment> \<open>a request was received; before the first critical section\<close>
  | W_work bool \<comment> \<open>the request is to be processed; whether it is a forget\<close>
  | W_back bool \<comment> \<open>processed; before the second critical section\<close>
  | W_leave \<comment> \<open>off the list and detached\<close>
  | W_end \<comment> \<open>the function of the thread has ended, or the thread was cancelled\<close>

record fuse_worker =
  wk_pc :: wpc
  wk_fbuf :: fuse_buf
  wk_hasmem :: bool
  wk_ch :: nat
  wk_pipe :: "fuse_ll_pipe option"

datatype mpc = M_wait | M_join | M_end \<comment> \<open>the main thread waits for the end, joins the workers, has returned\<close>

record ('w, 'm) fuse_mt =
  mt_se :: "('w, 'm) session_scheme"
  mt_numworker :: int
  mt_numavail :: int
  mt_prevch :: nat
  mt_list :: "nat list"
  mt_threads :: "nat \<Rightarrow> fuse_worker option"
  mt_nextw :: nat
  mt_finish :: nat
  mt_exit :: bool
  mt_error :: int
  mt_pc :: mpc

definition set_worker :: "nat \<Rightarrow> fuse_worker \<Rightarrow> ('w, 'm) fuse_mt \<Rightarrow> ('w, 'm) fuse_mt" where
  "set_worker i w mt = mt\<lparr>mt_threads := (mt_threads mt)(i \<mapsto> w)\<rparr>"

definition with_pipe :: "fuse_worker \<Rightarrow> ('w, 'm) session_scheme \<Rightarrow> ('w, 'm) session_scheme" where
  \<comment> \<open>the thread's own value of \<open>pipe_key\<close>\<close>
  "with_pipe w = upd_ll (\<lambda>f. f\<lparr>ll_pipe := wk_pipe w\<rparr>)"

section \<open>Starting a thread\<close>

definition fuse_start_thread :: "('w, 'm) session_scheme \<Rightarrow> int \<times> ('w, 'm) session_scheme" where
  "fuse_start_thread s = (let (ok, s) = llmalloc s in (if ok then 0 else - 1, s))"

definition fuse_clone_chan :: "'w kernel \<Rightarrow> nat \<Rightarrow> ('w, 'm) session_scheme \<Rightarrow> (nat option \<times> ('w, 'm) session_scheme) option" where
  \<comment> \<open>\<open>O_RDWR | O_CLOEXEC\<close> is 524290; without the ioctl the channel of the session is shared\<close>
  "fuse_clone_chan k prevch s =
     (let (r, s) = llsys k (SysOpen ''/dev/fuse'' 524290 0) s
      in if r_ret r = - 1 then Some (None, s)
         else do {
           let s = snd (llsys k (SysSetfd (r_ret r) 1) s);
           prev \<leftarrow> se_chans s prevch;
           let (i, s) = llsys k (SysClone (r_ret r) (ch_fd prev)) s;
           if r_ret i = - 1 then do {
             let s = upd_ll (\<lambda>f. f\<lparr>ll_clone_fd := False\<rparr>) (snd (llsys k (SysClose (r_ret r)) s));
             s \<leftarrow> fuse_chan_get prevch s;
             Some (Some prevch, s)
           } else
             let (newch, s) = fuse_chan_new (r_ret r) s
             in Some (newch, if newch = None then snd (llsys k (SysClose (r_ret r)) s) else s)
         })"

definition new_worker :: "nat \<Rightarrow> fuse_worker" where
  "new_worker ch = \<lparr>wk_pc = W_top, wk_fbuf = \<lparr>buf_size = 0, buf_flags = 0, buf_mem = 0, buf_fd = 0, buf_pos = 0\<rparr>,
     wk_hasmem = False, wk_ch = ch, wk_pipe = None\<rparr>"

definition worker_chan :: "'w kernel \<Rightarrow> nat \<Rightarrow> ('w, 'm) session_scheme \<Rightarrow> (nat option \<times> ('w, 'm) session_scheme) option" where
  "worker_chan k prevch s =
     (if ll_clone_fd (se_f s) then fuse_clone_chan k prevch s else do { s \<leftarrow> fuse_chan_get prevch s; Some (Some prevch, s) })"

definition fuse_loop_start_thread :: "'w kernel \<Rightarrow> ('w, 'm) fuse_mt \<Rightarrow> (int \<times> ('w, 'm) fuse_mt) option" where
  "fuse_loop_start_thread k mt =
     (let (ok, s) = llmalloc (mt_se mt)
      in if \<not> ok then Some (- 1, mt\<lparr>mt_se := s\<rparr>)
         else do {
           (ch, s) \<leftarrow> worker_chan k (mt_prevch mt) s;
           case ch of
             None \<Rightarrow> Some (- 1, mt\<lparr>mt_se := s\<rparr>)
           | Some ch \<Rightarrow>
               (let (res, s) = fuse_start_thread s
                in if res = - 1 then do { s \<leftarrow> fuse_chan_put k (Some ch) s; Some (- 1, mt\<lparr>mt_se := s\<rparr>) }
                   else Some (0, set_worker (mt_nextw mt) (new_worker ch)
                     (mt\<lparr>mt_se := s, mt_list := mt_list mt @ [mt_nextw mt], mt_nextw := mt_nextw mt + 1,
                        mt_numavail := mt_numavail mt + 1, mt_numworker := mt_numworker mt + 1\<rparr>)))
         })"

section \<open>A worker\<close>

definition sem_post :: "('w, 'm) fuse_mt \<Rightarrow> ('w, 'm) fuse_mt" where
  "sem_post mt = mt\<lparr>mt_finish := mt_finish mt + 1\<rparr>"

definition worker_stop :: "nat \<Rightarrow> fuse_worker \<Rightarrow> ('w, 'm) fuse_mt \<Rightarrow> ('w, 'm) fuse_mt" where
  \<comment> \<open>the loop was left: \<open>sem_post(&mt->finish); return NULL;\<close>\<close>
  "worker_stop i w mt = sem_post (set_worker i (w\<lparr>wk_pc := W_end\<rparr>) mt)"

definition worker_receive :: "'w kernel \<Rightarrow> nat \<Rightarrow> nat \<Rightarrow> fuse_worker \<Rightarrow> ('w, 'm) fuse_mt \<Rightarrow> ('w, 'm) fuse_mt option" where
  \<comment> \<open>from the condition of the loop, when it holds, to the first critical section\<close>
  "worker_receive k a i w mt = do {
     (res, fbuf, hasmem, s) \<leftarrow> fuse_session_receive_buf_int k a (wk_fbuf w) (wk_hasmem w) (wk_ch w) (with_pipe w (mt_se mt));
     let w = w\<lparr>wk_fbuf := fbuf, wk_hasmem := hasmem, wk_pipe := ll_pipe (se_f s)\<rparr>;
     let mt = mt\<lparr>mt_se := s\<rparr>;
     Some (if res = - EINTR then set_worker i (w\<lparr>wk_pc := W_top\<rparr>) mt
           else if res < 0 then worker_stop i w (mt\<lparr>mt_se := fuse_session_exit s, mt_error := - 1\<rparr>)
           else if res = 0 then worker_stop i w mt
           else set_worker i (w\<lparr>wk_pc := W_got\<rparr>) mt)
   }"

definition is_forget :: "fuse_buf \<Rightarrow> ('w, 'm) session_scheme \<Rightarrow> bool option" where
  \<comment> \<open>FUSE_FORGET is 2, FUSE_BATCH_FORGET is 42; a request in the pipe is none of them\<close>
  "is_forget b s =
     (if has (buf_flags b) FUSE_BUF_IS_FD then Some False
      else do { op \<leftarrow> u32 (load (se_thread s) (buf_mem b) (buf_size b)) 4; Some (unat op = 2 \<or> unat op = 42) })"

definition worker_take :: "'w kernel \<Rightarrow> nat \<Rightarrow> fuse_worker \<Rightarrow> ('w, 'm) fuse_mt \<Rightarrow> (int option \<times> ('w, 'm) fuse_mt) option" where
  \<comment> \<open>the first critical section; with the result of \<open>fuse_loop_start_thread\<close> if it is called\<close>
  "worker_take k i w mt =
     (if mt_exit mt then Some (None, set_worker i (w\<lparr>wk_pc := W_end\<rparr>) mt)
      else do {
        isforget \<leftarrow> is_forget (wk_fbuf w) (mt_se mt);
        let mt = set_worker i (w\<lparr>wk_pc := W_work isforget\<rparr>) mt;
        let mt = (if \<not> isforget then mt\<lparr>mt_numavail := mt_numavail mt - 1\<rparr> else mt);
        if mt_numavail mt = 0 then do { (res, mt) \<leftarrow> fuse_loop_start_thread k mt; Some (Some res, mt) }
        else Some (None, mt)
      })"

definition worker_process ::
  "'w kernel \<Rightarrow> ('w, 'm) client \<Rightarrow> nat \<Rightarrow> nat \<Rightarrow> fuse_worker \<Rightarrow> bool \<Rightarrow> ('w, 'm) fuse_mt \<Rightarrow> ('w, 'm) fuse_mt option" where
  "worker_process k c a i w isforget mt = do {
     s \<leftarrow> fuse_session_process_buf_int k c a (wk_fbuf w) (wk_ch w) (with_pipe w (mt_se mt));
     Some (set_worker i (w\<lparr>wk_pc := W_back isforget, wk_pipe := ll_pipe (se_f s)\<rparr>) (mt\<lparr>mt_se := s\<rparr>))
   }"

definition worker_return :: "nat \<Rightarrow> fuse_worker \<Rightarrow> bool \<Rightarrow> ('w, 'm) fuse_mt \<Rightarrow> ('w, 'm) fuse_mt" where
  \<comment> \<open>the second critical section\<close>
  "worker_return i w isforget mt =
     (let mt = (if \<not> isforget then mt\<lparr>mt_numavail := mt_numavail mt + 1\<rparr> else mt)
      in if mt_numavail mt > 10 then
           if mt_exit mt then set_worker i (w\<lparr>wk_pc := W_end\<rparr>) mt
           else set_worker i (w\<lparr>wk_pc := W_leave\<rparr>)
             (mt\<lparr>mt_list := removeAll i (mt_list mt), mt_numavail := mt_numavail mt - 1, mt_numworker := mt_numworker mt - 1\<rparr>)
         else set_worker i (w\<lparr>wk_pc := W_top\<rparr>) mt)"

definition free_worker :: "'w kernel \<Rightarrow> nat \<Rightarrow> fuse_worker \<Rightarrow> ('w, 'm) fuse_mt \<Rightarrow> ('w, 'm) fuse_mt option" where
  \<comment> \<open>\<open>free(w->fbuf.mem); fuse_chan_put(w->ch); free(w);\<close>\<close>
  "free_worker k i w mt = do {
     s \<leftarrow> fuse_chan_put k (Some (wk_ch w)) (mt_se mt);
     Some (mt\<lparr>mt_se := s, mt_threads := (mt_threads mt)(i := None)\<rparr>)
   }"

section \<open>The main thread\<close>

definition pool_start :: "'w kernel \<Rightarrow> ('w, 'm) session_scheme \<Rightarrow> (int \<times> ('w, 'm) fuse_mt) option" where
  \<comment> \<open>up to the first thread; when there is none the function returns at once\<close>
  "pool_start k s = do {
     ch \<leftarrow> se_ch s;
     (err, mt) \<leftarrow> fuse_loop_start_thread k \<lparr>mt_se = s, mt_numworker = 0, mt_numavail = 0, mt_prevch = ch, mt_list = [],
       mt_threads = (\<lambda>_. None), mt_nextw = 0, mt_finish = 0, mt_exit = False, mt_error = 0, mt_pc = M_wait\<rparr>;
     Some (err, if err \<noteq> 0 then mt\<lparr>mt_se := fuse_session_reset (mt_se mt), mt_pc := M_end\<rparr> else mt)
   }"

definition sem_wait :: "('w, 'm) fuse_mt \<Rightarrow> ('w, 'm) fuse_mt" where
  \<comment> \<open>returns when there is a token, or by a signal\<close>
  "sem_wait mt = mt\<lparr>mt_finish := mt_finish mt - 1\<rparr>"

definition pool_exit :: "('w, 'm) fuse_mt \<Rightarrow> ('w, 'm) fuse_mt" where
  \<comment> \<open>the workers of the list are cancelled\<close>
  "pool_exit mt = mt\<lparr>mt_exit := True, mt_pc := M_join\<rparr>"

definition fuse_join_worker :: "'w kernel \<Rightarrow> nat \<Rightarrow> fuse_worker \<Rightarrow> ('w, 'm) fuse_mt \<Rightarrow> ('w, 'm) fuse_mt option" where
  "fuse_join_worker k i w mt = free_worker k i w (mt\<lparr>mt_list := removeAll i (mt_list mt)\<rparr>)"

definition pool_end :: "('w, 'm) fuse_mt \<Rightarrow> ('w, 'm) fuse_mt" where
  "pool_end mt = mt\<lparr>mt_se := fuse_session_reset (mt_se mt), mt_pc := M_end\<rparr>"

section \<open>Steps\<close>

text \<open>
  A step is labelled with the result of \<open>fuse_loop_start_thread\<close> when it calls it. A worker that was
  cancelled ends where it may: while it receives.
\<close>

inductive pool_step :: "'w kernel \<Rightarrow> ('w, 'm) client \<Rightarrow> nat \<Rightarrow> ('w, 'm) fuse_mt \<Rightarrow> int option \<Rightarrow> ('w, 'm) fuse_mt \<Rightarrow> bool"
  for k c a where
  step_exited: "mt_threads mt i = Some w \<Longrightarrow> wk_pc w = W_top \<Longrightarrow> se_exited (mt_se mt) \<Longrightarrow> pool_step k c a mt None (worker_stop i w mt)"
| step_receive: "mt_threads mt i = Some w \<Longrightarrow> wk_pc w = W_top \<Longrightarrow> \<not> se_exited (mt_se mt) \<Longrightarrow> worker_receive k a i w mt = Some mt' \<Longrightarrow>
    pool_step k c a mt None mt'"
| step_cancel: "mt_threads mt i = Some w \<Longrightarrow> wk_pc w = W_top \<Longrightarrow> mt_exit mt \<Longrightarrow> i \<in> set (mt_list mt) \<Longrightarrow>
    pool_step k c a mt None (set_worker i (w\<lparr>wk_pc := W_end\<rparr>) mt)"
| step_take: "mt_threads mt i = Some w \<Longrightarrow> wk_pc w = W_got \<Longrightarrow> worker_take k i w mt = Some (ev, mt') \<Longrightarrow> pool_step k c a mt ev mt'"
| step_process: "mt_threads mt i = Some w \<Longrightarrow> wk_pc w = W_work isforget \<Longrightarrow> worker_process k c a i w isforget mt = Some mt' \<Longrightarrow>
    pool_step k c a mt None mt'"
| step_return: "mt_threads mt i = Some w \<Longrightarrow> wk_pc w = W_back isforget \<Longrightarrow> pool_step k c a mt None (worker_return i w isforget mt)"
| step_leave: "mt_threads mt i = Some w \<Longrightarrow> wk_pc w = W_leave \<Longrightarrow> free_worker k i w mt = Some mt' \<Longrightarrow> pool_step k c a mt None mt'"
| step_wait: "mt_pc mt = M_wait \<Longrightarrow> \<not> se_exited (mt_se mt) \<Longrightarrow> pool_step k c a mt None (sem_wait mt)"
| step_main_exit: "mt_pc mt = M_wait \<Longrightarrow> se_exited (mt_se mt) \<Longrightarrow> pool_step k c a mt None (pool_exit mt)"
| step_join: "mt_pc mt = M_join \<Longrightarrow> mt_list mt = i # l \<Longrightarrow> mt_threads mt i = Some w \<Longrightarrow> wk_pc w = W_end \<Longrightarrow>
    fuse_join_worker k i w mt = Some mt' \<Longrightarrow> pool_step k c a mt None mt'"
| step_end: "mt_pc mt = M_join \<Longrightarrow> mt_list mt = [] \<Longrightarrow> pool_step k c a mt None (pool_end mt)"

inductive_cases pool_stepE: "pool_step k c a mt ev mt'"

inductive pool_run :: "'w kernel \<Rightarrow> ('w, 'm) client \<Rightarrow> nat \<Rightarrow> ('w, 'm) session_scheme \<Rightarrow> int option list \<Rightarrow> ('w, 'm) fuse_mt \<Rightarrow> bool"
  for k c a s where
  run_start: "pool_start k s = Some (0, mt) \<Longrightarrow> pool_run k c a s [] mt"
| run_step: "pool_run k c a s es mt \<Longrightarrow> pool_step k c a mt ev mt' \<Longrightarrow> pool_run k c a s (es @ [ev]) mt'"

end
