(* ===== verification/Workers_Props.thy ===== *)
theory Workers_Props
  imports Workers Ll_Props
begin

text \<open>
  What every interleaving of the pool of threads keeps: the two counters count what they are named
  for, the list holds exactly the workers that have not left, and when the main thread has returned no
  worker is on the list. As long as threads can be created, requests other than forgets never occupy all the
  workers.
\<close>

section \<open>The invariant\<close>

definition busy :: "fuse_worker \<Rightarrow> bool" where
  \<comment> \<open>between the two critical sections, with a request that is not a forget\<close>
  "busy w \<longleftrightarrow> wk_pc w = W_work False \<or> wk_pc w = W_back False"

definition busy_among :: "(nat \<Rightarrow> fuse_worker option) \<Rightarrow> nat list \<Rightarrow> nat" where
  "busy_among h l = length (filter (\<lambda>i. busy (the (h i))) l)"

definition pool_ok :: "('w, 'm) fuse_mt \<Rightarrow> bool" where
  "pool_ok mt \<longleftrightarrow>
     distinct (mt_list mt) \<and>
     (\<forall>i. i \<in> set (mt_list mt) \<longleftrightarrow> (\<exists>w. mt_threads mt i = Some w \<and> wk_pc w \<noteq> W_leave)) \<and>
     (\<forall>i. mt_threads mt i \<noteq> None \<longrightarrow> i < mt_nextw mt) \<and>
     mt_numworker mt - mt_numavail mt = int (busy_among (mt_threads mt) (mt_list mt)) \<and>
     int (length (mt_list mt)) \<le> mt_numworker mt \<and>
     (mt_exit mt \<longleftrightarrow> mt_pc mt \<noteq> M_wait) \<and>
     (\<not> mt_exit mt \<longrightarrow> mt_numworker mt = int (length (mt_list mt)) \<and> mt_numavail mt \<le> 10) \<and>
     (mt_pc mt = M_end \<longrightarrow> mt_list mt = [])"

lemma busy_among_remove:
  assumes "distinct l"
  shows "busy_among h l = busy_among h (removeAll i l) + (if i \<in> set l \<and> busy (the (h i)) then 1 else 0)"
proof (cases "i \<in> set l")
  case True
  then obtain l1 l2 where l: "l = l1 @ i # l2" by (auto dest: split_list)
  then have "removeAll i l = l1 @ l2" using assms by simp
  then show ?thesis unfolding l busy_among_def by simp
qed simp

lemma busy_among_cong:
  "(\<And>j. j \<in> set l \<Longrightarrow> h j = h' j) \<Longrightarrow> busy_among h l = busy_among h' l"
  unfolding busy_among_def by (rule arg_cong[of _ _ length], rule filter_cong) auto

lemma busy_among_upd [simp]: "busy_among (h(i := x)) (removeAll i l) = busy_among h (removeAll i l)"
  by (rule busy_among_cong) auto

lemma busy_among_le: "busy_among h l \<le> length l"
  by (simp add: busy_among_def)

lemma pool_okD:
  assumes "pool_ok mt"
  shows "distinct (mt_list mt)" "i \<in> set (mt_list mt) \<longleftrightarrow> (\<exists>w. mt_threads mt i = Some w \<and> wk_pc w \<noteq> W_leave)"
    "mt_threads mt i = Some w \<Longrightarrow> i < mt_nextw mt"
    "mt_numworker mt - mt_numavail mt = int (busy_among (mt_threads mt) (mt_list mt))"
    "int (length (mt_list mt)) \<le> mt_numworker mt" "mt_exit mt \<longleftrightarrow> mt_pc mt \<noteq> M_wait"
    "\<not> mt_exit mt \<Longrightarrow> mt_numworker mt = int (length (mt_list mt)) \<and> mt_numavail mt \<le> 10"
    "mt_pc mt = M_end \<Longrightarrow> mt_list mt = []"
  using assms unfolding pool_ok_def by auto

lemma pool_ok_se [simp]:
  "pool_ok (mt\<lparr>mt_se := s\<rparr>) = pool_ok mt" "pool_ok (mt\<lparr>mt_error := e\<rparr>) = pool_ok mt"
  "pool_ok (mt\<lparr>mt_finish := n\<rparr>) = pool_ok mt"
  by (simp_all add: pool_ok_def)

text \<open>A worker that moves on without becoming busy or idle, and without leaving.\<close>

lemma pool_ok_set:
  assumes ok: "pool_ok mt" and w: "mt_threads mt i = Some w"
    and "busy w' = busy w" and "wk_pc w' = W_leave \<longleftrightarrow> wk_pc w = W_leave"
  shows "pool_ok (set_worker i w' mt)"
proof -
  note D = pool_okD[OF ok]
  have "busy_among ((mt_threads mt)(i \<mapsto> w')) (mt_list mt) = busy_among (mt_threads mt) (mt_list mt)"
    by (subst (1 2) busy_among_remove[OF D(1), of _ i]) (use assms in simp)
  moreover have "j \<in> set (mt_list mt) \<longleftrightarrow> (\<exists>x. ((mt_threads mt)(i \<mapsto> w')) j = Some x \<and> wk_pc x \<noteq> W_leave)" for j
    using D(2)[of j] w assms(4) by (cases "j = i") auto
  ultimately show ?thesis using ok w unfolding pool_ok_def set_worker_def by auto
qed

section \<open>The steps keep it\<close>

lemma start_thread_cases:
  assumes "fuse_loop_start_thread k mt = Some (res, mt')"
  obtains (failed) s where "res = - 1" "mt' = mt\<lparr>mt_se := s\<rparr>"
  | (started) s ch where "res = 0" "mt' = set_worker (mt_nextw mt) (new_worker ch)
      (mt\<lparr>mt_se := s, mt_list := mt_list mt @ [mt_nextw mt], mt_nextw := mt_nextw mt + 1,
         mt_numavail := mt_numavail mt + 1, mt_numworker := mt_numworker mt + 1\<rparr>)"
proof -
  obtain ok s0 where ok: "llmalloc (mt_se mt) = (ok, s0)" by (rule prod.exhaust)
  show ?thesis
  proof (cases ok)
    case False
    then have "res = - 1" "mt' = mt\<lparr>mt_se := s0\<rparr>" using assms ok by (simp_all add: fuse_loop_start_thread_def)
    then show ?thesis by (rule failed)
  next
    case True
    then obtain ch s1 where ch: "worker_chan k (mt_prevch mt) s0 = Some (ch, s1)"
      using assms ok by (cases "worker_chan k (mt_prevch mt) s0") (auto simp: fuse_loop_start_thread_def)
    obtain r s2 where r: "fuse_start_thread s1 = (r, s2)" by (rule prod.exhaust)
    show ?thesis
    proof (cases ch)
      case None
      then have "res = - 1" "mt' = mt\<lparr>mt_se := s1\<rparr>" using assms ok True ch by (simp_all add: fuse_loop_start_thread_def)
      then show ?thesis by (rule failed)
    next
      case c: (Some c)
      show ?thesis
      proof (cases "r = - 1")
        case r1: True
        then obtain s3 where "fuse_chan_put k (Some c) s2 = Some s3" "res = - 1" "mt' = mt\<lparr>mt_se := s3\<rparr>"
          using assms ok True ch r c by (cases "fuse_chan_put k (Some c) s2") (simp_all add: fuse_loop_start_thread_def)
        then show ?thesis using failed by blast
      next
        case False
        then show ?thesis using assms ok True ch r c by (intro started[of c s2]) (simp_all add: fuse_loop_start_thread_def)
      qed
    qed
  qed
qed

lemma started_ok:
  assumes ok: "pool_ok mt" and "\<not> mt_exit mt" and "mt_numavail mt < 10"
  shows "pool_ok (set_worker (mt_nextw mt) (new_worker ch)
      (mt\<lparr>mt_se := s, mt_list := mt_list mt @ [mt_nextw mt], mt_nextw := mt_nextw mt + 1,
         mt_numavail := mt_numavail mt + 1, mt_numworker := mt_numworker mt + 1\<rparr>))"
proof -
  note D = pool_okD[OF ok]
  let ?n = "mt_nextw mt"
  have fresh: "mt_threads mt ?n = None" using D(3)[of ?n] by fastforce
  then have new: "?n \<notin> set (mt_list mt)" using D(2)[of ?n] by simp
  have idle: "\<not> busy (new_worker ch)" "wk_pc (new_worker ch) \<noteq> W_leave" by (simp_all add: busy_def new_worker_def)
  have "busy_among ((mt_threads mt)(?n \<mapsto> new_worker ch)) (mt_list mt) = busy_among (mt_threads mt) (mt_list mt)"
    by (rule busy_among_cong) (use new in auto)
  then have "busy_among ((mt_threads mt)(?n \<mapsto> new_worker ch)) (mt_list mt @ [?n]) = busy_among (mt_threads mt) (mt_list mt)"
    using idle by (simp add: busy_among_def)
  moreover have "j \<in> set (mt_list mt @ [?n]) \<longleftrightarrow> (\<exists>x. ((mt_threads mt)(?n \<mapsto> new_worker ch)) j = Some x \<and> wk_pc x \<noteq> W_leave)" for j
    using D(2)[of j] idle fresh by (cases "j = ?n") auto
  moreover have "((mt_threads mt)(?n \<mapsto> new_worker ch)) j \<noteq> None \<Longrightarrow> j < ?n + 1" for j
    using D(3)[of j] by (cases "j = ?n") fastforce+
  moreover have "mt_pc mt = M_wait" using assms(2) D(6) by blast
  ultimately show ?thesis using D(1,4,7) new assms(2,3) unfolding pool_ok_def set_worker_def by auto
qed

lemma start_keeps:
  assumes "fuse_loop_start_thread k mt = Some (res, mt')" "pool_ok mt" "\<not> mt_exit mt" "mt_numavail mt < 10"
  shows "pool_ok mt'"
  using assms(1)
proof (cases rule: start_thread_cases)
  case (failed s)
  then show ?thesis using assms(2) by simp
next
  case (started s ch)
  then show ?thesis using started_ok[OF assms(2-4)] by simp
qed

lemma take_keeps:
  assumes step: "worker_take k i w mt = Some (ev, mt')" and ok: "pool_ok mt" and w: "mt_threads mt i = Some w" "wk_pc w = W_got"
  shows "pool_ok mt'"
proof (cases "mt_exit mt")
  case True
  with step have "mt' = set_worker i (w\<lparr>wk_pc := W_end\<rparr>) mt" by (simp add: worker_take_def)
  then show ?thesis using pool_ok_set[OF ok w(1)] w(2) by (simp add: busy_def)
next
  case False
  note D = pool_okD[OF ok]
  obtain isf where isf: "is_forget (wk_fbuf w) (mt_se mt) = Some isf"
    using step False by (auto simp: worker_take_def split: Option.bind_splits)
  define mt1 where "mt1 = set_worker i (w\<lparr>wk_pc := W_work isf\<rparr>) mt"
  define mt2 where "mt2 = (if \<not> isf then mt1\<lparr>mt_numavail := mt_numavail mt1 - 1\<rparr> else mt1)"
  have i: "i \<in> set (mt_list mt)" using D(2)[of i] w by simp
  have *: "(if mt_numavail mt2 = 0 then do { (res, mt) \<leftarrow> fuse_loop_start_thread k mt2; Some (Some res, mt) } else Some (None, mt2)) = Some (ev, mt')"
    using step unfolding worker_take_def if_not_P[OF False] isf mt2_def mt1_def Let_def by (simp only: Option.bind.bind_lunit)
  have count: "busy_among ((mt_threads mt)(i \<mapsto> w\<lparr>wk_pc := W_work isf\<rparr>)) (mt_list mt) =
      busy_among (mt_threads mt) (mt_list mt) + (if isf then 0 else 1)"
    by (subst (1 2) busy_among_remove[OF D(1), of _ i]) (use w i in \<open>simp add: busy_def\<close>)
  have mem: "j \<in> set (mt_list mt) \<longleftrightarrow> (\<exists>x. ((mt_threads mt)(i \<mapsto> w\<lparr>wk_pc := W_work isf\<rparr>)) j = Some x \<and> wk_pc x \<noteq> W_leave)" for j
    using D(2)[of j] w by (cases "j = i") auto
  have ok2: "pool_ok mt2"
    using ok w count mem False D(7) unfolding pool_ok_def mt1_def mt2_def set_worker_def by (cases isf) auto
  have "\<not> mt_exit mt2" using False by (simp add: mt2_def mt1_def set_worker_def)
  with * ok2 start_keeps[of k mt2] show ?thesis by (auto split: if_splits Option.bind_splits)
qed

lemma return_keeps:
  assumes ok: "pool_ok mt" and w: "mt_threads mt i = Some w" "wk_pc w = W_back isf"
  shows "pool_ok (worker_return i w isf mt)"
proof -
  note D = pool_okD[OF ok]
  have i: "i \<in> set (mt_list mt)" using D(2)[of i] w by simp
  define mt1 where "mt1 = (if \<not> isf then mt\<lparr>mt_numavail := mt_numavail mt + 1\<rparr> else mt)"
  have same [simp]: "mt_list mt1 = mt_list mt" "mt_threads mt1 = mt_threads mt" "mt_nextw mt1 = mt_nextw mt" "mt_exit mt1 = mt_exit mt"
    "mt_pc mt1 = mt_pc mt" "mt_numworker mt1 = mt_numworker mt" by (simp_all add: mt1_def)
  let ?put = "\<lambda>pc. (mt_threads mt)(i \<mapsto> w\<lparr>wk_pc := pc\<rparr>)"
  have rest: "busy_among (mt_threads mt) (mt_list mt) = busy_among (mt_threads mt) (removeAll i (mt_list mt)) + (if isf then 0 else 1)"
    by (subst busy_among_remove[OF D(1), of _ i]) (use w i in \<open>simp add: busy_def\<close>)
  have avail: "mt_numworker mt - mt_numavail mt1 = int (busy_among (mt_threads mt) (removeAll i (mt_list mt)))"
    using D(4) rest by (cases isf) (simp_all add: mt1_def)
  have put: "busy_among (?put pc) (mt_list mt) = busy_among (mt_threads mt) (removeAll i (mt_list mt))" if "\<not> busy (w\<lparr>wk_pc := pc\<rparr>)" for pc
    by (subst busy_among_remove[OF D(1), of _ i]) (use that in simp)
  have mem: "j \<in> set (mt_list mt) \<longleftrightarrow> (\<exists>x. (?put pc) j = Some x \<and> wk_pc x \<noteq> W_leave)" if "pc \<noteq> W_leave" for j pc
    using D(2)[of j] w i that by (cases "j = i") auto
  have gone: "j \<in> set (removeAll i (mt_list mt)) \<longleftrightarrow> (\<exists>x. (?put W_leave) j = Some x \<and> wk_pc x \<noteq> W_leave)" for j
    using D(2)[of j] by (cases "j = i") auto
  have len: "int (length (mt_list mt)) = int (length (removeAll i (mt_list mt))) + 1"
    using D(1) i by (simp add: distinct_remove1_removeAll[symmetric] length_remove1) (metis One_nat_def Suc_pred length_pos_if_in_set of_nat_Suc add.commute)
  have le: "\<not> mt_exit mt \<Longrightarrow> mt_numavail mt1 \<le> 11" using D(7) by (simp add: mt1_def)
  have nextw: "(?put pc) j \<noteq> None \<Longrightarrow> j < mt_nextw mt" for pc j
    using D(3)[of j] D(3)[OF w(1)] by (cases "j = i") fastforce+
  consider (stop) "mt_numavail mt1 > 10" "mt_exit mt" | (leave) "mt_numavail mt1 > 10" "\<not> mt_exit mt" | (again) "\<not> mt_numavail mt1 > 10" by blast
  then show ?thesis
  proof cases
    case stop
    then have "worker_return i w isf mt = set_worker i (w\<lparr>wk_pc := W_end\<rparr>) mt1"
      by (simp add: worker_return_def mt1_def[symmetric] Let_def)
    then show ?thesis using stop D(1,5,6,8) avail put[of W_end] mem[of W_end] nextw[of W_end]
      unfolding pool_ok_def set_worker_def by (simp add: busy_def)
  next
    case leave
    then have "worker_return i w isf mt = set_worker i (w\<lparr>wk_pc := W_leave\<rparr>)
        (mt1\<lparr>mt_list := removeAll i (mt_list mt), mt_numavail := mt_numavail mt1 - 1, mt_numworker := mt_numworker mt - 1\<rparr>)"
      by (simp add: worker_return_def mt1_def[symmetric] Let_def)
    moreover have "mt_pc mt = M_wait" using leave D(6) by blast
    moreover have "distinct (removeAll i (mt_list mt))" using D(1) by (rule distinct_removeAll)
    ultimately show ?thesis using leave D(7) avail gone nextw[of W_leave] len le
      unfolding pool_ok_def set_worker_def by simp
  next
    case again
    then have "worker_return i w isf mt = set_worker i (w\<lparr>wk_pc := W_top\<rparr>) mt1"
      by (simp add: worker_return_def mt1_def[symmetric] Let_def)
    then show ?thesis using again D(1,5,6,7,8) avail put[of W_top] mem[of W_top] nextw[of W_top]
      unfolding pool_ok_def set_worker_def by (simp add: busy_def)
  qed
qed

lemma receive_keeps:
  assumes "worker_receive k a i w mt = Some mt'" and ok: "pool_ok mt" and w: "mt_threads mt i = Some w" "wk_pc w = W_top"
  shows "pool_ok mt'" "mt_exit mt' = mt_exit mt" "mt_numavail mt' = mt_numavail mt"
proof -
  obtain res b h s where r: "fuse_session_receive_buf_int k a (wk_fbuf w) (wk_hasmem w) (wk_ch w) (with_pipe w (mt_se mt)) = Some (res, b, h, s)"
    using assms(1) by (auto simp: worker_receive_def split: Option.bind_splits)
  define w1 where "w1 = w\<lparr>wk_fbuf := b, wk_hasmem := h, wk_pipe := ll_pipe (se_f s)\<rparr>"
  have put: "pool_ok (set_worker i (w1\<lparr>wk_pc := pc\<rparr>) (mt\<lparr>mt_se := s', mt_error := e\<rparr>))" if "pc \<in> {W_top, W_got, W_end}" for pc s' e
    by (rule pool_ok_set[of _ i w]) (use ok w that in \<open>auto simp: busy_def w1_def\<close>)
  have mt': "mt' = (if res = - EINTR then set_worker i (w1\<lparr>wk_pc := W_top\<rparr>) (mt\<lparr>mt_se := s\<rparr>)
      else if res < 0 then worker_stop i w1 (mt\<lparr>mt_se := fuse_session_exit s, mt_error := - 1\<rparr>)
      else if res = 0 then worker_stop i w1 (mt\<lparr>mt_se := s\<rparr>) else set_worker i (w1\<lparr>wk_pc := W_got\<rparr>) (mt\<lparr>mt_se := s\<rparr>))"
    using assms(1) by (auto simp: worker_receive_def r w1_def Let_def split: if_splits)
  show "pool_ok mt'" unfolding mt' worker_stop_def sem_post_def
    using put[of W_top "mt_error mt" s] put[of W_got "mt_error mt" s] put[of W_end "mt_error mt" s] put[of W_end "- 1"] by simp
  show "mt_exit mt' = mt_exit mt" "mt_numavail mt' = mt_numavail mt"
    by (simp_all add: mt' worker_stop_def sem_post_def set_worker_def)
qed

lemma free_keeps:
  assumes "free_worker k i w mt = Some mt'" and ok: "pool_ok mt" and w: "mt_threads mt i = Some w"
    and gone: "wk_pc w = W_leave \<or> wk_pc w = W_end \<and> i \<in> set (mt_list mt) \<and> mt_exit mt"
  shows "pool_ok (mt'\<lparr>mt_list := removeAll i (mt_list mt)\<rparr>)"
proof -
  note D = pool_okD[OF ok]
  obtain s where mt': "mt' = mt\<lparr>mt_se := s, mt_threads := (mt_threads mt)(i := None)\<rparr>"
    using assms(1) by (auto simp: free_worker_def split: Option.bind_splits)
  have idle: "\<not> (i \<in> set (mt_list mt) \<and> busy (the (mt_threads mt i)))" using gone w by (auto simp: busy_def)
  then have "busy_among (mt_threads mt) (mt_list mt) = busy_among (mt_threads mt) (removeAll i (mt_list mt))"
    by (subst busy_among_remove[OF D(1), of _ i]) simp
  moreover have "j \<in> set (removeAll i (mt_list mt)) \<longleftrightarrow> (\<exists>x. ((mt_threads mt)(i := None)) j = Some x \<and> wk_pc x \<noteq> W_leave)" for j
    using D(2)[of j] by (cases "j = i") auto
  moreover have "int (length (removeAll i (mt_list mt))) \<le> mt_numworker mt"
    using length_removeAll_less_eq[of i "mt_list mt"] D(5) by linarith
  moreover have "\<not> mt_exit mt \<Longrightarrow> removeAll i (mt_list mt) = mt_list mt"
    using gone D(2)[of i] w by (simp add: removeAll_id)
  moreover have "distinct (removeAll i (mt_list mt))" using D(1) by (rule distinct_removeAll)
  ultimately show ?thesis using D(3-8) unfolding pool_ok_def mt' by auto
qed

lemma step_keeps:
  assumes "pool_step k c a mt ev mt'" and ok: "pool_ok mt"
  shows "pool_ok mt'"
  using assms(1)
proof cases
  case (step_exited i w)
  then show ?thesis using pool_ok_set[OF ok, of i w] by (simp add: worker_stop_def sem_post_def busy_def)
next
  case (step_receive i w)
  then show ?thesis using receive_keeps(1) ok by blast
next
  case (step_cancel i w)
  then show ?thesis using pool_ok_set[OF ok, of i w] by (simp add: busy_def)
next
  case (step_take i w)
  then show ?thesis using take_keeps ok by blast
next
  case (step_process i w isf)
  then obtain s where mt': "mt' = set_worker i (w\<lparr>wk_pc := W_back isf, wk_pipe := ll_pipe (se_f s)\<rparr>) (mt\<lparr>mt_se := s\<rparr>)"
    by (auto simp: worker_process_def split: Option.bind_splits)
  show ?thesis unfolding mt' by (rule pool_ok_set[of _ i w]) (use step_process ok in \<open>simp_all add: busy_def\<close>)
next
  case (step_return i w isf)
  then show ?thesis using return_keeps ok by blast
next
  case (step_leave i w)
  have "i \<notin> set (mt_list mt)" using pool_okD(2)[OF ok, of i] step_leave by simp
  moreover have "mt_list mt' = mt_list mt" using step_leave by (auto simp: free_worker_def split: Option.bind_splits)
  ultimately show ?thesis using free_keeps[OF _ ok] step_leave by (metis fuse_mt.surjective fuse_mt.update_convs(5) removeAll_id)
next
  case step_wait
  then show ?thesis using ok by (simp add: sem_wait_def)
next
  case step_main_exit
  then show ?thesis using ok by (auto simp: pool_ok_def pool_exit_def)
next
  case (step_join i l w)
  have e: "mt_exit mt" using pool_okD(6)[OF ok] step_join by simp
  obtain s where mt': "mt' = mt\<lparr>mt_list := removeAll i (mt_list mt), mt_se := s, mt_threads := (mt_threads mt)(i := None)\<rparr>"
    and "fuse_chan_put k (Some (wk_ch w)) (mt_se mt) = Some s"
    using step_join by (auto simp: fuse_join_worker_def free_worker_def split: Option.bind_splits)
  then have "free_worker k i w mt = Some (mt\<lparr>mt_se := s, mt_threads := (mt_threads mt)(i := None)\<rparr>)"
    by (simp add: free_worker_def)
  from free_keeps[OF this ok] step_join e
  have "pool_ok (mt\<lparr>mt_se := s, mt_threads := (mt_threads mt)(i := None), mt_list := removeAll i (mt_list mt)\<rparr>)" by simp
  moreover have "mt\<lparr>mt_se := s, mt_threads := (mt_threads mt)(i := None), mt_list := removeAll i (mt_list mt)\<rparr> = mt'"
    by (rule fuse_mt.equality) (simp_all add: mt')
  ultimately show ?thesis by simp
next
  case step_end
  then show ?thesis using ok by (auto simp: pool_ok_def pool_end_def)
qed

lemma pool_start_ok:
  assumes "pool_start k s = Some (0, mt)"
  shows "pool_ok mt" "mt_numavail mt = 1"
proof -
  obtain ch where ch: "se_ch s = Some ch" using assms by (auto simp: pool_start_def split: Option.bind_splits)
  define mt0 where "mt0 = \<lparr>mt_se = s, mt_numworker = 0, mt_numavail = 0, mt_prevch = ch, mt_list = [],
       mt_threads = (\<lambda>_. None), mt_nextw = 0, mt_finish = 0, mt_exit = False, mt_error = 0, mt_pc = M_wait\<rparr>"
  have st: "fuse_loop_start_thread k mt0 = Some (0, mt)"
    using assms ch by (auto simp: pool_start_def mt0_def split: Option.bind_splits if_splits)
  have "pool_ok mt0" by (simp add: pool_ok_def mt0_def busy_among_def)
  then show "pool_ok mt" using start_keeps[OF st] by (simp add: mt0_def)
  show "mt_numavail mt = 1" using st by (cases rule: start_thread_cases) (simp_all add: set_worker_def mt0_def)
qed

lemma run_ok: "pool_run k c a s es mt \<Longrightarrow> pool_ok mt"
  by (induction rule: pool_run.induct) (blast intro: pool_start_ok step_keeps)+

section \<open>The pool\<close>

text \<open>
  Property C5. The pool of threads: under every interleaving of its workers and the main thread, with any
  kernel and any client, the list has no worker twice and holds exactly those that have not
  left; \<open>numworker\<close> and \<open>numavail\<close> differ by the number of workers that are processing a request other
  than a forget; before the end \<open>numworker\<close> is the length of the list and at most ten workers are available; and
  when the main thread has returned every thread that is left had taken itself off the list.
\<close>

theorem pool_counts:
  assumes "pool_run k c a s es mt"
  shows "distinct (mt_list mt) \<and>
    (i \<in> set (mt_list mt) \<longleftrightarrow> (\<exists>w. mt_threads mt i = Some w \<and> wk_pc w \<noteq> W_leave)) \<and>
    mt_numworker mt - mt_numavail mt = int (length (filter (\<lambda>i. busy (the (mt_threads mt i))) (mt_list mt))) \<and>
    (mt_pc mt = M_wait \<longrightarrow> mt_numworker mt = int (length (mt_list mt)) \<and> 0 \<le> mt_numavail mt \<and> mt_numavail mt \<le> 10) \<and>
    (mt_pc mt = M_end \<longrightarrow> mt_list mt = [])"
proof -
  note ok = run_ok[OF assms] and D = pool_okD[OF run_ok[OF assms]]
  have "mt_pc mt = M_wait \<longrightarrow> 0 \<le> mt_numavail mt"
    using D(4,6,7) busy_among_le[of "mt_threads mt" "mt_list mt"] by auto
  with D show ?thesis unfolding busy_among_def by blast
qed

definition one_worker :: "(unit, unit) fuse_mt" where
  "one_worker = set_worker 0 (new_worker 3) \<lparr>mt_se = upd_chan 3 (\<lambda>ch. ch\<lparr>ch_ctr := 3\<rparr>) (waiting 23), mt_numworker = 1, mt_numavail = 1,
     mt_prevch = 3, mt_list = [0], mt_threads = (\<lambda>_. None), mt_nextw = 1, mt_finish = 0, mt_exit = False, mt_error = 0,
     mt_pc = M_wait\<rparr>"

lemma pool_starts: "pool_run device quiet_client 0 (waiting 23) [] one_worker"
proof (rule run_start)
  show "pool_start device (waiting 23) = Some (0, one_worker)"
    by (simp add: pool_start_def fuse_loop_start_thread_def llmalloc_def worker_chan_def waiting_def idle_thread_def zero_ll_def
        fuse_chan_get_def waiting_chan_def upd_chan_def fuse_start_thread_def one_worker_def set_worker_def)
qed

lemma worker_fails:
  \<comment> \<open>reading the device fails: the worker ends the session\<close>
  "\<exists>mt w. worker_receive device 0 0 (new_worker 3) one_worker = Some mt \<and> mt_threads mt 0 = Some w \<and> wk_pc w = W_end \<and>
     wk_ch w = 3 \<and> se_exited (mt_se mt) \<and> mt_list mt = [0] \<and> mt_pc mt = M_wait \<and>
     se_chans (mt_se mt) 3 = Some \<lparr>ch_assigned = True, ch_ctr = 3, ch_fd = 5\<rparr>"
proof -
  let ?s = "with_pipe (new_worker 3) (mt_se one_worker)"
  have "fuse_session_receive_buf_int device 0 (wk_fbuf (new_worker 3)) False 3 ?s =
      receive_read device (wk_fbuf (new_worker 3)) False 3 ?s"
    by (simp add: fuse_session_receive_buf_int_def wants_def has_def with_pipe_def upd_ll_def one_worker_def set_worker_def
        upd_chan_def waiting_def zero_conn_def zero_ll_def)
  moreover have "\<exists>b s. receive_read device (wk_fbuf (new_worker 3)) False 3 ?s = Some (- 22, b, True, s) \<and> \<not> se_exited s \<and>
      se_chans s 3 = Some \<lparr>ch_assigned = True, ch_ctr = 3, ch_fd = 5\<rparr>"
    by (simp add: receive_read_def with_pipe_def upd_ll_def one_worker_def set_worker_def upd_chan_def waiting_def waiting_chan_def
        need_memory_def posix_memalign_def alloc_def idle_thread_def receive_loop.simps llsys_def sys_def device_def received_def
        Let_def split_beta)
  ultimately obtain b s where "fuse_session_receive_buf_int device 0 (wk_fbuf (new_worker 3)) False 3 ?s = Some (- 22, b, True, s)"
    "\<not> se_exited s" "se_chans s 3 = Some \<lparr>ch_assigned = True, ch_ctr = 3, ch_fd = 5\<rparr>" by auto
  then show ?thesis
    by (simp add: worker_receive_def new_worker_def worker_stop_def sem_post_def set_worker_def one_worker_def fuse_session_exit_def)
qed

lemma pool_counts_witness:
  "\<exists>mt. pool_run device quiet_client 0 (waiting 23) [None, None, None, None] mt \<and> mt_pc mt = M_end \<and> mt_list mt = []"
proof -
  obtain mt w where m: "worker_receive device 0 0 (new_worker 3) one_worker = Some mt" "mt_threads mt 0 = Some w" "wk_pc w = W_end"
     "wk_ch w = 3" "se_exited (mt_se mt)" "mt_list mt = [0]" "mt_pc mt = M_wait"
     "se_chans (mt_se mt) 3 = Some \<lparr>ch_assigned = True, ch_ctr = 3, ch_fd = 5\<rparr>" using worker_fails by blast
  have w0: "mt_threads one_worker 0 = Some (new_worker 3)" "wk_pc (new_worker 3) = W_top" "\<not> se_exited (mt_se one_worker)"
    by (simp_all add: one_worker_def set_worker_def new_worker_def waiting_def upd_chan_def)
  have r1: "pool_run device quiet_client 0 (waiting 23) ([] @ [None]) mt"
    by (rule run_step[OF pool_starts step_receive[OF w0 m(1)]])
  have r2: "pool_run device quiet_client 0 (waiting 23) (([] @ [None]) @ [None]) (pool_exit mt)"
    by (rule run_step[OF r1 step_main_exit[OF m(7) m(5)]])
  have "\<exists>mt'. fuse_join_worker device 0 w (pool_exit mt) = Some mt' \<and> mt_list mt' = [] \<and> mt_pc mt' = M_join"
    using m by (simp add: fuse_join_worker_def free_worker_def pool_exit_def fuse_chan_put_def)
  then obtain mt' where j: "fuse_join_worker device 0 w (pool_exit mt) = Some mt'" "mt_list mt' = []" "mt_pc mt' = M_join" by blast
  have r3: "pool_run device quiet_client 0 (waiting 23) ((([] @ [None]) @ [None]) @ [None]) mt'"
    by (rule run_step[OF r2 step_join[of "pool_exit mt" 0 "[]" w, OF _ _ _ _ j(1)]]) (use m in \<open>simp_all add: pool_exit_def\<close>)
  have r4: "pool_run device quiet_client 0 (waiting 23) (((([] @ [None]) @ [None]) @ [None]) @ [None]) (pool_end mt')"
    by (rule run_step[OF r3 step_end[OF j(3,2)]])
  then show ?thesis using pool_counts[OF r4, of 0] by (auto simp: pool_end_def)
qed

lemma take_avail:
  assumes "worker_take k i w mt = Some (ev, mt')" and "0 < mt_numavail mt" and "ev \<noteq> Some (- 1)" and "\<not> mt_exit mt"
  shows "0 < mt_numavail mt'"
proof -
  obtain isf where isf: "is_forget (wk_fbuf w) (mt_se mt) = Some isf"
    using assms(1,4) by (auto simp: worker_take_def split: Option.bind_splits)
  define mt2 where "mt2 = (let mt = set_worker i (w\<lparr>wk_pc := W_work isf\<rparr>) mt in if \<not> isf then mt\<lparr>mt_numavail := mt_numavail mt - 1\<rparr> else mt)"
  have *: "(if mt_numavail mt2 = 0 then do { (res, mt) \<leftarrow> fuse_loop_start_thread k mt2; Some (Some res, mt) } else Some (None, mt2)) = Some (ev, mt')"
    using assms(1) unfolding worker_take_def if_not_P[OF assms(4)] isf mt2_def Let_def by (simp only: Option.bind.bind_lunit)
  have ge: "0 \<le> mt_numavail mt2" using assms(2) by (simp add: mt2_def Let_def set_worker_def)
  show ?thesis
  proof (cases "mt_numavail mt2 = 0")
    case False
    then show ?thesis using * ge by auto
  next
    case True
    then obtain res where st: "fuse_loop_start_thread k mt2 = Some (res, mt')" and "ev = Some res"
      using * by (auto split: Option.bind_splits)
    from st show ?thesis
    proof (cases rule: start_thread_cases)
      case (failed s)
      then show ?thesis using assms(3) \<open>ev = Some res\<close> by simp
    next
      case (started s ch)
      then show ?thesis using True by (simp add: set_worker_def)
    qed
  qed
qed

lemma step_avail:
  assumes "pool_step k c a mt ev mt'" and "\<not> mt_exit mt'" and "\<not> mt_exit mt \<Longrightarrow> 0 < mt_numavail mt" and "ev \<noteq> Some (- 1)"
    and ok: "pool_ok mt"
  shows "0 < mt_numavail mt'"
  using assms(1)
proof cases
  case (step_receive i w)
  then show ?thesis using receive_keeps(2,3)[OF _ ok] assms(2,3) by metis
next
  case (step_take i w)
  have "\<not> mt_exit mt"
    using step_take assms(2) by (auto simp: worker_take_def set_worker_def)
  then show ?thesis using take_avail step_take assms(3,4) by blast
next
  case (step_return i w isf)
  then show ?thesis using assms(2,3) by (auto simp: worker_return_def set_worker_def Let_def split: if_splits)
next
  case (step_join i l w)
  then have "mt_exit mt'" using pool_okD(6)[OF ok] by (auto simp: fuse_join_worker_def free_worker_def split: Option.bind_splits)
  then show ?thesis using assms(2) by simp
qed (use assms(2,3) in \<open>auto simp: worker_stop_def sem_post_def set_worker_def worker_process_def free_worker_def sem_wait_def
       pool_exit_def pool_end_def split: Option.bind_splits\<close>)

lemma run_avail: "pool_run k c a s es mt \<Longrightarrow> Some (- 1) \<notin> set es \<Longrightarrow> \<not> mt_exit mt \<Longrightarrow> 0 < mt_numavail mt"
proof (induction rule: pool_run.induct)
  case (run_start mt)
  then show ?case by (simp add: pool_start_ok(2))
next
  case (run_step es mt ev mt')
  then show ?case using step_avail[OF run_step.hyps(2)] run_ok[OF run_step.hyps(1)] by auto
qed

definition listens :: "fuse_worker \<Rightarrow> bool" where
  \<comment> \<open>waits for a request, or has just received one and not begun with it\<close>
  "listens w \<longleftrightarrow> wk_pc w = W_top \<or> wk_pc w = W_got"

definition forgetting :: "fuse_worker \<Rightarrow> bool" where
  \<comment> \<open>between the two critical sections, with a forget\<close>
  "forgetting w \<longleftrightarrow> wk_pc w = W_work True \<or> wk_pc w = W_back True"

text \<open>
  Property C6. As long as no thread failed to start and no worker has ended (it does so when the session has exited or
  receiving fails), the requests other than forgets never occupy all workers: when no worker is in
  the middle of a forget, some worker on the list is at the condition of its loop or receiving, or has just
  received the next request, whatever the client does with the requests before. The code does not start a
  thread for a forget: while every other worker is busy, one that is in a forget delays the next request.
\<close>

theorem somebody_listens:
  assumes "pool_run k c a s es mt" and "Some (- 1) \<notin> set es" and "mt_pc mt = M_wait"
    and "\<And>i w. mt_threads mt i = Some w \<Longrightarrow> wk_pc w \<noteq> W_end" and "\<And>i w. mt_threads mt i = Some w \<Longrightarrow> \<not> forgetting w"
  shows "\<exists>i w. i \<in> set (mt_list mt) \<and> mt_threads mt i = Some w \<and> listens w"
proof -
  note D = pool_okD[OF run_ok[OF assms(1)]]
  have x: "\<not> mt_exit mt" using D(6) assms(3) by simp
  then have "busy_among (mt_threads mt) (mt_list mt) < length (mt_list mt)"
    using run_avail[OF assms(1,2) x] D(4,7) by auto
  then obtain i where i: "i \<in> set (mt_list mt)" "\<not> busy (the (mt_threads mt i))"
    unfolding busy_among_def by (metis filter_True order_less_irrefl)
  then obtain w where w: "mt_threads mt i = Some w" "wk_pc w \<noteq> W_leave" using D(2)[of i] by blast
  then have "\<not> busy w" using i(2) by simp
  then have "listens w" using w assms(4,5)[OF w(1)] by (cases "wk_pc w") (auto simp: listens_def busy_def forgetting_def)
  then show ?thesis using i(1) w(1) by blast
qed

lemma somebody_listens_witness:
  "\<exists>i w. mt_threads one_worker i = Some w \<and> listens w"
proof -
  have one: "mt_threads one_worker i = Some w \<Longrightarrow> w = new_worker 3" for i w
    by (auto simp: one_worker_def set_worker_def split: if_splits)
  have "wk_pc w \<noteq> W_end" "\<not> forgetting w" if "mt_threads one_worker i = Some w" for i w
    using one[OF that] by (simp_all add: new_worker_def forgetting_def)
  then show ?thesis using somebody_listens[OF pool_starts] by (auto simp: one_worker_def set_worker_def)
qed

end
