(* ===== verification/Fs_Modules.thy ===== *)
theory Fs_Modules
  imports Mount_Util
begin

text \<open>
  The modules of src/lib/fuse.c: a list of named factories, some built in, others in shared objects that are
  loaded when their module is asked for and unloaded with its last user. Modules and shared objects are allocated
  objects with an address; the dynamic linker is the parameter kernel. The theorem says that getting a module and putting
  it back changes nothing.
\<close>

section \<open>The list of modules\<close>

record fuse_module =
  md_name :: string
  md_factory :: int
  md_so :: "nat option"
  md_ctr :: int

record fusemod_so =
  so_handle :: int
  so_ctr :: int

record modules =
  ms_list :: "(nat \<times> fuse_module) list" \<comment> \<open>from \<open>fuse_modules\<close> on, with their addresses\<close>
  ms_so :: "nat \<Rightarrow> fusemod_so option"
  ms_next :: nat

definition fuse_register_module ::
  "string \<Rightarrow> int \<Rightarrow> nat option \<Rightarrow> modules \<Rightarrow> 'w thread \<Rightarrow> (int \<times> modules \<times> 'w thread) option" where
  "fuse_register_module name factory so ms st =
     (let (ok, st) = t_malloc st
      in if \<not> ok then Some (- 1, ms, st)
         else let (ok, st) = t_malloc st
           in if \<not> ok then Some (- 1, ms, st)
              else do {
                sos \<leftarrow> (case so of
                    None \<Rightarrow> Some (ms_so ms)
                  | Some s \<Rightarrow> do { o' \<leftarrow> ms_so ms s; Some ((ms_so ms)(s \<mapsto> o'\<lparr>so_ctr := so_ctr o' + 1\<rparr>)) });
                Some (0, ms\<lparr>ms_list := (ms_next ms, \<lparr>md_name = name, md_factory = factory, md_so = so, md_ctr = 0\<rparr>) # ms_list ms,
                  ms_so := sos, ms_next := ms_next ms + 1\<rparr>, st)
              })"

definition fuse_load_so_module :: "'w kernel \<Rightarrow> string \<Rightarrow> modules \<Rightarrow> 'w thread \<Rightarrow> (int \<times> modules \<times> 'w thread) option" where
  "fuse_load_so_module k nm ms st =
     (let (ok, st) = t_malloc st
      in if \<not> ok then Some (- 1, ms, st)
         else let (ok, st) = t_malloc st
           in if \<not> ok then Some (- 1, ms, st)
              else let (h, st) = sys k (SysDlopen (''libfusemod_'' @ nm @ ''.so'')) st
                in if r_ret h = 0 then Some (- 1, ms, st)
                   else let (f, st) = sys k (SysDlsym (r_ret h) (''fuse_module_'' @ nm @ ''_factory'')) st
                     in if r_ret f = 0 then Some (- 1, ms, snd (sys k (SysDlclose (r_ret h)) st))
                        else do {
                          let so = ms_next ms;
                          let ms1 = ms\<lparr>ms_so := (ms_so ms)(so \<mapsto> \<lparr>so_handle = r_ret h, so_ctr = 0\<rparr>), ms_next := so + 1\<rparr>;
                          (ret, ms1, st) \<leftarrow> fuse_register_module nm (r_ret f) (Some so) ms1 st;
                          Some (if ret \<noteq> 0 then (ret, ms1\<lparr>ms_so := (ms_so ms1)(so := None)\<rparr>, snd (sys k (SysDlclose (r_ret h)) st))
                                else (ret, ms1, st))
                        })"

fun find_in :: "string \<Rightarrow> (nat \<times> fuse_module) list \<Rightarrow> nat option \<times> (nat \<times> fuse_module) list" where
  "find_in name [] = (None, [])"
| "find_in name ((a, m) # l) =
     (if name = md_name m then (Some a, (a, m\<lparr>md_ctr := md_ctr m + 1\<rparr>) # l)
      else let (r, l) = find_in name l in (r, (a, m) # l))"

definition fuse_find_module :: "string \<Rightarrow> modules \<Rightarrow> nat option \<times> modules" where
  "fuse_find_module nm ms = (let (r, l) = find_in nm (ms_list ms) in (r, ms\<lparr>ms_list := l\<rparr>))"

definition fuse_get_module :: "'w kernel \<Rightarrow> string \<Rightarrow> modules \<Rightarrow> 'w thread \<Rightarrow> (nat option \<times> modules \<times> 'w thread) option" where
  "fuse_get_module k nm ms st =
     (let (m, ms) = fuse_find_module nm ms
      in case m of
           Some _ \<Rightarrow> Some (m, ms, st)
         | None \<Rightarrow> do {
             (err, ms, st) \<leftarrow> fuse_load_so_module k nm ms st;
             Some (if err = 0 then let (m, ms) = fuse_find_module nm ms in (m, ms, st) else (None, ms, st))
           })"

definition fuse_put_module :: "'w kernel \<Rightarrow> nat \<Rightarrow> modules \<Rightarrow> 'w thread \<Rightarrow> (modules \<times> 'w thread) option" where
  \<comment> \<open>with its two assertions\<close>
  "fuse_put_module k a ms st = do {
     m \<leftarrow> map_of (ms_list ms) a;
     if md_ctr m \<le> 0 then None
     else do {
       let ms = ms\<lparr>ms_list := map (\<lambda>(b, x). (b, if b = a then x\<lparr>md_ctr := md_ctr x - 1\<rparr> else x)) (ms_list ms)\<rparr>;
       if md_ctr m - 1 = 0 then
         (case md_so m of
            None \<Rightarrow> Some (ms, st)
          | Some s \<Rightarrow> do {
              so \<leftarrow> ms_so ms s;
              if so_ctr so \<le> 0 then None
              else if so_ctr so - 1 = 0 then
                Some (ms\<lparr>ms_list := filter (\<lambda>(b, x). md_so x \<noteq> Some s) (ms_list ms), ms_so := (ms_so ms)(s := None)\<rparr>,
                  snd (sys k (SysDlclose (so_handle so)) st))
              else Some (ms\<lparr>ms_so := (ms_so ms)(s \<mapsto> so\<lparr>so_ctr := so_ctr so - 1\<rparr>)\<rparr>, st)
            })
       else Some (ms, st)
     }
   }"

section \<open>Getting and putting\<close>

definition modules_ok :: "modules \<Rightarrow> bool" where
  \<comment> \<open>a shared object is there for one module, which is in use\<close>
  "modules_ok ms \<longleftrightarrow>
     distinct (map fst (ms_list ms)) \<and> distinct (map (md_name \<circ> snd) (ms_list ms)) \<and>
     (\<forall>a m. (a, m) \<in> set (ms_list ms) \<longrightarrow> a < ms_next ms \<and> 0 \<le> md_ctr m \<and>
        (\<forall>s. md_so m = Some s \<longrightarrow> s < ms_next ms \<and> 0 < md_ctr m)) \<and>
     (\<forall>s. ms_next ms \<le> s \<longrightarrow> ms_so ms s = None)"

lemma find_in_None: "fst (find_in n l) = None \<longleftrightarrow> n \<notin> md_name ` snd ` set l" "fst (find_in n l) = None \<Longrightarrow> snd (find_in n l) = l"
  by (induction n l rule: find_in.induct) (auto simp: split_beta Let_def)

lemma find_in_Some:
  assumes "fst (find_in n l) = Some a" and "distinct (map fst l)"
  shows "\<exists>m l1 l2. l = l1 @ (a, m) # l2 \<and> md_name m = n \<and> snd (find_in n l) = l1 @ (a, m\<lparr>md_ctr := md_ctr m + 1\<rparr>) # l2"
  using assms
proof (induction n l rule: find_in.induct)
  case (2 n b x l)
  show ?case
  proof (cases "n = md_name x")
    case True
    then show ?thesis using 2(2) by (intro exI[of _ x] exI[of _ "[]"] exI[of _ l]) simp
  next
    case False
    then obtain m l1 l2 where "l = l1 @ (a, m) # l2" "md_name m = n" "snd (find_in n l) = l1 @ (a, m\<lparr>md_ctr := md_ctr m + 1\<rparr>) # l2"
      using 2 by (auto simp: split_beta Let_def)
    then show ?thesis using False by (intro exI[of _ m] exI[of _ "(b, x) # l1"] exI[of _ l2]) (simp add: split_beta Let_def)
  qed
qed simp

lemma map_untouched:
  "a \<notin> fst ` set l \<Longrightarrow> map (\<lambda>(b, x). (b, if b = a then g x else x)) l = l"
  by (rule map_idI) force

lemma put_found:
  assumes l: "ms_list ms = l1 @ (a, m\<lparr>md_ctr := md_ctr m + 1\<rparr>) # l2" and d: "distinct (map fst (l1 @ (a, m) # l2))"
    and c: "0 \<le> md_ctr m" and so: "md_so m \<noteq> None \<Longrightarrow> 0 < md_ctr m"
  shows "fuse_put_module k a ms st = Some (ms\<lparr>ms_list := l1 @ (a, m) # l2\<rparr>, st)"
proof -
  have a: "a \<notin> fst ` set l1" "a \<notin> fst ` set l2" using d by auto
  have m: "map_of (ms_list ms) a = Some (m\<lparr>md_ctr := md_ctr m + 1\<rparr>)"
    unfolding l using a(1) by (simp add: map_of_eq_None_iff[THEN iffD2] map_add_def)
  have "map (\<lambda>(b, x). (b, if b = a then x\<lparr>md_ctr := md_ctr x - 1\<rparr> else x)) (ms_list ms) = l1 @ (a, m) # l2"
    unfolding l using a by (simp add: map_untouched)
  then show ?thesis using c so by (auto simp: fuse_put_module_def m Let_def split: option.splits)
qed

text \<open>
  Property C24. Getting a module and putting it back: whoever gets a module - found, or loaded for the first time -
  can put it, no assertion fails, and then the list and the shared objects are as they were; a get that fails leaves
  them too.
\<close>

theorem module_references_roundtrip:
  assumes ok: "modules_ok ms" and get: "fuse_get_module k name ms st = Some (r, ms1, st1)"
  shows "case r of
      None \<Rightarrow> ms_list ms1 = ms_list ms \<and> ms_so ms1 = ms_so ms
    | Some a \<Rightarrow> (\<exists>m. map_of (ms_list ms1) a = Some m \<and> md_name m = name \<and> 0 < md_ctr m) \<and>
        (\<exists>ms2 st2. fuse_put_module k a ms1 st1 = Some (ms2, st2) \<and> ms_list ms2 = ms_list ms \<and> ms_so ms2 = ms_so ms)"
proof (cases "fst (find_in name (ms_list ms))")
  case (Some a)
  have d: "distinct (map fst (ms_list ms))" using ok by (simp add: modules_ok_def)
  obtain m l1 l2 where l: "ms_list ms = l1 @ (a, m) # l2" "md_name m = name"
    "snd (find_in name (ms_list ms)) = l1 @ (a, m\<lparr>md_ctr := md_ctr m + 1\<rparr>) # l2" using find_in_Some[OF Some d] by blast
  have r: "r = Some a" "ms1 = ms\<lparr>ms_list := l1 @ (a, m\<lparr>md_ctr := md_ctr m + 1\<rparr>) # l2\<rparr>" "st1 = st"
    using get Some l(3) by (auto simp: fuse_get_module_def fuse_find_module_def split_beta Let_def)
  have m: "0 \<le> md_ctr m" "md_so m \<noteq> None \<Longrightarrow> 0 < md_ctr m" using ok l(1) by (auto simp: modules_ok_def)
  have "fuse_put_module k a ms1 st1 = Some (ms1\<lparr>ms_list := l1 @ (a, m) # l2\<rparr>, st1)"
    by (rule put_found) (use r l d m in auto)
  moreover have "map_of (ms_list ms1) a = Some (m\<lparr>md_ctr := md_ctr m + 1\<rparr>)"
    using d unfolding r(2) l(1) by (simp add: map_of_eq_None_iff[THEN iffD2] map_add_def)
  ultimately show ?thesis using r l(1,2) m(1) by simp
next
  case None
  let ?so = "ms_next ms"
  have find: "fuse_find_module name ms = (None, ms)"
    using find_in_None(2)[OF None] None by (simp add: fuse_find_module_def split_beta)
  obtain err ms2 st2 where load: "fuse_load_so_module k name ms st = Some (err, ms2, st2)"
    using get find by (cases "fuse_load_so_module k name ms st") (auto simp: fuse_get_module_def)
  show ?thesis
  proof (cases "err = 0")
    case False
    then have r: "r = None" "ms1 = ms2" using get find load by (simp_all add: fuse_get_module_def)
    have fresh: "ms_so ms ?so = None" using ok by (simp add: modules_ok_def)
    have "ms_list ms2 = ms_list ms \<and> ms_so ms2 = ms_so ms"
      using load False fresh by (auto simp: fuse_load_so_module_def fuse_register_module_def Let_def fun_upd_idem
          split: prod.splits if_splits Option.bind_splits)
    then show ?thesis using r by simp
  next
    case True
    obtain h f where ms2: "ms_list ms2 = (?so + 1, \<lparr>md_name = name, md_factory = f, md_so = Some ?so, md_ctr = 0\<rparr>) # ms_list ms"
      "ms_so ms2 = (ms_so ms)(?so \<mapsto> \<lparr>so_handle = h, so_ctr = 1\<rparr>)"
      using load True by (auto simp: fuse_load_so_module_def fuse_register_module_def Let_def split: prod.splits if_splits Option.bind_splits)
    let ?m = "\<lparr>md_name = name, md_factory = f, md_so = Some ?so, md_ctr = 1\<rparr>"
    have r: "r = Some (?so + 1)" "ms1 = ms2\<lparr>ms_list := (?so + 1, ?m) # ms_list ms\<rparr>" "st1 = st2"
      using get find load True ms2(1) by (auto simp: fuse_get_module_def fuse_find_module_def)
    have out: "?so + 1 \<notin> fst ` set (ms_list ms)" "filter (\<lambda>(b, x). md_so x \<noteq> Some ?so) (ms_list ms) = ms_list ms"
      using ok by (force simp: modules_ok_def filter_id_conv)+
    have "ms_so ms ?so = None" using ok by (simp add: modules_ok_def)
    then have "\<exists>ms3 st3. fuse_put_module k (?so + 1) ms1 st1 = Some (ms3, st3) \<and> ms_list ms3 = ms_list ms \<and> ms_so ms3 = ms_so ms"
      using out by (simp add: fuse_put_module_def r ms2 Let_def map_untouched fun_upd_idem)
    then show ?thesis using r by simp
  qed
qed

definition linker :: "unit kernel" where
  "linker c w = (\<lparr>r_ret = (case c of SysDlopen n \<Rightarrow> 70 | SysDlsym h n \<Rightarrow> 71 | _ \<Rightarrow> 0), r_errno = 0, r_data = NoData\<rparr>, w)"

definition builtin_modules :: modules where
  "builtin_modules = \<lparr>ms_list = [(2, \<lparr>md_name = ''iconv'', md_factory = 9, md_so = None, md_ctr = 0\<rparr>),
     (1, \<lparr>md_name = ''subdir'', md_factory = 8, md_so = None, md_ctr = 0\<rparr>)], ms_so = (\<lambda>_. None), ms_next = 3\<rparr>"

lemma module_references_roundtrip_witness:
  fixes st :: "unit thread"
  defines "st \<equiv> \<lparr>p_world = (), p_errno = 0, b_mem = of_nat, t_context = \<lparr>cx_uid = 0, cx_gid = 0, cx_pid = 0, cx_umask = 0\<rparr>,
     t_private = 0, t_brk = 100, t_mem = []\<rparr>"
  shows "\<exists>ms1 st1 ms2 st2. fuse_get_module linker ''rot13'' builtin_modules st = Some (Some 4, ms1, st1) \<and>
    fuse_put_module linker 4 ms1 st1 = Some (ms2, st2) \<and> ms_list ms2 = ms_list builtin_modules"
proof -
  have ok: "modules_ok builtin_modules" by (simp add: modules_ok_def builtin_modules_def)
  have "\<exists>ms1 st1. fuse_get_module linker ''rot13'' builtin_modules st = Some (Some 4, ms1, st1)"
    by (simp add: fuse_get_module_def fuse_find_module_def builtin_modules_def fuse_load_so_module_def fuse_register_module_def
        t_malloc_def st_def linker_def sys_def Let_def)
  then obtain ms1 st1 where g: "fuse_get_module linker ''rot13'' builtin_modules st = Some (Some 4, ms1, st1)" by blast
  then show ?thesis using module_references_roundtrip[OF ok g] by auto
qed

end
