(* ===== verification/Signals.thy ===== *)
theory Signals
  imports Ll_New
begin

text \<open>
  The signal handlers of src/lib/fuse_signals.c: SIGHUP, SIGINT and SIGTERM end the session that is
  registered in \<open>fuse_instance\<close> (a session is named by a number here), SIGPIPE is ignored; only a signal with its
  default action gets a handler, and removing gives the default action back. The theorem is the round trip for a
  \<open>sigaction\<close> that keeps a table of actions.
\<close>

section \<open>Handlers\<close>

abbreviation (input) SIGHUP :: nat where "SIGHUP \<equiv> 1"
abbreviation (input) SIGINT :: nat where "SIGINT \<equiv> 2"
abbreviation (input) SIGPIPE :: nat where "SIGPIPE \<equiv> 13"
abbreviation (input) SIGTERM :: nat where "SIGTERM \<equiv> 15"

definition exit_handler :: "nat option \<Rightarrow> (nat \<Rightarrow> ('w, 'm) session_scheme) \<Rightarrow> nat \<Rightarrow> ('w, 'm) session_scheme" where
  "exit_handler fuse_instance ses =
     (case fuse_instance of None \<Rightarrow> ses | Some i \<Rightarrow> ses(i := fuse_session_exit (ses i)))"

definition set_one_signal_handler ::
  "'w kernel \<Rightarrow> nat \<Rightarrow> sighandler \<Rightarrow> bool \<Rightarrow> ('w, 'm) proc_scheme \<Rightarrow> int \<times> ('w, 'm) proc_scheme" where
  "set_one_signal_handler k sig handler rm st =
     (let (old, st) = sys k (SysSigaction sig None) st
      in if r_ret old = - 1 then (- 1, st)
         else if r_data old = SigData (if rm then handler else Sig_dfl) then
           let (r, st) = sys k (SysSigaction sig (Some (if rm then Sig_dfl else handler))) st
           in (if r_ret r = - 1 then - 1 else 0, st)
         else (0, st))"

fun set_each :: "'w kernel \<Rightarrow> (nat \<times> sighandler) list \<Rightarrow> ('w, 'm) proc_scheme \<Rightarrow> int \<times> ('w, 'm) proc_scheme" where
  \<comment> \<open>the chain of \<open>||\<close>\<close>
  "set_each k [] st = (0, st)"
| "set_each k ((sig, h) # l) st =
     (let (r, st) = set_one_signal_handler k sig h False st in if r = - 1 then (- 1, st) else set_each k l st)"

definition handled :: "(nat \<times> sighandler) list" where
  "handled = [(SIGHUP, Sig_exit), (SIGINT, Sig_exit), (SIGTERM, Sig_exit), (SIGPIPE, Sig_ign)]"

definition fuse_set_signal_handlers ::
  "'w kernel \<Rightarrow> nat \<Rightarrow> nat option \<Rightarrow> ('w, 'm) proc_scheme \<Rightarrow> int \<times> nat option \<times> ('w, 'm) proc_scheme" where
  "fuse_set_signal_handlers k se fuse_instance st =
     (let (r, st) = set_each k handled st in if r = - 1 then (- 1, fuse_instance, st) else (0, Some se, st))"

definition fuse_remove_signal_handlers ::
  "'w kernel \<Rightarrow> nat \<Rightarrow> nat option \<Rightarrow> ('w, 'm) proc_scheme \<Rightarrow> nat option \<times> ('w, 'm) proc_scheme" where
  "fuse_remove_signal_handlers k se fuse_instance st =
     (if fuse_instance \<noteq> Some se then fuse_instance else None,
      foldl (\<lambda>st (sig, h). snd (set_one_signal_handler k sig h True st)) st handled)"

section \<open>Set and removed\<close>

definition keeps_actions :: "'w kernel \<Rightarrow> ('w \<Rightarrow> nat \<Rightarrow> sighandler) \<Rightarrow> bool" where
  \<comment> \<open>what sigaction(2) does for the signals used: report the action, set a new one\<close>
  "keeps_actions k act \<longleftrightarrow> (\<forall>w sig. sig \<in> fst ` set handled \<longrightarrow>
     r_ret (fst (k (SysSigaction sig None) w)) = 0 \<and> r_data (fst (k (SysSigaction sig None) w)) = SigData (act w sig) \<and>
     act (snd (k (SysSigaction sig None) w)) = act w \<and>
     (\<forall>h. r_ret (fst (k (SysSigaction sig (Some h)) w)) = 0 \<and> act (snd (k (SysSigaction sig (Some h)) w)) = (act w)(sig := h)))"

definition acts :: "('w \<Rightarrow> nat \<Rightarrow> sighandler) \<Rightarrow> ('w, 'm) proc_scheme \<Rightarrow> nat \<Rightarrow> sighandler" where
  "acts act st = act (p_world st)"

lemma set_one:
  assumes "keeps_actions k act" and "sig \<in> fst ` set handled"
  shows "fst (set_one_signal_handler k sig h rm st) = 0"
    "acts act (snd (set_one_signal_handler k sig h rm st)) =
       (if acts act st sig = (if rm then h else Sig_dfl) then (acts act st)(sig := (if rm then Sig_dfl else h)) else acts act st)"
proof -
  note K = assms(1)[unfolded keeps_actions_def, rule_format, OF assms(2)]
  show "fst (set_one_signal_handler k sig h rm st) = 0"
    using K by (simp add: set_one_signal_handler_def split_beta Let_def)
  show "acts act (snd (set_one_signal_handler k sig h rm st)) =
       (if acts act st sig = (if rm then h else Sig_dfl) then (acts act st)(sig := (if rm then Sig_dfl else h)) else acts act st)"
    using K by (auto simp: set_one_signal_handler_def split_beta Let_def acts_def fun_upd_def)
qed

lemma set_each_acts:
  assumes "keeps_actions k act" and "set l \<subseteq> set handled"
  shows "fst (set_each k l st) = 0"
    "acts act (snd (set_each k l st)) = foldl (\<lambda>a (sig, h). if a sig = Sig_dfl then a(sig := h) else a) (acts act st) l"
proof -
  have "fst (set_each k l st) = 0 \<and>
    acts act (snd (set_each k l st)) = foldl (\<lambda>a (sig, h). if a sig = Sig_dfl then a(sig := h) else a) (acts act st) l"
    using assms(2)
  proof (induction l arbitrary: st)
    case (Cons p l)
    obtain sig h where p: "p = (sig, h)" by (cases p)
    have sig: "sig \<in> fst ` set handled" using Cons.prems p by force
    obtain st1 where st1: "set_one_signal_handler k sig h False st = (0, st1)"
      using set_one(1)[OF assms(1) sig, of h False st] by (cases "set_one_signal_handler k sig h False st") simp
    from set_one(2)[OF assms(1) sig, of h False st] st1
    have "acts act st1 = (if acts act st sig = Sig_dfl then (acts act st)(sig := h) else acts act st)" by simp
    then show ?case using Cons.IH[of st1] Cons.prems by (simp add: p st1)
  qed simp
  then show "fst (set_each k l st) = 0"
    "acts act (snd (set_each k l st)) = foldl (\<lambda>a (sig, h). if a sig = Sig_dfl then a(sig := h) else a) (acts act st) l" by auto
qed

lemma remove_acts:
  assumes "keeps_actions k act" and "set l \<subseteq> set handled"
  shows "acts act (foldl (\<lambda>st (sig, h). snd (set_one_signal_handler k sig h True st)) st l) =
    foldl (\<lambda>a (sig, h). if a sig = h then a(sig := Sig_dfl) else a) (acts act st) l"
  using assms(2)
proof (induction l arbitrary: st)
  case (Cons p l)
  obtain sig h where p: "p = (sig, h)" by (cases p)
  have "sig \<in> fst ` set handled" using Cons.prems p by force
  from set_one(2)[OF assms(1) this, of h True st] show ?case using Cons by (simp add: p)
qed simp

text \<open>
  Property C25. Handlers set and removed: both succeed, between them each of the three signals whose action was the
  default ends the session and SIGPIPE is not fatal, and afterwards no session is registered and every signal has the
  action it had - but for SIGPIPE, which gets its default action back even when it was ignored before.
\<close>

theorem signal_handlers_roundtrip:
  assumes "keeps_actions k act" and "\<forall>sig. act (p_world st) sig \<noteq> Sig_exit"
  shows "case fuse_set_signal_handlers k se i st of (r, i1, st1) \<Rightarrow>
    r = 0 \<and> i1 = Some se \<and>
    (\<forall>sig. act (p_world st1) sig =
       (if act (p_world st) sig = Sig_dfl \<and> sig \<in> {SIGHUP, SIGINT, SIGTERM} then Sig_exit
        else if act (p_world st) sig = Sig_dfl \<and> sig = SIGPIPE then Sig_ign else act (p_world st) sig)) \<and>
    (case fuse_remove_signal_handlers k se i1 st1 of (i2, st2) \<Rightarrow>
       i2 = None \<and>
       (\<forall>sig. act (p_world st2) sig =
          (if sig = SIGPIPE \<and> act (p_world st) sig = Sig_ign then Sig_dfl else act (p_world st) sig)))"
proof -
  obtain st1 where st1: "set_each k handled st = (0, st1)"
    using set_each_acts(1)[OF assms(1), of handled st] by (cases "set_each k handled st") simp
  have a1: "act (p_world st1) = foldl (\<lambda>a (sig, h). if a sig = Sig_dfl then a(sig := h) else a) (act (p_world st)) handled"
    using set_each_acts(2)[OF assms(1), of handled st] st1 by (simp add: acts_def)
  let ?st2 = "foldl (\<lambda>st (sig, h). snd (set_one_signal_handler k sig h True st)) st1 handled"
  have a2: "act (p_world ?st2) = foldl (\<lambda>a (sig, h). if a sig = h then a(sig := Sig_dfl) else a) (act (p_world st1)) handled"
    using remove_acts[OF assms(1), of handled st1] by (simp add: acts_def)
  have s1: "act (p_world st1) sig =
       (if act (p_world st) sig = Sig_dfl \<and> sig \<in> {SIGHUP, SIGINT, SIGTERM} then Sig_exit
        else if act (p_world st) sig = Sig_dfl \<and> sig = SIGPIPE then Sig_ign else act (p_world st) sig)" for sig
    unfolding a1 by (simp add: handled_def)
  have s2: "act (p_world ?st2) sig = (if sig = SIGPIPE \<and> act (p_world st) sig = Sig_ign then Sig_dfl else act (p_world st) sig)" for sig
    unfolding a2 using assms(2) by (auto simp: handled_def s1)
  show ?thesis using s1 s2 by (simp add: fuse_set_signal_handlers_def fuse_remove_signal_handlers_def st1)
qed

definition table_kernel :: "(nat \<Rightarrow> sighandler) kernel" where
  "table_kernel c w = (case c of
      SysSigaction sig None \<Rightarrow> (\<lparr>r_ret = 0, r_errno = 0, r_data = SigData (w sig)\<rparr>, w)
    | SysSigaction sig (Some h) \<Rightarrow> (\<lparr>r_ret = 0, r_errno = 0, r_data = NoData\<rparr>, w(sig := h))
    | _ \<Rightarrow> (\<lparr>r_ret = - 1, r_errno = EINVAL, r_data = NoData\<rparr>, w))"

lemma signal_handlers_roundtrip_witness:
  "case fuse_set_signal_handlers table_kernel 5 None \<lparr>p_world = (\<lambda>sig. if sig = 13 then Sig_ign else Sig_dfl), p_errno = 0\<rparr> of
     (r, i1, st1) \<Rightarrow> p_world st1 2 = Sig_exit \<and> (case fuse_remove_signal_handlers table_kernel 5 i1 st1 of (i2, st2) \<Rightarrow>
       i2 = None \<and> p_world st2 2 = Sig_dfl \<and> p_world st2 13 = Sig_dfl)"
proof -
  have k: "keeps_actions table_kernel id" by (simp add: keeps_actions_def table_kernel_def)
  show ?thesis
    using signal_handlers_roundtrip[OF k, of "\<lparr>p_world = (\<lambda>sig. if sig = 13 then Sig_ign else Sig_dfl), p_errno = 0\<rparr>" 5 None]
    by (auto split: prod.splits)
qed

end
