(* ===== verification/Fuse_New.thy ===== *)
theory Fuse_New
  imports Serve Fs_Modules Signals Workers
begin

text \<open>
  The life of the library, src/lib/fuse.c: the options of \<open>struct fuse_config\<close>, \<open>fuse_new\<close> with the stack of
  modules, \<open>fuse_destroy\<close>, mounting, and the loops, of which the one for remembered nodes also cleans the
  cache. The factories of the modules are a parameter: a function of their address. The static variables of
  the file, and the flag \<open>intr_installed\<close>, are a record of their own. A help text is not modelled.
\<close>

section \<open>Options\<close>

definition dbl_opt :: "string \<Rightarrow> (real \<Rightarrow> 'd \<Rightarrow> 'd) \<Rightarrow> 'd fuse_opt" where
  "dbl_opt t g = \<lparr>templ = t, offset = Some (\<lambda>x. case x of VDbl q \<Rightarrow> g (of_rat q) | _ \<Rightarrow> id), opt_value = 0\<rparr>"

definition fuse_lib_opts :: "fuse_config fuse_opt list" where
  "fuse_lib_opts = [
     flag_opt ''-h'' (\<lambda>b c. c\<lparr>c_show_help := b\<rparr>),
     flag_opt ''--help'' (\<lambda>b c. c\<lparr>c_show_help := b\<rparr>),
     fuse_opt_key ''debug'' FUSE_OPT_KEY_KEEP,
     fuse_opt_key ''-d'' FUSE_OPT_KEY_KEEP,
     flag_opt ''debug'' (\<lambda>b c. c\<lparr>c_debug := b\<rparr>),
     flag_opt ''-d'' (\<lambda>b c. c\<lparr>c_debug := b\<rparr>),
     flag_opt ''hard_remove'' (\<lambda>b c. c\<lparr>c_hard_remove := b\<rparr>),
     flag_opt ''use_ino'' (\<lambda>b c. c\<lparr>c_use_ino := b\<rparr>),
     flag_opt ''readdir_ino'' (\<lambda>b c. c\<lparr>c_readdir_ino := b\<rparr>),
     flag_opt ''direct_io'' (\<lambda>b c. c\<lparr>c_direct_io := b\<rparr>),
     flag_opt ''kernel_cache'' (\<lambda>b c. c\<lparr>c_kernel_cache := b\<rparr>),
     flag_opt ''auto_cache'' (\<lambda>b c. c\<lparr>c_auto_cache := b\<rparr>),
     int_opt ''noauto_cache'' (\<lambda>i c. c\<lparr>c_auto_cache := i \<noteq> 0\<rparr>) 0,
     flag_opt ''umask='' (\<lambda>b c. c\<lparr>c_set_mode := b\<rparr>),
     int_opt ''umask=%o'' (\<lambda>i c. c\<lparr>c_umask := of_int i\<rparr>) 0,
     flag_opt ''uid='' (\<lambda>b c. c\<lparr>c_set_uid := b\<rparr>),
     int_opt ''uid=%d'' (\<lambda>i c. c\<lparr>c_uid := of_int i\<rparr>) 0,
     flag_opt ''gid='' (\<lambda>b c. c\<lparr>c_set_gid := b\<rparr>),
     int_opt ''gid=%d'' (\<lambda>i c. c\<lparr>c_gid := of_int i\<rparr>) 0,
     dbl_opt ''entry_timeout=%lf'' (\<lambda>t c. c\<lparr>c_entry_timeout := t\<rparr>),
     dbl_opt ''attr_timeout=%lf'' (\<lambda>t c. c\<lparr>c_attr_timeout := t\<rparr>),
     dbl_opt ''ac_attr_timeout=%lf'' (\<lambda>t c. c\<lparr>c_ac_attr_timeout := t\<rparr>),
     int_opt ''ac_attr_timeout='' (\<lambda>i c. c\<lparr>c_ac_attr_timeout_set := i\<rparr>) 1,
     dbl_opt ''negative_timeout=%lf'' (\<lambda>t c. c\<lparr>c_negative_timeout := t\<rparr>),
     int_opt ''noforget'' (\<lambda>i c. c\<lparr>c_remember := i\<rparr>) (- 1),
     int_opt ''remember=%u'' (\<lambda>i c. c\<lparr>c_remember := to_int32 i\<rparr>) 0,
     flag_opt ''nopath'' (\<lambda>b c. c\<lparr>c_nopath := b\<rparr>),
     flag_opt ''intr'' (\<lambda>b c. c\<lparr>c_intr := b\<rparr>),
     int_opt ''intr_signal=%d'' (\<lambda>i c. c\<lparr>c_intr_signal := i\<rparr>) 0,
     str_opt ''modules=%s'' (\<lambda>s c. c\<lparr>c_modules := Some s\<rparr>)]"

definition fuse_lib_opt_proc :: "fuse_config opt_proc" where
  "fuse_lib_opt_proc c arg key outargs m = Some (1, c, outargs, m)"

definition zero_config :: fuse_config where
  "zero_config = \<lparr>c_uid = 0, c_gid = 0, c_umask = 0, c_entry_timeout = 0, c_negative_timeout = 0, c_attr_timeout = 0,
     c_ac_attr_timeout = 0, c_ac_attr_timeout_set = 0, c_remember = 0, c_nopath = False, c_debug = False,
     c_hard_remove = False, c_use_ino = False, c_readdir_ino = False, c_set_mode = False, c_set_uid = False,
     c_set_gid = False, c_direct_io = False, c_kernel_cache = False, c_auto_cache = False, c_intr = False,
     c_intr_signal = 0, c_show_help = False, c_modules = None\<rparr>"

definition config_defaults :: "fuse_config \<Rightarrow> fuse_config" where
  \<comment> \<open>what \<open>fuse_new\<close> sets once the options are parsed; SIGUSR1 is 10\<close>
  "config_defaults c = c\<lparr>c_entry_timeout := 1, c_attr_timeout := 1, c_negative_timeout := 0, c_intr_signal := 10\<rparr>"

section \<open>Static state\<close>

record fuse_globals =
  g_modules :: modules
  g_registered :: bool
  g_context_ref :: int
  g_intr_installed :: bool \<comment> \<open>of \<open>struct fuse\<close>\<close>

definition fuse_create_context_key :: "fuse_globals \<Rightarrow> 'w thread \<Rightarrow> int \<times> fuse_globals \<times> 'w thread" where
  \<comment> \<open>that the key cannot be created is one of the failures of the allocation script\<close>
  "fuse_create_context_key g st =
     (let (ok, st) = (if g_context_ref g = 0 then t_malloc st else (True, st))
      in if ok then (0, g\<lparr>g_context_ref := g_context_ref g + 1\<rparr>, st) else (- 1, g, st))"

definition fuse_delete_context_key :: "fuse_globals \<Rightarrow> fuse_globals" where
  "fuse_delete_context_key g = g\<lparr>g_context_ref := g_context_ref g - 1\<rparr>"

definition fuse_init_intr_signal :: "'w kernel \<Rightarrow> int \<Rightarrow> bool \<Rightarrow> ('w, 'm) proc_scheme \<Rightarrow> int \<times> bool \<times> ('w, 'm) proc_scheme" where
  "fuse_init_intr_signal k signum installed st =
     (let (old, st) = sys k (SysSigaction (nat signum) None) st
      in if r_ret old = - 1 then (- 1, installed, st)
         else if r_data old = SigData Sig_dfl then
           let (r, st) = sys k (SysSigaction (nat signum) (Some Sig_intr)) st
           in if r_ret r = - 1 then (- 1, installed, st) else (0, True, st)
         else (0, installed, st))"

definition fuse_restore_intr_signal :: "'w kernel \<Rightarrow> int \<Rightarrow> ('w, 'm) proc_scheme \<Rightarrow> ('w, 'm) proc_scheme" where
  "fuse_restore_intr_signal k signum st = snd (sys k (SysSigaction (nat signum) (Some Sig_dfl)) st)"

section \<open>The stack of file systems\<close>

type_synonym 'w wfs = "('w world, 'w world dirbuf) fuse_fs"
type_synonym 'w factories = "int \<Rightarrow> fuse_args \<Rightarrow> 'w wfs \<Rightarrow> 'w thread \<Rightarrow> 'w wfs option \<times> fuse_args \<times> 'w thread"

definition fuse_fs_new :: "('w, 'b) fuse_operations \<Rightarrow> nat \<Rightarrow> 'v thread \<Rightarrow> ('w, 'b) fuse_fs option \<times> 'v thread" where
  "fuse_fs_new ops user_data st =
     (let (ok, st) = t_malloc st
      in (if ok then Some \<lparr>fs_op = ops, fs_m = None, fs_user_data = user_data, fs_debug = False\<rparr> else None, st))"

definition fuse_push_module ::
  "'w kernel \<Rightarrow> 'w factories \<Rightarrow> string \<Rightarrow> 'w wfs \<times> fuse_config \<times> fuse_args \<times> fuse_globals \<times> 'w thread \<Rightarrow>
   (int \<times> 'w wfs \<times> fuse_config \<times> fuse_args \<times> fuse_globals \<times> 'w thread) option" where
  "fuse_push_module k fac nm = (\<lambda>(fs, conf, args, g, st). do {
     (m, ms, st) \<leftarrow> fuse_get_module k nm (g_modules g) st;
     let g = g\<lparr>g_modules := ms\<rparr>;
     case m of
       None \<Rightarrow> Some (- 1, fs, conf, args, g, st)
     | Some a \<Rightarrow> do {
         md \<leftarrow> map_of (ms_list ms) a;
         let (newfs, args, st) = fac (md_factory md) args fs st;
         case newfs of
           None \<Rightarrow> do {
             (ms, st) \<leftarrow> fuse_put_module k a ms st;
             Some (- 1, fs, conf, args, g\<lparr>g_modules := ms\<rparr>, st)
           }
         | Some newfs \<Rightarrow>
             Some (0, newfs\<lparr>fs_m := Some a\<rparr>, conf\<lparr>c_nopath := op_flag_nopath (fs_op newfs) \<and> c_nopath conf\<rparr>, args, g, st)
       }
   })"

fun split_colons :: "string \<Rightarrow> string list" where
  "split_colons [] = [[]]"
| "split_colons (c # s) = (if c = CHR '':'' then [] # split_colons s
     else case split_colons s of m # ms \<Rightarrow> (c # m) # ms | [] \<Rightarrow> [[c]])"

fun push_modules ::
  "'w kernel \<Rightarrow> 'w factories \<Rightarrow> string list \<Rightarrow> 'w wfs \<times> fuse_config \<times> fuse_args \<times> fuse_globals \<times> 'w thread \<Rightarrow>
   (int \<times> 'w wfs \<times> fuse_config \<times> fuse_args \<times> fuse_globals \<times> 'w thread) option" where
  "push_modules k fac [] x = Some (0, x)"
| "push_modules k fac (nm # nms) x =
     (if nm = [] then push_modules k fac nms x
      else do { (r, x) \<leftarrow> fuse_push_module k fac nm x; if r = - 1 then Some (- 1, x) else push_modules k fac nms x })"

section \<open>Creation\<close>

definition register_builtin :: "fuse_globals \<Rightarrow> 'w thread \<Rightarrow> (fuse_globals \<times> 'w thread) option" where
  \<comment> \<open>once; the factories of the two modules have the addresses 1 and 2\<close>
  "register_builtin g st =
     (if g_registered g then Some (g, st)
      else do {
        (_, ms, st) \<leftarrow> fuse_register_module ''subdir'' 1 None (g_modules g) st;
        (_, ms, st) \<leftarrow> fuse_register_module ''iconv'' 2 None ms st;
        Some (g\<lparr>g_modules := ms, g_registered := True\<rparr>, st)
      })"

definition drop_fs :: "'w kernel \<Rightarrow> 'w wfs \<Rightarrow> fuse_globals \<Rightarrow> 'w thread \<Rightarrow> (fuse_globals \<times> 'w thread) option" where
  \<comment> \<open>from the label \<open>out_free_fs\<close> on: the module of the topmost file system is put back\<close>
  "drop_fs k fs g st = do {
     (ms, st) \<leftarrow> (case fs_m fs of None \<Rightarrow> Some (g_modules g, st) | Some a \<Rightarrow> fuse_put_module k a (g_modules g) st);
     Some (fuse_delete_context_key (g\<lparr>g_modules := ms\<rparr>), st)
   }"

definition path_ops_for :: "('w, 'b) fuse_operations \<Rightarrow> llop \<Rightarrow> bool" where
  \<comment> \<open>locks of the kernel are only used when the file system has its own\<close>
  "path_ops_for ops op \<longleftrightarrow> fuse_path_ops op \<and> (op_lock ops = None \<longrightarrow> op \<noteq> Op_getlk \<and> op \<noteq> Op_setlk)"

definition fuse_new_session ::
  "'w kernel \<Rightarrow> slabs \<Rightarrow> (llop \<Rightarrow> bool) \<Rightarrow> 'w wfs \<Rightarrow> fuse_config \<Rightarrow> fuse_args \<Rightarrow> fuse_globals \<Rightarrow> 'w thread \<Rightarrow>
   (('w fsession + 'w thread) \<times> fuse_args \<times> fuse_globals) option" where
  \<comment> \<open>from the session on; one that fails after it was created is destroyed: it has no channel and got no
      INIT, so that this only frees. The tree has its own allocation script from then on\<close>
  "fuse_new_session k sb op fs conf args g st = do {
     (s, args) \<leftarrow> fuse_session_new k args op st;
     case s of
       Inr st \<Rightarrow> do { (g, st) \<leftarrow> drop_fs k fs g st; Some (Inr st, args, g) }
     | Inl s \<Rightarrow> do {
         f \<leftarrow> new_tree conf sb (t_mem (se_thread s));
         case f of
           None \<Rightarrow> do { (g, st) \<leftarrow> drop_fs k fs g (se_thread s); Some (Inr st, args, g) }
         | Some f \<Rightarrow>
             let st = (se_thread s)\<lparr>t_mem := f_mem f\<rparr>;
                 (r, inst, st) = (if c_intr conf then fuse_init_intr_signal k (c_intr_signal conf) False st else (0, False, st))
             in if r = - 1 then do { (g, st) \<leftarrow> drop_fs k fs g st; Some (Inr st, args, g) }
                else
                  let s = s\<lparr>se_thread := st\<rparr>
                  in Some (Inl (session.extend s \<lparr>se_lib = \<lparr>l_fuse = f, l_dhs = (\<lambda>_. None), l_thread = to_thread s,
                         l_clockid = CLOCK_MONOTONIC, l_context = False, l_intr = False, l_waits = 0,
                         l_fs = Some (fs\<lparr>fs_debug := c_debug conf\<rparr>)\<rparr>\<rparr>),
                       args, g\<lparr>g_intr_installed := inst\<rparr>)
       }
   }"

definition fuse_new_fs ::
  "'w kernel \<Rightarrow> 'w factories \<Rightarrow> slabs \<Rightarrow> ('w world, 'w world dirbuf) fuse_operations \<Rightarrow> 'w wfs \<Rightarrow> fuse_config \<Rightarrow> fuse_args \<Rightarrow>
   fuse_globals \<Rightarrow> 'w thread \<Rightarrow> (('w fsession + 'w thread) \<times> fuse_args \<times> fuse_globals) option" where
  \<comment> \<open>\<open>fuse_new\<close> from \<open>f->fs = fs\<close> on\<close>
  "fuse_new_fs k fac sb ops fs conf args g st = do {
     let conf = config_defaults (conf\<lparr>c_nopath := op_flag_nopath ops\<rparr>);
     (r, fs, conf, args, g, st) \<leftarrow> push_modules k fac
       (case c_modules conf of None \<Rightarrow> [] | Some s \<Rightarrow> split_colons s) (fs, conf, args, g, st);
     if r = - 1 \<or> c_show_help conf then do { (g, st) \<leftarrow> drop_fs k fs g st; Some (Inr st, args, g) }
     else
       let conf = (if c_ac_attr_timeout_set conf = 0 then conf\<lparr>c_ac_attr_timeout := c_attr_timeout conf\<rparr> else conf)
       in fuse_new_session k sb (path_ops_for ops) fs conf args g st
   }"

definition fuse_new ::
  "'w kernel \<Rightarrow> 'w factories \<Rightarrow> slabs \<Rightarrow> fuse_args \<Rightarrow> ('w world, 'w world dirbuf) fuse_operations \<Rightarrow> nat \<Rightarrow> fuse_globals \<Rightarrow> 'w thread \<Rightarrow>
   (('w fsession + 'w thread) \<times> fuse_args \<times> fuse_globals) option" where
  \<comment> \<open>\<open>Inr\<close>: NULL\<close>
  "fuse_new k fac sb args ops user_data g st =
     (let (ok, st) = t_malloc st
      in if \<not> ok then Some (Inr st, args, g)
         else do {
           (r, args, conf, m) \<leftarrow> fuse_opt_parse args zero_config fuse_lib_opts (Some fuse_lib_opt_proc) (t_mem st);
           let st = st\<lparr>t_mem := m\<rparr>;
           if r = - 1 then Some (Inr st, args, g)
           else do {
             (g, st) \<leftarrow> register_builtin g st;
             let (r, g, st) = fuse_create_context_key g st;
             if r = - 1 then Some (Inr st, args, g)
             else
               let (fs, st) = fuse_fs_new ops user_data st
               in case fs of
                    None \<Rightarrow> Some (Inr st, args, fuse_delete_context_key g)
                  | Some fs \<Rightarrow> fuse_new_fs k fac sb ops fs conf args g st
           }
         })"

section \<open>The end\<close>

fun unlink_hidden :: "addr list \<Rightarrow> 'w dlib \<Rightarrow> 'w dlib option" where
  \<comment> \<open>the hidden files are removed, as far as they have a path\<close>
  "unlink_hidden [] x = Some x"
| "unlink_hidden (p # ps) x = do {
     n \<leftarrow> f_nodes (l_fuse x) p;
     if n_is_hidden n then do {
       (err, path, _, f) \<leftarrow> try_get_path (l_fuse x) (n_nodeid n) None False False;
       let x = x\<lparr>l_fuse := f\<rparr>;
       (case path of
          Some path \<Rightarrow> if err = 0 then do { (_, x) \<leftarrow> fs_act (\<lambda>fs. fuse_fs_unlink fs path) x; unlink_hidden ps x } else unlink_hidden ps x
        | None \<Rightarrow> if err = 0 then None else unlink_hidden ps x)
     } else unlink_hidden ps x
   }"

fun free_nodes :: "addr list \<Rightarrow> fuse \<Rightarrow> fuse option" where
  "free_nodes [] f = Some f"
| "free_nodes (p # ps) f = do {
     f \<leftarrow> free_node f p;
     free_nodes ps (f\<lparr>f_id_table := (f_id_table f)\<lparr>nt_use := nt_use (f_id_table f) - 1\<rparr>\<rparr>)
   }"

definition free_tree :: "fuse \<Rightarrow> fuse option" where
  \<comment> \<open>all nodes, with the assertions that no slab is left\<close>
  "free_tree f = do {
     f \<leftarrow> free_nodes (concat (nt_array (f_id_table f))) f;
     if sb_partial (f_slabs f) = [] \<and> sb_full (f_slabs f) = [] then Some f else None
   }"

definition fuse_destroy ::
  "'w kernel \<Rightarrow> ('w, \<lparr>se_lib :: 'w world dlib\<rparr>) client \<Rightarrow> fuse_globals \<Rightarrow> 'w fsession \<Rightarrow> (fuse_globals \<times> 'w fsession) option" where
  "fuse_destroy k c g s = do {
     let conf = f_conf (l_fuse (se_lib s));
     let s = (if c_intr conf \<and> g_intr_installed g
       then s\<lparr>se_thread := fuse_restore_intr_signal k (c_intr_signal conf) (se_thread s)\<rparr> else s);
     let x = lib_of s;
     x \<leftarrow> (if l_fs x \<noteq> None then do {
         x \<leftarrow> fuse_create_context x;
         unlink_hidden (concat (nt_array (f_id_table (l_fuse x)))) x
       } else Some x);
     f \<leftarrow> free_tree (l_fuse x);
     s \<leftarrow> fuse_session_destroy k c (with_lib (x\<lparr>l_fuse := f\<rparr>) s);
     Some (fuse_delete_context_key g, s)
   }"

section \<open>Loops\<close>

partial_function (option) remember_rounds ::
  "'w kernel \<Rightarrow> ('w, \<lparr>se_lib :: 'w world dlib\<rparr>) client \<Rightarrow> nat \<Rightarrow> 'w world request \<Rightarrow> nat \<Rightarrow> int \<Rightarrow> fuse_buf \<Rightarrow> bool \<Rightarrow> int \<Rightarrow> int \<Rightarrow> 'w fsession \<Rightarrow>
   (int \<times> 'w fsession) option" where
  \<comment> \<open>\<open>e\<close> gives the clock; the time-out is an unsigned, passed on as an int; \<open>errno\<close> is compared with -EINTR\<close>
  "remember_rounds k c a e ch fd fbuf hasmem res next_clean s =
     (if se_exited s then Some (res, s)
      else do {
        (now, x) \<leftarrow> curr_time e (lib_of s);
        let s = with_lib x s;
        let timeout = (if tv_sec now < next_clean then of_int (next_clean - tv_sec now) else 0 :: 32 word);
        let (p, s) = llsys k (SysPollIn fd (sint (timeout * 1000))) s;
        if r_ret p = - 1 then
          if p_errno (se_thread s) = - EINTR then remember_rounds k c a e ch fd fbuf hasmem (r_ret p) next_clean s
          else Some (r_ret p, s)
        else if r_ret p > 0 then do {
          (res, fbuf, hasmem, s) \<leftarrow> fuse_session_receive_buf_int k a fbuf hasmem ch s;
          if res = - EINTR then remember_rounds k c a e ch fd fbuf hasmem res next_clean s
          else if res \<le> 0 then Some (res, s)
          else do {
            s \<leftarrow> fuse_session_process_buf_int k c a fbuf ch s;
            remember_rounds k c a e ch fd fbuf hasmem res next_clean s
          }
        } else do {
          (timeout, x) \<leftarrow> fuse_clean_cache e (lib_of s);
          (now, x) \<leftarrow> curr_time e x;
          remember_rounds k c a e ch fd fbuf hasmem (r_ret p) (tv_sec now + timeout) (with_lib x s)
        }
      })"

definition fuse_session_loop_remember ::
  "'w kernel \<Rightarrow> ('w, \<lparr>se_lib :: 'w world dlib\<rparr>) client \<Rightarrow> nat \<Rightarrow> 'w world request \<Rightarrow> 'w fsession \<Rightarrow> (int \<times> 'w fsession) option" where
  "fuse_session_loop_remember k c a e s = do {
     ch \<leftarrow> se_ch s;
     chan \<leftarrow> se_chans s ch;
     (now, x) \<leftarrow> curr_time e (lib_of s);
     (res, s) \<leftarrow> remember_rounds k c a e ch (ch_fd chan) \<lparr>buf_size = 0, buf_flags = 0, buf_mem = 0, buf_fd = 0, buf_pos = 0\<rparr> False
       0 (tv_sec now) (with_lib x s);
     Some (if res < 0 then - 1 else 0, fuse_session_reset s)
   }"

definition fuse_loop ::
  "'w kernel \<Rightarrow> ('w, \<lparr>se_lib :: 'w world dlib\<rparr>) client \<Rightarrow> nat \<Rightarrow> 'w world request \<Rightarrow> 'w fsession \<Rightarrow> (int \<times> 'w fsession) option" where
  "fuse_loop k c a e s =
     (if lru_enabled (l_fuse (se_lib s)) then fuse_session_loop_remember k c a e s else fuse_session_loop k c a s)"

definition fuse_start_cleanup_thread :: "'w fsession \<Rightarrow> int \<times> 'w fsession" where
  \<comment> \<open>the thread repeats \<open>fuse_clean_cache\<close> and sleeps as long as it says\<close>
  "fuse_start_cleanup_thread s = (if lru_enabled (l_fuse (se_lib s)) then fuse_start_thread s else (0, s))"

inductive fuse_session_loop_mt ::
  "'w kernel \<Rightarrow> ('w, 'm) client \<Rightarrow> nat \<Rightarrow> ('w, 'm) session_scheme \<Rightarrow> int \<Rightarrow> ('w, 'm) session_scheme \<Rightarrow> bool" for k c a s where
  \<comment> \<open>what it may return, and in which state\<close>
  loop_no_thread: "pool_start k s = Some (err, mt) \<Longrightarrow> err \<noteq> 0 \<Longrightarrow> fuse_session_loop_mt k c a s err (mt_se mt)"
| loop_end: "pool_run k c a s es mt \<Longrightarrow> mt_pc mt = M_end \<Longrightarrow> fuse_session_loop_mt k c a s (mt_error mt) (mt_se mt)"

inductive fuse_loop_mt ::
  "'w kernel \<Rightarrow> ('w, \<lparr>se_lib :: 'w world dlib\<rparr>) client \<Rightarrow> nat \<Rightarrow> 'w fsession \<Rightarrow> int \<Rightarrow> 'w fsession \<Rightarrow> bool" for k c a s where
  mt_no_cleanup: "fuse_start_cleanup_thread s = (res, s') \<Longrightarrow> res \<noteq> 0 \<Longrightarrow> fuse_loop_mt k c a s (- 1) s'"
| mt_loop: "fuse_start_cleanup_thread s = (0, s') \<Longrightarrow> fuse_session_loop_mt k c a s' res s'' \<Longrightarrow> fuse_loop_mt k c a s res s''"

definition fuse_mount :: "'w kernel \<Rightarrow> string option \<Rightarrow> 'w fsession \<Rightarrow> (int \<times> 'w fsession) option" where
  "fuse_mount k mountpoint s = fuse_session_mount k mountpoint s"

definition fuse_unmount :: "'w kernel \<Rightarrow> 'w fsession \<Rightarrow> 'w fsession option" where
  "fuse_unmount k s = fuse_session_unmount k s"

end
