(* ===== verification/Fuse_New_Props.thy ===== *)
theory Fuse_New_Props
  imports Fuse_New Node_Refs Fs_Ops_Props
begin

text \<open>
  The beginning and the end of the library: what \<open>fuse_new\<close> leaves of the options, the tree and the session it
  starts with, the count of references to the context key, and that \<open>fuse_destroy\<close> can free every node.
\<close>

section \<open>Freeing the tree\<close>

lemma distinct_concat_key:
  assumes "\<And>i. i < length xs \<Longrightarrow> distinct (xs ! i)" and "\<And>i p. i < length xs \<Longrightarrow> p \<in> set (xs ! i) \<Longrightarrow> key p = i"
  shows "distinct (concat xs)"
  using assms
proof (induction xs rule: rev_induct)
  case (snoc y xs)
  have "distinct (concat xs)"
  proof (rule snoc.IH)
    show "distinct (xs ! i)" if "i < length xs" for i using snoc.prems(1)[of i] that by (simp add: nth_append)
    show "key p = i" if "i < length xs" "p \<in> set (xs ! i)" for i p using snoc.prems(2)[of i p] that by (simp add: nth_append)
  qed
  moreover have "distinct y" using snoc.prems(1)[of "length xs"] by simp
  moreover have "p \<notin> set y" if p: "p \<in> set (concat xs)" for p
  proof -
    obtain b where "b \<in> set xs" "p \<in> set b" using p by auto
    then obtain i where "i < length xs" "p \<in> set (xs ! i)" by (metis in_set_conv_nth)
    then have "key p < length xs" using snoc.prems(2)[of i p] by (simp add: nth_append)
    then show ?thesis using snoc.prems(2)[of "length xs" p] by auto
  qed
  ultimately show ?case by auto
qed simp

lemma table_contents:
  assumes "table_ok key t S"
  shows "distinct (concat (nt_array t))" "set (concat (nt_array t)) = S"
proof -
  have T: "size_ok (nt_size t)" "length (nt_array t) = nt_size t" "nt_split t \<le> nt_size t div 2"
    "\<And>i. i < nt_size t \<Longrightarrow> distinct (nt_array t ! i) \<and> set (nt_array t ! i) = {p \<in> S. table_slot t (key p) = i}"
    using assms by (auto simp: table_ok_def)
  show "distinct (concat (nt_array t))"
    by (rule distinct_concat_key[where key = "\<lambda>p. table_slot t (key p)"]) (use T in auto)
  have slot: "table_slot t (key p) < nt_size t" for p
  proof -
    have n: "nt_size t = 2 * (nt_size t div 2)" "0 < nt_size t div 2" using size_ok_even[OF T(1)] by auto
    have "key p mod (nt_size t div 2) < nt_size t div 2" using n(2) by (rule mod_less_divisor)
    with n(1) table_slot_cases[OF T(1), of "key p"] show ?thesis by linarith
  qed
  show "set (concat (nt_array t)) = S"
  proof (intro set_eqI iffI)
    fix p assume "p \<in> set (concat (nt_array t))"
    then obtain b where "b \<in> set (nt_array t)" "p \<in> set b" by auto
    then obtain i where "i < nt_size t" "p \<in> set (nt_array t ! i)" using T(2) by (metis in_set_conv_nth)
    then show "p \<in> S" using T(4) by auto
  next
    fix p assume "p \<in> S"
    then have "p \<in> set (nt_array t ! table_slot t (key p))" using T(4)[OF slot] by auto
    then show "p \<in> set (concat (nt_array t))" using slot[of p] T(2) by auto
  qed
qed

lemma free_nodes_all:
  assumes "slabs_ok (f_slabs f)" and "live (f_slabs f) = dom (f_nodes f)" and "distinct ps" and "set ps = dom (f_nodes f)"
  shows "\<exists>f'. free_nodes ps f = Some f' \<and> f_nodes f' = Map.empty \<and> slabs_ok (f_slabs f') \<and> live (f_slabs f') = {}"
  using assms
proof (induction ps arbitrary: f)
  case (Cons p ps)
  then have "p \<in> live (f_slabs f)" by auto
  from slaballoc.release_node[OF Cons.prems(1) this] obtain sb where
    sb: "free_node_mem (f_slabs f) p = Some sb" "slabs_ok sb" "live sb = live (f_slabs f) - {p}" by blast
  define f1 where "f1 = f\<lparr>f_slabs := sb, f_nodes := (f_nodes f)(p := None),
    f_id_table := (f_id_table f)\<lparr>nt_use := nt_use (f_id_table f) - 1\<rparr>\<rparr>"
  have "\<exists>f'. free_nodes ps f1 = Some f' \<and> f_nodes f' = Map.empty \<and> slabs_ok (f_slabs f') \<and> live (f_slabs f') = {}"
  proof (rule Cons.IH)
    have "set ps = dom (f_nodes f) - {p}" using Cons.prems(3,4) by auto
    then show "set ps = dom (f_nodes f1)" by (simp add: f1_def)
    show "live (f_slabs f1) = dom (f_nodes f1)" using sb(3) Cons.prems(2) by (simp add: f1_def)
  qed (use Cons.prems(3) sb(2) in \<open>simp_all add: f1_def\<close>)
  then show ?case using sb(1) by (simp add: free_node_def f1_def)
next
  case Nil
  then have "f_nodes f = Map.empty" by (metis dom_eq_empty_conv empty_set)
  then show ?case using Nil by simp
qed

lemma no_slab_left:
  assumes "slabs_ok sb" and "live sb = {}"
  shows "sb_partial sb = [] \<and> sb_full sb = []"
proof -
  have False if "s \<in> set (sb_partial sb @ sb_full sb)" for s
  proof -
    have "slab_ok sb s" using assms(1) that by (auto simp: slabs_ok_def)
    then have "live_in sb s \<noteq> {}" by (auto simp: slab_ok_def live_in_def)
    then show False using assms(2) that by (auto simp: live_def)
  qed
  then have "sb_partial sb @ sb_full sb = []" by (cases "sb_partial sb @ sb_full sb") auto
  then show ?thesis by simp
qed

text \<open>
  Property C23. \<open>fuse_destroy\<close> can always free the tree: from any tree between operations the walk over the table of
  ids frees every node, and the two assertions that no slab of nodes is left hold.
\<close>

theorem free_tree_correct:
  assumes "tree_ok f"
  shows "\<exists>f'. free_tree f = Some f' \<and> f_nodes f' = Map.empty \<and> live (f_slabs f') = {}"
proof -
  note D = tree_invD[OF assms[unfolded tree_ok_def]]
  note T = table_contents[OF D(4)]
  from free_nodes_all[OF D(2,3) T] obtain f' where f': "free_nodes (concat (nt_array (f_id_table f))) f = Some f'"
    "f_nodes f' = Map.empty" "slabs_ok (f_slabs f')" "live (f_slabs f') = {}" by blast
  then show ?thesis using no_slab_left[OF f'(3,4)] by (simp add: free_tree_def)
qed

lemma free_tree_correct_witness:
  "\<exists>f f'. new_tree boot_conf boot_slabs [] = Some (Some f) \<and> free_tree f = Some f' \<and> f_nodes f' = Map.empty"
proof -
  obtain f where f: "new_tree boot_conf boot_slabs [] = Some (Some f)" using boot_tree by blast
  with free_tree_correct[OF new_tree_ok(1)[OF boot_slabs_ok f]] show ?thesis by blast
qed

section \<open>What is left of the options\<close>

definition timeouts :: "fuse_config \<Rightarrow> real \<times> real \<times> real \<times> int" where
  "timeouts c = (c_entry_timeout c, c_attr_timeout c, c_negative_timeout c, c_intr_signal c)"

lemma push_module_keeps:
  assumes "fuse_push_module k fac nm (fs, conf, args, g, st) = Some (r, fs', conf', args', g', st')"
  shows "timeouts conf' = timeouts conf \<and> g_context_ref g' = g_context_ref g"
  using assms by (auto simp: fuse_push_module_def timeouts_def Let_def split: Option.bind_splits option.splits prod.splits)

lemma push_modules_keeps:
  assumes "push_modules k fac nms (fs, conf, args, g, st) = Some (r, fs', conf', args', g', st')"
  shows "timeouts conf' = timeouts conf \<and> g_context_ref g' = g_context_ref g"
  using assms
proof (induction nms arbitrary: fs conf args g st)
  case (Cons nm nms)
  show ?case
  proof (cases "nm = []")
    case True
    then show ?thesis using Cons by simp
  next
    case False
    then obtain r1 fs1 conf1 args1 g1 st1 where
      p: "fuse_push_module k fac nm (fs, conf, args, g, st) = Some (r1, fs1, conf1, args1, g1, st1)"
      using Cons.prems by (cases "fuse_push_module k fac nm (fs, conf, args, g, st)") auto
    show ?thesis
    proof (cases "r1 = - 1")
      case True
      then show ?thesis using Cons.prems False p push_module_keeps[OF p] by simp
    next
      case r: False
      then have "push_modules k fac nms (fs1, conf1, args1, g1, st1) = Some (r, fs', conf', args', g', st')"
        using Cons.prems False p by simp
      from Cons.IH[OF this] push_module_keeps[OF p] show ?thesis by simp
    qed
  qed
qed simp

lemma drop_fs_ref: "drop_fs k fs g st = Some (g', st') \<Longrightarrow> g_context_ref g' = g_context_ref g - 1"
  by (auto simp: drop_fs_def fuse_delete_context_key_def split: Option.bind_splits)

lemma register_ref: "register_builtin g st = Some (g', st') \<Longrightarrow> g_context_ref g' = g_context_ref g"
  by (auto simp: register_builtin_def split: if_splits Option.bind_splits)

lemma session_new_fresh:
  assumes "fuse_session_new k args op st = Some (Inl s, args')"
  shows "cn_max_write (ll_conn (se_f s)) = - 1" "cn_max_readahead (ll_conn (se_f s)) = - 1"
    "se_ch s = None" "ll_op (se_f s) = op"
  using assms by (auto simp: fuse_session_new_def ll_defaults_def Let_def split: Option.bind_splits option.splits prod.splits if_splits)

lemma new_session_fresh:
  assumes "fuse_new_session k sb op fs conf args g st = Some (res, args', g')"
  shows "case res of
      Inr _ \<Rightarrow> g_context_ref g' = g_context_ref g - 1
    | Inl s \<Rightarrow> g_context_ref g' = g_context_ref g \<and> se_ch s = None \<and> cn_max_write (ll_conn (se_f s)) = - 1 \<and>
        cn_max_readahead (ll_conn (se_f s)) = - 1 \<and> (\<exists>m. new_tree conf sb m = Some (Some (l_fuse (se_lib s))))"
proof -
  obtain s0 args0 where s0: "fuse_session_new k args op st = Some (s0, args0)"
    using assms by (auto simp: fuse_new_session_def split: Option.bind_splits)
  show ?thesis
  proof (cases s0)
    case (Inr st1)
    then show ?thesis using assms s0 drop_fs_ref by (fastforce simp: fuse_new_session_def split: Option.bind_splits)
  next
    case (Inl s)
    note fresh = session_new_fresh[OF s0[unfolded Inl]]
    obtain f where f: "new_tree conf sb (t_mem (se_thread s)) = Some f"
      using assms s0 Inl by (auto simp: fuse_new_session_def split: Option.bind_splits)
    show ?thesis
    proof (cases f)
      case None
      then show ?thesis using assms s0 Inl f drop_fs_ref by (fastforce simp: fuse_new_session_def split: Option.bind_splits)
    next
      case (Some t)
      let ?st = "(se_thread s)\<lparr>t_mem := f_mem t\<rparr>"
      obtain r inst st2 where i: "(if c_intr conf then fuse_init_intr_signal k (c_intr_signal conf) False ?st else (0, False, ?st)) = (r, inst, st2)"
        by (metis prod_cases3)
      show ?thesis
      proof (cases "r = - 1")
        case True
        then show ?thesis using assms s0 Inl f Some i drop_fs_ref
          by (fastforce simp: fuse_new_session_def split: Option.bind_splits)
      next
        case False
        then show ?thesis using assms s0 Inl f Some i fresh
          by (auto simp: fuse_new_session_def session.extend_def)
      qed
    qed
  qed
qed

lemma new_fs_keeps:
  assumes "fuse_new_fs k fac sb ops fs conf args g st = Some (res, args', g')"
  shows "case res of
      Inr _ \<Rightarrow> g_context_ref g' = g_context_ref g - 1
    | Inl s \<Rightarrow> g_context_ref g' = g_context_ref g \<and> se_ch s = None \<and> cn_max_write (ll_conn (se_f s)) = - 1 \<and>
        cn_max_readahead (ll_conn (se_f s)) = - 1 \<and>
        (\<exists>m conf'. timeouts conf' = (1, 1, 0, 10) \<and> new_tree conf' sb m = Some (Some (l_fuse (se_lib s))))"
proof -
  let ?conf = "config_defaults (conf\<lparr>c_nopath := op_flag_nopath ops\<rparr>)"
  let ?mods = "case c_modules ?conf of None \<Rightarrow> [] | Some s \<Rightarrow> split_colons s"
  obtain r fs1 conf1 args1 g1 st1 where
    m: "push_modules k fac ?mods (fs, ?conf, args, g, st) = Some (r, fs1, conf1, args1, g1, st1)"
    using assms by (cases "push_modules k fac ?mods (fs, ?conf, args, g, st)") (auto simp: fuse_new_fs_def)
  note keep = push_modules_keeps[OF m]
  show ?thesis
  proof (cases "r = - 1 \<or> c_show_help conf1")
    case True
    then show ?thesis using assms m keep drop_fs_ref by (fastforce simp: fuse_new_fs_def split: Option.bind_splits)
  next
    case False
    define conf2 where "conf2 = (if c_ac_attr_timeout_set conf1 = 0 then conf1\<lparr>c_ac_attr_timeout := c_attr_timeout conf1\<rparr> else conf1)"
    have new: "fuse_new_session k sb (path_ops_for ops) fs1 conf2 args1 g1 st1 = Some (res, args', g')"
      using assms m False by (simp add: fuse_new_fs_def conf2_def)
    have "timeouts conf2 = (1, 1, 0, 10)" using keep by (simp add: conf2_def timeouts_def config_defaults_def)
    then show ?thesis using new_session_fresh[OF new] keep by (cases res) auto
  qed
qed

lemma create_context_key_ref:
  "fuse_create_context_key g st = (r, g', st') \<Longrightarrow> g_context_ref g' = (if r = - 1 then g_context_ref g else g_context_ref g + 1)"
  by (auto simp: fuse_create_context_key_def Let_def split: prod.splits if_splits)

lemma fuse_new_cases:
  assumes "fuse_new k fac sb args ops user_data g st = Some (res, args', g')"
  obtains (early) th where "res = Inr th" "g_context_ref g' = g_context_ref g"
  | (late) fs conf args1 g1 st1 where "g_context_ref g1 = g_context_ref g + 1"
      "fuse_new_fs k fac sb ops fs conf args1 g1 st1 = Some (res, args', g')"
proof -
  obtain ok st0 where st0: "t_malloc st = (ok, st0)" by (rule prod.exhaust)
  show ?thesis
  proof (cases ok)
    case False
    then show ?thesis using assms st0 early by (auto simp: fuse_new_def)
  next
    case True
    obtain r args1 conf m where p: "fuse_opt_parse args zero_config fuse_lib_opts (Some fuse_lib_opt_proc) (t_mem st0) = Some (r, args1, conf, m)"
      using assms st0 True by (auto simp: fuse_new_def split: Option.bind_splits)
    show ?thesis
    proof (cases "r = - 1")
      case r: True
      then show ?thesis using assms st0 True p early by (auto simp: fuse_new_def)
    next
      case r: False
      obtain g1 st1 where g1: "register_builtin g (st0\<lparr>t_mem := m\<rparr>) = Some (g1, st1)"
        using assms st0 True p r by (auto simp: fuse_new_def split: Option.bind_splits)
      obtain r2 g2 st2 where k2: "fuse_create_context_key g1 st1 = (r2, g2, st2)" by (metis prod_cases3)
      obtain fs st3 where fs: "fuse_fs_new ops user_data st2 = (fs, st3)" by (rule prod.exhaust)
      note ref = create_context_key_ref[OF k2] register_ref[OF g1]
      show ?thesis
      proof (cases "r2 = - 1 \<or> fs = None")
        case True
        with assms st0 \<open>ok\<close> p r g1 k2 fs have "\<exists>th. res = Inr th" "g' = (if r2 = - 1 then g2 else fuse_delete_context_key g2)"
          by (auto simp: fuse_new_def split: if_splits)
        then show ?thesis using ref early by (auto simp: fuse_delete_context_key_def)
      next
        case False
        then obtain fs1 where "fs = Some fs1" "r2 \<noteq> - 1" by auto
        with assms st0 \<open>ok\<close> p r g1 k2 fs have "fuse_new_fs k fac sb ops fs1 conf args1 g2 st3 = Some (res, args', g')"
          by (simp add: fuse_new_def)
        then show ?thesis using ref \<open>r2 \<noteq> - 1\<close> late by simp
      qed
    qed
  qed
qed

text \<open>
  Property C22. What \<open>fuse_new\<close> leaves of the options: however the three timeouts and the interrupt signal
  were given, the new library has the defaults of one second, one second, none and SIGUSR1, and the connection offers
  unlimited writes and readahead whatever the options said. The tree of a new library satisfies
  the invariant and names nothing. The key of the contexts is referenced once more when a library is returned, and
  as often as before when not.
\<close>

theorem fuse_new_correct:
  assumes "fuse_new k fac sb args ops user_data g st = Some (res, args', g')"
    and "slabs_ok sb" and "fresh_page sb" and "live sb = {}"
  shows "case res of
      Inr _ \<Rightarrow> g_context_ref g' = g_context_ref g
    | Inl s \<Rightarrow> tree_ok (l_fuse (se_lib s)) \<and> namespace (l_fuse (se_lib s)) = {} \<and>
        c_entry_timeout (f_conf (l_fuse (se_lib s))) = 1 \<and> c_attr_timeout (f_conf (l_fuse (se_lib s))) = 1 \<and>
        c_negative_timeout (f_conf (l_fuse (se_lib s))) = 0 \<and> c_intr_signal (f_conf (l_fuse (se_lib s))) = 10 \<and>
        cn_max_write (ll_conn (se_f s)) = - 1 \<and> cn_max_readahead (ll_conn (se_f s)) = - 1 \<and>
        se_ch s = None \<and> g_context_ref g' = g_context_ref g + 1"
proof (rule fuse_new_cases[OF assms(1)])
  fix fs conf args1 g1 st1
  assume g1: "g_context_ref g1 = g_context_ref g + 1" and
    new: "fuse_new_fs k fac sb ops fs conf args1 g1 st1 = Some (res, args', g')"
  from new_fs_keeps[OF new] g1 new_tree_ok[OF assms(2-4)] show ?thesis
    by (cases res) (fastforce simp: timeouts_def)+
qed simp

lemma parse_name_only:
  "fuse_opt_parse \<lparr>fa_argv = Some [a], fa_allocated = al\<rparr> d opts proc [] = Some (0, \<lparr>fa_argv = Some [a], fa_allocated = True\<rparr>, d, [])"
  by (simp add: fuse_opt_parse_def opt_parse_def add_arg_def fuse_opt_add_arg_def no_args_def opt_parse_finish_def
      fa_args_def)

lemma any_boot_tree: "\<exists>f. new_tree conf boot_slabs [] = Some (Some f) \<and> f_mem f = []"
  by (simp add: new_tree_def node_table_init_def boot_alloc(1) hash_id_def inc_nlookup_def upd_def
      table_add_def table_insert_def Let_def NODE_TABLE_MIN_SIZE_def split: prod.splits)

lemma new_session_returns:
  assumes "\<not> c_intr conf" and "t_mem st = []"
  shows "\<exists>s args' g'. fuse_new_session (\<lambda>c w. (\<lparr>r_ret = 0, r_errno = 0, r_data = NoData\<rparr>, w)) boot_slabs op fs conf
    \<lparr>fa_argv = Some [a], fa_allocated = al\<rparr> g st = Some (Inl s, args', g')"
proof -
  obtain f where "new_tree conf boot_slabs [] = Some (Some f)" using any_boot_tree by blast
  then show ?thesis using assms
    by (simp add: fuse_new_session_def fuse_session_new_def parse_mount_opts_def parse_name_only sys_def
        zero_mount_opts_def fa_argc_def fa_args_def Let_def)
qed

lemma fuse_new_correct_witness:
  "\<exists>k fac ops g (st :: unit thread) s args' g'.
     fuse_new k fac boot_slabs \<lparr>fa_argv = Some [''nosqlFS''], fa_allocated = False\<rparr> ops 0 g st = Some (Inl s, args', g') \<and>
     c_attr_timeout (f_conf (l_fuse (se_lib s))) = 1 \<and> namespace (l_fuse (se_lib s)) = {} \<and> g_context_ref g' = 1"
proof -
  let ?k = "\<lambda>c w. (\<lparr>r_ret = 0, r_errno = 0, r_data = NoData\<rparr>, w)"
  let ?g = "\<lparr>g_modules = \<lparr>ms_list = [], ms_so = (\<lambda>_. None), ms_next = 1\<rparr>, g_registered = True, g_context_ref = 0, g_intr_installed = False\<rparr>"
  let ?n = "fuse_new ?k (\<lambda>a args fs st. (None, args, st)) boot_slabs \<lparr>fa_argv = Some [''nosqlFS''], fa_allocated = False\<rparr> no_ops 0 ?g
    (idle_thread :: unit thread)"
  have "\<exists>s args' g'. ?n = Some (Inl s, args', g')"
    by (simp add: fuse_new_def fuse_new_fs_def parse_name_only t_malloc_def idle_thread_def register_builtin_def
        fuse_create_context_key_def fuse_fs_new_def new_session_returns config_defaults_def zero_config_def)
  then obtain s args' g' where n: "?n = Some (Inl s, args', g')" by blast
  from fuse_new_correct[OF n boot_slabs_ok] n show ?thesis by fastforce
qed

end
