(* ===== verification/Ll_Calls.thy ===== *)
theory Ll_Calls
  imports Ll_Props
begin

text \<open>
  The way of a call through the device: a request written the way the kernel writes it - opcode, node
  and the structure of src/include/fuse_kernel.h for the operation, from minor version 12 on - is
  dispatched to the client as exactly that call.
\<close>

section \<open>Reading what was written\<close>

named_theorems wire_simps \<open>reading a structure field by field\<close>

lemma u32_skip [wire_simps]: "length p \<le> i \<Longrightarrow> u32 (p @ q) i = u32 q (i - length p)"
  by (auto simp: u32_def)

lemma u32_first [wire_simps]: "u32 (le 4 (v :: 32 word) @ q) 0 = Some v" "u32 (le 4 v) 0 = Some v"
  by (simp_all add: u32_def)

lemma u64_skip [wire_simps]: "length p \<le> i \<Longrightarrow> u64 (p @ q) i = u64 q (i - length p)"
  by (auto simp: u64_def)

lemma u64_first [wire_simps]: "u64 (le 8 (v :: 64 word) @ q) 0 = Some v" "u64 (le 8 v) 0 = Some v"
  by (simp_all add: u64_def)

definition wire_str :: "string \<Rightarrow> bytes" where
  "wire_str n = map byte_of n @ [0]"

lemma wire_str_length [simp]: "length (wire_str n) = Suc (length n)"
  by (simp add: wire_str_def)

lemma str_skip [wire_simps]: "length p \<le> i \<Longrightarrow> str_at (p @ q) i = str_at q (i - length p)"
  by (simp add: str_at_def)

lemma byte_of_0 [simp]: "byte_of c = 0 \<longleftrightarrow> c = NUL"
proof
  assume "byte_of c = 0"
  then have "c = char_of (0 :: nat)" by (metis char_byte unsigned_0)
  then show "c = NUL" by (simp add: NUL_def char_of_def)
qed (simp add: NUL_def byte_of_def)

lemma str_first [wire_simps]:
  assumes "wf_cstr n"
  shows "str_at (wire_str n @ q) 0 = Some n" "str_at (wire_str n) 0 = Some n"
proof -
  have "takeWhile (\<lambda>x. x \<noteq> 0) (map byte_of n @ 0 # q) = map byte_of n" for q
    using assms by (subst takeWhile_append2) (auto simp: wf_cstr_def)
  note t = this this[of "[]"]
  show "str_at (wire_str n @ q) 0 = Some n" "str_at (wire_str n) 0 = Some n"
    by (simp_all add: str_at_def wire_str_def t o_def)
qed

lemma bytes_skip [wire_simps]: "length p \<le> i \<Longrightarrow> bytes_at (p @ q) i n = bytes_at q (i - length p) n"
  by (auto simp: bytes_at_def)

lemma bytes_first [wire_simps]: "n = length b \<Longrightarrow> bytes_at (b @ q) 0 n = Some b"
  by (simp add: bytes_at_def)

lemma sint64_small: "- (2 ^ 63) \<le> i \<Longrightarrow> i < 2 ^ 63 \<Longrightarrow> sint (of_int i :: 64 word) = i"
  by (simp add: sint_sbintrunc' signed_take_bit_int_eq_self)

section \<open>Requests\<close>

definition off64 :: "int \<Rightarrow> bytes" where "off64 i = le 8 (of_int i :: 64 word)"

definition int32 :: "int \<Rightarrow> bytes" where "int32 i = le 4 (of_int i :: 32 word)"

definition size32 :: "nat \<Rightarrow> bytes" where "size32 n = le 4 (of_nat n :: 32 word)"

definition pad :: "nat \<Rightarrow> bytes" where "pad n = replicate n 0"

lemma piece_lengths [simp]: "length (off64 i) = 8" "length (int32 j) = 4" "length (size32 n) = 4" "length (pad n) = n"
  by (simp_all add: off64_def int32_def size32_def pad_def)

lemma piece_first [wire_simps]:
  "u64 (off64 i @ q) 0 = Some (of_int i)" "u64 (off64 i) 0 = Some (of_int i)"
  "u32 (int32 j @ q) 0 = Some (of_int j)" "u32 (int32 j) 0 = Some (of_int j)"
  "u32 (size32 n @ q) 0 = Some (of_nat n)" "u32 (size32 n) 0 = Some (of_nat n)"
  by (simp_all add: off64_def int32_def size32_def wire_simps)

definition lock_in :: "fi \<Rightarrow> flock \<Rightarrow> bytes" where
  \<comment> \<open>\<open>struct fuse_lk_in\<close> up to its flags\<close>
  "lock_in fi lk = le 8 (fi_fh fi) @ le 8 (fi_lock_owner fi) @ off64 (l_start lk) @
     (if l_len lk = 0 then le 8 (0x7fffffffffffffff :: 64 word) else off64 (l_start lk + l_len lk - 1)) @
     int32 (l_type lk) @ int32 (l_pid lk)"

definition setattr_in :: "stat \<Rightarrow> 32 word \<Rightarrow> 64 word \<Rightarrow> bytes" where
  "setattr_in st valid fh = le 4 valid @ pad 4 @ le 8 fh @ off64 (st_size st) @ pad 8 @ off64 (tv_sec (st_atim st)) @
     off64 (tv_sec (st_mtim st)) @ off64 (tv_sec (st_ctim st)) @ int32 (tv_nsec (st_atim st)) @ int32 (tv_nsec (st_mtim st)) @
     int32 (tv_nsec (st_ctim st)) @ le 4 (st_mode st) @ pad 4 @ le 4 (st_uid st) @ le 4 (st_gid st) @ pad 4"

definition release_flags :: "fi \<Rightarrow> 32 word" where
  "release_flags fi = (if fi_flush fi then FUSE_RELEASE_FLUSH else 0) OR (if fi_flock_release fi then FUSE_RELEASE_FLOCK_UNLOCK else 0)"

fun request_of :: "32 word \<Rightarrow> call \<Rightarrow> nat \<times> fuse_ino_t \<times> bytes" where
  \<comment> \<open>opcode, node and body; the first argument is the umask of the calling process\<close>
  "request_of u (C_lookup i n) = (1, i, wire_str n)"
| "request_of u (C_forget i k) = (2, i, le 8 k)"
| "request_of u (C_forget_multi l) = (42, 0, size32 (length l) @ pad 4 @ concat (map (\<lambda>(i, k). le 8 i @ le 8 k) l))"
| "request_of u (C_getattr i fi) = (3, i, case fi of
     None \<Rightarrow> int32 0 @ pad 12 | Some fi \<Rightarrow> le 4 FUSE_GETATTR_FH @ pad 4 @ le 8 (fi_fh fi))"
| "request_of u (C_setattr i st v fi) = (4, i, case fi of
     None \<Rightarrow> setattr_in st v 0 | Some fi \<Rightarrow> setattr_in st (v OR FATTR_FH) (fi_fh fi))"
| "request_of u (C_access i m) = (34, i, int32 m @ pad 4)"
| "request_of u (C_readlink i) = (5, i, [])"
| "request_of u (C_mknod i n m rdev) = (8, i, le 4 m @ le 4 (ucast rdev :: 32 word) @ le 4 u @ pad 4 @ wire_str n)"
| "request_of u (C_mkdir i n m) = (9, i, le 4 m @ le 4 u @ wire_str n)"
| "request_of u (C_unlink i n) = (10, i, wire_str n)"
| "request_of u (C_rmdir i n) = (11, i, wire_str n)"
| "request_of u (C_symlink l i n) = (6, i, wire_str n @ wire_str l)"
| "request_of u (C_rename i n j m fl) = (if fl = 0 then (12, i, le 8 j @ wire_str n @ wire_str m)
     else (45, i, le 8 j @ le 4 fl @ pad 4 @ wire_str n @ wire_str m))"
| "request_of u (C_link i j n) = (13, j, le 8 i @ wire_str n)"
| "request_of u (C_create i n m fi) = (35, i, int32 (fi_flags fi) @ le 4 m @ le 4 u @ pad 4 @ wire_str n)"
| "request_of u (C_open i fi) = (14, i, int32 (fi_flags fi) @ pad 4)"
| "request_of u (C_read i sz off fi) = (15, i, le 8 (fi_fh fi) @ off64 off @ size32 sz @ pad 4 @ le 8 (fi_lock_owner fi) @
     int32 (fi_flags fi) @ pad 4)"
| "request_of u (C_write i p sz off fi) = (16, i, le 8 (fi_fh fi) @ off64 off @ size32 sz @
     le 4 (of_bool (fi_writepage fi) :: 32 word) @ le 8 (fi_lock_owner fi) @ int32 (fi_flags fi) @ pad 4)"
| "request_of u (C_flush i fi) = (25, i, le 8 (fi_fh fi) @ pad 8 @ le 8 (fi_lock_owner fi))"
| "request_of u (C_release i fi) = (18, i, le 8 (fi_fh fi) @ int32 (fi_flags fi) @ le 4 (release_flags fi) @ le 8 (fi_lock_owner fi))"
| "request_of u (C_fsync i d fi) = (20, i, le 8 (fi_fh fi) @ int32 d @ pad 4)"
| "request_of u (C_opendir i fi) = (27, i, int32 (fi_flags fi) @ pad 4)"
| "request_of u (C_readdir i sz off fi) = (28, i, le 8 (fi_fh fi) @ off64 off @ size32 sz @ pad 20)"
| "request_of u (C_readdirplus i sz off fi) = (44, i, le 8 (fi_fh fi) @ off64 off @ size32 sz @ pad 20)"
| "request_of u (C_releasedir i fi) = (29, i, le 8 (fi_fh fi) @ int32 (fi_flags fi) @ pad 12)"
| "request_of u (C_fsyncdir i d fi) = (30, i, le 8 (fi_fh fi) @ int32 d @ pad 4)"
| "request_of u (C_statfs i) = (17, i, [])"
| "request_of u (C_setxattr i n v fl) = (21, i, size32 (length v) @ int32 fl @ wire_str n @ v)"
| "request_of u (C_getxattr i n sz) = (22, i, size32 sz @ pad 4 @ wire_str n)"
| "request_of u (C_listxattr i sz) = (23, i, size32 sz @ pad 4)"
| "request_of u (C_removexattr i n) = (24, i, wire_str n)"
| "request_of u (C_getlk i fi lk) = (31, i, lock_in fi lk @ int32 0 @ pad 4)"
| "request_of u (C_setlk i fi lk sl) = (if sl then 33 else 32, i, lock_in fi lk @ int32 0 @ pad 4)"
| "request_of u (C_flock i fi op) = (if op = 1 \<or> op = 2 \<or> op = 8 then 33 else 32, i, le 8 (fi_fh fi) @ le 8 (fi_lock_owner fi) @ pad 16 @
     le 4 (if op = 1 \<or> op = 5 then 0 else if op = 2 \<or> op = 6 then 1 else 2 :: 32 word) @ pad 4 @ le 4 FUSE_LK_FLOCK @ pad 4)"
| "request_of u (C_bmap i bs idx) = (37, i, le 8 idx @ size32 bs @ pad 4)"
| "request_of u (C_ioctl i cmd arg fi fl b osz) = (39, i, le 8 (fi_fh fi) @ le 4 fl @ int32 cmd @ le 8 (of_nat arg :: 64 word) @
     size32 (length b) @ size32 osz @ b)"
| "request_of u (C_poll i fi ph) = (40, i, le 8 (fi_fh fi) @ pad 8 @ int32 0 @ le 4 (fi_poll_events fi))"
| "request_of u (C_fallocate i m off len fi) = (43, i, le 8 (fi_fh fi) @ off64 off @ off64 len @ int32 m @ pad 4)"


section \<open>What can be sent\<close>

definition in32 :: "int \<Rightarrow> bool" where "in32 i \<longleftrightarrow> - (2 ^ 31) \<le> i \<and> i < 2 ^ 31"

definition in64 :: "int \<Rightarrow> bool" where "in64 i \<longleftrightarrow> - (2 ^ 63) \<le> i \<and> i < 2 ^ 63"

lemma in_word [simp]: "in32 i \<Longrightarrow> sint (of_int i :: 32 word) = i" "in64 j \<Longrightarrow> sint (of_int j :: 64 word) = j"
  by (simp_all add: in32_def in64_def sint_small sint64_small)

definition time_ok :: "timespec \<Rightarrow> bool" where
  "time_ok t \<longleftrightarrow> in64 (tv_sec t) \<and> 0 \<le> tv_nsec t \<and> tv_nsec t < 2 ^ 32"

definition stat_sent :: "stat \<Rightarrow> bool" where
  \<comment> \<open>only the attributes of \<open>struct fuse_setattr_in\<close> are set\<close>
  "stat_sent st \<longleftrightarrow> in64 (st_size st) \<and> time_ok (st_atim st) \<and> time_ok (st_mtim st) \<and> time_ok (st_ctim st) \<and>
     st = zero_stat\<lparr>st_mode := st_mode st, st_uid := st_uid st, st_gid := st_gid st, st_size := st_size st,
       st_atim := st_atim st, st_mtim := st_mtim st, st_ctim := st_ctim st\<rparr>"

definition lock_sent :: "flock \<Rightarrow> bool" where
  \<comment> \<open>a range that does not end with the largest offset, or is not bounded\<close>
  "lock_sent lk \<longleftrightarrow> l_whence lk = 0 \<and> 0 \<le> l_start lk \<and> in64 (l_start lk) \<and> 0 \<le> l_len lk \<and> l_start lk + l_len lk < 2 ^ 63 \<and>
     - (2 ^ 15) \<le> l_type lk \<and> l_type lk < 2 ^ 15 \<and> in32 (l_pid lk)"

definition valid_mask :: "32 word" where
  "valid_mask = (FUSE_SET_ATTR_MODE OR FUSE_SET_ATTR_UID OR FUSE_SET_ATTR_GID OR FUSE_SET_ATTR_SIZE OR
     FUSE_SET_ATTR_ATIME OR FUSE_SET_ATTR_MTIME OR FUSE_SET_ATTR_ATIME_NOW OR FUSE_SET_ATTR_MTIME_NOW OR FUSE_SET_ATTR_CTIME)"

fun sendable :: "nat \<Rightarrow> call \<Rightarrow> bool" where
  \<comment> \<open>the arguments have the range of their fields, and a file info holds what the request carries; the
      data of a write is behind the structure, which is at the given address\<close>
  "sendable p (C_lookup i n) = wf_cstr n"
| "sendable p (C_forget i k) = True"
| "sendable p (C_forget_multi l) = (length l < 2 ^ 32)"
| "sendable p (C_getattr i fi) = (case fi of None \<Rightarrow> True | Some fi \<Rightarrow> fi = with_fh (fi_fh fi))"
| "sendable p (C_setattr i st v fi) = (stat_sent st \<and> v AND valid_mask = v \<and>
     (case fi of None \<Rightarrow> True | Some fi \<Rightarrow> fi = with_fh (fi_fh fi)))"
| "sendable p (C_access i m) = in32 m"
| "sendable p (C_readlink i) = True"
| "sendable p (C_mknod i n m rdev) = (wf_cstr n \<and> ucast (ucast rdev :: 32 word) = rdev)"
| "sendable p (C_mkdir i n m) = wf_cstr n"
| "sendable p (C_unlink i n) = wf_cstr n"
| "sendable p (C_rmdir i n) = wf_cstr n"
| "sendable p (C_symlink l i n) = (wf_cstr n \<and> wf_cstr l)"
| "sendable p (C_rename i n j m fl) = (wf_cstr n \<and> wf_cstr m)"
| "sendable p (C_link i j n) = wf_cstr n"
| "sendable p (C_create i n m fi) = (wf_cstr n \<and> in32 (fi_flags fi) \<and> fi = zero_fi\<lparr>fi_flags := fi_flags fi\<rparr>)"
| "sendable p (C_open i fi) = (in32 (fi_flags fi) \<and> fi = zero_fi\<lparr>fi_flags := fi_flags fi\<rparr>)"
| "sendable p (C_read i sz off fi) = (sz < 2 ^ 32 \<and> in64 off \<and> in32 (fi_flags fi) \<and>
     fi = (with_fh (fi_fh fi))\<lparr>fi_lock_owner := fi_lock_owner fi, fi_flags := fi_flags fi\<rparr>)"
| "sendable p (C_write i q sz off fi) = (q = p + 40 \<and> sz < 2 ^ 32 \<and> in64 off \<and> in32 (fi_flags fi) \<and>
     fi = (with_fh (fi_fh fi))\<lparr>fi_writepage := fi_writepage fi, fi_lock_owner := fi_lock_owner fi, fi_flags := fi_flags fi\<rparr>)"
| "sendable p (C_flush i fi) = (fi = (with_fh (fi_fh fi))\<lparr>fi_flush := True, fi_lock_owner := fi_lock_owner fi\<rparr>)"
| "sendable p (C_release i fi) = (in32 (fi_flags fi) \<and> fi = (with_fh (fi_fh fi))\<lparr>fi_flags := fi_flags fi, fi_flush := fi_flush fi,
     fi_flock_release := fi_flock_release fi, fi_lock_owner := fi_lock_owner fi\<rparr>)"
| "sendable p (C_fsync i d fi) = ((d = 0 \<or> d = 1) \<and> fi = with_fh (fi_fh fi))"
| "sendable p (C_opendir i fi) = (in32 (fi_flags fi) \<and> fi = zero_fi\<lparr>fi_flags := fi_flags fi\<rparr>)"
| "sendable p (C_readdir i sz off fi) = (sz < 2 ^ 32 \<and> in64 off \<and> fi = with_fh (fi_fh fi))"
| "sendable p (C_readdirplus i sz off fi) = (sz < 2 ^ 32 \<and> in64 off \<and> fi = with_fh (fi_fh fi))"
| "sendable p (C_releasedir i fi) = (in32 (fi_flags fi) \<and> fi = (with_fh (fi_fh fi))\<lparr>fi_flags := fi_flags fi\<rparr>)"
| "sendable p (C_fsyncdir i d fi) = ((d = 0 \<or> d = 1) \<and> fi = with_fh (fi_fh fi))"
| "sendable p (C_statfs i) = True"
| "sendable p (C_setxattr i n v fl) = (wf_cstr n \<and> length v < 2 ^ 32 \<and> in32 fl)"
| "sendable p (C_getxattr i n sz) = (wf_cstr n \<and> sz < 2 ^ 32)"
| "sendable p (C_listxattr i sz) = (sz < 2 ^ 32)"
| "sendable p (C_removexattr i n) = wf_cstr n"
| "sendable p (C_getlk i fi lk) = (lock_sent lk \<and> fi = (with_fh (fi_fh fi))\<lparr>fi_lock_owner := fi_lock_owner fi\<rparr>)"
| "sendable p (C_setlk i fi lk sl) = (lock_sent lk \<and> fi = (with_fh (fi_fh fi))\<lparr>fi_lock_owner := fi_lock_owner fi\<rparr>)"
| "sendable p (C_flock i fi op) = (op \<in> {1, 2, 5, 6, 8, 12} \<and> fi = (with_fh (fi_fh fi))\<lparr>fi_lock_owner := fi_lock_owner fi\<rparr>)"
| "sendable p (C_bmap i bs idx) = (bs < 2 ^ 32)"
| "sendable p (C_ioctl i cmd arg fi fl b osz) = (in32 cmd \<and> arg < 2 ^ 64 \<and> length b < 2 ^ 32 \<and> osz < 2 ^ 32 \<and>
     \<not> has fl FUSE_IOCTL_DIR \<and> fi = with_fh (fi_fh fi))"
| "sendable p (C_poll i fi ph) = (ph = None \<and> fi = (with_fh (fi_fh fi))\<lparr>fi_poll_events := fi_poll_events fi\<rparr>)"
| "sendable p (C_fallocate i m off len fi) = (in32 m \<and> in64 off \<and> in64 len \<and> fi = with_fh (fi_fh fi))"

fun op_of :: "call \<Rightarrow> llop" where
  "op_of (C_lookup _ _) = Op_lookup" | "op_of (C_forget _ _) = Op_forget" | "op_of (C_forget_multi _) = Op_forget_multi"
| "op_of (C_getattr _ _) = Op_getattr" | "op_of (C_setattr _ _ _ _) = Op_setattr" | "op_of (C_access _ _) = Op_access"
| "op_of (C_readlink _) = Op_readlink" | "op_of (C_mknod _ _ _ _) = Op_mknod" | "op_of (C_mkdir _ _ _) = Op_mkdir"
| "op_of (C_unlink _ _) = Op_unlink" | "op_of (C_rmdir _ _) = Op_rmdir" | "op_of (C_symlink _ _ _) = Op_symlink"
| "op_of (C_rename _ _ _ _ _) = Op_rename" | "op_of (C_link _ _ _) = Op_link" | "op_of (C_create _ _ _ _) = Op_create"
| "op_of (C_open _ _) = Op_open" | "op_of (C_read _ _ _ _) = Op_read" | "op_of (C_write _ _ _ _ _) = Op_write"
| "op_of (C_flush _ _) = Op_flush" | "op_of (C_release _ _) = Op_release" | "op_of (C_fsync _ _ _) = Op_fsync"
| "op_of (C_opendir _ _) = Op_opendir" | "op_of (C_readdir _ _ _ _) = Op_readdir" | "op_of (C_readdirplus _ _ _ _) = Op_readdirplus"
| "op_of (C_releasedir _ _) = Op_releasedir" | "op_of (C_fsyncdir _ _ _) = Op_fsyncdir" | "op_of (C_statfs _) = Op_statfs"
| "op_of (C_setxattr _ _ _ _) = Op_setxattr" | "op_of (C_getxattr _ _ _) = Op_getxattr" | "op_of (C_listxattr _ _) = Op_listxattr"
| "op_of (C_removexattr _ _) = Op_removexattr" | "op_of (C_getlk _ _ _) = Op_getlk" | "op_of (C_setlk _ _ _ _) = Op_setlk"
| "op_of (C_flock _ _ _) = Op_flock" | "op_of (C_bmap _ _ _) = Op_bmap" | "op_of (C_ioctl _ _ _ _ _ _ _) = Op_ioctl"
| "op_of (C_poll _ _ _) = Op_poll" | "op_of (C_fallocate _ _ _ _ _) = Op_fallocate"

definition with_umask :: "call \<Rightarrow> nat \<Rightarrow> 32 word \<Rightarrow> ('w, 'm) session_scheme \<Rightarrow> ('w, 'm) session_scheme" where
  \<comment> \<open>requests that create something carry the umask of the process\<close>
  "with_umask c r u s = (case c of C_mknod _ _ _ _ \<Rightarrow> set_umask r u s | C_mkdir _ _ _ \<Rightarrow> set_umask r u s
     | C_create _ _ _ _ \<Rightarrow> set_umask r u s | _ \<Rightarrow> s)"

section \<open>Dispatch\<close>

lemma ll_ops:
  "fuse_ll_ops 1 = Some (\<lambda>_ _. ll_lookup)" "fuse_ll_ops 2 = Some (\<lambda>_ _. ll_forget)" "fuse_ll_ops 3 = Some (\<lambda>_ _. ll_getattr)"
  "fuse_ll_ops 4 = Some (\<lambda>_ _. ll_setattr)" "fuse_ll_ops 5 = Some (\<lambda>_ _. ll_readlink)" "fuse_ll_ops 6 = Some (\<lambda>_ _. ll_symlink)"
  "fuse_ll_ops 8 = Some (\<lambda>_ _. ll_mknod)" "fuse_ll_ops 9 = Some (\<lambda>_ _. ll_mkdir)" "fuse_ll_ops 10 = Some (\<lambda>_ _. ll_unlink)"
  "fuse_ll_ops 11 = Some (\<lambda>_ _. ll_rmdir)" "fuse_ll_ops 12 = Some (\<lambda>_ _. ll_rename)" "fuse_ll_ops 13 = Some (\<lambda>_ _. ll_link)"
  "fuse_ll_ops 14 = Some (\<lambda>_ _. ll_open)" "fuse_ll_ops 15 = Some (\<lambda>_ _. ll_read)"
  "fuse_ll_ops 16 = Some (\<lambda>b p k c r i _ s. ll_write k c r i b p s)" "fuse_ll_ops 17 = Some (\<lambda>_ _. ll_statfs)"
  "fuse_ll_ops 18 = Some (\<lambda>_ _. ll_release)" "fuse_ll_ops 20 = Some (\<lambda>_ _. ll_fsync)" "fuse_ll_ops 21 = Some (\<lambda>_ _. ll_setxattr)"
  "fuse_ll_ops 22 = Some (\<lambda>_ _. ll_getxattr)" "fuse_ll_ops 23 = Some (\<lambda>_ _. ll_listxattr)" "fuse_ll_ops 24 = Some (\<lambda>_ _. ll_removexattr)"
  "fuse_ll_ops 25 = Some (\<lambda>_ _. ll_flush)" "fuse_ll_ops 27 = Some (\<lambda>_ _. ll_opendir)" "fuse_ll_ops 28 = Some (\<lambda>_ _. ll_readdir)"
  "fuse_ll_ops 29 = Some (\<lambda>_ _. ll_releasedir)" "fuse_ll_ops 30 = Some (\<lambda>_ _. ll_fsyncdir)" "fuse_ll_ops 31 = Some (\<lambda>_ _. ll_getlk)"
  "fuse_ll_ops 32 = Some (\<lambda>_ _. ll_setlk)" "fuse_ll_ops 33 = Some (\<lambda>_ _. ll_setlkw)" "fuse_ll_ops 34 = Some (\<lambda>_ _. ll_access)"
  "fuse_ll_ops 35 = Some (\<lambda>_ _. ll_create)" "fuse_ll_ops 37 = Some (\<lambda>_ _. ll_bmap)" "fuse_ll_ops 39 = Some (\<lambda>_ _. ll_ioctl)"
  "fuse_ll_ops 40 = Some (\<lambda>_ _. ll_poll)" "fuse_ll_ops 42 = Some (\<lambda>_ _. ll_batch_forget)" "fuse_ll_ops 43 = Some (\<lambda>_ _. ll_fallocate)"
  "fuse_ll_ops 44 = Some (\<lambda>_ _. ll_readdirplus)" "fuse_ll_ops 45 = Some (\<lambda>_ _. ll_rename2)"
  by (simp_all add: fuse_ll_ops_def)

definition dispatched ::
  "nat \<Rightarrow> bytes \<Rightarrow> 'w kernel \<Rightarrow> ('w, 'm) client \<Rightarrow> nat \<Rightarrow> nat \<times> fuse_ino_t \<times> bytes \<Rightarrow> ('w, 'm) session_scheme \<Rightarrow> ('w, 'm) session_scheme option" where
  \<comment> \<open>what the function of the table does with a request whose body is at the address and followed by more\<close>
  "dispatched p q k cl r req s = (case req of (op, i, b) \<Rightarrow> do { h \<leftarrow> fuse_ll_ops op; h (b @ q) p k cl r i (b @ q) s })"

lemma has_zero [simp]: "\<not> has 0 f" "has (a OR b) b \<longleftrightarrow> b \<noteq> 0"
  by (simp_all add: has_def bit.conj_disj_distrib2 and.assoc[symmetric] word_ao_absorbs)

lemma has_of_bool [simp]: "has (of_bool b :: 32 word) 1 \<longleftrightarrow> b"
  by (cases b) (simp_all add: has_def)

lemma umask_f [simp]: "se_f (set_umask r u s) = se_f s"
  by (simp add: set_umask_def upd_req_def)

lemma size_word [simp]: "n < 2 ^ 32 \<Longrightarrow> unat (of_nat n :: 32 word) = n" "m < 2 ^ 64 \<Longrightarrow> unat (of_nat m :: 64 word) = m"
  by (simp_all add: unat_of_nat)

lemmas call_defs = dispatched_def with_umask_def call_op_def Let_def ll_ops ll_ops(1)[unfolded One_nat_def] wire_simps

lemma lock_in_length [simp]: "length (lock_in fi lk) = 40"
  by (simp add: lock_in_def)

lemma lock_fi_in [simp]: "lk_fi (lock_in fi lk @ q) = Some ((with_fh (fi_fh fi))\<lparr>fi_lock_owner := fi_lock_owner fi\<rparr>)"
  by (simp add: lk_fi_def lock_in_def wire_simps)

lemma sint16_small: "- (2 ^ 15) \<le> i \<Longrightarrow> i < 2 ^ 15 \<Longrightarrow> sint (ucast (of_int i :: 32 word) :: 16 word) = i"
proof -
  have "(ucast (of_int i :: 32 word) :: 16 word) = of_int i"
    by (simp add: ucast_eq unsigned_of_int word_of_int_eq_iff take_bit_take_bit)
  then show "- (2 ^ 15) \<le> i \<Longrightarrow> i < 2 ^ 15 \<Longrightarrow> ?thesis" by (simp add: sint_sbintrunc' signed_take_bit_int_eq_self)
qed

lemma lock_back [simp]:
  assumes "lock_sent lk"
  shows "convert_fuse_file_lock (lock_in fi lk @ q) 16 = Some lk"
proof -
  have i: "in64 (l_start lk)" "in32 (l_pid lk)" "l_whence lk = 0" "sint (ucast (of_int (l_type lk) :: 32 word) :: 16 word) = l_type lk"
    using assms sint16_small by (auto simp: lock_sent_def)
  define e where "e = l_start lk + l_len lk - 1"
  have e: "in64 e" "e < 2 ^ 63 - 1" "in64 (l_len lk)" using assms by (auto simp: lock_sent_def in64_def e_def)
  have ne: "(of_int e :: 64 word) \<noteq> 0x7fffffffffffffff"
  proof
    assume "(of_int e :: 64 word) = 0x7fffffffffffffff"
    from arg_cong[OF this, of sint] e(1,2) show False by simp
  qed
  have "(of_int e :: 64 word) - of_int (l_start lk) + 1 = of_int (l_len lk)" by (simp add: e_def)
  with e(3) have d: "sint ((of_int e :: 64 word) - of_int (l_start lk) + 1) = l_len lk" by simp
  show ?thesis
  proof (cases "l_len lk = 0")
    case True
    then show ?thesis using i by (simp add: convert_fuse_file_lock_def lock_in_def wire_simps)
  next
    case False
    then show ?thesis using i ne d by (simp add: convert_fuse_file_lock_def lock_in_def wire_simps flip: e_def)
  qed
qed

lemma setattr_back:
  assumes "stat_sent st"
  shows "convert_attr (setattr_in st v fh @ q) = Some st" "u32 (setattr_in st v fh @ q) 0 = Some v" "u64 (setattr_in st v fh @ q) 8 = Some fh"
proof -
  have t: "\<lparr>tv_sec = sint (of_int (tv_sec x) :: 64 word), tv_nsec = uint (of_int (tv_nsec x) :: 32 word)\<rparr> = x" if "time_ok x" for x
    using that by (simp add: time_ok_def unsigned_of_int take_bit_int_eq_self)
  have "time_ok (st_atim st)" "time_ok (st_mtim st)" "time_ok (st_ctim st)" "in64 (st_size st)" using assms by (simp_all add: stat_sent_def)
  moreover have "zero_stat\<lparr>st_mode := st_mode st, st_uid := st_uid st, st_gid := st_gid st, st_size := st_size st,
       st_atim := st_atim st, st_mtim := st_mtim st, st_ctim := st_ctim st\<rparr> = st"
    using assms unfolding stat_sent_def by (elim conjE) (erule sym)
  ultimately show "convert_attr (setattr_in st v fh @ q) = Some st"
    by (simp add: convert_attr_def setattr_in_def wire_simps t)
qed (simp_all add: setattr_in_def wire_simps)

lemma forget_list_back: "forget_list (b @ concat (map (\<lambda>(i, k). le 8 i @ le 8 k) l) @ q) (length b) (length l) = Some l"
proof (induction l arbitrary: b)
  case (Cons x l)
  obtain i k where x: "x = (i, k)" by force
  from Cons.IH[of "b @ le 8 i @ le 8 k"] show ?case by (simp add: x wire_simps add.assoc)
qed simp

lemma calls_get_through:
  assumes "ll_op (se_f s) (op_of c)" and "proto_minor s \<ge> 12" and "sendable p c"
  shows "dispatched p q k cl r (request_of u c) s = run cl r c (with_umask c r u s)"
proof -
  have m: "proto_minor s \<ge> 9" "proto_minor s \<ge> 8" "proto_minor s \<ge> 7" "\<not> proto_minor s < 9" using assms(2) by (simp_all add: word_le_nat_alt word_less_nat_alt)
  note A = assms m
  note [simp] = call_defs
  show ?thesis
  proof (cases c)
    case C_lookup with A show ?thesis by (simp add: ll_lookup_def)
  next case C_forget with A show ?thesis by (simp add: ll_forget_def)
  next case (C_getattr i fi) with A show ?thesis by (cases fi) (simp_all add: ll_getattr_def FUSE_GETATTR_FH_def has_def)
  next case C_access with A show ?thesis by (simp add: ll_access_def)
  next case C_readlink with A show ?thesis by (simp add: ll_readlink_def)
  next case C_mknod with A show ?thesis by (simp add: ll_mknod_def)
  next case C_mkdir with A show ?thesis by (simp add: ll_mkdir_def)
  next case C_unlink with A show ?thesis by (simp add: ll_unlink_def)
  next case C_rmdir with A show ?thesis by (simp add: ll_rmdir_def)
  next case C_symlink with A show ?thesis by (simp add: ll_symlink_def)
  next case C_rename with A show ?thesis by (simp add: ll_rename_def ll_rename2_def)
  next case C_link with A show ?thesis by (simp add: ll_link_def)
  next case C_create with A show ?thesis by (simp add: ll_create_def)
  next case C_open with A show ?thesis by (simp add: ll_open_def)
  next case C_read with A show ?thesis by (simp add: ll_read_def)
  next case C_write with A show ?thesis by (simp add: ll_write_def write_fi_def)
  next case C_flush with A show ?thesis by (simp add: ll_flush_def)
  next
    case (C_release i fi)
    with assms(3) have "fi = (with_fh (fi_fh fi))\<lparr>fi_flags := fi_flags fi, fi_flush := fi_flush fi,
      fi_flock_release := fi_flock_release fi, fi_lock_owner := fi_lock_owner fi\<rparr>" "in32 (fi_flags fi)" by simp_all
    then obtain h fl a b lo where fi: "fi = (with_fh h)\<lparr>fi_flags := fl, fi_flush := a, fi_flock_release := b, fi_lock_owner := lo\<rparr>"
      "in32 fl" by blast
    show ?thesis using A(1,2) m C_release fi(2)
      by (cases a; cases b) (simp_all add: fi(1) ll_release_def with_fh_def zero_fi_def release_flags_def
        FUSE_RELEASE_FLUSH_def FUSE_RELEASE_FLOCK_UNLOCK_def has_def)
  next case C_fsync with A show ?thesis by (auto simp: ll_fsync_def)
  next case C_opendir with A show ?thesis by (simp add: ll_opendir_def)
  next case C_readdir with A show ?thesis by (simp add: ll_readdir_def)
  next case C_readdirplus with A show ?thesis by (simp add: ll_readdirplus_def)
  next case C_releasedir with A show ?thesis by (simp add: ll_releasedir_def)
  next case C_fsyncdir with A show ?thesis by (auto simp: ll_fsyncdir_def)
  next case C_statfs with A show ?thesis by (simp add: ll_statfs_def)
  next case C_setxattr with A show ?thesis by (simp add: ll_setxattr_def)
  next case C_getxattr with A show ?thesis by (simp add: ll_getxattr_def)
  next case C_listxattr with A show ?thesis by (simp add: ll_listxattr_def)
  next case C_removexattr with A show ?thesis by (simp add: ll_removexattr_def)
  next case C_bmap with A show ?thesis by (simp add: ll_bmap_def)
  next case C_ioctl with A show ?thesis by (simp add: ll_ioctl_def)
  next case C_poll with A show ?thesis by (simp add: ll_poll_def has_def FUSE_POLL_SCHEDULE_NOTIFY_def pad_def)
  next case C_fallocate with A show ?thesis by (simp add: ll_fallocate_def)
  next case C_flock with A show ?thesis by (auto simp: ll_setlk_def ll_setlkw_def do_setlk_common_def lk_fi_def has_def FUSE_LK_FLOCK_def)
  next case C_getlk with A show ?thesis by (simp add: ll_getlk_def)
  next case C_setlk with A show ?thesis by (simp add: ll_setlk_def ll_setlkw_def do_setlk_common_def)
  next
    case (C_setattr i st v fi)
    have v: "v AND FATTR_FH = 0" "(v OR FATTR_FH) AND (NOT FATTR_FH) = v" "v AND (NOT FATTR_FH) = v" "v AND valid_mask = v"
    proof -
      have 0: "v AND valid_mask = v" using A(3) C_setattr by simp
      then have "v AND FATTR_FH = v AND (valid_mask AND FATTR_FH)" by (metis and.assoc)
      also have "valid_mask AND FATTR_FH = 0" by (simp add: valid_mask_def FATTR_FH_def FUSE_SET_ATTR_MODE_def FUSE_SET_ATTR_UID_def
        FUSE_SET_ATTR_GID_def FUSE_SET_ATTR_SIZE_def FUSE_SET_ATTR_ATIME_def FUSE_SET_ATTR_MTIME_def FUSE_SET_ATTR_ATIME_NOW_def
        FUSE_SET_ATTR_MTIME_NOW_def FUSE_SET_ATTR_CTIME_def)
      finally show "v AND FATTR_FH = 0" by simp
      then have "\<not> (bit v n \<and> bit FATTR_FH n)" for n by (metis bit_0_eq bit_and_iff bot_apply bot_bool_def)
      then show "(v OR FATTR_FH) AND (NOT FATTR_FH) = v" "v AND (NOT FATTR_FH) = v"
        by (auto intro!: bit_word_eqI simp: bit_simps)
      show "v AND valid_mask = v" by (rule 0)
    qed
    have st: "stat_sent st" using A(3) C_setattr by simp
    have nz: "FATTR_FH \<noteq> 0" by (simp add: FATTR_FH_def)
    have ops: "ll_op (se_f s) Op_setattr" using A(1) C_setattr by simp
    show ?thesis
    proof (cases fi)
      case None
      then show ?thesis using v ops by (simp add: C_setattr ll_setattr_def setattr_back[OF st] has_def valid_mask_def[symmetric])
    next
      case (Some x)
      have "x = with_fh (fi_fh x)" using A(3) C_setattr Some by simp
      then show ?thesis using v ops Some by (simp add: C_setattr ll_setattr_def setattr_back[OF st] valid_mask_def[symmetric] nz)
    qed
  next
    case (C_forget_multi l)
    with A forget_list_back[of "size32 (length l) @ pad 4" l q] show ?thesis by (simp add: ll_batch_forget_def)
  qed
qed

section \<open>Through the session\<close>

definition in_header :: "nat \<Rightarrow> nat \<Rightarrow> 64 word \<Rightarrow> fuse_ino_t \<Rightarrow> fuse_context \<Rightarrow> bytes" where
  \<comment> \<open>\<open>struct fuse_in_header\<close>\<close>
  "in_header len op unique nodeid ctx = size32 len @ size32 op @ le 8 unique @ le 8 nodeid @ le 4 (cx_uid ctx) @ le 4 (cx_gid ctx) @
     int32 (cx_pid ctx) @ pad 4"

definition message_for :: "64 word \<Rightarrow> fuse_context \<Rightarrow> 32 word \<Rightarrow> call \<Rightarrow> bytes \<Rightarrow> bytes" where
  \<comment> \<open>a whole request; data behind its structure may follow\<close>
  "message_for unique ctx u c q = (case request_of u c of (op, i, b) \<Rightarrow> in_header (40 + length b + length q) op unique i ctx @ b @ q)"

definition admitted :: "64 word \<Rightarrow> nat \<Rightarrow> fuse_context \<Rightarrow> ('w, 'm) session_scheme \<Rightarrow> ('w, 'm) session_scheme" where
  \<comment> \<open>the session with a new request, which has a reference to the channel\<close>
  "admitted unique ch ctx s = s\<lparr>
     se_f := (se_f s)\<lparr>ll_list := ll_list (se_f s) @ [se_next s]\<rparr>,
     se_reqs := (se_reqs s)(se_next s \<mapsto> \<lparr>rq_unique = unique, rq_ctr = 1, rq_ctx = ctx\<lparr>cx_umask := 0\<rparr>, rq_ch = Some ch,
       rq_interrupted = False, rq_intr_unique = 0, rq_func = None\<rparr>),
     se_chans := (se_chans s)(ch := map_option (\<lambda>c. c\<lparr>ch_ctr := ch_ctr c + 1\<rparr>) (se_chans s ch)),
     se_next := se_next s + 1, se_thread := (se_thread s)\<lparr>t_mem := snd (malloc (t_mem (se_thread s)))\<rparr>\<rparr>"

lemma request_opcodes:
  assumes "request_of u c = (op, i, b)"
  shows "op \<le> 45" "op \<noteq> 26" "op \<noteq> 36" "op \<noteq> 41" "op = 16 \<longleftrightarrow> op_of c = Op_write"
    "(fuse_ll_ops op :: (bytes \<Rightarrow> nat \<Rightarrow> ('w, 'm) handler) option) \<noteq> None"
  using assms by (cases c; auto simp: ll_ops ll_ops(1)[unfolded One_nat_def] split: if_splits option.splits)+

lemma in_header_back:
  assumes "op < 2 ^ 32" and "in32 (cx_pid ctx)"
  shows "u32 (in_header len op unique i ctx @ b) 4 = Some (of_nat op)" "u64 (in_header len op unique i ctx @ b) 8 = Some unique"
    "u64 (in_header len op unique i ctx @ b) 16 = Some i" "u32 (in_header len op unique i ctx @ b) 24 = Some (cx_uid ctx)"
    "u32 (in_header len op unique i ctx @ b) 28 = Some (cx_gid ctx)" "u32 (in_header len op unique i ctx @ b) 32 = Some (of_int (cx_pid ctx))"
    "drop 40 (in_header len op unique i ctx @ b) = b"
  by (simp_all add: in_header_def wire_simps)

lemma load_mem [simp]: "load (st\<lparr>t_mem := m\<rparr>) a n = load st a n"
  by (simp add: load_def)

lemma in_header_length [simp]: "length (in_header len op unique i ctx) = 40"
  by (simp add: in_header_def)

lemma admit_steps:
  assumes "fst (malloc (t_mem (se_thread s)))" and "se_chans s ch = Some chan" and "ch_ctr chan > 0"
    and "ll_interrupts (se_f s) = []"
  shows "\<exists>s1 s2. fuse_ll_alloc_req s = (Some (se_next s), s1) \<and> fuse_chan_get ch s1 = Some s2 \<and>
    take_interrupt k (se_next s) op (upd_req (se_next s) (\<lambda>q. q\<lparr>rq_unique := unique, rq_ch := Some ch, rq_ctx := ctx\<lparr>cx_umask := 0\<rparr>\<rparr>) s2) =
      (if op = FUSE_INTERRUPT then Some (upd_req (se_next s) (\<lambda>q. q\<lparr>rq_unique := unique, rq_ch := Some ch, rq_ctx := ctx\<lparr>cx_umask := 0\<rparr>\<rparr>) s2)
       else Some (admitted unique ch ctx s)) \<and>
    se_f (upd_req (se_next s) (\<lambda>q. q\<lparr>rq_unique := unique, rq_ch := Some ch, rq_ctx := ctx\<lparr>cx_umask := 0\<rparr>\<rparr>) s2) = se_f s"
proof -
  obtain m where m: "malloc (t_mem (se_thread s)) = (True, m)" using assms(1) by (cases "malloc (t_mem (se_thread s))") auto
  let ?s1 = "snd (fuse_ll_alloc_req s)"
  let ?s2 = "upd_chan ch (\<lambda>ch. ch\<lparr>ch_ctr := ch_ctr ch + 1\<rparr>) ?s1"
  have 1: "fuse_ll_alloc_req s = (Some (se_next s), ?s1)" by (simp add: fuse_ll_alloc_req_def llmalloc_def m)
  have 2: "fuse_chan_get ch ?s1 = Some ?s2" using assms(2,3) by (simp add: fuse_chan_get_def fuse_ll_alloc_req_def llmalloc_def m)
  show ?thesis using assms(4) m
    by (intro exI[of _ ?s1] exI[of _ ?s2] conjI 1 2)
      (simp_all add: take_interrupt_def check_interrupt_def upd_req_def upd_chan_def fuse_ll_alloc_req_def llmalloc_def Let_def
        upd_ll_def admitted_def)
qed

definition has_op :: "fuse_ll \<Rightarrow> call \<Rightarrow> bool" where
  \<comment> \<open>a write may be taken by either of two operations\<close>
  "has_op f c \<longleftrightarrow> ll_op f (op_of c) \<or> op_of c = Op_write \<and> ll_op f Op_write_buf"

definition data_sent :: "call \<Rightarrow> bytes \<Rightarrow> bool" where
  \<comment> \<open>the data of a write is there\<close>
  "data_sent c q \<longleftrightarrow> (case c of C_write i p sz off fi \<Rightarrow> sz \<le> length q | _ \<Rightarrow> True)"

definition delivered :: "('w, 'm) client \<Rightarrow> nat \<Rightarrow> call \<Rightarrow> fuse_buf \<Rightarrow> ('w, 'm) session_scheme \<Rightarrow> ('w, 'm) session_scheme option" where
  \<comment> \<open>the call; a client with \<open>write_buf\<close> gets a write as a vector of one buffer, the data\<close>
  "delivered cl r c buf s = (case c of
     C_write i p sz off fi \<Rightarrow>
       if ll_op (se_f s) Op_write_buf
       then map_option snd (run_buf cl r (B_write i off fi)
         \<lparr>bv_count = 1, bv_idx = 0, bv_off = 0, bv_buf = [buf\<lparr>buf_mem := p, buf_size := sz\<rparr>]\<rparr> s)
       else run cl r c s
   | _ \<Rightarrow> run cl r c s)"

lemma delivered_run: "(op_of c = Op_write \<longrightarrow> \<not> ll_op (se_f s) Op_write_buf) \<Longrightarrow> delivered cl r c buf s = run cl r c s"
  by (cases c) (simp_all add: delivered_def)

lemma writes_get_through:
  assumes "ll_op (se_f s) Op_write_buf" and "proto_minor s \<ge> 12" and "sendable p (C_write j d sz off fi)"
    and "request_of u (C_write j d sz off fi) = (op, i, b)" and "sz \<le> length q" and "buf_size buf = 40 + length b + length q"
    and "\<not> has (buf_flags buf) FUSE_BUF_IS_FD"
  shows "ll_write_buf k cl r i (b @ q) p buf s = delivered cl r (C_write j d sz off fi) buf s"
proof -
  have m: "\<not> proto_minor s < 9" using assms(2) by (simp add: word_le_nat_alt word_less_nat_alt)
  have c: "d = p + 40" "sz < 2 ^ 32" "in64 off" "in32 (fi_flags fi)"
    and fi: "(with_fh (fi_fh fi))\<lparr>fi_writepage := fi_writepage fi, fi_lock_owner := fi_lock_owner fi, fi_flags := fi_flags fi\<rparr> = fi"
    using assms(3) by simp_all
  have b: "i = j" "b = le 8 (fi_fh fi) @ off64 off @ size32 sz @ le 4 (of_bool (fi_writepage fi) :: 32 word) @
      le 8 (fi_lock_owner fi) @ int32 (fi_flags fi) @ pad 4"
    using assms(4) by auto
  have "length b = 40" by (simp add: b(2))
  then have sz: "sub64 (buf_size buf) 80 = length q" using assms(6) by (simp add: sub64_def)
  have f: "write_fi (b @ q) s = Some fi" using m c(4) by (simp add: write_fi_def b(2) wire_simps fi)
  have u: "u32 (b @ q) 16 = Some (of_nat sz)" "u64 (b @ q) 8 = Some (of_int off)" by (simp_all add: b(2) wire_simps)
  show ?thesis using assms(1,5,7) m c
    by (simp add: ll_write_buf_def f u sz b(1) delivered_def split: Option.bind_splits)
qed

lemma messages_delivered:
  assumes "load (se_thread s) (buf_mem buf) (buf_size buf) = message_for unique ctx u c q" and "\<not> has (buf_flags buf) FUSE_BUF_IS_FD"
    and "sendable (buf_mem buf + 40) c" and "in32 (cx_pid ctx)"
    and "has_op (se_f s) c" and "data_sent c q"
    and "proto_minor s \<ge> 12" and "ll_got_init (se_f s)"
    and "ll_allow_root (se_f s) \<longrightarrow> cx_uid ctx = ll_owner (se_f s) \<or> cx_uid ctx = 0"
    and "fst (malloc (t_mem (se_thread s)))" and "se_chans s ch = Some chan" and "ch_ctr chan > 0" and "ll_interrupts (se_f s) = []"
  shows "fuse_session_process_buf_int k cl a buf ch s =
    delivered cl (se_next s) c buf (with_umask c (se_next s) u (admitted unique ch ctx s))"
proof -
  obtain op i b where r: "request_of u c = (op, i, b)" by (metis prod_cases3)
  note ops = request_opcodes[OF r]
  let ?m = "in_header (40 + length b + length q) op unique i ctx @ b @ q" and ?s = "admitted unique ch ctx s"
  have m: "load (se_thread s) (buf_mem buf) (buf_size buf) = ?m" using assms(1) by (simp add: message_for_def r)
  from arg_cong[OF m, of length] have size: "buf_size buf = 40 + length b + length q" by (simp add: load_def)
  have op: "op < 2 ^ 32" "unat (of_nat op :: 32 word) = op" using ops(1) by simp_all
  note hb = in_header_back[OF op(1) assms(4), where len = "40 + length b + length q" and unique = unique and i = i and b = "b @ q"]
  obtain s1 s2 where st: "fuse_ll_alloc_req s = (Some (se_next s), s1)" "fuse_chan_get ch s1 = Some s2"
    "take_interrupt k (se_next s) op (upd_req (se_next s) (\<lambda>q. q\<lparr>rq_unique := unique, rq_ch := Some ch, rq_ctx := ctx\<lparr>cx_umask := 0\<rparr>\<rparr>) s2) =
      Some ?s"
    "se_f (upd_req (se_next s) (\<lambda>q. q\<lparr>rq_unique := unique, rq_ch := Some ch, rq_ctx := ctx\<lparr>cx_umask := 0\<rparr>\<rparr>) s2) = se_f s"
    using admit_steps[OF assms(10-13), where k = k and op = op and unique = unique and ctx = ctx] ops(3) by (auto split: if_splits)
  have ctx: "\<lparr>cx_uid = cx_uid ctx, cx_gid = cx_gid ctx, cx_pid = sint (of_int (cx_pid ctx) :: 32 word), cx_umask = 0\<rparr> = ctx\<lparr>cx_umask := 0\<rparr>"
    using assms(4) by simp
  have ref: "refused (se_f s) op (cx_uid ctx) = None"
    using assms(8,9) ops(1,2) ops(6)[where 'w = unit and 'm = unit] by (auto simp: refused_def)
  have mem: "load (se_thread ?s) (buf_mem buf) (buf_size buf) = ?m" "proto_minor ?s = proto_minor s" "ll_op (se_f ?s) = ll_op (se_f s)"
    using m by (simp_all add: admitted_def)
  have get: "get_header k a buf s = Some ((Some (buf_mem buf, buf_size buf), \<lparr>bv_count = 1, bv_idx = 0, bv_off = 0, bv_buf = [buf]\<rparr>), s)"
    "get_rest k a buf keep loc bufv s' = Some (Inr loc, s')" for keep loc bufv and s' :: "('a, 'b) session_scheme"
    using assms(2) by (simp_all add: get_header_def get_rest_def)
  have code: "fuse_session_process_buf_int k cl a buf ch s =
      (if op = FUSE_WRITE \<and> ll_op (se_f s) Op_write_buf then ll_write_buf k cl (se_next s) i (b @ q) (buf_mem buf + 40) buf ?s
       else dispatched (buf_mem buf + 40) q k cl (se_next s) (request_of u c) ?s)"
    using ops(3,4) by (simp add: fuse_session_process_buf_int_def get m hb op(2) st ref ctx mem dispatched_def r Let_def)
  show ?thesis
  proof (cases "op_of c = Op_write \<and> ll_op (se_f s) Op_write_buf")
    case True
    then obtain j d sz off fi where c: "c = C_write j d sz off fi" by (cases c) simp_all
    have "fuse_session_process_buf_int k cl a buf ch s = ll_write_buf k cl (se_next s) i (b @ q) (buf_mem buf + 40) buf ?s"
      unfolding code using True ops(5) by simp
    also have "\<dots> = delivered cl (se_next s) c buf ?s"
      unfolding c by (rule writes_get_through) (use True assms(2,3,6,7) r size mem in \<open>simp_all add: c data_sent_def\<close>)
    finally show ?thesis by (simp add: c with_umask_def)
  next
    case False
    then have has: "ll_op (se_f s) (op_of c)" and nw: "\<not> (op = FUSE_WRITE \<and> ll_op (se_f s) Op_write_buf)"
      using assms(5) ops(5) by (auto simp: has_op_def)
    have "fuse_session_process_buf_int k cl a buf ch s =
        dispatched (buf_mem buf + 40) q k cl (se_next s) (request_of u c) ?s"
      unfolding code by (rule if_not_P[OF nw])
    also have "\<dots> = run cl (se_next s) c (with_umask c (se_next s) u ?s)"
      using calls_get_through[where s = ?s and c = c] assms(3,7) has mem by simp
    also have "\<dots> = delivered cl (se_next s) c buf (with_umask c (se_next s) u ?s)"
      by (rule delivered_run[symmetric]) (use False in \<open>cases c; simp add: with_umask_def admitted_def\<close>)
    finally show ?thesis .
  qed
qed

lemma messages_through:
  assumes "load (se_thread s) (buf_mem buf) (buf_size buf) = message_for unique ctx u c q" and "\<not> has (buf_flags buf) FUSE_BUF_IS_FD"
    and "sendable (buf_mem buf + 40) c" and "in32 (cx_pid ctx)"
    and "ll_op (se_f s) (op_of c)" and "op_of c \<noteq> Op_write"
    and "proto_minor s \<ge> 12" and "ll_got_init (se_f s)" and "\<not> ll_allow_root (se_f s)"
    and "fst (malloc (t_mem (se_thread s)))" and "se_chans s ch = Some chan" and "ch_ctr chan > 0" and "ll_interrupts (se_f s) = []"
  shows "fuse_session_process_buf_int k cl a buf ch s =
    run cl (se_next s) c (with_umask c (se_next s) u (admitted unique ch ctx s))"
proof -
  have "has_op (se_f s) c" "data_sent c q" using assms(5,6) by (cases c; simp add: has_op_def data_sent_def)+
  from messages_delivered[OF assms(1-4) this assms(7,8) _ assms(10-13), of k cl a] assms(9) show ?thesis
    using assms(6) by (simp add: delivered_run)
qed


definition all_ops :: "unit session \<Rightarrow> unit session" where
  "all_ops = upd_ll (\<lambda>f. f\<lparr>ll_op := \<lambda>_. True, ll_got_init := True\<rparr>)"

definition write_call :: call where
  \<comment> \<open>three bytes, behind a message at 1000\<close>
  "write_call = C_write 1 1080 3 5 (with_fh 9)"

definition write_message :: bytes where
  "write_message = message_for 12 \<lparr>cx_uid = 1000, cx_gid = 100, cx_pid = 42, cx_umask = 0\<rparr> 0 write_call [104, 105, 10]"

definition got_write :: "unit session" where
  "got_write = (all_ops (waiting 23))\<lparr>se_thread := store 1000 write_message idle_thread\<rparr>"

lemma load_store [simp]: "load (store p b st) p (length b) = b"
  by (auto simp: load_def store_def intro!: nth_equalityI)


end
