(* ===== verification/Served.thy ===== *)
theory Served
  imports Ll_Calls Handlers_Props
begin

text \<open>
  A request through all layers: the bytes of a RMDIR message become a call, the call becomes a
  request to the file system, and its result changes the tree and is written to the device.
\<close>

lemma session_of [simp]: "session.truncate (with_lib x s) = of_thread (l_thread x)" "se_lib (with_lib x s) = x"
  by (simp_all add: with_lib_def session.defs session.truncate_def)

lemma lib_of_simps [simp]:
  "l_fuse (lib_of s) = l_fuse (se_lib s)" "l_context (lib_of s) = l_context (se_lib s)" "l_fs (lib_of s) = l_fs (se_lib s)"
  "l_thread (lib_of s) = to_thread (session.truncate s)"
  by (simp_all add: lib_of_def)

lemma lib_admitted [simp]: "se_lib (admitted u ch ctx s) = se_lib s"
  by (simp add: admitted_def)

definition session_left :: "'w world thread \<Rightarrow> 'w session \<Rightarrow> bool" where
  \<comment> \<open>the callback has acted on the rest of the world only\<close>
  "session_left th s \<longleftrightarrow> snd (p_world th) = s"

text \<open>
  A RMDIR message for an entry nobody holds a lock on, in an initialised session
  whose client is the library: the file system is asked once, with the full path and in the context of the sender,
  and then one message is written to the channel the request came from; it parses as the answer
  to this request, has no body, and its error is what the file system returned. The request is freed. The entry leaves the
  tree exactly when the file system agreed; the tree invariant holds and all locks are given back.
\<close>

lemma rmdir_served:
  fixes s :: "'w fsession" and k w t a ctx ch "unique"
  defines "s1 \<equiv> admitted unique ch ctx s"
  defines "e \<equiv> ll_request k w t a (se_next s) (ctx\<lparr>cx_umask := 0\<rparr>)"
  assumes "load (se_thread s) (buf_mem buf) (buf_size buf) = message_for unique ctx u (C_rmdir d n) q"
    and "\<not> has (buf_flags buf) FUSE_BUF_IS_FD" and "wf_cstr n" and "in32 (cx_pid ctx)"
    and "ll_op (se_f s) Op_rmdir" and "proto_minor s \<ge> 12" and "ll_got_init (se_f s)" and "\<not> ll_allow_root (se_f s)"
    and "fst (malloc (t_mem (se_thread s)))" and "se_chans s ch = Some chan" and "ch_ctr chan > 0" and "ch_assigned chan"
    and "ll_interrupts (se_f s) = []"
    and "l_context (se_lib s)" and "l_fs (se_lib s) = Some fs" and "tree_ok (l_fuse (se_lib s))"
    and "way_free (l_fuse (se_lib s)) d c (Some n) True" and "looked_up (l_fuse (se_lib s)) d n"
    and "list_all (\<lambda>(a, t). looked_at (f_nodes (l_fuse (se_lib s))) a) c"
    and "fuse_fs_rmdir fs (full_path c (Some n)) (prepared e (to_thread (session.truncate s1))) = (err, th)"
    and "session_left th (session.truncate s1)"
  shows "\<exists>s' msg m. fuse_session_process_buf_int k (fuse_client k w t a r) b buf ch s = Some s' \<and>
    session.truncate s' = freed (se_next s) ch (wrote k (ch_fd chan) msg (of_thread th)) \<and>
    parse_message msg = Some m \<and> m_unique m = unique \<and> m_error m = on_wire err \<and> m_body m = [] \<and>
    (if err = 0 then removed d n (l_fuse (se_lib s)) (l_fuse (se_lib s'))
     else unchanged (l_fuse (se_lib s)) (l_fuse (se_lib s')))"
proof -
  let ?s = s1
  let ?req = "\<lparr>rq_unique = unique, rq_ctr = 1, rq_ctx = ctx\<lparr>cx_umask := 0\<rparr>, rq_ch = Some ch, rq_interrupted = False,
    rq_intr_unique = 0, rq_func = None\<rparr>"
  let ?chan = "chan\<lparr>ch_ctr := ch_ctr chan + 1\<rparr>"
  have proc: "fuse_session_process_buf_int k (fuse_client k w t a r) b buf ch s =
      run (fuse_client k w t a r) (se_next s) (C_rmdir d n) ?s"
    using messages_through[OF assms(3), where k = k and cl = "fuse_client k w t a r" and a = b and ch = ch and chan = chan] assms(4-15)
    by (simp add: s1_def with_umask_def)
  have req: "se_reqs ?s (se_next s) = Some ?req" by (simp add: s1_def admitted_def)
  have lib: "se_lib ?s = se_lib s" by (simp add: s1_def)
  obtain x' where x': "fuse_lib_rmdir e d n (lib_of ?s) = Some x'"
    "l_thread x' = snd (n_reply e (Reply_err (- err)) th)"
    "if err = 0 then removed d n (l_fuse (se_lib s)) (l_fuse x') else unchanged (l_fuse (se_lib s)) (l_fuse x')"
    using rmdir_library[where x = "lib_of ?s" and fs = fs and d = d and c = c and s = n and e = e and err = err and th = th,
      unfolded lib_of_simps lib, OF assms(16-22)] by blast
  have served: "fuse_session_process_buf_int k (fuse_client k w t a r) b buf ch s = Some (with_lib x' ?s)"
    unfolding proc using x'(1) by (simp add: fuse_client_def req e_def)
  have left: "snd (p_world th) = session.truncate ?s" using assms(23) by (simp add: session_left_def)
  have cr: "can_reply (of_thread th) (se_next s) ch ?req ?chan"
    using assms(12-14) left by (simp add: can_reply_def of_thread_def s1_def admitted_def session.truncate_def)
  let ?msg = "message_of ?req err []"
  have reply: "ll_answer k a (se_next s) (Reply_err (- err)) (of_thread th) =
      Some (write_result k (ch_fd chan) ?msg (of_thread th), freed (se_next s) ch (wrote k (ch_fd chan) ?msg (of_thread th)))"
    using reply_wrote[OF cr, of "[]" k err] by (simp add: ll_answer_def fuse_reply_err_def)
  have "of_thread (l_thread x') = freed (se_next s) ch (wrote k (ch_fd chan) ?msg (of_thread th))"
    by (simp add: x'(2) e_def ll_request_def send_answer_def reply)
  moreover have "parse_message ?msg = Some \<lparr>m_len = length ?msg, m_error = on_wire err, m_unique = unique, m_body = []\<rparr>"
    using parse_message_of(1)[of "[]" ?req err] by simp
  ultimately show ?thesis using x'(3) served
    by (intro exI[of _ "with_lib x' ?s"] exI[of _ ?msg]
      exI[of _ "\<lparr>m_len = length ?msg, m_error = on_wire err, m_unique = unique, m_body = []\<rparr>"]) simp
qed

end
