(* ===== verification/Helper.thy ===== *)
theory Helper
  imports Fuse_New_Props Nosqlfs
begin

text \<open>
  src/lib/helper.c: the options of the command line, going into the background, and \<open>fuse_main_real\<close>, which
  takes a file system from the arguments of its program to the exit status of the process. The theorems say which
  program name becomes the subtype, and that \<open>fuse_main_real\<close> leaves nothing registered.
\<close>

section \<open>The command line\<close>

record fuse_cmdline_opts =
  o_singlethread :: bool
  o_foreground :: bool
  o_debug :: bool
  o_nodefault_subtype :: bool
  o_mountpoint :: "string option"
  o_show_version :: bool
  o_show_help :: bool

definition zero_cmdline :: fuse_cmdline_opts where
  "zero_cmdline = \<lparr>o_singlethread = False, o_foreground = False, o_debug = False, o_nodefault_subtype = False,
     o_mountpoint = None, o_show_version = False, o_show_help = False\<rparr>"

type_synonym 'w cmdline = "fuse_cmdline_opts \<times> 'w thread"

definition fuse_helper_opts :: "'w cmdline fuse_opt list" where
  \<comment> \<open>the data of the parser: the options, and the thread that asks for real paths\<close>
  "fuse_helper_opts = [
     flag_opt ''-h'' (\<lambda>b. apfst (\<lambda>o'. o'\<lparr>o_show_help := b\<rparr>)),
     flag_opt ''--help'' (\<lambda>b. apfst (\<lambda>o'. o'\<lparr>o_show_help := b\<rparr>)),
     flag_opt ''-V'' (\<lambda>b. apfst (\<lambda>o'. o'\<lparr>o_show_version := b\<rparr>)),
     flag_opt ''--version'' (\<lambda>b. apfst (\<lambda>o'. o'\<lparr>o_show_version := b\<rparr>)),
     flag_opt ''-d'' (\<lambda>b. apfst (\<lambda>o'. o'\<lparr>o_debug := b\<rparr>)),
     flag_opt ''debug'' (\<lambda>b. apfst (\<lambda>o'. o'\<lparr>o_debug := b\<rparr>)),
     flag_opt ''-d'' (\<lambda>b. apfst (\<lambda>o'. o'\<lparr>o_foreground := b\<rparr>)),
     flag_opt ''debug'' (\<lambda>b. apfst (\<lambda>o'. o'\<lparr>o_foreground := b\<rparr>)),
     fuse_opt_key ''-d'' FUSE_OPT_KEY_KEEP,
     fuse_opt_key ''debug'' FUSE_OPT_KEY_KEEP,
     flag_opt ''-f'' (\<lambda>b. apfst (\<lambda>o'. o'\<lparr>o_foreground := b\<rparr>)),
     flag_opt ''-s'' (\<lambda>b. apfst (\<lambda>o'. o'\<lparr>o_singlethread := b\<rparr>)),
     flag_opt ''fsname='' (\<lambda>b. apfst (\<lambda>o'. o'\<lparr>o_nodefault_subtype := b\<rparr>)),
     flag_opt ''subtype='' (\<lambda>b. apfst (\<lambda>o'. o'\<lparr>o_nodefault_subtype := b\<rparr>)),
     fuse_opt_key ''fsname='' FUSE_OPT_KEY_KEEP,
     fuse_opt_key ''subtype='' FUSE_OPT_KEY_KEEP]"

definition fuse_helper_opt_proc :: "'w kernel \<Rightarrow> 'w cmdline opt_proc" where
  "fuse_helper_opt_proc k d arg key outargs m =
     (case d of (opts, st) \<Rightarrow>
        if key = FUSE_OPT_KEY_NONOPT then
          case o_mountpoint opts of
            None \<Rightarrow>
              (let (r, st) = sys k (SysRealpath arg) st
               in case r_data r of
                    StringData mp \<Rightarrow>
                      if r_ret r < 0 then Some (- 1, (opts, st), outargs, m)
                      else let (res, s, m) = fuse_opt_add_opt None mp m
                        in Some (res, (opts\<lparr>o_mountpoint := s\<rparr>, st), outargs, m)
                  | _ \<Rightarrow> Some (- 1, (opts, st), outargs, m))
          | Some _ \<Rightarrow> Some (- 1, (opts, st), outargs, m)
        else Some (1, (opts, st), outargs, m))"

definition subtype_base :: "string \<Rightarrow> string" where
  \<comment> \<open>\<open>basename\<close>\<close>
  "subtype_base progname =
     (case strrchr progname (CHR ''/'') of
        None \<Rightarrow> progname
      | Some i \<Rightarrow> if i + 1 < length progname then drop (i + 1) progname else drop i progname)"

definition add_default_subtype :: "string \<Rightarrow> fuse_args \<Rightarrow> mem \<Rightarrow> (int \<times> fuse_args \<times> mem) option" where
  "add_default_subtype progname args m =
     (let (ok, m) = malloc m
      in if \<not> ok then Some (- 1, args, m) else fuse_opt_add_arg args (''-osubtype='' @ subtype_base progname) m)"

definition parse_cmdline :: "'w kernel \<Rightarrow> fuse_args \<Rightarrow> 'w thread \<Rightarrow> (int \<times> fuse_args \<times> fuse_cmdline_opts \<times> 'w thread) option" where
  \<comment> \<open>what both users of the options start with\<close>
  "parse_cmdline k args st = do {
     (r, args, (opts, st'), m) \<leftarrow> fuse_opt_parse args (zero_cmdline, st) fuse_helper_opts (Some (fuse_helper_opt_proc k)) (t_mem st);
     Some (r, args, opts, st'\<lparr>t_mem := m\<rparr>)
   }"

definition default_subtype :: "fuse_cmdline_opts \<Rightarrow> fuse_args \<Rightarrow> 'w thread \<Rightarrow> (int \<times> fuse_args \<times> 'w thread) option" where
  \<comment> \<open>\<open>args->argv[0]\<close> is read\<close>
  "default_subtype opts args st =
     (if o_nodefault_subtype opts then Some (0, args, st)
      else case fa_args args of
             [] \<Rightarrow> None
           | a # _ \<Rightarrow> do { (r, args, m) \<leftarrow> add_default_subtype a args (t_mem st); Some (r, args, st\<lparr>t_mem := m\<rparr>) })"

definition fuse_parse_cmdline ::
  "'w kernel \<Rightarrow> fuse_args \<Rightarrow> 'w thread \<Rightarrow> (int \<times> fuse_args \<times> fuse_cmdline_opts \<times> 'w thread) option" where
  \<comment> \<open>the help and version texts are left out, but that of \<open>fusermount\<close> is a process\<close>
  "fuse_parse_cmdline k args st = do {
     (r, args, opts, st) \<leftarrow> parse_cmdline k args st;
     if r = - 1 then Some (- 1, args, opts, st)
     else if o_show_version opts then Some (- 1, args, opts, fuse_mount_version k st)
     else if o_show_help opts then Some (- 1, args, opts, st)
     else if o_mountpoint opts = None then Some (- 1, args, opts, st)
     else do { (r, args, st) \<leftarrow> default_subtype opts args st; Some (if r = - 1 then - 1 else 0, args, opts, st) }
   }"

section \<open>The daemon\<close>

definition to_null :: "'w kernel \<Rightarrow> ('w, 'm) proc_scheme \<Rightarrow> ('w, 'm) proc_scheme" where
  \<comment> \<open>the standard descriptors\<close>
  "to_null k st =
     (let (r, st) = sys k (SysOpen ''/dev/null'' O_RDWR 0) st; fd = r_ret r
      in if fd = - 1 then st
         else let
           st = snd (sys k (SysDup2 fd 0) st);
           st = snd (sys k (SysDup2 fd 1) st);
           st = snd (sys k (SysDup2 fd 2) st)
         in if fd > 2 then snd (sys k (SysClose fd) st) else st)"

definition fuse_daemonize :: "'w kernel \<Rightarrow> bool \<Rightarrow> ('w, 'm) proc_scheme \<Rightarrow> int outcome \<times> ('w, 'm) proc_scheme" where
  \<comment> \<open>the parent waits for the byte of its child and exits\<close>
  "fuse_daemonize k foreground st =
     (if foreground then (Continues 0, snd (sys k (SysChdir ''/'') st))
      else let (p, st) = sys k SysPipe st; (w0, w1) = (case r_data p of PipeData a b \<Rightarrow> (a, b) | _ \<Rightarrow> (0, 0))
        in if r_ret p \<noteq> 0 then (Continues (- 1), st)
           else let (f, st) = sys k (SysFork Ch_daemon) st
             in if r_ret f = - 1 then (Continues (- 1), st)
                else if r_ret f \<noteq> 0 then (Exited 0, snd (sys k (SysRead w0 1) st))
                else let (r, st) = sys k SysSetsid st
                  in if r_ret r = - 1 then (Continues (- 1), st)
                     else let
                       st = snd (sys k (SysChdir ''/'') st);
                       st = to_null k st;
                       st = snd (sys k (SysWrite w1 [1]) st);
                       st = snd (sys k (SysClose w0) st);
                       st = snd (sys k (SysClose w1) st)
                     in (Continues 0, st))"

section \<open>main\<close>

type_synonym 'w main_result = "int outcome \<times> fuse_globals \<times> nat option \<times> 'w thread"

definition main_args ::
  "'w kernel \<Rightarrow> string list \<Rightarrow> 'w thread \<Rightarrow> ((int \<times> 'w thread) + (fuse_cmdline_opts \<times> fuse_args \<times> 'w thread)) option" where
  \<comment> \<open>up to \<open>fuse_new\<close>; \<open>Inl\<close>: the process is to return this\<close>
  "main_args k argv st = do {
     (r, args, opts, st) \<leftarrow> parse_cmdline k \<lparr>fa_argv = Some argv, fa_allocated = False\<rparr> st;
     if r = - 1 then Some (Inl (1, st))
     else if o_show_version opts then Some (Inl (0, fuse_mount_version k st))
     else do {
       (r, args, m) \<leftarrow> (if o_show_help opts then fuse_opt_add_arg args ''--help'' (t_mem st) else Some (0, args, t_mem st));
       let st = st\<lparr>t_mem := m\<rparr>;
       if r = - 1 then Some (Inl (1, st))
       else if \<not> o_show_help opts \<and> o_mountpoint opts = None then Some (Inl (1, st))
       else do {
         (r, args, st) \<leftarrow> default_subtype opts args st;
         Some (if r = - 1 then Inl (1, st) else Inr (opts, args, st))
       }
     }
   }"

definition main_out2 ::
  "'w kernel \<Rightarrow> ('w, \<lparr>se_lib :: 'w world dlib\<rparr>) client \<Rightarrow> int \<Rightarrow> fuse_globals \<Rightarrow> nat option \<Rightarrow> 'w fsession \<Rightarrow> 'w main_result option" where
  \<comment> \<open>from the label \<open>out2\<close> on\<close>
  "main_out2 k c res g i s = do { (g, s) \<leftarrow> fuse_destroy k c g s; Some (Continues res, g, i, se_thread s) }"

definition main_out3 ::
  "'w kernel \<Rightarrow> ('w, \<lparr>se_lib :: 'w world dlib\<rparr>) client \<Rightarrow> int \<Rightarrow> fuse_globals \<Rightarrow> nat option \<Rightarrow> 'w fsession \<Rightarrow> 'w main_result option" where
  "main_out3 k c res g i s = do { s \<leftarrow> fuse_unmount k s; main_out2 k c res g i s }"

definition main_session ::
  "'w kernel \<Rightarrow> ('w, \<lparr>se_lib :: 'w world dlib\<rparr>) client \<Rightarrow> fuse_cmdline_opts \<Rightarrow> fuse_globals \<Rightarrow> nat option \<Rightarrow> 'w fsession \<Rightarrow>
   ('w main_result + (fuse_cmdline_opts \<times> fuse_globals \<times> nat option \<times> 'w fsession)) option" where
  \<comment> \<open>from \<open>fuse_mount\<close> up to the loop; for \<open>fuse_instance\<close> the session has the address 1\<close>
  "main_session k c opts g i s = do {
     (r, s) \<leftarrow> fuse_mount k (o_mountpoint opts) s;
     if r \<noteq> 0 then map_option Inl (main_out2 k c 1 g i s)
     else
       let (d, th) = fuse_daemonize k (o_foreground opts) (se_thread s); s = s\<lparr>se_thread := th\<rparr>
       in case d of
            Continues r \<Rightarrow>
              if r \<noteq> 0 then map_option Inl (main_out3 k c 1 g i s)
              else let (r, i, th) = fuse_set_signal_handlers k 1 i (se_thread s); s = s\<lparr>se_thread := th\<rparr>
                in if r \<noteq> 0 then map_option Inl (main_out3 k c 1 g i s) else Some (Inr (opts, g, i, s))
          | Exited n \<Rightarrow> Some (Inl (Exited n, g, i, th))
          | Aborted \<Rightarrow> None
   }"

definition main_start ::
  "'w kernel \<Rightarrow> 'w factories \<Rightarrow> slabs \<Rightarrow> ('w, \<lparr>se_lib :: 'w world dlib\<rparr>) client \<Rightarrow> string list \<Rightarrow>
   ('w world, 'w world dirbuf) fuse_operations \<Rightarrow> nat \<Rightarrow> fuse_globals \<Rightarrow> nat option \<Rightarrow> 'w thread \<Rightarrow>
   ('w main_result + (fuse_cmdline_opts \<times> fuse_globals \<times> nat option \<times> 'w fsession)) option" where
  "main_start k fac sb c argv ops user_data g i st = do {
     a \<leftarrow> main_args k argv st;
     case a of
       Inl (res, st) \<Rightarrow> Some (Inl (Continues res, g, i, st))
     | Inr (opts, args, st) \<Rightarrow> do {
         (f, args, g) \<leftarrow> fuse_new k fac sb args ops user_data g st;
         case f of
           Inr st \<Rightarrow> Some (Inl (Continues (if o_show_help opts then 0 else 1), g, i, st))
         | Inl s \<Rightarrow> main_session k c opts g i s
       }
   }"

definition main_end ::
  "'w kernel \<Rightarrow> ('w, \<lparr>se_lib :: 'w world dlib\<rparr>) client \<Rightarrow> int \<Rightarrow> fuse_globals \<Rightarrow> nat option \<Rightarrow> 'w fsession \<Rightarrow> 'w main_result option" where
  \<comment> \<open>after the loop, which returned \<open>res\<close>\<close>
  "main_end k c res g i s =
     (let (i, th) = fuse_remove_signal_handlers k 1 i (se_thread s)
      in main_out3 k c (if res \<noteq> 0 then 1 else 0) g i (s\<lparr>se_thread := th\<rparr>))"

inductive fuse_main_real ::
  "'w kernel \<Rightarrow> 'w factories \<Rightarrow> slabs \<Rightarrow> ('w, \<lparr>se_lib :: 'w world dlib\<rparr>) client \<Rightarrow> nat \<Rightarrow> 'w world request \<Rightarrow> string list \<Rightarrow>
   ('w world, 'w world dirbuf) fuse_operations \<Rightarrow> nat \<Rightarrow> fuse_globals \<Rightarrow> nat option \<Rightarrow> 'w thread \<Rightarrow> 'w main_result \<Rightarrow> bool"
  for k fac sb c a e argv ops user_data g i st where
  main_early: "main_start k fac sb c argv ops user_data g i st = Some (Inl x) \<Longrightarrow>
    fuse_main_real k fac sb c a e argv ops user_data g i st x"
| main_single: "main_start k fac sb c argv ops user_data g i st = Some (Inr (opts, g1, i1, s)) \<Longrightarrow> o_singlethread opts \<Longrightarrow>
    fuse_loop k c a e s = Some (res, s1) \<Longrightarrow> main_end k c res g1 i1 s1 = Some x \<Longrightarrow>
    fuse_main_real k fac sb c a e argv ops user_data g i st x"
| main_multi: "main_start k fac sb c argv ops user_data g i st = Some (Inr (opts, g1, i1, s)) \<Longrightarrow> \<not> o_singlethread opts \<Longrightarrow>
    fuse_loop_mt k c a s res s1 \<Longrightarrow> main_end k c res g1 i1 s1 = Some x \<Longrightarrow>
    fuse_main_real k fac sb c a e argv ops user_data g i st x"

section \<open>Names and exit status\<close>

lemma strrchr_last:
  assumes "CHR ''/'' \<notin> set b"
  shows "strrchr (d @ CHR ''/'' # b) (CHR ''/'') = Some (length d)"
proof -
  have "strchr (rev b @ CHR ''/'' # rev d) (CHR ''/'') = Some (length b)"
    using assms by (simp add: strchr_append)
  then show ?thesis by (simp add: strrchr_def)
qed

lemma escape_nothing: "escape_opt False s = s"
  by (induction s) simp_all

text \<open>
  Property C27. The usual command line, a program and a mount point: the mount point is made a real path and taken out
  of the arguments, and the last component of the program's path becomes the subtype. No other option
  is set.
\<close>

theorem command_line_correct:
  assumes "CHR ''/'' \<notin> set base" and "base \<noteq> []" and "mp \<noteq> []" and "hd mp \<noteq> CHR ''-''" and "t_mem st = []"
    and rp: "sys k (SysRealpath mp) st = (\<lparr>r_ret = 0, r_errno = 0, r_data = StringData path\<rparr>, st')"
  shows "fuse_parse_cmdline k \<lparr>fa_argv = Some [dir @ CHR ''/'' # base, mp], fa_allocated = False\<rparr> st =
    Some (0, \<lparr>fa_argv = Some [dir @ CHR ''/'' # base, ''-osubtype='' @ base], fa_allocated = True\<rparr>,
      zero_cmdline\<lparr>o_mountpoint := Some path\<rparr>, st'\<lparr>t_mem := []\<rparr>)"
proof -
  have mp: "process_one ctx mp = call_proc ctx mp FUSE_OPT_KEY_NONOPT False" for ctx :: "'a cmdline fuse_opt_context"
    using assms(3,4) by (cases mp) (simp_all add: process_one_def)
  have b: "subtype_base (dir @ CHR ''/'' # base) = base"
    using assms(1,2) by (simp add: subtype_base_def strrchr_last)
  show ?thesis
    using assms(5) rp
    by (simp add: fuse_parse_cmdline_def parse_cmdline_def fuse_opt_parse_def opt_parse_def add_arg_def fuse_opt_add_arg_def
        no_args_def opt_parse_finish_def fa_args_def mp call_proc_def fuse_helper_opt_proc_def fuse_opt_add_opt_def add_opt_common_def
        zero_cmdline_def default_subtype_def add_default_subtype_def b escape_nothing
        FUSE_OPT_KEY_NONOPT_def FUSE_OPT_KEY_KEEP_def FUSE_OPT_KEY_DISCARD_def Let_def numeral_2_eq_2)
qed

definition linked_dirs :: "unit kernel" where
  "linked_dirs c w = (case c of
      SysRealpath p \<Rightarrow> (\<lparr>r_ret = 0, r_errno = 0, r_data = StringData (''/media/'' @ p)\<rparr>, w)
    | _ \<Rightarrow> (\<lparr>r_ret = - 1, r_errno = ENOENT, r_data = NoData\<rparr>, w))"

lemma command_line_correct_witness:
  "\<exists>st. fuse_parse_cmdline linked_dirs \<lparr>fa_argv = Some [''/usr/bin/nosqlFS'', ''mnt''], fa_allocated = False\<rparr> idle_thread =
    Some (0, \<lparr>fa_argv = Some [''/usr/bin/nosqlFS'', ''-osubtype=nosqlFS''], fa_allocated = True\<rparr>,
      zero_cmdline\<lparr>o_mountpoint := Some ''/media/mnt''\<rparr>, st)"
proof -
  have "sys linked_dirs (SysRealpath ''mnt'') idle_thread = (\<lparr>r_ret = 0, r_errno = 0, r_data = StringData ''/media/mnt''\<rparr>, idle_thread)"
    by (simp add: sys_def linked_dirs_def idle_thread_def)
  from command_line_correct[OF _ _ _ _ _ this, of "''nosqlFS''" "''/usr/bin''"] show ?thesis by (simp add: idle_thread_def)
qed

lemma new_library_ref:
  assumes "fuse_new k fac sb args ops user_data g st = Some (res, args', g')"
  shows "g_context_ref g' = (case res of Inr _ \<Rightarrow> g_context_ref g | Inl _ \<Rightarrow> g_context_ref g + 1)"
proof (rule fuse_new_cases[OF assms])
  fix fs conf args1 g1 st1
  assume "g_context_ref g1 = g_context_ref g + 1" and "fuse_new_fs k fac sb ops fs conf args1 g1 st1 = Some (res, args', g')"
  then show ?thesis using new_fs_keeps[of k fac sb ops fs conf args1 g1 st1 res args' g'] by (cases res) auto
qed simp

lemma destroy_ref: "fuse_destroy k c g s = Some (g', s') \<Longrightarrow> g_context_ref g' = g_context_ref g - 1"
  by (auto simp: fuse_destroy_def Let_def fuse_delete_context_key_def split: Option.bind_splits if_splits)

lemma main_out_ref:
  "main_out2 k c res g i s = Some (d, g', i', th) \<Longrightarrow> d = Continues res \<and> i' = i \<and> g_context_ref g' = g_context_ref g - 1"
  "main_out3 k c res g i s = Some (d, g', i', th) \<Longrightarrow> d = Continues res \<and> i' = i \<and> g_context_ref g' = g_context_ref g - 1"
  by (auto simp: main_out3_def main_out2_def destroy_ref split: Option.bind_splits)

definition daemon_fork :: "'w kernel \<Rightarrow> int \<times> int \<Rightarrow> int \<Rightarrow> ('w, 'm) proc_scheme \<Rightarrow> bool" where
  \<comment> \<open>the process has made a pipe with these ends and forked; what \<open>fork\<close> returned in it\<close>
  "daemon_fork k ends pid st \<longleftrightarrow> (\<exists>st0 p st1 f. sys k SysPipe st0 = (p, st1) \<and> r_ret p = 0 \<and>
     ends = (case r_data p of PipeData a b \<Rightarrow> (a, b) | _ \<Rightarrow> (0, 0)) \<and>
     sys k (SysFork Ch_daemon) st1 = (f, st) \<and> pid = r_ret f)"

definition daemon_parent :: "'w kernel \<Rightarrow> ('w, 'm) proc_scheme \<Rightarrow> bool" where
  \<comment> \<open>it got the number of a child, and has waited for its byte\<close>
  "daemon_parent k st \<longleftrightarrow> (\<exists>w0 w1 pid st1. daemon_fork k (w0, w1) pid st1 \<and> pid \<noteq> - 1 \<and> pid \<noteq> 0 \<and>
     st = snd (sys k (SysRead w0 1) st1))"

definition daemon_child :: "'w kernel \<Rightarrow> ('w, 'm) proc_scheme \<Rightarrow> bool" where
  \<comment> \<open>it is the child, in a session of its own; when the parent is told, it has left the directory and
      the descriptors of the parent\<close>
  "daemon_child k st \<longleftrightarrow> (\<exists>w0 w1 st1 r st2. daemon_fork k (w0, w1) 0 st1 \<and> sys k SysSetsid st1 = (r, st2) \<and> r_ret r \<noteq> - 1 \<and>
     st = snd (sys k (SysClose w1) (snd (sys k (SysClose w0) (snd (sys k (SysWrite w1 [1])
       (to_null k (snd (sys k (SysChdir ''/'') st2)))))))))"

lemma daemonize_outcome:
  assumes "fuse_daemonize k foreground st = (d, st')"
  shows "d = Continues (- 1) \<or> d = Continues 0 \<and> (foreground \<or> daemon_child k st') \<or>
    d = Exited 0 \<and> \<not> foreground \<and> daemon_parent k st'"
proof (cases foreground)
  case True
  then show ?thesis using assms by (simp add: fuse_daemonize_def)
next
  case False
  obtain p st1 where p: "sys k SysPipe st = (p, st1)" by (rule prod.exhaust)
  obtain w0 w1 where w: "(case r_data p of PipeData a b \<Rightarrow> (a, b) | _ \<Rightarrow> (0, 0)) = (w0, w1)" by (rule prod.exhaust)
  obtain f st2 where f: "sys k (SysFork Ch_daemon) st1 = (f, st2)" by (rule prod.exhaust)
  obtain r st3 where r: "sys k SysSetsid st2 = (r, st3)" by (rule prod.exhaust)
  note code = assms[unfolded fuse_daemonize_def Let_def p w f r prod.case if_not_P[OF False]]
  have fork: "daemon_fork k (w0, w1) (r_ret f) st2" if "r_ret p = 0"
    unfolding daemon_fork_def using p w f that by metis
  consider "r_ret p \<noteq> 0 \<or> r_ret f = - 1" | (parent) "r_ret p = 0" "r_ret f \<noteq> - 1" "r_ret f \<noteq> 0"
    | (alone) "r_ret p = 0" "r_ret f = 0" "r_ret r = - 1" | (child) "r_ret p = 0" "r_ret f = 0" "r_ret r \<noteq> - 1" by blast
  then show ?thesis
  proof cases
    case parent
    then show ?thesis using code False fork unfolding daemon_parent_def by auto
  next
    case child
    then have "daemon_fork k (w0, w1) 0 st2" using fork by simp
    moreover have d: "d = Continues 0" and "st' = snd (sys k (SysClose w1) (snd (sys k (SysClose w0) (snd (sys k (SysWrite w1 [1])
       (to_null k (snd (sys k (SysChdir ''/'') st3))))))))" using code child by simp_all
    ultimately have "daemon_child k st'" unfolding daemon_child_def using r child(3)
      by (intro exI[of _ w0] exI[of _ w1] exI[of _ st2] exI[of _ r] exI[of _ st3]) simp
    then show ?thesis using d by blast
  qed (use code in \<open>auto split: if_splits\<close>)
qed

definition in_daemon :: "'w kernel \<Rightarrow> nat option \<Rightarrow> fuse_cmdline_opts \<Rightarrow> nat option \<Rightarrow> 'w thread \<Rightarrow> bool" where
  \<comment> \<open>the signal handlers were set in the foreground or in the child of the fork\<close>
  "in_daemon k i opts i' th' \<longleftrightarrow> (\<exists>th. (o_foreground opts \<or> daemon_child k th) \<and> fuse_set_signal_handlers k 1 i th = (0, i', th'))"

lemma set_handlers_instance:
  "fuse_set_signal_handlers k a i st = (r, i', st') \<Longrightarrow> i' = (if r = 0 then Some a else i)"
  by (auto simp: fuse_set_signal_handlers_def split: prod.splits if_splits)

definition main_done :: "'w kernel \<Rightarrow> fuse_cmdline_opts \<Rightarrow> fuse_globals \<Rightarrow> nat option \<Rightarrow> 'w main_result \<Rightarrow> bool" where
  "main_done k opts g i x \<longleftrightarrow> (case x of (d, g', i', th) \<Rightarrow>
     d = Continues 1 \<and> i' = i \<and> g_context_ref g' = g_context_ref g - 1 \<or> d = Exited 0 \<and> \<not> o_foreground opts \<and> daemon_parent k th)"

lemma main_session_cases:
  assumes "main_session k c opts g i s = Some x"
  shows "case x of
      Inl y \<Rightarrow> main_done k opts g i y
    | Inr (opts', g', i', s') \<Rightarrow> opts' = opts \<and> i' = Some 1 \<and> g' = g \<and> in_daemon k i opts i' (se_thread s')"
proof -
  obtain r s1 where m: "fuse_mount k (o_mountpoint opts) s = Some (r, s1)"
    using assms by (auto simp: main_session_def split: Option.bind_splits)
  obtain d th where d: "fuse_daemonize k (o_foreground opts) (se_thread s1) = (d, th)" by (rule prod.exhaust)
  obtain r2 i2 th2 where h: "fuse_set_signal_handlers k 1 i th = (r2, i2, th2)" by (metis prod_cases3)
  note out = main_out_ref
  show ?thesis
  proof (cases "r = 0")
    case False
    then show ?thesis using assms m out(1)[of k c 1 g i s1] by (auto simp: main_session_def main_done_def)
  next
    case True
    from daemonize_outcome[OF d] consider "d = Continues 0" "o_foreground opts \<or> daemon_child k th"
      | "d = Continues (- 1)" | "d = Exited 0" "\<not> o_foreground opts" "daemon_parent k th" by blast
    then show ?thesis
    proof cases
      case 1
      then have "r2 = 0 \<Longrightarrow> in_daemon k i opts i2 th2" using h unfolding in_daemon_def by blast
      then show ?thesis using assms m True d 1(1) h set_handlers_instance[OF h] out(2)[of k c 1 g i2]
        by (auto simp: main_session_def main_done_def split: if_splits)
    next
      case 2
      then show ?thesis using assms m True d out(2)[of k c 1 g i] by (auto simp: main_session_def main_done_def)
    next
      case 3
      then show ?thesis using assms m True d by (auto simp: main_session_def main_done_def)
    qed
  qed
qed

lemma main_end_ref:
  "main_end k c res g (Some 1) s = Some (d, g', i', th) \<Longrightarrow>
    d = Continues (if res \<noteq> 0 then 1 else 0) \<and> i' = None \<and> g_context_ref g' = g_context_ref g - 1"
  using main_out_ref(2) by (fastforce simp: main_end_def fuse_remove_signal_handlers_def)

lemma main_start_cases:
  assumes "main_start k fac sb c argv ops user_data g i st = Some x"
  shows "case x of
      Inl (d, g', i', th) \<Rightarrow> d = Exited 0 \<and> daemon_parent k th \<or>
        d \<in> {Continues 0, Continues 1} \<and> i' = i \<and> g_context_ref g' = g_context_ref g
    | Inr (opts, g', i', s) \<Rightarrow> i' = Some 1 \<and> g_context_ref g' = g_context_ref g + 1 \<and> in_daemon k i opts i' (se_thread s)"
proof -
  obtain a where a: "main_args k argv st = Some a" using assms by (auto simp: main_start_def split: Option.bind_splits)
  show ?thesis
  proof (cases a)
    case (Inl p)
    then have "fst p \<in> {0, 1}"
      using a by (auto simp: main_args_def Let_def split: Option.bind_splits if_splits)
    then show ?thesis using assms a Inl by (cases p) (auto simp: main_start_def)
  next
    case (Inr p)
    obtain opts args st1 where p: "p = (opts, args, st1)" by (metis prod_cases3)
    obtain f args1 g1 where f: "fuse_new k fac sb args ops user_data g st1 = Some (f, args1, g1)"
      using assms a Inr p by (auto simp: main_start_def split: Option.bind_splits)
    note ref = new_library_ref[OF f]
    show ?thesis
    proof (cases f)
      case (Inr th)
      then show ?thesis using assms a \<open>a = _\<close> p f ref by (auto simp: main_start_def)
    next
      case (Inl s)
      then have "main_session k c opts g1 i s = Some x" using assms a \<open>a = _\<close> p f by (simp add: main_start_def)
      from main_session_cases[OF this] ref Inl show ?thesis by (auto simp: main_done_def split: sum.splits)
    qed
  qed
qed

text \<open>
  Property C26. The end of \<open>fuse_main_real\<close>: whatever fails on the way, when it returns the status is 0 or 1, the key
  of the contexts has as many references as before, and no session is left registered for the signals. A process that
  exits inside has forked, is the parent - \<open>fork\<close> returned the number of a child -, has waited for the byte of
  the child, and exits with status 0. The loop is entered only in the foreground or in the child, after it has a session of its own, has left
  the directory and the descriptors of the parent and has written that byte, with the signal handlers set.
\<close>

theorem fuse_main_real_correct:
  assumes "fuse_main_real k fac sb c a e argv ops user_data g i st (d, g', i', th)"
  shows "(case d of
      Aborted \<Rightarrow> False
    | Exited n \<Rightarrow> n = 0 \<and> daemon_parent k th
    | Continues r \<Rightarrow> (r = 0 \<or> r = 1) \<and> g_context_ref g' = g_context_ref g \<and> (i' = i \<or> i' = None)) \<and>
    (\<forall>opts g1 i1 s. main_start k fac sb c argv ops user_data g i st = Some (Inr (opts, g1, i1, s)) \<longrightarrow>
      in_daemon k i opts i1 (se_thread s))"
proof
  show "case d of
      Aborted \<Rightarrow> False
    | Exited n \<Rightarrow> n = 0 \<and> daemon_parent k th
    | Continues r \<Rightarrow> (r = 0 \<or> r = 1) \<and> g_context_ref g' = g_context_ref g \<and> (i' = i \<or> i' = None)"
    using assms
  proof cases
    case main_early
    from main_start_cases[OF this] show ?thesis by auto
  next
    case (main_single opts g1 i1 s res s1)
    from main_start_cases[OF main_single(1)] main_end_ref[of k c res g1 s1] main_single(4) show ?thesis by auto
  next
    case (main_multi opts g1 i1 s res s1)
    from main_start_cases[OF main_multi(1)] main_end_ref[of k c res g1 s1] main_multi(4) show ?thesis by auto
  qed
  show "\<forall>opts g1 i1 s. main_start k fac sb c argv ops user_data g i st = Some (Inr (opts, g1, i1, s)) \<longrightarrow>
      in_daemon k i opts i1 (se_thread s)"
    using main_start_cases[of k fac sb c argv ops user_data g i st] by fastforce
qed

lemma fuse_main_real_correct_witness:
  "\<exists>d g' i' th'. fuse_main_real linked_dirs (\<lambda>a args fs st. (None, args, st)) boot_slabs (fuse_client linked_dirs (\<lambda>_ _. id) 0 0 id) 0
      (ll_request linked_dirs (\<lambda>_ _. id) 0 0 0 \<lparr>cx_uid = 0, cx_gid = 0, cx_pid = 0, cx_umask = 0\<rparr>) [''nosqlFS''] no_ops 0
      \<lparr>g_modules = \<lparr>ms_list = [], ms_so = (\<lambda>_. None), ms_next = 1\<rparr>, g_registered = False, g_context_ref = 5, g_intr_installed = False\<rparr>
      None idle_thread (d, g', i', th') \<and> g_context_ref g' = 5 \<and> i' = None \<and> d \<in> {Continues 0, Continues 1}"
  (is "\<exists>d g' i' th'. fuse_main_real ?k ?fac ?sb ?c ?a ?e ?argv ?ops 0 ?g None idle_thread (d, g', i', th') \<and> _")
proof -
  have "\<exists>th. main_start ?k ?fac ?sb ?c ?argv ?ops 0 ?g None idle_thread = Some (Inl (Continues 1, ?g, None, th))"
    by (simp add: main_start_def main_args_def parse_cmdline_def idle_thread_def parse_name_only zero_cmdline_def)
  then obtain th where "fuse_main_real ?k ?fac ?sb ?c ?a ?e ?argv ?ops 0 ?g None idle_thread (Continues 1, ?g, None, th)"
    by (auto intro: main_early)
  with fuse_main_real_correct[OF this] show ?thesis by (intro exI[of _ "Continues 1"] exI[of _ ?g] exI[of _ None] exI[of _ th]) simp
qed

end
