(* ===== verification/Nosqlfs_Oper.thy ===== *)
theory Nosqlfs_Oper
  imports Served Nosqlfs_Props Helper
begin

text \<open>
  The program as a whole: the table of callbacks of src/src/nosqlFS.c, its \<open>main\<close>, and what becomes of a RMDIR message
  of the kernel when nosqlFS is mounted - from its bytes through the session, the library and the callback to one
  rmdir(2) and one message.
\<close>

section \<open>The table of callbacks\<close>

definition path_arg :: "string option \<Rightarrow> string" where
  \<comment> \<open>\<open>flag_nopath\<close> is not set: only for \<open>release\<close> a path may be missing, and this is how it is logged\<close>
  "path_arg path = (case path of None \<Rightarrow> ''(null)'' | Some p \<Rightarrow> p)"

definition nosqlFS_oper :: "'w kernel \<Rightarrow> nosqlFS_state \<Rightarrow> ('w, 'b) fuse_operations" where
  \<comment> \<open>\<open>data\<close> is what the private data of the context points to; \<open>utimens\<close> is left out. A \<open>readdir\<close> whose
      stream never ends has no result; the callbacks have one, here the arguments\<close>
  "nosqlFS_oper k data =
     \<lparr>op_getattr = Some (nosqlFS_getattr k), op_readlink = Some (nosqlFS_readlink k), op_mknod = Some (nosqlFS_mknod k),
      op_mkdir = Some (nosqlFS_mkdir k), op_unlink = Some (nosqlFS_unlink k), op_rmdir = Some (nosqlFS_rmdir k),
      op_symlink = Some (nosqlFS_symlink k), op_rename = Some (nosqlFS_rename k), op_link = Some (nosqlFS_link k),
      op_chmod = Some (nosqlFS_chmod k), op_chown = Some (nosqlFS_chown k), op_truncate = Some (nosqlFS_truncate k),
      op_open = Some (\<lambda>path fi st. let (r, st) = nosqlFS_open k path fi st in (r, fi, st)),
      op_read = Some (\<lambda>path p n off fi st.
        let (r, b, st') = nosqlFS_read k (path_arg path) (load st p n) off st in (r, store p b st')),
      op_write = Some (\<lambda>path p n off fi st. nosqlFS_write k (path_arg path) (load st p n) off st),
      op_statfs = Some (nosqlFS_statfs k), op_flush = None,
      op_release = Some (\<lambda>path fi. nosqlFS_release k (path_arg path)), op_fsync = None, op_setxattr = None,
      op_getxattr = None, op_listxattr = None, op_removexattr = None, op_opendir = None,
      op_readdir = Some (\<lambda>path buf filler off fi flags st.
        case nosqlFS_readdir k (path_arg path) buf filler off st of Some r \<Rightarrow> r | None \<Rightarrow> (0, buf, st)),
      op_releasedir = None, op_fsyncdir = None,
      op_init = Some (\<lambda>conn st. let (_, st') = nosqlFS_init k conn (t_context st) data st in (t_private st, conn, st')),
      op_destroy = None, op_access = Some (nosqlFS_access k), op_create = None, op_ftruncate = None, op_fgetattr = None,
      op_lock = None, op_utimens = None, op_bmap = None, op_ioctl = None, op_poll = None, op_write_buf = None,
      op_read_buf = None, op_flock = None, op_fallocate = None, op_flag_nopath = False\<rparr>"

inductive nosqlFS_main ::
  "'w kernel \<Rightarrow> 'w factories \<Rightarrow> slabs \<Rightarrow> ('w, \<lparr>se_lib :: 'w world dlib\<rparr>) client \<Rightarrow> nat \<Rightarrow> 'w world request \<Rightarrow> string list \<Rightarrow>
   nat \<Rightarrow> fuse_globals \<Rightarrow> nat option \<Rightarrow> 'w thread \<Rightarrow> 'w main_result \<Rightarrow> bool"
  for k fac sb c a e argv user_data g i st where
  main_aborted: "nosqlFS_start k argv (t_mem st) st = (Aborted, st1) \<Longrightarrow>
    nosqlFS_main k fac sb c a e argv user_data g i st (Aborted, g, i, st1)"
| main_exited: "nosqlFS_start k argv (t_mem st) st = (Exited n, st1) \<Longrightarrow>
    nosqlFS_main k fac sb c a e argv user_data g i st (Exited n, g, i, st1)"
| main_fuse: "nosqlFS_start k argv (t_mem st) st = (Continues (argv1, data), st1) \<Longrightarrow>
    fuse_main_real k fac sb c a e argv1 (nosqlFS_oper (world_kernel k) data) user_data g i (st1\<lparr>t_mem := snd (malloc (t_mem st))\<rparr>) x \<Longrightarrow>
    nosqlFS_main k fac sb c a e argv user_data g i st x"

section \<open>The callback on the world of a session\<close>

lemma log_quiet_world: "log_quiet k \<Longrightarrow> log_quiet (world_kernel k)"
  by (simp add: log_quiet_def world_kernel_def split_beta)

lemma log_only_world: "log_only (world_kernel k) w w' \<Longrightarrow> log_only k (fst w) (fst w') \<and> snd w' = snd w"
  by (induction rule: log_only.induct) (auto simp: world_kernel_def split_beta intro: log_more)

lemma passes_on_world:
  assumes "passes (world_kernel k) c f" and "f st = (r, th)"
  shows "\<exists>v. log_only k (fst (p_world st)) v \<and> r = result (fst (k c v)) \<and>
    log_only k (snd (k c v)) (fst (p_world th)) \<and> snd (p_world th) = snd (p_world st)"
proof -
  let ?k = "world_kernel k"
  obtain w where w: "log_only ?k (p_world st) w" "r = result (fst (?k c w))" "log_only ?k (snd (?k c w)) (p_world th)"
    using assms unfolding passes_def by (metis fst_conv snd_conv)
  have "fst (?k c w) = fst (k c (fst w))" "snd (?k c w) = (snd (k c (fst w)), snd w)" by (simp_all add: world_kernel_def split_beta)
  then show ?thesis using log_only_world[OF w(1)] log_only_world[OF w(3)] w(2) by (intro exI[of _ "fst w"]) simp
qed

text \<open>
  What the library may rely on in a callback that is one system call: served in a session it acts on the world of that
  session's kernel only, logs, makes its call once, and returns its result.
\<close>

locale pass_through =
  fixes sysc :: "'a \<Rightarrow> syscall" and cb :: "'w world kernel \<Rightarrow> 'a \<Rightarrow> ('w world, 'm) op"
  assumes passing: "log_quiet k \<Longrightarrow> passes k (sysc x) (cb k x)"
begin

lemma one_call:
  assumes "log_quiet k" and "cb (world_kernel k) x st = (err, th)"
  shows "\<exists>v. log_only k (fst (p_world st)) v \<and> err = result (fst (k (sysc x) v)) \<and>
    log_only k (snd (k (sysc x) v)) (fst (p_world th)) \<and> snd (p_world th) = snd (p_world st)"
  by (rule passes_on_world[OF passing[OF log_quiet_world[OF assms(1)]] assms(2)])

lemma session_untouched:
  assumes "log_quiet k" and "cb (world_kernel k) x st = (err, th)"
  shows "snd (p_world th) = snd (p_world st)"
  using one_call[OF assms] by blast

end

interpretation mkdir_cb: pass_through "\<lambda>(p, m). SysMkdir p m" "\<lambda>k (p, m). nosqlFS_mkdir k p m"
  by unfold_locales (auto simp: nosqlFS_mkdir_def[abs_def] intro: call_passes)

interpretation unlink_cb: pass_through SysUnlink nosqlFS_unlink
  by unfold_locales (auto simp: nosqlFS_unlink_def[abs_def] intro: call_passes)

interpretation rmdir_cb: pass_through SysRmdir nosqlFS_rmdir
  by unfold_locales (auto simp: nosqlFS_rmdir_def[abs_def] intro: call_passes)

interpretation symlink_cb: pass_through "\<lambda>(p, q). SysSymlink p q" "\<lambda>k (p, q). nosqlFS_symlink k p q"
  by unfold_locales (auto simp: nosqlFS_symlink_def[abs_def] intro: call_passes)

interpretation rename_cb: pass_through "\<lambda>(p, q, flags). SysRename p q" "\<lambda>k (p, q, flags). nosqlFS_rename k p q flags"
  by unfold_locales (auto simp: nosqlFS_rename_def[abs_def] intro: call_passes)

interpretation link_cb: pass_through "\<lambda>(p, q). SysLink p q" "\<lambda>k (p, q). nosqlFS_link k p q"
  by unfold_locales (auto simp: nosqlFS_link_def[abs_def] intro: call_passes)

interpretation chmod_cb: pass_through "\<lambda>(p, m). SysChmod p m" "\<lambda>k (p, m). nosqlFS_chmod k p m"
  by unfold_locales (auto simp: nosqlFS_chmod_def[abs_def] intro: call_passes)

interpretation chown_cb: pass_through "\<lambda>(p, u, g). SysLchown p u g" "\<lambda>k (p, u, g). nosqlFS_chown k p u g"
  by unfold_locales (auto simp: nosqlFS_chown_def[abs_def] intro: call_passes)

interpretation truncate_cb: pass_through "\<lambda>(p, n). SysTruncate p n" "\<lambda>k (p, n). nosqlFS_truncate k p n"
  by unfold_locales (auto simp: nosqlFS_truncate_def[abs_def] intro: call_passes)

lemma rmdir_callback:
  assumes "log_quiet k" and "op_rmdir (fs_op fs) = Some (nosqlFS_rmdir (world_kernel k))"
    and run: "fuse_fs_rmdir fs path st = (err, th)"
  shows "\<exists>v. log_only k (fst (p_world st)) v \<and> err = result (fst (k (SysRmdir path) v)) \<and>
    log_only k (snd (k (SysRmdir path) v)) (fst (p_world th)) \<and> snd (p_world th) = snd (p_world st)"
proof -
  have "nosqlFS_rmdir (world_kernel k) path (st\<lparr>t_private := fs_user_data fs\<rparr>) = (err, th)"
    using run assms(2) by (simp add: fuse_fs_rmdir_def fs_call_def Let_def)
  from rmdir_cb.one_call[OF assms(1) this] show ?thesis by simp
qed

section \<open>The filler of the library\<close>

lemma log_only_trans: "log_only k w' w'' \<Longrightarrow> log_only k w w' \<Longrightarrow> log_only k w w''"
  by (induction rule: log_only.induct) (auto intro: log_more)

lemma filled_in_thread: "p_world (snd (snd (filled_in c th r))) = p_world th"
  by (simp add: filled_in_def split: option.splits prod.splits)

text \<open>What \<open>readdir_fills\<close> asks of a filler holds for \<open>fill_dir\<close>: it makes no system call.\<close>

lemma fill_dir_leaves_stream: "leaves_stream k fill_dir (log_only k)"
proof -
  have "p_world (snd (snd (fill_dir b name st off flags th))) = p_world th" for b name st off flags and th :: "'a thread"
    by (simp add: fill_dir_def filled_in_thread Let_def split: option.splits)
  then show ?thesis
    by (auto simp: leaves_stream_def reflp_def transp_def intro: log_none log_more log_only_trans)
qed

section \<open>From message to message\<close>

text \<open>
  Property C1. nosqlFS serves RMDIR: the bytes of such a message, for an entry nobody holds a lock on, in an initialised
  session with nosqlFS mounted. Apart from lines in the log the kernel is asked for exactly one rmdir(2), of the full
  path, and then for one write to the channel: a message that parses as the answer to this request, without body and with the
  error of the call. The entry leaves the tree of the library exactly when the directory was removed; the
  invariant of the tree holds and all locks are given back.
\<close>

theorem nosqlFS_rmdir_served:
  fixes s :: "'w fsession" and k w t a ctx ch "unique"
  assumes "log_quiet k" and "l_fs (se_lib s) = Some fs" and "fs_op fs = nosqlFS_oper (world_kernel k) data"
    and "load (se_thread s) (buf_mem buf) (buf_size buf) = message_for unique ctx u (C_rmdir d n) q"
    and "\<not> has (buf_flags buf) FUSE_BUF_IS_FD" and "wf_cstr n" and "in32 (cx_pid ctx)"
    and "ll_op (se_f s) Op_rmdir" and "proto_minor s \<ge> 12" and "ll_got_init (se_f s)" and "\<not> ll_allow_root (se_f s)"
    and "fst (malloc (t_mem (se_thread s)))" and "se_chans s ch = Some chan" and "ch_ctr chan > 0" and "ch_assigned chan"
    and "ll_interrupts (se_f s) = []" and "l_context (se_lib s)" and "tree_ok (l_fuse (se_lib s))"
    and "way_free (l_fuse (se_lib s)) d c (Some n) True" and "looked_up (l_fuse (se_lib s)) d n"
    and "list_all (\<lambda>(a, t). looked_at (f_nodes (l_fuse (se_lib s))) a) c"
  shows "\<exists>v v' s' msg m. fuse_session_process_buf_int k (fuse_client k w t a r) b buf ch s = Some s' \<and>
    log_only k (p_world (se_thread s)) v \<and> log_only k (snd (k (SysRmdir (full_path c (Some n))) v)) v' \<and>
    p_world (se_thread s') = snd (k (SysWritev (ch_fd chan) msg) v') \<and>
    parse_message msg = Some m \<and> m_unique m = unique \<and> m_body m = [] \<and>
    m_error m = on_wire (result (fst (k (SysRmdir (full_path c (Some n))) v))) \<and>
    (if result (fst (k (SysRmdir (full_path c (Some n))) v)) = 0 then removed d n (l_fuse (se_lib s)) (l_fuse (se_lib s'))
     else unchanged (l_fuse (se_lib s)) (l_fuse (se_lib s')))"
proof -
  let ?s1 = "admitted unique ch ctx s" and ?e = "ll_request k w t a (se_next s) (ctx\<lparr>cx_umask := 0\<rparr>)"
  let ?p = "full_path c (Some n)"
  let ?st = "prepared ?e (to_thread (session.truncate ?s1))"
  obtain err th where run: "fuse_fs_rmdir fs ?p ?st = (err, th)" by (rule prod.exhaust)
  have st: "p_world ?st = (p_world (se_thread s), session.truncate ?s1)"
    by (simp add: prepared_def to_thread_def Let_def session.truncate_def admitted_def)
  have "op_rmdir (fs_op fs) = Some (nosqlFS_rmdir (world_kernel k))" using assms(3) by (simp add: nosqlFS_oper_def)
  from rmdir_callback[OF assms(1) this run] st obtain v where v: "log_only k (p_world (se_thread s)) v"
    "err = result (fst (k (SysRmdir ?p) v))" "log_only k (snd (k (SysRmdir ?p) v)) (fst (p_world th))"
    "session_left th (session.truncate ?s1)"
    by (auto simp: session_left_def)
  from rmdir_served[OF assms(4-17) assms(2) assms(18-21) run v(4), where b = b and r = r] obtain s' msg m where
    s': "fuse_session_process_buf_int k (fuse_client k w t a r) b buf ch s = Some s'"
    "session.truncate s' = freed (se_next s) ch (wrote k (ch_fd chan) msg (of_thread th))"
    "parse_message msg = Some m" "m_unique m = unique" "m_error m = on_wire err" "m_body m = []"
    "if err = 0 then removed d n (l_fuse (se_lib s)) (l_fuse (se_lib s')) else unchanged (l_fuse (se_lib s)) (l_fuse (se_lib s'))"
    by blast
  have "p_world (se_thread s') = p_world (se_thread (session.truncate s'))" by (simp add: session.truncate_def)
  also have "\<dots> = snd (k (SysWritev (ch_fd chan) msg) (fst (p_world th)))"
    by (simp add: s'(2) freed_def wrote_def of_thread_def)
  finally show ?thesis using s' v by (intro exI[of _ v] exI[of _ "fst (p_world th)"] exI[of _ s'] exI[of _ msg] exI[of _ m]) simp
qed

section \<open>An example\<close>

definition rmdir_sender :: fuse_context where
  "rmdir_sender = \<lparr>cx_uid = 1000, cx_gid = 100, cx_pid = 42, cx_umask = 0\<rparr>"

definition rmdir_bytes :: bytes where
  "rmdir_bytes = message_for 12 rmdir_sender 0 (C_rmdir 1 ''a'') []"

definition obliging :: "unit kernel" where
  \<comment> \<open>every call succeeds\<close>
  "obliging c w = (\<lparr>r_ret = (case c of SysWritev fd b \<Rightarrow> int (length b) | _ \<Rightarrow> 0), r_errno = 0, r_data = NoData\<rparr>, w)"

definition mounted_fs :: "(unit world, unit world dirbuf) fuse_fs" where
  "mounted_fs = \<lparr>fs_op = nosqlFS_oper (world_kernel obliging) \<lparr>logFile = 3, rootdir = Some ''/mnt''\<rparr>, fs_m = None,
     fs_user_data = 1, fs_debug = False\<rparr>"

definition rmdir_waiting :: "fuse \<Rightarrow> unit fsession" where
  "rmdir_waiting f = session.extend ((all_ops (waiting 23))\<lparr>se_thread := store 1000 rmdir_bytes idle_thread\<rparr>)
     \<lparr>se_lib = \<lparr>l_fuse = f, l_dhs = (\<lambda>_. None), l_thread = to_thread (waiting 23), l_clockid = 1, l_context = True,
       l_intr = False, l_waits = 0, l_fs = Some mounted_fs\<rparr>\<rparr>"

lemma nosqlFS_rmdir_served_witness:
  "\<exists>f s' i m msg. namespace f = {(1, ''a'', i)} \<and>
    fuse_session_process_buf_int obliging (fuse_client obliging (\<lambda>_ _ f. f) 0 0 id) 0
      \<lparr>buf_size = length rmdir_bytes, buf_flags = 0, buf_mem = 1000, buf_fd = 0, buf_pos = 0\<rparr> 3 (rmdir_waiting f) = Some s' \<and>
    namespace (l_fuse (se_lib s')) = {} \<and> parse_message msg = Some m \<and> m_unique m = 12 \<and> m_error m = 0"
proof -
  obtain f i where f: "tree_ok f" "namespace f = {(1, ''a'', i)}" "way_free f 1 [] (Some ''a'') True" "looked_up f 1 ''a''"
    using tree_of_one by blast
  let ?s = "rmdir_waiting f"
  let ?buf = "\<lparr>buf_size = length rmdir_bytes, buf_flags = 0, buf_mem = 1000, buf_fd = 0, buf_pos = 0\<rparr>"
  have s: "se_f ?s = (se_f (waiting 23))\<lparr>ll_op := \<lambda>_. True, ll_got_init := True\<rparr>"
    "se_chans ?s = se_chans (waiting 23)" "se_thread ?s = store 1000 rmdir_bytes idle_thread"
    "l_fuse (se_lib ?s) = f" "l_context (se_lib ?s)" "l_fs (se_lib ?s) = Some mounted_fs"
    by (simp_all add: rmdir_waiting_def session.defs all_ops_def upd_ll_def)
  have w: "ll_conn (se_f (waiting 23)) = zero_conn\<lparr>cn_proto_minor := 23, cn_max_write := - 1, cn_max_readahead := - 1\<rparr>"
    "\<not> ll_allow_root (se_f (waiting 23))" "se_chans (waiting 23) 3 = Some waiting_chan" "ll_interrupts (se_f (waiting 23)) = []"
    by (simp_all add: waiting_def zero_ll_def)
  have m: "t_mem (store 1000 rmdir_bytes idle_thread) = []" by (simp add: store_def idle_thread_def)
  have q: "log_quiet obliging" by (simp add: log_quiet_def obliging_def)
  have op: "fs_op mounted_fs = nosqlFS_oper (world_kernel obliging) \<lparr>logFile = 3, rootdir = Some ''/mnt''\<rparr>" by (simp add: mounted_fs_def)
  have bytes: "load (se_thread ?s) (buf_mem ?buf) (buf_size ?buf) = message_for 12 rmdir_sender 0 (C_rmdir 1 ''a'') []"
    by (simp add: s rmdir_bytes_def[symmetric])
  have res: "result (fst (obliging (SysRmdir p) v)) = 0" for p v by (simp add: obliging_def result_def)
  obtain s' msg m where "fuse_session_process_buf_int obliging (fuse_client obliging (\<lambda>_ _ f. f) 0 0 id) 0 ?buf 3 ?s = Some s'"
    "parse_message msg = Some m" "m_unique m = 12" "m_error m = 0" "removed 1 ''a'' (l_fuse (se_lib ?s)) (l_fuse (se_lib s'))"
    using nosqlFS_rmdir_served[OF q s(6) op bytes, where c = "[]" and ch = 3 and chan = waiting_chan and w = "\<lambda>_ _ f. f" and t = 0 and a = 0 and
        r = id and b = 0] f
    by (auto simp: s(1-5) w m in32_def NUL_def waiting_chan_def rmdir_sender_def res on_wire_def wf_cstr_def)
  then show ?thesis using removed_one(2)[OF f(2)] f(2) by (auto simp: s(4))
qed

end
