(* ===== verification/Cuse.thy ===== *)
theory Cuse
  imports Helper
begin

text \<open>
  Character devices, src/lib/cuse_lowlevel.c: a session whose operations are those of a device, without
  inode numbers, and whose data describe the device to the kernel; setting a device up, its end and its main
  program. INIT for a device is modelled with the session.
\<close>

section \<open>The operations of a device\<close>

datatype cuse_call =
    Cu_open fi | Cu_read nat int fi | Cu_write nat nat int fi | Cu_flush fi | Cu_release fi | Cu_fsync int fi
  | Cu_ioctl int nat fi "32 word" bytes nat | Cu_poll fi "nat option"

record 'w cuse_device =
  \<comment> \<open>\<open>struct cuse_lowlevel_ops\<close>, with its user data\<close>
  cu_ops :: "llop \<Rightarrow> bool"
  cu_run :: "nat \<Rightarrow> cuse_call \<Rightarrow> 'w session \<Rightarrow> 'w session option"
  cu_init :: "fuse_conn_info \<Rightarrow> 'w session \<Rightarrow> (fuse_conn_info \<times> 'w session) option"
  cu_init_done :: "('w session \<Rightarrow> 'w session option) option"
  cu_destroy :: "'w session \<Rightarrow> 'w session option"

fun cuse_fll :: "call \<Rightarrow> cuse_call option" where
  \<comment> \<open>the functions \<open>cuse_fll_*\<close>\<close>
  "cuse_fll (C_open ino fi) = Some (Cu_open fi)"
| "cuse_fll (C_read ino sz off fi) = Some (Cu_read sz off fi)"
| "cuse_fll (C_write ino buf sz off fi) = Some (Cu_write buf sz off fi)"
| "cuse_fll (C_flush ino fi) = Some (Cu_flush fi)"
| "cuse_fll (C_release ino fi) = Some (Cu_release fi)"
| "cuse_fll (C_fsync ino datasync fi) = Some (Cu_fsync datasync fi)"
| "cuse_fll (C_ioctl ino cmd arg fi flags b out_bufsz) = Some (Cu_ioctl cmd arg fi flags b out_bufsz)"
| "cuse_fll (C_poll ino fi ph) = Some (Cu_poll fi ph)"
| "cuse_fll _ = None"

definition cuse_lop :: "(llop \<Rightarrow> bool) \<Rightarrow> llop \<Rightarrow> bool" where
  \<comment> \<open>the table \<open>lop\<close>\<close>
  "cuse_lop clop op \<longleftrightarrow>
     op \<in> {Op_init, Op_destroy, Op_open, Op_read, Op_write, Op_flush, Op_release, Op_fsync, Op_ioctl, Op_poll} \<and> clop op"

definition cuse_client :: "'w cuse_device \<Rightarrow> ('w, unit) client" where
  "cuse_client d = \<lparr>run = (\<lambda>r c s. do { cc \<leftarrow> cuse_fll c; cu_run d r cc s }), run_buf = (\<lambda>r c v s. None), run_init = cu_init d,
     run_destroy = cu_destroy d, run_init_done = (\<lambda>s. case cu_init_done d of None \<Rightarrow> None | Some f \<Rightarrow> f s),
     run_intr = (\<lambda>g r s. Some s)\<rparr>"

section \<open>The data of a device\<close>

record cuse_info =
  ci_dev_major :: "32 word"
  ci_dev_minor :: "32 word"
  ci_dev_info_argv :: "string list"
  ci_flags :: "32 word"

abbreviation (input) CUSE_INIT_INFO_MAX :: nat where "CUSE_INIT_INFO_MAX \<equiv> 4096"

definition cuse_pack_info :: "string list \<Rightarrow> nat \<times> bytes" where
  \<comment> \<open>the size, and what is written to \<open>buf\<close>\<close>
  "cuse_pack_info argv = fold (\<lambda>a (size, buf). (size + (length a + 1), buf @ map byte_of a @ [0])) argv (0, [])"

definition cuse_prep_data :: "cuse_info \<Rightarrow> 'w cuse_device \<Rightarrow> mem \<Rightarrow> cuse_data option \<times> mem" where
  "cuse_prep_data ci clop m =
     (let dev_info_len = fst (cuse_pack_info (ci_dev_info_argv ci))
      in if dev_info_len > CUSE_INIT_INFO_MAX then (None, m)
         else let (ok, m) = malloc m
           in (if ok then Some \<lparr>cd_clop = cu_ops clop, cd_init_done = (cu_init_done clop \<noteq> None), cd_max_read = 131072,
                   cd_dev_major = ci_dev_major ci, cd_dev_minor = ci_dev_minor ci, cd_flags = ci_flags ci,
                   cd_dev_info = snd (cuse_pack_info (ci_dev_info_argv ci))\<rparr>
               else None, m))"

definition cuse_lowlevel_new ::
  "'w kernel \<Rightarrow> fuse_args \<Rightarrow> cuse_info \<Rightarrow> 'w cuse_device \<Rightarrow> 'w thread \<Rightarrow> (('w session + 'w thread) \<times> fuse_args) option" where
  "cuse_lowlevel_new k args ci clop st =
     (let (cd, m) = cuse_prep_data ci clop (t_mem st); st = st\<lparr>t_mem := m\<rparr>
      in case cd of
           None \<Rightarrow> Some (Inr st, args)
         | Some cd \<Rightarrow> do {
             (s, args) \<leftarrow> fuse_session_new k args (cuse_lop (cu_ops clop)) st;
             Some (case s of Inr st \<Rightarrow> Inr st | Inl s \<Rightarrow> Inl (upd_ll (\<lambda>f. f\<lparr>ll_cuse_data := Some cd\<rparr>) s), args)
           })"

section \<open>Setting a device up\<close>

partial_function (option) cuse_open_std :: "'w kernel \<Rightarrow> 'w thread \<Rightarrow> 'w thread option" where
  \<comment> \<open>make sure that the descriptors 0, 1 and 2 are open\<close>
  "cuse_open_std k st =
     (let (r, st) = sys k (SysOpen ''/dev/null'' O_RDWR 0) st;
          st = (if r_ret r > 2 then snd (sys k (SysClose (r_ret r)) st) else st)
      in if 0 \<le> r_ret r \<and> r_ret r \<le> 2 then cuse_open_std k st else Some st)"

definition kill_subtype_opts :: "unit fuse_opt list" where
  "kill_subtype_opts = [fuse_opt_key ''subtype='' FUSE_OPT_KEY_DISCARD]"

type_synonym 'w setup_result = "'w session option outcome \<times> nat option \<times> 'w thread"

definition setup_err_se :: "'w kernel \<Rightarrow> 'w cuse_device \<Rightarrow> nat option \<Rightarrow> 'w session \<Rightarrow> 'w setup_result option" where
  "setup_err_se k clop i s = do { s \<leftarrow> fuse_session_destroy k (cuse_client clop) s; Some (Continues None, i, se_thread s) }"

definition setup_err_sig :: "'w kernel \<Rightarrow> 'w cuse_device \<Rightarrow> nat option \<Rightarrow> 'w session \<Rightarrow> 'w setup_result option" where
  "setup_err_sig k clop i s =
     (let (i, th) = fuse_remove_signal_handlers k 1 i (se_thread s) in setup_err_se k clop i (s\<lparr>se_thread := th\<rparr>))"

definition setup_device :: "'w kernel \<Rightarrow> 'w cuse_device \<Rightarrow> bool \<Rightarrow> nat option \<Rightarrow> 'w session \<Rightarrow> 'w setup_result option" where
  \<comment> \<open>\<open>cuse_lowlevel_setup\<close> once there is a session\<close>
  "setup_device k clop foreground i s =
     (let (f, s) = llsys k (SysOpen ''/dev/cuse'' O_RDWR 0) s
      in if r_ret f = - 1 then setup_err_se k clop i s
         else let (ch, s) = fuse_chan_new (r_ret f) s
           in case ch of
                None \<Rightarrow> setup_err_se k clop i (snd (llsys k (SysClose (r_ret f)) s))
              | Some ch \<Rightarrow> do {
                  s \<leftarrow> fuse_session_add_chan ch s;
                  let (r, i, th) = fuse_set_signal_handlers k 1 i (se_thread s); let s = s\<lparr>se_thread := th\<rparr>;
                  if r = - 1 then setup_err_se k clop i s
                  else let (d, th) = fuse_daemonize k foreground (se_thread s); s = s\<lparr>se_thread := th\<rparr>
                    in case d of
                         Continues r \<Rightarrow> if r = - 1 then setup_err_sig k clop i s else Some (Continues (Some s), i, th)
                       | Exited n \<Rightarrow> Some (Exited n, i, th)
                       | Aborted \<Rightarrow> None
                })"

definition cuse_lowlevel_setup ::
  "'w kernel \<Rightarrow> string list \<Rightarrow> cuse_info \<Rightarrow> 'w cuse_device \<Rightarrow> nat option \<Rightarrow> 'w thread \<Rightarrow> (bool \<times> 'w setup_result) option" where
  \<comment> \<open>with \<open>multithreaded\<close>; \<open>Continues None\<close>: NULL\<close>
  "cuse_lowlevel_setup k argv ci clop i st = do {
     (r, args, opts, st) \<leftarrow> fuse_parse_cmdline k \<lparr>fa_argv = Some argv, fa_allocated = False\<rparr> st;
     let mt = (\<not> o_singlethread opts);
     if r = - 1 then Some (mt, Continues None, i, st)
     else do {
       (r, args, _, m) \<leftarrow> fuse_opt_parse args () kill_subtype_opts None (t_mem st);
       let st = st\<lparr>t_mem := m\<rparr>;
       if r = - 1 then Some (mt, Continues None, i, st)
       else do {
         st \<leftarrow> cuse_open_std k st;
         (s, args) \<leftarrow> cuse_lowlevel_new k args ci clop st;
         case s of
           Inr st \<Rightarrow> Some (mt, Continues None, i, st)
         | Inl s \<Rightarrow> map_option (Pair mt) (setup_device k clop (o_foreground opts) i s)
       }
     }
   }"

definition cuse_lowlevel_teardown :: "'w kernel \<Rightarrow> 'w cuse_device \<Rightarrow> nat option \<Rightarrow> 'w session \<Rightarrow> (nat option \<times> 'w session) option" where
  "cuse_lowlevel_teardown k clop i s =
     (let (i, th) = fuse_remove_signal_handlers k 1 i (se_thread s)
      in map_option (Pair i) (fuse_session_destroy k (cuse_client clop) (s\<lparr>se_thread := th\<rparr>)))"

inductive cuse_lowlevel_main ::
  "'w kernel \<Rightarrow> nat \<Rightarrow> string list \<Rightarrow> cuse_info \<Rightarrow> 'w cuse_device \<Rightarrow> nat option \<Rightarrow> 'w thread \<Rightarrow> int outcome \<times> nat option \<times> 'w thread \<Rightarrow> bool"
  for k a argv ci clop i st where
  cuse_no_session: "cuse_lowlevel_setup k argv ci clop i st = Some (mt, Continues None, i1, th) \<Longrightarrow>
    cuse_lowlevel_main k a argv ci clop i st (Continues 1, i1, th)"
| cuse_parent: "cuse_lowlevel_setup k argv ci clop i st = Some (mt, Exited n, i1, th) \<Longrightarrow>
    cuse_lowlevel_main k a argv ci clop i st (Exited n, i1, th)"
| cuse_multi: "cuse_lowlevel_setup k argv ci clop i st = Some (True, Continues (Some s), i1, th) \<Longrightarrow>
    fuse_session_loop_mt k (cuse_client clop) a s res s1 \<Longrightarrow> cuse_lowlevel_teardown k clop i1 s1 = Some (i2, s2) \<Longrightarrow>
    cuse_lowlevel_main k a argv ci clop i st (Continues (if res = - 1 then 1 else 0), i2, se_thread s2)"
| cuse_single: "cuse_lowlevel_setup k argv ci clop i st = Some (False, Continues (Some s), i1, th) \<Longrightarrow>
    fuse_session_loop k (cuse_client clop) a s = Some (res, s1) \<Longrightarrow> cuse_lowlevel_teardown k clop i1 s1 = Some (i2, s2) \<Longrightarrow>
    cuse_lowlevel_main k a argv ci clop i st (Continues (if res = - 1 then 1 else 0), i2, se_thread s2)"

end
