(* ===== verification/Cuse_Props.thy ===== *)
theory Cuse_Props
  imports Cuse Ll_Init Ll_Calls
begin

text \<open>
  What the kernel learns of a character device: the answer to its INIT, read back, holds the numbers and
  the strings that \<open>cuse_lowlevel_new\<close> was given.
\<close>

section \<open>Packed strings\<close>

fun nul_split :: "string \<Rightarrow> bytes \<Rightarrow> string list" where
  \<comment> \<open>how the kernel takes the strings apart: each ends with a NUL\<close>
  "nul_split acc [] = []"
| "nul_split acc (x # xs) = (if x = 0 then rev acc # nul_split [] xs else nul_split (char_of (unat x) # acc) xs)"

lemma nul_split_string: "wf_cstr a \<Longrightarrow> nul_split acc (wire_str a @ xs) = (rev acc @ a) # nul_split [] xs"
  by (induction a arbitrary: acc) (auto simp: wire_str_def wf_cstr_def)

lemma pack_info: "cuse_pack_info argv = (length (concat (map wire_str argv)), concat (map wire_str argv))"
proof -
  have "fold (\<lambda>a (size, buf). (size + (length a + 1), buf @ map byte_of a @ [0])) argv (n, buf) =
      (n + length (concat (map wire_str argv)), buf @ concat (map wire_str argv))" for n and buf :: bytes
    by (induction argv arbitrary: n buf) (simp_all add: wire_str_def)
  from this[of 0 "[]"] show ?thesis by (simp add: cuse_pack_info_def)
qed

lemma split_packed: "\<forall>a\<in>set argv. wf_cstr a \<Longrightarrow> nul_split [] (snd (cuse_pack_info argv)) = argv"
  by (induction argv) (simp_all add: pack_info nul_split_string)

lemma prep_data:
  assumes "cuse_prep_data ci clop m = (Some cd, m')"
  shows "length (cd_dev_info cd) \<le> 4096" "cd_dev_info cd = snd (cuse_pack_info (ci_dev_info_argv ci))"
    "cd_dev_major cd = ci_dev_major ci" "cd_dev_minor cd = ci_dev_minor ci" "cd_flags cd = ci_flags ci"
    "cd_init_done cd = (cu_init_done clop \<noteq> None)"
  using assms by (auto simp: cuse_prep_data_def Let_def pack_info split: prod.splits if_splits)

section \<open>The answer to INIT\<close>

definition cuse_offer :: "32 word \<Rightarrow> 32 word \<Rightarrow> ('w, 'm) session_scheme \<Rightarrow> ('w, 'm) session_scheme" where
  \<comment> \<open>the session as the device's \<open>init\<close> finds it\<close>
  "cuse_offer major minor s =
     (let s = upd_conn (\<lambda>conn. conn\<lparr>cn_proto_major := major, cn_proto_minor := minor, cn_capable := 0, cn_want := 0\<rparr>) s
      in upd_conn (init_max_write (ll_bufsize (se_f s))) s)"

lemma cuse_init_offer:
  assumes "ll_cuse_data (se_f s) = Some cd" "u32 b 0 = Some major" "u32 b 4 = Some minor" "7 \<le> major"
  shows "cuse_lowlevel_init k cl r nodeid b s = do {
     s \<leftarrow> client_init cl (cuse_offer major minor s);
     (_, s) \<leftarrow> cuse_reply_init k r (cuse_init_out cd (cn_max_write (ll_conn (se_f s)))) (cd_dev_info cd) s;
     s \<leftarrow> (if cd_init_done cd then run_init_done cl s else Some s);
     fuse_free_req k r s
   }"
  using assms by (simp add: cuse_lowlevel_init_def cuse_offer_def Let_def leD)

text \<open>
  Property C28. INIT of a character device: with the data \<open>cuse_prep_data\<close> made of a device, the session answers the INIT
  of a kernel of version 7 with one message without error, not longer than the kernel accepts; the numbers and flags
  of the device are in their places, a write that is allowed fits the buffer with its header, and what follows, taken apart
  at its NULs, is the list of strings the device was described with.
\<close>

theorem cuse_init_describes_device:
  assumes cd: "cuse_prep_data ci clop m0 = (Some cd, m1)" and str: "\<forall>a\<in>set (ci_dev_info_argv ci). wf_cstr a"
    and s: "ll_cuse_data (se_f s) = Some cd"
    and b: "u32 b 0 = Some major" "u32 b 4 = Some minor" "7 \<le> major"
    and init: "client_init (cuse_client clop) (cuse_offer major minor s) = Some s1"
    and cr: "can_reply s1 r c req chan"
    and mw: "cn_max_write (ll_conn (se_f s1)) \<le> cn_max_write (ll_conn (se_f (cuse_offer major minor s)))"
    and init_done: "cu_init_done clop \<in> {None, Some Some}"
  shows "\<exists>msg m. cuse_lowlevel_init k (cuse_client clop) r nodeid b s = Some (freed r c (wrote k (ch_fd chan) msg s1)) \<and>
    parse_message msg = Some m \<and> m_error m = 0 \<and> m_unique m = rq_unique req \<and> length (m_body m) \<le> 72 + 4096 \<and>
    un_le (take 4 (drop 20 (m_body m))) + 4096 \<le> max (ll_bufsize (se_f s)) 8192 \<and>
    u32 (m_body m) 12 = Some (ci_flags ci) \<and> u32 (m_body m) 24 = Some (ci_dev_major ci) \<and>
    u32 (m_body m) 28 = Some (ci_dev_minor ci) \<and> nul_split [] (drop 72 (m_body m)) = ci_dev_info_argv ci"
proof -
  note D = prep_data[OF cd]
  define mx where "mx = cn_max_write (ll_conn (se_f s1))"
  define body where "body = cuse_init_out cd mx @ cd_dev_info cd"
  have len: "length body = 72 + length (cd_dev_info cd)" by (simp add: body_def cuse_init_out_def)
  then have small: "16 + length body < 2 ^ 32" using D(1) by simp
  let ?msg = "message_of req 0 body"
  have reply: "cuse_reply_init k r (cuse_init_out cd mx) (cd_dev_info cd) s1 =
      Some (write_result k (ch_fd chan) ?msg s1, wrote k (ch_fd chan) ?msg s1)"
    using reply_nofree_wrote[OF cr, of "[cuse_init_out cd mx, cd_dev_info cd]" k 0] small
    by (simp add: cuse_reply_init_def body_def)
  have "run_init_done (cuse_client clop) t = Some t" if "cd_init_done cd" for t
    using that init_done D(6) by (auto simp: cuse_client_def)
  then have run: "cuse_lowlevel_init k (cuse_client clop) r nodeid b s = Some (freed r c (wrote k (ch_fd chan) ?msg s1))"
    using cr by (simp add: cuse_init_offer[OF s b] init mx_def[symmetric] reply free_req_freed)
  have "take 4 (drop 20 body) = le 4 mx" by (simp add: body_def cuse_init_out_def)
  moreover have "unat mx + 4096 \<le> max (ll_bufsize (se_f s)) 8192"
    using mw max_write_bound[of "ll_bufsize (se_f s)" "(ll_conn (se_f s))\<lparr>cn_proto_major := major, cn_proto_minor := minor, cn_capable := 0, cn_want := 0\<rparr>"]
    by (simp add: mx_def cuse_offer_def upd_conn_def upd_ll_def word_le_nat_alt)
  moreover have "u32 body 12 = Some (ci_flags ci)" "u32 body 24 = Some (ci_dev_major ci)" "u32 body 28 = Some (ci_dev_minor ci)"
    using D(3-5) by (simp_all add: body_def cuse_init_out_def u32_def)
  moreover have "drop 72 body = cd_dev_info cd" by (simp add: body_def cuse_init_out_def)
  ultimately show ?thesis
    using run parse_message_of(1)[OF small, of req 0] split_packed[OF str] D(1,2) len
    by (intro exI[of _ ?msg]) (simp add: on_wire_def)
qed

definition null_info :: cuse_info where
  "null_info = \<lparr>ci_dev_major = 10, ci_dev_minor = 7, ci_dev_info_argv = [''DEVNAME=null0'', ''MODE=0666''], ci_flags = 1\<rparr>"

definition null_device :: "unit cuse_device" where
  "null_device = \<lparr>cu_ops = (\<lambda>_. False), cu_run = (\<lambda>r c s. Some s), cu_init = (\<lambda>conn s. Some (conn, s)), cu_init_done = None,
     cu_destroy = Some\<rparr>"

lemma cuse_init_describes_device_witness:
  "\<exists>cd s msg m. cuse_prep_data null_info null_device [] = (Some cd, []) \<and> ll_cuse_data (se_f s) = Some cd \<and>
    cuse_lowlevel_init device (cuse_client null_device) 7 0 init_body s = Some (freed 7 3 (wrote device 5 msg
      (upd_ll (\<lambda>f. f\<lparr>ll_got_init := True\<rparr>) (cuse_offer 7 23 s)))) \<and>
    parse_message msg = Some m \<and> nul_split [] (drop 72 (m_body m)) = [''DEVNAME=null0'', ''MODE=0666'']"
proof -
  obtain cd where cd: "cuse_prep_data null_info null_device [] = (Some cd, [])"
    by (simp add: cuse_prep_data_def pack_info null_info_def wire_str_def)
  let ?s = "upd_ll (\<lambda>f. f\<lparr>ll_cuse_data := Some cd\<rparr>) (waiting 0)"
  have str: "\<forall>a\<in>set (ci_dev_info_argv null_info). wf_cstr a" by (simp add: null_info_def wf_cstr_def NUL_def)
  have s: "ll_cuse_data (se_f ?s) = Some cd" by (simp add: upd_ll_def)
  have b: "take 4 init_body = le 4 (7 :: 32 word)" "take 4 (drop 4 init_body) = le 4 (23 :: 32 word)" "length init_body = 16"
    by (simp_all add: init_body_def)
  have u: "u32 init_body 0 = Some 7" "u32 init_body 4 = Some 23" "(7 :: 32 word) \<le> 7"
    unfolding u32_def using b by (simp_all del: take_append drop_append)
  let ?s1 = "upd_ll (\<lambda>f. f\<lparr>ll_got_init := True\<rparr>) (cuse_offer 7 23 ?s)"
  have cl: "client_init (cuse_client null_device) (cuse_offer 7 23 ?s) = Some ?s1"
    by (simp add: client_init_def Let_def cuse_offer_def upd_conn_def upd_ll_def waiting_def zero_ll_def)
  have cr: "can_reply ?s1 7 3 waiting_req waiting_chan"
    by (simp add: can_reply_def cuse_offer_def upd_conn_def upd_ll_def Let_def waiting_def waiting_req_def waiting_chan_def)
  have "ch_fd waiting_chan = 5" "ci_dev_info_argv null_info = [''DEVNAME=null0'', ''MODE=0666'']" "cu_init_done null_device = None"
    by (simp_all add: waiting_chan_def null_info_def null_device_def)
  moreover have "cn_max_write (ll_conn (se_f ?s1)) = cn_max_write (ll_conn (se_f (cuse_offer 7 23 ?s)))"
    unfolding upd_ll_def[of "\<lambda>f. f\<lparr>ll_got_init := True\<rparr>"] by simp
  ultimately obtain msg m where "cuse_lowlevel_init device (cuse_client null_device) 7 0 init_body ?s = Some (freed 7 3 (wrote device 5 msg ?s1))"
    "parse_message msg = Some m" "nul_split [] (drop 72 (m_body m)) = [''DEVNAME=null0'', ''MODE=0666'']"
    using cuse_init_describes_device[OF cd str s u cl cr, of device 0] by (auto simp del: upd_ll_def)
  then show ?thesis using cd s by (intro exI[of _ cd] exI[of _ ?s] exI[of _ msg] exI[of _ m]) simp
qed

end
