(* ===== verification/Spec2Isabelle.thy ===== *)
theory Spec2Isabelle
  imports Fuse_Opt Lock_States Nosqlfs_Props Fs_Ops_Props Dirents_Props Handlers_Props Ll_Init Workers_Props Fuse_New_Props Nosqlfs_Oper Cuse_Props
begin

text \<open>
  The nosqlFS repository is a copy of the library libfuse 3 (src/lib, src/include) and a small file system built on it
  (src/src): every operation is passed on to the underlying file system and written to a log. This
  development models both, from the bytes the kernel writes to /dev/fuse down to the system calls of the callbacks and back.
  Every theory opens with a text that says what it holds; this one says how they fit together.

  The program. \<open>main\<close> (src/src/nosqlFS.c) opens the log and calls \<open>fuse_main_real\<close> (src/lib/helper.c), which parses
  the command line, creates the library and its session (\<open>fuse_new\<close>, \<open>fuse_session_new\<close>), mounts, goes into the
  background, sets the signal handlers and enters a loop. The loop receives a request from the device
  (\<open>fuse_session_receive_buf_int\<close>) and processes it (\<open>fuse_session_process_buf_int\<close>): the function of its opcode (\<open>do_*\<close>,
  src/lib/fuse_lowlevel.c) reads the structure of the request and calls the client of the session. For a file
  system with paths the client is the table \<open>fuse_path_ops\<close>: the handlers \<open>fuse_lib_*\<close> of src/lib/fuse.c, which keep the tree of
  the nodes the kernel knows, lock the path of the request in it, call the file system through \<open>fuse_fs_*\<close>, change
  the tree and answer. The answer is one message to the device. For a character device the client is that of
  src/lib/cuse_lowlevel.c.

  The theories, from the bottom up, with the code they model.
  \<^item> \<open>Prelude\<close>: strings with their terminator, allocation, narrowing to \<open>int\<close>, lists. \<open>Posix\<close>: the system calls (\<open>syscall\<close>, \<open>reply\<close>,
    \<open>kernel\<close>), the process and the records of src/include/fuse_common.h, fuse.h and fuse_lowlevel.h.
  \<^item> \<open>Fuse_Opt\<close>: src/lib/fuse_opt.c.
  \<^item> \<open>Buffers\<close>, \<open>Buffers_Props\<close>: src/lib/buffer.c; memory is a map from addresses to bytes, so that buffers may overlap.
  \<^item> src/lib/fuse.c, the tree: \<open>File_Locks\<close> (record locks of a node), \<open>Node_Table\<close> (the two hash tables), \<open>Node_Slab\<close> (the allocator of nodes),
    \<open>Node_Tree\<close> (\<open>struct node\<close>, \<open>struct fuse\<close> and the invariant \<open>tree_ok\<close>), \<open>Node_Ops\<close> and \<open>Node_Refs\<close> (finding, renaming,
    exchanging, forgetting), \<open>Path_Lock\<close>, \<open>Path_Lock_Props\<close>, \<open>Lock_States\<close> (paths, their locks and the queue of requests that wait).
  \<^item> src/lib/fuse.c, the requests: \<open>Fs_Ops\<close>, \<open>Fs_Ops_Props\<close> (the wrappers \<open>fuse_fs_*\<close>), \<open>Requests\<close>, \<open>Handlers\<close>, \<open>Handlers_IO\<close>,
    \<open>Handlers_Frame\<close>, \<open>Handlers_Props\<close> (\<open>fuse_lib_*\<close>), \<open>Dirents\<close>, \<open>Dirents_Props\<close> (directories, with the structures of \<open>Wire\<close>).
  \<^item> src/lib/fuse.c, the rest: \<open>Fs_Modules\<close> (modules), \<open>Fuse_New\<close>, \<open>Fuse_New_Props\<close> (options, \<open>fuse_new\<close>, \<open>fuse_destroy\<close>, the loops).
  \<^item> src/lib/fuse_lowlevel.c and src/lib/fuse_i.h: \<open>Ll_State\<close> (session, requests, channels), \<open>Ll_Reply\<close> (answers), \<open>Ll_Dispatch\<close> (\<open>do_*\<close>), \<open>Ll_Session\<close> (INIT,
    notifications, receiving and processing), \<open>Ll_New\<close> (options, life of a session, src/lib/fuse_loop.c); \<open>Ll_Props\<close>, \<open>Ll_Calls\<close> and
    \<open>Ll_Init\<close> hold their theorems.
  \<^item> \<open>Workers\<close>, \<open>Workers_Props\<close>: src/lib/fuse_loop_mt.c as a state machine. \<open>Mount_Util\<close>, \<open>Mount\<close>: src/lib/mount_util.c and mount.c.
    \<open>Signals\<close>: src/lib/fuse_signals.c. \<open>Helper\<close>: src/lib/helper.c. \<open>Cuse\<close>, \<open>Cuse_Props\<close>: src/lib/cuse_lowlevel.c.
  \<^item> \<open>Nosqlfs\<close>, \<open>Nosqlfs_Props\<close>: src/src/nosqlFS.c and src/src/log.c. \<open>Serve\<close>, \<open>Served\<close>, \<open>Nosqlfs_Oper\<close>: the layers together.

  How state corresponds. A C structure is a record, with the fields of the code under a prefix: \<open>struct fuse\<close> is \<open>fuse\<close>, \<open>struct node\<close>
  is \<open>node\<close>, \<open>struct fuse_ll\<close> is \<open>fuse_ll\<close>, \<open>struct fuse_session\<close> is \<open>session\<close>, \<open>struct fuse_worker\<close> and \<open>struct fuse_mt\<close> are \<open>fuse_worker\<close> and
  \<open>fuse_mt\<close>. Nodes, requests, channels, poll handles and shared objects have addresses: the heap is a map from
  addresses, and a pointer that dangles is an address the map does not have. A function takes the state and returns it
  updated. The result \<open>None\<close> of a function always means that the code does not come back: an assertion
  fails, memory is read that is not there, or a loop does not end. An error of the code is a value as
  in the code, \<open>-errno\<close> or \<open>-1\<close>; \<open>Exited\<close> and \<open>Aborted\<close> are the ends of the process. Integers have their width where
  it matters: node ids, counts of lookups, hashes, flags and the fields of messages are words; the
  \<open>ssize_t\<close> of a transfer that the code keeps in an \<open>int\<close> is narrowed by \<open>to_int32\<close>.

  Parameters. The kernel is a function from a system call and a world to a reply and a world, with no assumption
  but those a theorem states (documented return values, a log that can be written). The callbacks of a file
  system are the fields of \<open>fuse_operations\<close>, which a theorem leaves open or instantiates with
  those of nosqlFS. Allocation is a script that says which calls succeed; when it has ended all do. What other
  threads do while a request waits for a path is a function on the tree (\<open>env\<close>); the factories of modules and the client of a
  session are parameters as well. No parameter has a law that is not written in the theorem that uses it, and each such
  theorem has a witness on concrete values.

  Interfaces. Two locales say what the tree relies on, each interpreted on the code's model: \<open>node_index\<close> (what a
  lookup in a table finds after an insertion or deletion, for both tables) and \<open>node_allocator\<close> (nodes handed out were free). The third,
  \<open>pass_through\<close>, says what the library may rely on in a callback that is one system call; nine callbacks of
  nosqlFS are its interpretations.

  What the theorems show.
  \<^item> Data structures: inserting and deleting keeps the tables and slabs consistent through every split,
    merge and failing allocation; record locks change on exactly the bytes of the request and conflict exactly when an owner excludes another; copying
    between buffers moves exactly the bytes, and with descriptors never claims more than there is.
  \<^item> The tree: each operation keeps \<open>tree_ok\<close> and changes \<open>namespace\<close>, the set of entries the kernel was told, as its name says, also when memory runs out; \<open>find_node\<close>
    counts each lookup once, \<open>forget_node\<close> deletes with the last one; new ids are fresh; destruction frees every node.
  \<^item> Path locks: an attempt takes exactly the locks of its path or none; unlocking restores every count; in every interleaving a
    writer excludes all others (a refinement of reader-writer locks), and every reachable state can be unlocked without a failing assertion.
  \<^item> Requests: mkdir and rmdir change exactly the entry, when the file system agreed, answer and release their locks; questions leave
    the tree alone; a directory is sent as entries that read back, without overrunning the buffer.
  \<^item> Messages: a request reaches the client as exactly the call it stands for; every answer is a message with the length, number and error the protocol
    prescribes, and frees its request; INIT stays within the limits and the capabilities of the kernel.
  \<^item> The pool of threads: its counters count, at most ten workers are idle, and requests other than forgets never occupy all of them.
  \<^item> The program: option strings are recovered from their escaped form; the parser returns; \<open>fuse_main_real\<close> balances what it
    acquires, and only the parent of the daemon leaves it; the callbacks of nosqlFS are their system calls; \<open>readdir\<close> hands over the whole directory and closes it; and
    \<open>nosqlFS_rmdir_served\<close> follows one request through all layers, from bytes to bytes.
  \<^item> Defects: some theorems state what the code does where it is not what it means to do (\<open>open_reports_only_EPERM\<close>, \<open>fuse_new_correct\<close>,
    \<open>signal_handlers_roundtrip\<close>, and the ignored flags of rename in \<open>callbacks_pass_through\<close>).

  Loops. Structural recursion or a measure, wherever the code's loop has one. \<open>opt_parse_loop\<close> has the number of
  arguments as its bound: every round consumes at least one, so that many are enough, and
  \<open>fuse_opt_parse_returns\<close> shows that the parser never stops short of its end. The loops that depend on the kernel, on a client or on the shape of the
  heap (\<open>receive_loop\<close>, \<open>session_rounds\<close>, \<open>readdir_loop\<close>, \<open>path_walk\<close>, \<open>unlock_walk\<close>, \<open>next_id\<close>, \<open>wait_loop\<close> and others) are partial
  functions with \<open>None\<close> for not returning; the theorems about them state that there is a result. Threads are interleaved
  steps: \<open>lock_step\<close> for requests on the tree, \<open>pool_step\<close> for the workers, where a step is what runs under one mutex or one call of the session.

  Not modelled: the texts of help, version and debugging; the signal that interrupts a thread inside a callback
  (\<open>fuse_interrupt\<close>) and the lookups of the running thread's context; parallel access to one session inside one call, which the mutexes exclude; what is
  compiled only for other systems or without splice; the modules subdir and iconv, whose sources are not in the repository; \<open>nosqlFS_utimens\<close>, which
  calls a function that does not exist; and src/src/db_manager.c, a separate experiment with a client library of a database.
\<close>

end
